(* ===== verification/Go_Base.thy ===== *)
theory Go_Base
  imports Main "HOL-Library.List_Lexorder" "HOL-Library.Char_ord" "HOL-Library.Sublist"
    "HOL-Library.AList"
begin

text \<open>
  The Go standard library functions the two services use on strings and lists of strings:
  \<open>strings.TrimSpace\<close>, \<open>ToLower\<close>, \<open>EqualFold\<close>, \<open>Split\<close>, \<open>Join\<close>, \<open>Contains\<close>,
  \<open>strconv.Itoa\<close>, \<open>fmt\<close>'s \<open>%q\<close>, and the "trim, skip empty, skip duplicates" loop that both
  services repeat.  A Go string is its list of bytes, a \<open>string\<close> here; the order of
  \<open>sort.Strings\<close> is the bytewise lexicographic one of \<open>List_Lexorder\<close>.  Case mapping is
  the ASCII one: bytes from 128 are left alone.
\<close>

named_theorems go_string \<open>facts about the string functions\<close>
named_theorems go_defs \<open>definitions a closed evaluation unfolds\<close>

section \<open>Time\<close>

text \<open>
  An instant is the number of nanoseconds since Go's zero time, so \<open>t.IsZero()\<close> is
  \<open>t = 0\<close>; \<open>UTC()\<close> changes the location of a \<open>time.Time\<close>, not the instant.
\<close>

type_synonym time = int
type_synonym duration = int

definition millisecond :: duration where "millisecond = 1000000"
definition second :: duration where "second = 1000 * millisecond"
definition minute :: duration where "minute = 60 * second"

declare millisecond_def [go_defs] second_def [go_defs] minute_def [go_defs]

section \<open>64-bit integers\<close>

text \<open>An \<open>int64\<close> result as it wraps.\<close>

definition wrap64 :: "int \<Rightarrow> int" where
  "wrap64 x = (x + 2 ^ 63) mod 2 ^ 64 - 2 ^ 63"

lemma wrap64_id: "- (2 ^ 63) \<le> x \<Longrightarrow> x < 2 ^ 63 \<Longrightarrow> wrap64 x = x"
  by (simp add: wrap64_def)

section \<open>Trimming white space\<close>

text \<open>
  \<open>strings.TrimSpace\<close> removes the runes of \<open>unicode.IsSpace\<close> at both ends: six ASCII
  characters and the UTF-8 encodings of U+0085, U+00A0, U+1680, U+2000 to U+200A, U+2028,
  U+2029, U+202F, U+205F and U+3000.
\<close>

definition space_runes :: "string list" where
  "space_runes =
     [[CHR 0x09], [CHR 0x0A], [CHR 0x0B], [CHR 0x0C], [CHR 0x0D], [CHR 0x20],
      [CHR 0xC2, CHR 0x85], [CHR 0xC2, CHR 0xA0], [CHR 0xE1, CHR 0x9A, CHR 0x80],
      [CHR 0xE2, CHR 0x80, CHR 0x80], [CHR 0xE2, CHR 0x80, CHR 0x81],
      [CHR 0xE2, CHR 0x80, CHR 0x82], [CHR 0xE2, CHR 0x80, CHR 0x83],
      [CHR 0xE2, CHR 0x80, CHR 0x84], [CHR 0xE2, CHR 0x80, CHR 0x85],
      [CHR 0xE2, CHR 0x80, CHR 0x86], [CHR 0xE2, CHR 0x80, CHR 0x87],
      [CHR 0xE2, CHR 0x80, CHR 0x88], [CHR 0xE2, CHR 0x80, CHR 0x89],
      [CHR 0xE2, CHR 0x80, CHR 0x8A], [CHR 0xE2, CHR 0x80, CHR 0xA8],
      [CHR 0xE2, CHR 0x80, CHR 0xA9], [CHR 0xE2, CHR 0x80, CHR 0xAF],
      [CHR 0xE2, CHR 0x81, CHR 0x9F], [CHR 0xE3, CHR 0x80, CHR 0x80]]"

function strip :: "string list \<Rightarrow> string \<Rightarrow> string" where
  "strip ws s =
     (case find (\<lambda>w. w \<noteq> [] \<and> prefix w s) ws of
        None \<Rightarrow> s
      | Some w \<Rightarrow> strip ws (drop (length w) s))"
  by pat_completeness auto
termination
proof (relation "measure (\<lambda>(ws, s). length s)")
  fix ws s w
  assume "find (\<lambda>w. w \<noteq> [] \<and> prefix w s) ws = Some w"
  then have "w \<noteq> []" and "prefix w s" by (auto simp: find_Some_iff)
  then show "((ws, drop (length w) s), ws, s) \<in> measure (\<lambda>(ws, s). length s)"
    by (cases w; cases s) auto
qed simp

declare strip.simps [simp del]

definition trim_left :: "string \<Rightarrow> string" where
  "trim_left s = strip space_runes s"

definition trim_right :: "string \<Rightarrow> string" where
  "trim_right s = rev (strip (map rev space_runes) (rev s))"

definition trim_space :: "string \<Rightarrow> string" where
  "trim_space s = trim_right (trim_left s)"

definition starts_with_any :: "string list \<Rightarrow> string \<Rightarrow> bool" where
  "starts_with_any ws s \<longleftrightarrow> (\<exists>w \<in> set ws. w \<noteq> [] \<and> prefix w s)"

lemma strip_stuck: "\<not> starts_with_any ws s \<Longrightarrow> strip ws s = s"
  by (subst strip.simps)
    (auto simp: starts_with_any_def find_None_iff find_Some_iff split: option.splits)

lemma strip_result: "\<not> starts_with_any ws (strip ws s)"
proof (induction ws s rule: strip.induct)
  case (1 ws s)
  then show ?case
    by (subst strip.simps)
      (auto simp: starts_with_any_def find_None_iff find_Some_iff split: option.splits)
qed

lemma strip_idem [simp]: "strip ws (strip ws s) = strip ws s"
  by (rule strip_stuck) (rule strip_result)

lemma strip_suffix: "suffix (strip ws s) s"
proof (induction ws s rule: strip.induct)
  case (1 ws s)
  then show ?case
    by (subst strip.simps) (auto split: option.splits intro: suffix_order.trans suffix_drop)
qed

lemma trim_right_prefix: "prefix (trim_right s) s"
  using strip_suffix [of "map rev space_runes" "rev s"]
  by (simp add: trim_right_def suffix_to_prefix)

lemma starts_with_any_prefix:
  "starts_with_any ws r \<Longrightarrow> prefix r s \<Longrightarrow> starts_with_any ws s"
  by (auto simp: starts_with_any_def intro: prefix_order.trans)

lemma trim_space_idem [simp]: "trim_space (trim_space s) = trim_space s"
proof -
  have "\<not> starts_with_any space_runes (trim_right (trim_left s))"
    using starts_with_any_prefix [OF _ trim_right_prefix] strip_result
    by (auto simp: trim_left_def)
  then have "trim_left (trim_space s) = trim_space s"
    by (simp add: trim_left_def trim_space_def strip_stuck)
  then show ?thesis
    by (simp add: trim_space_def trim_right_def)
qed

lemma strip_Nil [simp]: "strip ws [] = []"
  by (rule strip_stuck) (auto simp: starts_with_any_def)

lemma trim_space_Nil [simp]: "trim_space [] = []"
  by (simp add: trim_space_def trim_left_def trim_right_def)

text \<open>
  A string whose first and last bytes are printable ASCII is its own trimming: the case of
  every constant of the program.
\<close>

definition plain_char :: "char \<Rightarrow> bool" where
  "plain_char c \<longleftrightarrow> (let n = (of_char c :: nat) in 32 < n \<and> n < 127)"

definition plain_ends :: "string \<Rightarrow> bool" where
  "plain_ends s \<longleftrightarrow> s = [] \<or> (plain_char (hd s) \<and> plain_char (last s))"

lemma space_runes_no_plain:
  "w \<in> set space_runes \<Longrightarrow> w \<noteq> [] \<and> \<not> plain_char (hd w) \<and> \<not> plain_char (last w)"
  by (auto simp: space_runes_def plain_char_def)

lemma not_starts_plain:
  "s = [] \<or> plain_char (hd s) \<Longrightarrow> \<not> starts_with_any space_runes s"
  by (auto simp: starts_with_any_def prefix_def hd_append dest!: space_runes_no_plain)

lemma not_starts_plain_rev:
  "s = [] \<or> plain_char (last s) \<Longrightarrow> \<not> starts_with_any (map rev space_runes) (rev s)"
  by (auto simp: starts_with_any_def suffix_to_prefix [symmetric] suffix_def
      dest!: space_runes_no_plain)

lemma trim_space_plain: "plain_ends s \<Longrightarrow> trim_space s = s"
  by (auto simp: plain_ends_def trim_space_def trim_left_def trim_right_def strip_stuck
      not_starts_plain not_starts_plain_rev)

lemma trim_space_fixed_iff:
  "trim_space s = s \<longleftrightarrow>
   \<not> starts_with_any space_runes s \<and> \<not> starts_with_any (map rev space_runes) (rev s)"
proof
  assume eq: "trim_space s = s"
  have "prefix s (trim_left s)" "suffix (trim_left s) s"
    using trim_right_prefix [of "trim_left s"] strip_suffix [of space_runes s] eq
    by (simp_all add: trim_space_def trim_left_def)
  then have l: "trim_left s = s"
    by (metis prefix_length_le suffix_length_le suffix_def append_self_conv2 le_antisym
        length_append length_0_conv add_cancel_right_left)
  with eq have "trim_right s = s" by (simp add: trim_space_def)
  with l show "\<not> starts_with_any space_runes s
      \<and> \<not> starts_with_any (map rev space_runes) (rev s)"
    by (metis strip_result trim_left_def trim_right_def rev_rev_ident)
next
  assume "\<not> starts_with_any space_runes s \<and> \<not> starts_with_any (map rev space_runes) (rev s)"
  then show "trim_space s = s"
    by (simp add: trim_space_def trim_left_def trim_right_def strip_stuck)
qed


text \<open>Trimming only removes white space: a printable byte survives.\<close>

lemma strip_keeps: "c \<in> set s \<Longrightarrow> \<forall>w \<in> set ws. c \<notin> set w \<Longrightarrow> c \<in> set (strip ws s)"
proof (induction ws s rule: strip.induct)
  case (1 ws s)
  show ?case
  proof (cases "find (\<lambda>w. w \<noteq> [] \<and> prefix w s) ws")
    case None
    with "1.prems" show ?thesis by (subst strip.simps) simp
  next
    case (Some w)
    then have w: "prefix w s" "w \<in> set ws" by (auto simp: find_Some_iff)
    then have "c \<notin> set w" using "1.prems"(2) by blast
    with "1.prems"(1) w(1) have "c \<in> set (drop (length w) s)" by (auto simp: prefix_def)
    with 1 Some show ?thesis by (subst strip.simps) simp
  qed
qed

lemma space_runes_chars: "w \<in> set space_runes \<Longrightarrow> c \<in> set w \<Longrightarrow> \<not> plain_char c"
  by (auto simp: space_runes_def plain_char_def)

lemma trim_space_keeps: "c \<in> set s \<Longrightarrow> plain_char c \<Longrightarrow> c \<in> set (trim_space s)"
  unfolding trim_space_def trim_right_def trim_left_def
  by (simp, rule strip_keeps, simp, rule strip_keeps)
    (auto dest: space_runes_chars)

section \<open>Case, substrings, splitting and joining\<close>

definition lower_char :: "char \<Rightarrow> char" where
  "lower_char c =
     (let n = (of_char c :: nat) in if 65 \<le> n \<and> n \<le> 90 then char_of (n + 32) else c)"

definition to_lower :: "string \<Rightarrow> string" where
  "to_lower s = map lower_char s"

definition equal_fold :: "string \<Rightarrow> string \<Rightarrow> bool" where
  "equal_fold a b \<longleftrightarrow> to_lower a = to_lower b"

definition str_contains :: "string \<Rightarrow> string \<Rightarrow> bool" where
  "str_contains s sub \<longleftrightarrow> list_ex (prefix sub) (suffixes s)"

fun split_on :: "char \<Rightarrow> string \<Rightarrow> string list" where
  "split_on c [] = [[]]"
| "split_on c (x # xs) =
     (if x = c then [] # split_on c xs
      else (case split_on c xs of [] \<Rightarrow> [[x]] | p # ps \<Rightarrow> (x # p) # ps))"

fun join :: "string \<Rightarrow> string list \<Rightarrow> string" where
  "join sep [] = []"
| "join sep [x] = x"
| "join sep (x # y # ys) = x @ sep @ join sep (y # ys)"

definition trim_suffix :: "string \<Rightarrow> string \<Rightarrow> string" where
  "trim_suffix s suf = (if suffix suf s then take (length s - length suf) s else s)"

lemma lower_char_idem [simp]: "lower_char (lower_char c) = lower_char c"
proof -
  have "(of_char c :: nat) < 256" by (rule nat_of_char_less_256)
  then show ?thesis by (auto simp: lower_char_def Let_def)
qed

lemma to_lower_idem [simp]: "to_lower (to_lower s) = to_lower s"
  by (simp add: to_lower_def)

lemma equal_fold_refl [simp]: "equal_fold s s"
  by (simp add: equal_fold_def)

lemma equal_fold_sym: "equal_fold a b \<longleftrightarrow> equal_fold b a"
  by (auto simp: equal_fold_def)

lemma equal_fold_trans: "equal_fold a b \<Longrightarrow> equal_fold b c \<Longrightarrow> equal_fold a c"
  by (simp add: equal_fold_def)

lemma str_contains_sublist: "str_contains s sub \<longleftrightarrow> sublist sub s"
  by (auto simp: str_contains_def list_ex_iff sublist_altdef')

lemma split_on_nonempty [simp]: "split_on c s \<noteq> []"
  by (induction s) (auto split: list.splits)

text \<open>\<open>strings.Join(strings.Split(s, c), c)\<close> is \<open>s\<close>.\<close>

lemma join_Cons: "xs \<noteq> [] \<Longrightarrow> join sep (x # xs) = x @ sep @ join sep xs"
  by (cases xs) auto

lemma join_head: "join sep ((c # p) # ps) = c # join sep (p # ps)"
  by (cases ps) auto

lemma join_split_on: "join [c] (split_on c s) = s"
proof (induction s)
  case Nil
  then show ?case by simp
next
  case (Cons x xs)
  then show ?case
    by (cases "split_on c xs") (auto simp: join_Cons join_head)
qed

lemma split_on_no_sep: "p \<in> set (split_on c s) \<Longrightarrow> c \<notin> set p"
  by (induction s arbitrary: p) (fastforce split: list.splits if_splits)+

section \<open>Numbers and quoting\<close>

definition digit_char :: "nat \<Rightarrow> char" where
  "digit_char d = char_of (48 + d)"

fun nat_digits :: "nat \<Rightarrow> string" where
  "nat_digits n =
     (if n < 10 then [digit_char n] else nat_digits (n div 10) @ [digit_char (n mod 10)])"

declare nat_digits.simps [simp del]

definition itoa :: "int \<Rightarrow> string" where
  "itoa i = (if i < 0 then CHR ''-'' # nat_digits (nat (- i)) else nat_digits (nat i))"

definition hex_digit :: "nat \<Rightarrow> char" where
  "hex_digit d = (if d < 10 then char_of (48 + d) else char_of (87 + d))"

definition quote_char :: "char \<Rightarrow> string" where
  "quote_char c =
     (let n = (of_char c :: nat) in
      if c = CHR 0x22 \<or> c = CHR 0x5C then [CHR 0x5C, c]
      else if n = 7 then [CHR 0x5C, CHR ''a'']
      else if n = 8 then [CHR 0x5C, CHR ''b'']
      else if n = 9 then [CHR 0x5C, CHR ''t'']
      else if n = 10 then [CHR 0x5C, CHR ''n'']
      else if n = 11 then [CHR 0x5C, CHR ''v'']
      else if n = 12 then [CHR 0x5C, CHR ''f'']
      else if n = 13 then [CHR 0x5C, CHR ''r'']
      else if n < 32 \<or> n = 127
        then [CHR 0x5C, CHR ''x'', hex_digit (n div 16), hex_digit (n mod 16)]
      else [c])"

definition go_quote :: "string \<Rightarrow> string" where
  "go_quote s = CHR 0x22 # concat (map quote_char s) @ [CHR 0x22]"

section \<open>Trim, skip empty, skip duplicates\<close>

text \<open>
  The loop \<open>for _, x := range xs { t := TrimSpace(x); if t == "" || seen[t] { continue };
  seen[t] = {}; out = append(out, t) }\<close>, with the keys of the \<open>seen\<close> map as a list.
\<close>

fun uniq_trim :: "string list \<Rightarrow> string list \<Rightarrow> string list" where
  "uniq_trim seen [] = []"
| "uniq_trim seen (x # xs) =
     (let t = trim_space x in
      if t = [] then uniq_trim seen xs
      else if t \<in> set seen then uniq_trim seen xs
      else t # uniq_trim (t # seen) xs)"

definition nonblank :: "string list \<Rightarrow> string set" where
  "nonblank xs = trim_space ` set xs - {[]}"

lemma nonblank_simps [simp]:
  "nonblank [] = {}"
  "nonblank (x # xs) = (if trim_space x = [] then nonblank xs
     else insert (trim_space x) (nonblank xs))"
  by (auto simp: nonblank_def)

lemma finite_nonblank [simp]: "finite (nonblank xs)"
  by (simp add: nonblank_def)

lemma set_uniq_trim: "set (uniq_trim seen xs) = nonblank xs - set seen"
  by (induction seen xs rule: uniq_trim.induct) (auto simp: Let_def)

lemma set_uniq_trim_Nil [simp]: "set (uniq_trim [] xs) = nonblank xs"
  by (simp add: set_uniq_trim)

lemma distinct_uniq_trim [simp]: "distinct (uniq_trim seen xs)"
  by (induction seen xs rule: uniq_trim.induct) (auto simp: Let_def set_uniq_trim)

lemma nonblank_trimmed: "t \<in> nonblank xs \<Longrightarrow> t \<noteq> [] \<and> trim_space t = t"
  by (auto simp: nonblank_def)

lemma uniq_trim_fixed:
  assumes "distinct xs" and "\<And>x. x \<in> set xs \<Longrightarrow> x \<noteq> [] \<and> trim_space x = x"
    and "\<forall>x \<in> set xs. x \<notin> set seen"
  shows "uniq_trim seen xs = xs"
  using assms
proof (induction xs arbitrary: seen)
  case (Cons x xs)
  then have "uniq_trim (x # seen) xs = xs" by (intro Cons.IH) auto
  with Cons.prems show ?case by (simp add: Let_def)
qed simp

lemma uniq_trim_idem [simp]: "uniq_trim [] (uniq_trim [] xs) = uniq_trim [] xs"
  by (rule uniq_trim_fixed) (auto dest: nonblank_trimmed)

lemma length_uniq_trim: "length (uniq_trim [] xs) = card (nonblank xs)"
  using distinct_card [OF distinct_uniq_trim [of "[]" xs]] by simp

text \<open>\<open>trimStringList\<close>: trim every element and drop the empty ones.\<close>

definition trim_list :: "string list \<Rightarrow> string list" where
  "trim_list xs = filter (\<lambda>t. t \<noteq> []) (map trim_space xs)"

lemma set_trim_list [simp]: "set (trim_list xs) = nonblank xs"
  by (auto simp: trim_list_def nonblank_def)

lemma uniq_trim_trim_list: "uniq_trim seen (trim_list xs) = uniq_trim seen xs"
  by (induction seen xs rule: uniq_trim.induct) (auto simp: trim_list_def Let_def)

section \<open>Go maps built from lists\<close>

text \<open>
  A \<open>map[string]T\<close> filled by a loop is an association list updated with
  \<open>AList.update\<close>; its keys, collected and sorted, are \<open>sorted_keys\<close>.
\<close>

definition sorted_keys :: "(string \<times> 'a) list \<Rightarrow> string list" where
  "sorted_keys m = sort (map fst m)"

definition map_from :: "('b \<Rightarrow> (string \<times> 'a) option) \<Rightarrow> 'b list \<Rightarrow> (string \<times> 'a) list" where
  "map_from f xs =
     fold (\<lambda>x m. case f x of None \<Rightarrow> m | Some (k, v) \<Rightarrow> AList.update k v m) xs []"

lemma fold_update_map_of:
  "map_of (fold (\<lambda>x m. case f x of None \<Rightarrow> m | Some (k, v) \<Rightarrow> AList.update k v m) xs m0) k =
     (case find (\<lambda>x. \<exists>v. f x = Some (k, v)) (rev xs) of
        None \<Rightarrow> map_of m0 k
      | Some x \<Rightarrow> map_option snd (f x))"
proof (induction xs rule: rev_induct)
  case (snoc x xs)
  then show ?case
    by (auto simp: update_conv' split: option.splits)
qed simp

lemma distinct_fold_update:
  "distinct (map fst m0) \<Longrightarrow>
   distinct (map fst (fold (\<lambda>x m. case f x of None \<Rightarrow> m | Some (k, v) \<Rightarrow> AList.update k v m) xs m0))"
proof (induction xs arbitrary: m0)
  case (Cons x xs)
  then show ?case
    by (auto split: option.splits simp: distinct_update)
qed simp

lemma keys_fold_update:
  "fst ` set (fold (\<lambda>x m. case f x of None \<Rightarrow> m | Some (k, v) \<Rightarrow> AList.update k v m) xs m0) =
   fst ` set m0 \<union> {k. \<exists>x \<in> set xs. \<exists>v. f x = Some (k, v)}"
proof (induction xs arbitrary: m0)
  case (Cons x xs)
  then show ?case
    by (auto split: option.splits simp: dom_update [unfolded dom_map_of_conv_image_fst])
qed simp

lemma distinct_map_from [simp]: "distinct (map fst (map_from f xs))"
  unfolding map_from_def by (rule distinct_fold_update) simp

lemma keys_map_from: "fst ` set (map_from f xs) = {k. \<exists>x \<in> set xs. \<exists>v. f x = Some (k, v)}"
  unfolding map_from_def by (simp add: keys_fold_update)

lemma map_of_map_from:
  "map_of (map_from f xs) k =
     (case find (\<lambda>x. \<exists>v. f x = Some (k, v)) (rev xs) of
        None \<Rightarrow> None | Some x \<Rightarrow> map_option snd (f x))"
  unfolding map_from_def by (simp add: fold_update_map_of split: option.split)

lemma map_of_map_from_NoneD: "map_of (map_from f xs) k = None \<Longrightarrow> x \<in> set xs \<Longrightarrow> f x \<noteq> Some (k, v)"
  by (metis (mono_tags, lifting) image_eqI keys_map_from map_of_eq_None_iff mem_Collect_eq)

lemma map_of_map_from_SomeD:
  "map_of (map_from f xs) k = Some v \<Longrightarrow> \<exists>x \<in> set xs. f x = Some (k, v)"
  by (auto simp: map_of_map_from find_Some_iff split: option.splits)
    (metis nth_mem length_rev set_rev)

lemma sorted_sorted_keys [simp]: "sorted (sorted_keys m)"
  by (simp add: sorted_keys_def)

lemma set_sorted_keys [simp]: "set (sorted_keys m) = fst ` set m"
  by (simp add: sorted_keys_def)

lemma distinct_sorted_keys: "distinct (map fst m) \<Longrightarrow> distinct (sorted_keys m)"
  by (simp add: sorted_keys_def)

text \<open>
  The reconciliation code of both services reads such a map back in the order of its sorted
  keys: \<open>for _, key := range keys { result = append(result, m[key]) }\<close>.
\<close>

definition sorted_values :: "(string \<times> 'a) list \<Rightarrow> 'a list" where
  "sorted_values m = map (\<lambda>k. the (map_of m k)) (sorted_keys m)"

lemma sorted_values_keys:
  assumes "\<And>k v. map_of m k = Some v \<Longrightarrow> key v = k"
  shows "map key (sorted_values m) = sorted_keys m"
proof -
  have "key (the (map_of m k)) = k" if "k \<in> set (sorted_keys m)" for k
    using that assms [of k] by (cases "map_of m k") (auto simp: map_of_eq_None_iff)
  then have "map (\<lambda>k. key (the (map_of m k))) (sorted_keys m) = sorted_keys m"
    by (intro map_idI)
  then show ?thesis by (simp add: sorted_values_def comp_def)
qed

lemma set_sorted_values: "set (sorted_values m) = {v. \<exists>k. map_of m k = Some v}"
proof -
  have "fst ` set m = dom (map_of m)" by (simp add: dom_map_of_conv_image_fst)
  then have "set (sorted_values m) = (\<lambda>k. the (map_of m k)) ` dom (map_of m)"
    by (simp add: sorted_values_def)
  also have "\<dots> = {v. \<exists>k. map_of m k = Some v}" by force
  finally show ?thesis .
qed

lemma find_unique:
  "v \<in> set xs \<Longrightarrow> P v \<Longrightarrow> (\<And>w. w \<in> set xs \<Longrightarrow> P w \<Longrightarrow> w = v) \<Longrightarrow> find P xs = Some v"
proof (induction xs)
  case (Cons x xs)
  note v = Cons.prems(1,2) and uniq = Cons.prems(3)
  show ?case
  proof (cases "P x")
    case True
    have "x = v" by (rule uniq) (use True in simp_all)
    then show ?thesis using True by (simp only: find.simps if_True)
  next
    case False
    then have "v \<in> set xs" using v by (metis set_ConsD)
    then have "find P xs = Some v"
      by (rule Cons.IH [OF _ v(2)]) (rule uniq, simp_all)
    then show ?thesis using False by (simp only: find.simps if_False)
  qed
qed simp

lemma find_sorted_values:
  assumes "\<And>k v. map_of m k = Some v \<Longrightarrow> key v = k"
  shows "find (\<lambda>v. key v = k) (sorted_values m) = map_of m k"
proof (cases "map_of m k")
  case None
  then show ?thesis
    using assms by (auto simp: find_None_iff set_sorted_values)
next
  case (Some v)
  then have "v \<in> set (sorted_values m)" "key v = k"
    using assms by (auto simp: set_sorted_values)
  moreover have "w = v" if "w \<in> set (sorted_values m)" "key w = k" for w
    using that assms Some by (auto simp: set_sorted_values)
  ultimately have "find (\<lambda>v. key v = k) (sorted_values m) = Some v"
    by (intro find_unique)
  with Some show ?thesis by simp
qed

lemma sorted_values_fixed:
  assumes f: "\<And>x. x \<in> set xs \<Longrightarrow> f x = Some (key x, x)"
    and d: "distinct (map key xs)" "sorted (map key xs)"
  shows "sorted_values (map_from f xs) = xs"
proof -
  have k: "sorted_keys (map_from f xs) = map key xs"
    by (rule sorted_distinct_set_unique)
      (use f d in \<open>auto simp: keys_map_from distinct_sorted_keys image_iff\<close>)
  have "the (map_of (map_from f xs) (key x)) = x" if "x \<in> set xs" for x
  proof (cases "map_of (map_from f xs) (key x)")
    case None
    with map_of_map_from_NoneD [OF None that, of x] f [OF that] show ?thesis by simp
  next
    case (Some y)
    with map_of_map_from_SomeD [OF Some] f d(1) that show ?thesis
      by (metis distinct_map inj_onD option.sel prod.inject option.inject)
  qed
  then have "map (\<lambda>x. the (map_of (map_from f xs) (key x))) xs = xs" by (intro map_idI) simp
  then show ?thesis by (simp add: sorted_values_def k comp_def)
qed

end
