(* ===== verification/Go_Errors.thy ===== *)
theory Go_Errors
  imports Go_Base
begin

text \<open>
  Go error values as a datatype: the package-level sentinels, text-only errors, errors that
  wrap another one (\<open>fmt.Errorf\<close> with \<open>%w\<close>, \<open>RetryableError\<close>, network errors), and the two
  error structs with a status code.  \<open>errors.Is\<close> and \<open>errors.As\<close> walk the unwrap chain.
  Below it, \<open>context.Context\<close>: a context is the instant at which it becomes done (if it
  ever does) and the error it then reports; a \<open>world\<close> carries the clock and the runtime's
  choice when both branches of a \<open>select\<close> are ready.
\<close>

section \<open>Error values\<close>

datatype sentinel =
    Canceled | DeadlineExceeded
  | ErrRunnerNotStarted | ErrNoTargetNodes | ErrTransitionNotFound | ErrQueueClosed
  | ErrUnsupportedOperation | ErrVerificationTimeout
  | ErrNotFound | ErrNoRows
  | ErrUnsupportedPowerState
  | ErrGroupNotFound | ErrTransitionSubsystemUnavailable | ErrGroupResolverUnavailable
  | ErrInitialMappingSyncPending
  | ErrSessionTokenMissing | ErrBearerTokenMissing | ErrBearerTokenInvalid
  | ErrResourceNotFound | ErrResourceConflict

datatype go_error =
    Sentinel sentinel
  | ErrText string
  | Wrap string go_error string
  | RetryableErr "go_error option"
  | NetErr string bool "go_error option"
  | ToolErr int string
  | APIErr string int string string

fun sentinel_text :: "sentinel \<Rightarrow> string" where
  "sentinel_text Canceled = ''context canceled''"
| "sentinel_text DeadlineExceeded = ''context deadline exceeded''"
| "sentinel_text ErrRunnerNotStarted = ''runner not started''"
| "sentinel_text ErrNoTargetNodes = ''at least one node is required''"
| "sentinel_text ErrTransitionNotFound = ''transition not found''"
| "sentinel_text ErrQueueClosed = ''engine queue closed''"
| "sentinel_text ErrUnsupportedOperation = ''unsupported operation''"
| "sentinel_text ErrVerificationTimeout = ''verification timed out''"
| "sentinel_text ErrNotFound = ''not found''"
| "sentinel_text ErrNoRows = ''sql: no rows in result set''"
| "sentinel_text ErrUnsupportedPowerState = ''unsupported power state''"
| "sentinel_text ErrGroupNotFound = ''group not found''"
| "sentinel_text ErrTransitionSubsystemUnavailable = ''transition subsystem is not configured''"
| "sentinel_text ErrGroupResolverUnavailable = ''group resolver is not configured''"
| "sentinel_text ErrInitialMappingSyncPending = ''initial mapping sync has not completed''"
| "sentinel_text ErrSessionTokenMissing = ''mcp session token is not configured''"
| "sentinel_text ErrBearerTokenMissing = ''missing or malformed Authorization bearer token''"
| "sentinel_text ErrBearerTokenInvalid = ''invalid bearer token for MCP session''"
| "sentinel_text ErrResourceNotFound = ''resource not found''"
| "sentinel_text ErrResourceConflict = ''resource conflict''"

text \<open>
  \<open>Wrap pre e post\<close> is \<open>fmt.Errorf("pre%wpost", e)\<close>.  \<open>RetryableErr None\<close> is a
  \<open>RetryableError\<close> whose \<open>Err\<close> is nil.  \<open>APIErr msg status detail title\<close> is the error of the
  shared HTTP client: its text comes from that library, the code reads the other fields.
\<close>

fun err_msg :: "go_error \<Rightarrow> string" where
  "err_msg (Sentinel s) = sentinel_text s"
| "err_msg (ErrText t) = t"
| "err_msg (Wrap pre e post) = pre @ err_msg e @ post"
| "err_msg (RetryableErr None) = ''retryable error''"
| "err_msg (RetryableErr (Some e)) = err_msg e"
| "err_msg (NetErr t _ _) = t"
| "err_msg (ToolErr _ t) = trim_space t"
| "err_msg (APIErr msg _ _ _) = msg"

fun unwrap :: "go_error \<Rightarrow> go_error option" where
  "unwrap (Wrap _ e _) = Some e"
| "unwrap (RetryableErr e) = e"
| "unwrap (NetErr _ _ e) = e"
| "unwrap _ = None"

fun err_chain :: "go_error \<Rightarrow> go_error list" where
  "err_chain (Wrap pre e post) = Wrap pre e post # err_chain e"
| "err_chain (RetryableErr (Some e)) = RetryableErr (Some e) # err_chain e"
| "err_chain (NetErr t b (Some e)) = NetErr t b (Some e) # err_chain e"
| "err_chain e = [e]"

text \<open>The first API error of the chain, as \<open>errors.As\<close> finds it.\<close>

fun api_fields :: "go_error \<Rightarrow> (int \<times> string \<times> string) option" where
  "api_fields (APIErr _ status detail title) = Some (status, detail, title)"
| "api_fields _ = None"

definition as_api :: "go_error \<Rightarrow> (int \<times> string \<times> string) option" where
  "as_api err =
     (case List.map_filter api_fields (err_chain err) of [] \<Rightarrow> None | a # _ \<Rightarrow> Some a)"

definition errors_is :: "go_error \<Rightarrow> sentinel \<Rightarrow> bool" where
  "errors_is e s \<longleftrightarrow> Sentinel s \<in> set (err_chain e)"

fun is_retryable_struct :: "go_error \<Rightarrow> bool" where
  "is_retryable_struct (RetryableErr _) = True"
| "is_retryable_struct _ = False"

text \<open>
  \<open>net.Error\<close> is an interface: network errors implement it, and so does
  \<open>context.DeadlineExceeded\<close>, whose \<open>Timeout()\<close> is true.
\<close>

fun net_timeout :: "go_error \<Rightarrow> bool option" where
  "net_timeout (NetErr _ b _) = Some b"
| "net_timeout (Sentinel DeadlineExceeded) = Some True"
| "net_timeout _ = None"

definition errors_as_net :: "go_error \<Rightarrow> bool option" where
  "errors_as_net e =
     (case find (\<lambda>x. net_timeout x \<noteq> None) (err_chain e) of
        None \<Rightarrow> None | Some x \<Rightarrow> net_timeout x)"

lemma err_chain_head: "\<exists>r. err_chain e = e # r"
  by (cases e rule: err_chain.cases) auto

lemma errors_is_simps [simp]:
  "errors_is (Sentinel s) t \<longleftrightarrow> s = t"
  "errors_is (ErrText x) t \<longleftrightarrow> False"
  "errors_is (Wrap pre e post) t \<longleftrightarrow> errors_is e t"
  "errors_is (RetryableErr None) t \<longleftrightarrow> False"
  "errors_is (RetryableErr (Some e)) t \<longleftrightarrow> errors_is e t"
  "errors_is (NetErr x b None) t \<longleftrightarrow> False"
  "errors_is (NetErr x b (Some e)) t \<longleftrightarrow> errors_is e t"
  "errors_is (ToolErr i x) t \<longleftrightarrow> False"
  "errors_is (APIErr m i x y) t \<longleftrightarrow> False"
  by (auto simp: errors_is_def)

definition is_ctx_error :: "go_error \<Rightarrow> bool" where
  "is_ctx_error e \<longleftrightarrow> errors_is e Canceled \<or> errors_is e DeadlineExceeded"

section \<open>Contexts and the clock\<close>

record ctx =
  ctx_done_at :: "time option"
  ctx_done_err :: sentinel

record world =
  clock :: time
  done_first :: "time \<Rightarrow> bool"

definition background :: ctx where
  "background = \<lparr>ctx_done_at = None, ctx_done_err = Canceled\<rparr>"

definition ctx_err :: "ctx \<Rightarrow> time \<Rightarrow> go_error option" where
  "ctx_err c t =
     (case ctx_done_at c of
        None \<Rightarrow> None
      | Some d \<Rightarrow> if d \<le> t then Some (Sentinel (ctx_done_err c)) else None)"

definition with_timeout :: "ctx \<Rightarrow> time \<Rightarrow> duration \<Rightarrow> ctx" where
  "with_timeout c now d =
     (case ctx_done_at c of
        None \<Rightarrow> \<lparr>ctx_done_at = Some (now + d), ctx_done_err = DeadlineExceeded\<rparr>
      | Some e \<Rightarrow>
          if e \<le> now + d then c
          else \<lparr>ctx_done_at = Some (now + d), ctx_done_err = DeadlineExceeded\<rparr>)"

text \<open>
  \<open>select { case <-ctx.Done(): return ctx.Err(); case <-timer.C: return nil }\<close> with a timer of
  duration \<open>d\<close>; when both channels become ready at the same instant the runtime picks one.
\<close>

definition select_timer ::
    "ctx \<Rightarrow> duration \<Rightarrow> 'x world_scheme \<Rightarrow> go_error option \<times> 'x world_scheme" where
  "select_timer c d w =
     (let fire = clock w + max 0 d in
      case ctx_done_at c of
        None \<Rightarrow> (None, w\<lparr>clock := fire\<rparr>)
      | Some e \<Rightarrow>
          (let e' = max (clock w) e in
           if e' < fire \<or> (e' = fire \<and> done_first w fire)
           then (Some (Sentinel (ctx_done_err c)), w\<lparr>clock := e'\<rparr>)
           else (None, w\<lparr>clock := fire\<rparr>)))"

lemma select_timer_clock:
  "select_timer c d w = (r, w') \<Longrightarrow> clock w \<le> clock w'"
  by (auto simp: select_timer_def Let_def split: option.splits if_splits)

lemma select_timer_fired:
  "select_timer c d w = (None, w') \<Longrightarrow>
   clock w' = clock w + max 0 d \<and> (\<forall>e. ctx_done_at c = Some e \<longrightarrow> clock w' \<le> max (clock w) e)"
  by (auto simp: select_timer_def Let_def split: option.splits if_splits)

lemma select_timer_within:
  assumes "select_timer c t w = (r, w')" "ctx_done_at c = Some d"
  shows "clock w' \<le> max (clock w) d" and "r = None \<Longrightarrow> 0 < t \<Longrightarrow> clock w' \<le> d"
  using assms by (auto simp: select_timer_def Let_def split: if_splits)

lemma select_timer_done:
  "select_timer c d w = (Some e, w') \<Longrightarrow>
   e = Sentinel (ctx_done_err c) \<and> ctx_err c (clock w') = Some e"
  by (auto simp: select_timer_def ctx_err_def Let_def split: option.splits if_splits)

lemma ctx_err_mono: "ctx_err c t = Some e \<Longrightarrow> t \<le> t' \<Longrightarrow> ctx_err c t' = Some e"
  by (auto simp: ctx_err_def split: option.splits if_splits)

lemma with_timeout_deadline: "\<exists>d. ctx_done_at (with_timeout c now w) = Some d \<and> d \<le> now + w"
  by (auto simp: with_timeout_def split: option.splits)

end
