(* ===== verification/Power_Model.thy ===== *)
theory Power_Model
  imports Go_Errors
begin

text \<open>
  The domain records of \<open>services/chamicore-power\<close>: \<open>internal/model/mapping.go\<close> (BMC endpoints,
  node links, resolved mappings and their actionable errors) and the execution records of
  \<open>internal/engine/runner.go\<close> (transitions, tasks, requests and their state names).
\<close>

section \<open>Mapping records (internal/model/mapping.go)\<close>

abbreviation MappingErrorCodeNotFound where "MappingErrorCodeNotFound \<equiv> ''mapping_not_found''"
abbreviation MappingErrorCodeEndpointMissing where
  "MappingErrorCodeEndpointMissing \<equiv> ''endpoint_missing''"
abbreviation MappingErrorCodeCredentialMissing where
  "MappingErrorCodeCredentialMissing \<equiv> ''credential_missing''"

record BMCEndpoint =
  be_BMCID :: string
  be_Endpoint :: string
  be_CredentialID :: string
  be_Source :: string
  be_InsecureSkipVerify :: bool
  be_LastSyncedAt :: time
  be_CreatedAt :: time
  be_UpdatedAt :: time

record NodeBMCLink =
  nl_NodeID :: string
  nl_BMCID :: string
  nl_Source :: string
  nl_LastSyncedAt :: time
  nl_CreatedAt :: time
  nl_UpdatedAt :: time

record MappingApplyCounts =
  EndpointsUpserted :: int
  EndpointsDeleted :: int
  LinksUpserted :: int
  LinksDeleted :: int

record NodePowerMapping =
  pm_NodeID :: string
  pm_BMCID :: string
  pm_Endpoint :: string
  pm_CredentialID :: string
  pm_InsecureSkipVerify :: bool

record NodeMappingError =
  me_Detail :: string
  me_NodeID :: string
  me_Code :: string

definition MissingNodeMappingError :: "string \<Rightarrow> NodeMappingError" where
  "MissingNodeMappingError nodeID =
     (let node = trim_space nodeID in
      \<lparr>me_Detail = ''node '' @ go_quote node @
          '' has no BMC mapping in local cache; run POST /power/v1/admin/mappings/sync (discovery is not auto-triggered)'',
       me_NodeID = node,
       me_Code = MappingErrorCodeNotFound\<rparr>)"

definition MissingEndpointError :: "string \<Rightarrow> string \<Rightarrow> NodeMappingError" where
  "MissingEndpointError nodeID bmcID =
     (let node = trim_space nodeID; bmc = trim_space bmcID in
      \<lparr>me_Detail = ''node '' @ go_quote node @ '' maps to BMC '' @ go_quote bmc @
          '' without a Redfish endpoint; run POST /power/v1/admin/mappings/sync or fix SMD interface data'',
       me_NodeID = node,
       me_Code = MappingErrorCodeEndpointMissing\<rparr>)"

definition MissingCredentialError :: "string \<Rightarrow> string \<Rightarrow> NodeMappingError" where
  "MissingCredentialError nodeID bmcID =
     (let node = trim_space nodeID; bmc = trim_space bmcID in
      \<lparr>me_Detail = ''node '' @ go_quote node @ '' maps to BMC '' @ go_quote bmc @
          '' without credential_id binding; configure a per-BMC credential then resync'',
       me_NodeID = node,
       me_Code = MappingErrorCodeCredentialMissing\<rparr>)"

lemma missing_error_node [simp]:
  "me_NodeID (MissingNodeMappingError n) = trim_space n"
  "me_NodeID (MissingEndpointError n b) = trim_space n"
  "me_NodeID (MissingCredentialError n b) = trim_space n"
  by (simp_all add: MissingNodeMappingError_def MissingEndpointError_def
      MissingCredentialError_def Let_def)

lemma missing_error_code [simp]:
  "me_Code (MissingNodeMappingError n) = MappingErrorCodeNotFound"
  "me_Code (MissingEndpointError n b) = MappingErrorCodeEndpointMissing"
  "me_Code (MissingCredentialError n b) = MappingErrorCodeCredentialMissing"
  by (simp_all add: MissingNodeMappingError_def MissingEndpointError_def
      MissingCredentialError_def Let_def)

section \<open>Execution records (internal/engine/runner.go)\<close>

abbreviation TransitionStatePending where "TransitionStatePending \<equiv> ''pending''"
abbreviation TransitionStateRunning where "TransitionStateRunning \<equiv> ''running''"
abbreviation TransitionStateCompleted where "TransitionStateCompleted \<equiv> ''completed''"
abbreviation TransitionStateFailed where "TransitionStateFailed \<equiv> ''failed''"
abbreviation TransitionStatePartial where "TransitionStatePartial \<equiv> ''partial''"
abbreviation TransitionStateCanceled where "TransitionStateCanceled \<equiv> ''canceled''"
abbreviation TransitionStatePlanned where "TransitionStatePlanned \<equiv> ''planned''"

abbreviation TaskStatePending where "TaskStatePending \<equiv> ''pending''"
abbreviation TaskStateRunning where "TaskStateRunning \<equiv> ''running''"
abbreviation TaskStateSucceeded where "TaskStateSucceeded \<equiv> ''succeeded''"
abbreviation TaskStateFailed where "TaskStateFailed \<equiv> ''failed''"
abbreviation TaskStateCanceled where "TaskStateCanceled \<equiv> ''canceled''"
abbreviation TaskStatePlanned where "TaskStatePlanned \<equiv> ''planned''"

lemma trim_state_names [simp]:
  "trim_space ''pending'' = ''pending''" "trim_space ''running'' = ''running''"
  "trim_space ''completed'' = ''completed''" "trim_space ''failed'' = ''failed''"
  "trim_space ''partial'' = ''partial''" "trim_space ''canceled'' = ''canceled''"
  "trim_space ''planned'' = ''planned''" "trim_space ''succeeded'' = ''succeeded''"
  by (simp_all add: trim_space_plain plain_ends_def plain_char_def)

record Transition =
  tr_ID :: string
  tr_RequestID :: string
  tr_Operation :: string
  tr_State :: string
  tr_RequestedBy :: string
  tr_DryRun :: bool
  tr_TargetCount :: int
  tr_SuccessCount :: int
  tr_FailureCount :: int
  tr_QueuedAt :: time
  tr_StartedAt :: "time option"
  tr_CompletedAt :: "time option"
  tr_CreatedAt :: time
  tr_UpdatedAt :: time

record Task =
  tk_ID :: string
  tk_TransitionID :: string
  tk_NodeID :: string
  tk_BMCID :: string
  tk_BMCEndpoint :: string
  tk_CredentialID :: string
  tk_Operation :: string
  tk_State :: string
  tk_DryRun :: bool
  tk_InsecureSkipVerify :: bool
  tk_AttemptCount :: int
  tk_FinalPowerState :: string
  tk_ErrorDetail :: string
  tk_QueuedAt :: time
  tk_StartedAt :: "time option"
  tk_CompletedAt :: "time option"
  tk_CreatedAt :: time
  tk_UpdatedAt :: time

record StartRequest =
  sr_RequestID :: string
  sr_RequestedBy :: string
  sr_Operation :: string
  sr_NodeIDs :: "string list"
  sr_DryRun :: bool

text \<open>
  \<open>redfish.ResetOperation\<close> is a string type of \<open>chamicore-lib\<close>, which is not in the repository.
  The six constants the services name are constructors here, any other value is \<open>OtherOp\<close>.
  The conversion to its string, \<open>string(op)\<close>, and \<open>redfish.ParseResetOperation\<close> are
  parameters of the definitions that use them.
\<close>

datatype reset_op =
    OpOn | OpForceOff | OpGracefulShutdown | OpGracefulRestart | OpForceRestart | OpNMI
  | OtherOp string

record ExecutionRequest =
  er_TransitionID :: string
  er_TaskID :: string
  er_NodeID :: string
  er_BMCID :: string
  er_Endpoint :: string
  er_CredentialID :: string
  er_InsecureSkipVerify :: bool
  er_Operation :: reset_op

end
