(* ===== verification/Power_Verify.thy ===== *)
theory Power_Verify
  imports Power_Model
begin

text \<open>
  \<open>internal/engine/verify.go\<close> and the placeholder backends of \<open>noop.go\<close>: the expected final
  power state of an operation and the polling loop that waits for it.  The loop's body is a
  read of the power state followed by a timed \<open>select\<close>; the loop is a partial function,
  \<open>None\<close> when it never returns, and \<open>Verify_terminates\<close> shows that it does return.
\<close>

section \<open>Verifier configuration\<close>

definition defaultVerificationWindow :: duration where
  "defaultVerificationWindow = 90 * second"

definition defaultVerificationPoll :: duration where
  "defaultVerificationPoll = 2 * second"

record Verifier =
  v_window :: duration
  v_pollInterval :: duration

definition NewVerifier :: "duration \<Rightarrow> duration \<Rightarrow> Verifier" where
  "NewVerifier cfgWindow cfgPoll =
     (let window = (if cfgWindow \<le> 0 then defaultVerificationWindow else cfgWindow);
          poll = (if cfgPoll \<le> 0 then defaultVerificationPoll else cfgPoll)
      in \<lparr>v_window = window, v_pollInterval = (if poll > window then window else poll)\<rparr>)"

lemma NewVerifier_bounds:
  "0 < v_pollInterval (NewVerifier a b) \<and>
   v_pollInterval (NewVerifier a b) \<le> v_window (NewVerifier a b)"
  by (simp add: NewVerifier_def Let_def defaultVerificationWindow_def
      defaultVerificationPoll_def second_def millisecond_def)

section \<open>Expected final state\<close>

text \<open>In the default case the operation is none of the named constants, so its string is its own.\<close>

fun expectedFinalPowerState :: "reset_op \<Rightarrow> go_error + string" where
  "expectedFinalPowerState OpOn = Inr ''On''"
| "expectedFinalPowerState OpGracefulRestart = Inr ''On''"
| "expectedFinalPowerState OpForceRestart = Inr ''On''"
| "expectedFinalPowerState OpNMI = Inr ''On''"
| "expectedFinalPowerState OpForceOff = Inr ''Off''"
| "expectedFinalPowerState OpGracefulShutdown = Inr ''Off''"
| "expectedFinalPowerState (OtherOp s) =
     Inl (Wrap [] (Sentinel ErrUnsupportedOperation) ('': '' @ go_quote s))"

lemma expectedFinalPowerState_InrD:
  "expectedFinalPowerState op = Inr s \<Longrightarrow> s = ''On'' \<or> s = ''Off''"
  by (cases op) auto

lemma expectedFinalPowerState_trim:
  "expectedFinalPowerState op = Inr s \<Longrightarrow> trim_space s = s"
  by (drule expectedFinalPowerState_InrD)
    (auto simp: trim_space_plain plain_ends_def plain_char_def)

section \<open>The polling loop\<close>

type_synonym 'x reader =
  "ctx \<Rightarrow> ExecutionRequest \<Rightarrow> 'x world_scheme \<Rightarrow> (go_error + string) \<times> 'x world_scheme"

definition verification_timeout :: "string \<Rightarrow> string \<Rightarrow> go_error" where
  "verification_timeout expected lst =
     Wrap [] (Sentinel ErrVerificationTimeout)
       ('': expected '' @ go_quote expected @ '', last '' @ go_quote (trim_space lst))"

partial_function (option) verify_loop ::
    "'x reader \<Rightarrow> ctx \<Rightarrow> ExecutionRequest \<Rightarrow> string \<Rightarrow> duration \<Rightarrow> string \<Rightarrow> 'x world_scheme
     \<Rightarrow> ((string \<times> go_error option) \<times> 'x world_scheme) option" where
  "verify_loop read vctx req expected poll lastState w =
     (case read vctx req w of
        (Inl readErr, w1) \<Rightarrow>
          (case ctx_err vctx (clock w1) of
             Some e \<Rightarrow> Some ((trim_space lastState, Some e), w1)
           | None \<Rightarrow>
               Some ((trim_space lastState, Some (Wrap ''reading power state: '' readErr [])), w1))
      | (Inr state, w1) \<Rightarrow>
          (let lst = trim_space state in
           if equal_fold lst expected then Some ((lst, None), w1)
           else
             (case select_timer vctx poll w1 of
                (Some _, w2) \<Rightarrow>
                  Some ((trim_space lst, Some (verification_timeout expected lst)), w2)
              | (None, w2) \<Rightarrow> verify_loop read vctx req expected poll lst w2)))"

definition Verify ::
    "'x reader \<Rightarrow> Verifier \<Rightarrow> ctx \<Rightarrow> ExecutionRequest \<Rightarrow> 'x world_scheme
     \<Rightarrow> ((string \<times> go_error option) \<times> 'x world_scheme) option" where
  "Verify read v c req w =
     (case expectedFinalPowerState (er_Operation req) of
        Inl e \<Rightarrow> Some (([], Some e), w)
      | Inr expected \<Rightarrow>
          verify_loop read (with_timeout c (clock w) (v_window v)) req expected
            (v_pollInterval v) [] w)"

section \<open>Placeholder backends (noop.go)\<close>

definition NoopExecutor :: "ctx \<Rightarrow> ExecutionRequest \<Rightarrow> 'x world_scheme \<Rightarrow> go_error option \<times> 'x world_scheme" where
  "NoopExecutor c req w = (None, w)"

definition ExpectedStateReader :: "'x reader" where
  "ExpectedStateReader c req w = (expectedFinalPowerState (er_Operation req), w)"

section \<open>The reader interface and the loop's total correctness\<close>

text \<open>
  The only fact about time the loop needs from a reader: a call does not move the clock back.
\<close>

locale state_reader =
  fixes read :: "'x reader"
  assumes read_clock: "read c req w = (r, w') \<Longrightarrow> clock w \<le> clock w'"
begin

lemma loop_returns:
  assumes "ctx_done_at vctx = Some d" and "0 < poll"
  shows "\<exists>r. verify_loop read vctx req expected poll lastState w = Some r"
proof (induction "nat (d - clock w)" arbitrary: w lastState rule: less_induct)
  case (less w)
  obtain res w1 where rd: "read vctx req w = (res, w1)" by (cases "read vctx req w")
  then have w1: "clock w \<le> clock w1" by (rule read_clock)
  show ?case
  proof (cases res)
    case (Inl e)
    with rd show ?thesis
      by (subst verify_loop.simps) (simp split: option.split)
  next
    case (Inr st)
    obtain se w2 where sel: "select_timer vctx poll w1 = (se, w2)"
      by (cases "select_timer vctx poll w1")
    show ?thesis
    proof (cases "equal_fold (trim_space st) expected \<or> se \<noteq> None")
      case True
      with Inr rd sel show ?thesis
        by (subst verify_loop.simps) (auto simp: Let_def)
    next
      case False
      with sel select_timer_fired [of vctx poll w1 w2] assms
      have "clock w2 = clock w1 + poll" and "clock w2 \<le> max (clock w1) d" by auto
      with \<open>0 < poll\<close> w1 have "nat (d - clock w2) < nat (d - clock w)" by auto
      then obtain r where
        "verify_loop read vctx req expected poll (trim_space st) w2 = Some r"
        using less by blast
      with False Inr rd sel show ?thesis
        by (subst verify_loop.simps) (auto simp: Let_def)
    qed
  qed
qed

lemma Verify_returns:
  assumes "0 < v_pollInterval v"
  shows "\<exists>r. Verify read v c req w = Some r"
proof (cases "expectedFinalPowerState (er_Operation req)")
  case (Inr s)
  obtain d where "ctx_done_at (with_timeout c (clock w) (v_window v)) = Some d"
    using with_timeout_deadline by blast
  from loop_returns [OF this assms] Inr show ?thesis by (simp add: Verify_def)
qed (simp add: Verify_def)

end

interpretation expected_reader: state_reader ExpectedStateReader
  by unfold_locales (simp add: ExpectedStateReader_def)

text \<open>
  The rule for facts about a returned result: one case per exit of the loop, and one for a
  further round.
\<close>

lemma verify_loop_result_induct [consumes 1, case_names read_err match timeout again]:
  assumes "verify_loop read vctx req expected poll l w = Some r"
    and read_err: "\<And>l w e w1. read vctx req w = (Inl e, w1) \<Longrightarrow>
      Q l w ((trim_space l, Some (case ctx_err vctx (clock w1) of
         Some ce \<Rightarrow> ce | None \<Rightarrow> Wrap ''reading power state: '' e [])), w1)"
    and match: "\<And>l w st w1. read vctx req w = (Inr st, w1) \<Longrightarrow>
      equal_fold (trim_space st) expected \<Longrightarrow> Q l w ((trim_space st, None), w1)"
    and timeout: "\<And>l w st w1 ce w2. read vctx req w = (Inr st, w1) \<Longrightarrow>
      \<not> equal_fold (trim_space st) expected \<Longrightarrow>
      select_timer vctx poll w1 = (Some ce, w2) \<Longrightarrow>
      Q l w ((trim_space st, Some (verification_timeout expected (trim_space st))), w2)"
    and again: "\<And>l w st w1 w2 r. read vctx req w = (Inr st, w1) \<Longrightarrow>
      \<not> equal_fold (trim_space st) expected \<Longrightarrow>
      select_timer vctx poll w1 = (None, w2) \<Longrightarrow> Q (trim_space st) w2 r \<Longrightarrow> Q l w r"
  shows "Q l w r"
proof (rule verify_loop.raw_induct [where
      P = "\<lambda>read' vctx' req' expected' poll' l w r.
        read' = read \<and> vctx' = vctx \<and> req' = req \<and> expected' = expected \<and> poll' = poll \<longrightarrow>
        Q l w r",
      OF _ assms(1), THEN mp,
      OF _ conjI [OF refl conjI [OF refl conjI [OF refl conjI [OF refl refl]]]]])
  fix loop read' vctx' req' expected' poll' l w r
  assume IH: "\<And>read' vctx' req' expected' poll' l w r.
      loop read' vctx' req' expected' poll' l w = Some r \<Longrightarrow>
      read' = read \<and> vctx' = vctx \<and> req' = req \<and> expected' = expected \<and> poll' = poll \<longrightarrow>
      Q l w r"
    and eq: "(case read' vctx' req' w of
      (Inl readErr, w1) \<Rightarrow>
        (case ctx_err vctx' (clock w1) of
           None \<Rightarrow>
             Some ((trim_space l, Some (Wrap ''reading power state: '' readErr [])), w1)
         | Some e \<Rightarrow> Some ((trim_space l, Some e), w1))
    | (Inr state, w1) \<Rightarrow>
        (let lst = trim_space state in
         if equal_fold lst expected' then Some ((lst, None), w1)
         else
           (case select_timer vctx' poll' w1 of
              (None, w2) \<Rightarrow> loop read' vctx' req' expected' poll' lst w2
            | (Some _, w2) \<Rightarrow>
                Some ((trim_space lst, Some (verification_timeout expected' lst)), w2))))
      = Some r"
  show "read' = read \<and> vctx' = vctx \<and> req' = req \<and> expected' = expected \<and> poll' = poll \<longrightarrow>
      Q l w r"
  proof (intro impI, elim conjE)
    assume e: "read' = read" "vctx' = vctx" "req' = req" "expected' = expected" "poll' = poll"
    obtain res w1 where rd: "read vctx req w = (res, w1)" by (cases "read vctx req w")
    show "Q l w r"
    proof (cases res)
      case (Inl err)
      with rd eq e read_err [of w err w1 l] show ?thesis by (auto split: option.splits)
    next
      case (Inr st)
      obtain se w2 where sel: "select_timer vctx poll w1 = (se, w2)"
        by (cases "select_timer vctx poll w1")
      show ?thesis
        using rd eq e Inr sel match [of w st w1 l] timeout [of w st w1 _ w2 l]
          again [of w st w1 w2 r l] IH [of read vctx req expected poll "trim_space st" w2 r]
        by (auto simp: Let_def split: if_splits option.splits)
    qed
  qed
qed

lemma Verify_result:
  assumes "Verify read v c req w = Some ((s, e), w')"
  shows "trim_space s = s \<and>
    (e = None \<longrightarrow> (\<exists>expected w0 st. expectedFinalPowerState (er_Operation req) = Inr expected \<and>
       equal_fold s expected \<and> s = trim_space st \<and>
       read (with_timeout c (clock w) (v_window v)) req w0 = (Inr st, w'))) \<and>
    (\<forall>err. e = Some err \<longrightarrow>
       errors_is err ErrUnsupportedOperation \<or> errors_is err ErrVerificationTimeout \<or>
       ctx_err (with_timeout c (clock w) (v_window v)) (clock w') = Some err \<or>
       (\<exists>re. err = Wrap ''reading power state: '' re []))"
proof (cases "expectedFinalPowerState (er_Operation req)")
  case (Inl x)
  with assms show ?thesis
    by (cases "er_Operation req") (auto simp: Verify_def)
next
  case (Inr expected)
  let ?c = "with_timeout c (clock w) (v_window v)"
  let ?Q = "\<lambda>(l::string) (w0::'a world_scheme) r. case r of ((s, e), w') \<Rightarrow>
    trim_space s = s \<and>
    (e = None \<longrightarrow> equal_fold s expected \<and>
       (\<exists>w0 st. s = trim_space st \<and> read ?c req w0 = (Inr st, w'))) \<and>
    (\<forall>err. e = Some err \<longrightarrow> errors_is err ErrVerificationTimeout \<or>
       ctx_err ?c (clock w') = Some err \<or> (\<exists>re. err = Wrap ''reading power state: '' re []))"
  have "verify_loop read ?c req expected (v_pollInterval v) [] w = Some ((s, e), w')"
    using assms Inr by (simp add: Verify_def)
  then have "?Q [] w ((s, e), w')"
  proof (rule verify_loop_result_induct [where Q = ?Q])
    show "?Q l w ((trim_space l, Some (case ctx_err ?c (clock w1) of
        Some ce \<Rightarrow> ce | None \<Rightarrow> Wrap ''reading power state: '' re [])), w1)" for l w re w1
      by (auto split: option.split)
  next
    show "?Q l w0 ((trim_space st, None), w1)"
      if "read ?c req w0 = (Inr st, w1)" "equal_fold (trim_space st) expected" for l w0 st w1
      using that by auto
  next
    show "?Q l w ((trim_space st, Some (verification_timeout expected (trim_space st))), w2)"
      for l w st w2
      by (simp add: verification_timeout_def)
  qed
  then show ?thesis using Inr by auto
qed

section \<open>Properties\<close>

text \<open>
  Verification always returns: for every configuration, every context and every reader
  whose calls do not move the clock back, the polling loop ends.
\<close>

lemma Verify_terminates:
  assumes "\<And>c req w r w'. read c req w = (r, w') \<Longrightarrow> clock w \<le> clock w'"
  shows "\<exists>r. Verify read (NewVerifier cfgWindow cfgPoll) c req w = Some r"
proof -
  have "state_reader read" using assms by unfold_locales
  from state_reader.Verify_returns [OF this] NewVerifier_bounds show ?thesis by blast
qed

definition booting_node :: "time \<Rightarrow> 'x reader" where
  "booting_node up c req w = (Inr (if clock w < up then ''Off'' else '' on''), w)"

definition sample_request :: "reset_op \<Rightarrow> ExecutionRequest" where
  "sample_request op =
     \<lparr>er_TransitionID = ''t-1'', er_TaskID = ''task-1'', er_NodeID = ''node-1'',
      er_BMCID = ''bmc-1'', er_Endpoint = ''https://10.0.0.1'', er_CredentialID = ''cred'',
      er_InsecureSkipVerify = False, er_Operation = op\<rparr>"

lemma Verify_terminates_witness:
  "\<exists>r. Verify (booting_node (3 * second)) (NewVerifier 0 0) background (sample_request OpOn)
        \<lparr>clock = 0, done_first = (\<lambda>_. True)\<rparr> = Some r"
  by (rule Verify_terminates) (simp add: booting_node_def)

text \<open>
  A result of \<open>Verify\<close> is what its last read says: success means that the reader's
  last answer, trimmed, is the expected state of the operation up to case; every error is the
  unsupported-operation error, the verification timeout, the context's own error, or a
  wrapped read error.
\<close>

lemma Verify_sound:
  assumes "Verify read v c req w = Some ((s, e), w')"
  shows "trim_space s = s \<and>
    (e = None \<longrightarrow> (\<exists>expected w0 st. expectedFinalPowerState (er_Operation req) = Inr expected \<and>
       equal_fold s expected \<and> s = trim_space st \<and>
       read (with_timeout c (clock w) (v_window v)) req w0 = (Inr st, w'))) \<and>
    (\<forall>err. e = Some err \<longrightarrow>
       errors_is err ErrUnsupportedOperation \<or> errors_is err ErrVerificationTimeout \<or>
       ctx_err (with_timeout c (clock w) (v_window v)) (clock w') = Some err \<or>
       (\<exists>re. err = Wrap ''reading power state: '' re []))"
  using assms by (rule Verify_result)

lemma Verify_sound_witness:
  "trim_space ''on'' = ''on'' \<and>
   equal_fold ''on'' ''On'' \<and>
   Verify (booting_node (3 * second)) (NewVerifier 0 0) background (sample_request OpOn)
     \<lparr>clock = 0, done_first = (\<lambda>_. True)\<rparr> =
   Some ((''on'', None), \<lparr>clock = 4 * second, done_first = (\<lambda>_. True)\<rparr>)"
proof -
  have on: "trim_space '' on'' = ''on''" "trim_space ''Off'' = ''Off''"
      "equal_fold ''on'' ''On''" "\<not> equal_fold ''Off'' ''On''"
    by code_simp+
  have run: "Verify (booting_node (3 * second)) (NewVerifier 0 0) background (sample_request OpOn)
     \<lparr>clock = 0, done_first = (\<lambda>_. True)\<rparr> =
   Some ((''on'', None), \<lparr>clock = 4 * second, done_first = (\<lambda>_. True)\<rparr>)"
    by (simp add: Verify_def NewVerifier_def sample_request_def booting_node_def on
        verify_loop.simps select_timer_def with_timeout_def background_def Let_def
        defaultVerificationWindow_def defaultVerificationPoll_def go_defs)
  from Verify_sound [OF run] run show ?thesis
    by (simp add: sample_request_def)
qed

text \<open>
  Verification is bounded in time: when no read takes longer than \<open>lat\<close>, \<open>Verify\<close> has
  returned at the latest \<open>lat\<close> after its window of \<open>v_window v\<close> nanoseconds.
\<close>

lemma Verify_deadline:
  assumes "Verify read v c req w = Some (r, w')"
    and lat: "\<And>c req w r w'. read c req w = (r, w') \<Longrightarrow> clock w' \<le> clock w + lat"
    and "0 < v_pollInterval v" "0 \<le> v_window v" "0 \<le> lat"
    and live: "ctx_err c (clock w) = None"
  shows "clock w' \<le> clock w + v_window v + lat"
proof (cases "expectedFinalPowerState (er_Operation req)")
  case (Inl x)
  with assms show ?thesis by (auto simp: Verify_def)
next
  case (Inr expected)
  let ?c = "with_timeout c (clock w) (v_window v)"
  obtain d where d: "ctx_done_at ?c = Some d" "d \<le> clock w + v_window v"
    using with_timeout_deadline by blast
  have le: "clock w \<le> d"
    using d(1) live assms(4)
    by (auto simp: with_timeout_def ctx_err_def split: option.splits if_splits)
  let ?Q = "\<lambda>(l::string) w0 (r :: (string \<times> go_error option) \<times> 'a world_scheme).
    clock w0 \<le> d \<longrightarrow> clock (snd r) \<le> d + lat"
  have "verify_loop read ?c req expected (v_pollInterval v) [] w = Some (r, w')"
    using assms(1) Inr by (simp add: Verify_def)
  then have "?Q [] w (r, w')"
  proof (rule verify_loop_result_induct [where Q = ?Q])
    show "?Q l w0 ((trim_space st, Some (verification_timeout expected (trim_space st))), w2)"
      if "read ?c req w0 = (Inr st, w1)"
        "select_timer ?c (v_pollInterval v) w1 = (Some ce, w2)" for l w0 st w1 ce w2
      using that(2) lat [OF that(1)] d(1) assms(5)
      by (auto simp: select_timer_def Let_def split: if_splits)
  next
    show "?Q l w0 r'"
      if "select_timer ?c (v_pollInterval v) w1 = (None, w2)" "?Q (trim_space st) w2 r'"
      for l w0 st w1 w2 r'
      using that select_timer_fired [OF that(1)] d(1) assms(3) 
      by (auto simp: select_timer_def Let_def split: if_splits)
  qed (use lat in \<open>fastforce+\<close>)
  with le d(2) show ?thesis by simp
qed

lemma Verify_within:
  assumes "Verify read v c req w = Some (r, w')" and c: "ctx_done_at c = Some d"
    and lat: "\<And>c req w r w'. read c req w = (r, w') \<Longrightarrow> clock w \<le> clock w' \<and> clock w' \<le> clock w + lat"
    and poll: "0 < v_pollInterval v" and start: "clock w \<le> d + lat" and "0 \<le> lat"
  shows "clock w' \<le> d + 2 * lat"
proof (cases "expectedFinalPowerState (er_Operation req)")
  case (Inl x)
  with assms show ?thesis by (auto simp: Verify_def)
next
  case (Inr expected)
  let ?c = "with_timeout c (clock w) (v_window v)"
  have "\<exists>d'. ctx_done_at ?c = Some d' \<and> d' \<le> d" using c by (simp add: with_timeout_def)
  then obtain d' where d': "ctx_done_at ?c = Some d'" "d' \<le> d" by blast
  let ?Q = "\<lambda>(l::string) w0 (r :: (string \<times> go_error option) \<times> 'a world_scheme).
    clock w0 \<le> d + lat \<longrightarrow> clock (snd r) \<le> d + 2 * lat"
  have "verify_loop read ?c req expected (v_pollInterval v) [] w = Some (r, w')"
    using assms(1) Inr by (simp add: Verify_def)
  then have "?Q [] w (r, w')"
  proof (rule verify_loop_result_induct [where Q = ?Q])
    show "?Q l w0 ((trim_space st, Some (verification_timeout expected (trim_space st))), w2)"
      if "read ?c req w0 = (Inr st, w1)"
        "select_timer ?c (v_pollInterval v) w1 = (Some ce, w2)" for l w0 st w1 ce w2
      using lat [OF that(1)] select_timer_within(1) [OF that(2) d'(1)] d'(2) \<open>0 \<le> lat\<close> by auto
  next
    show "?Q l w0 r'"
      if "select_timer ?c (v_pollInterval v) w1 = (None, w2)" "?Q (trim_space st) w2 r'"
      for l w0 st w1 w2 r'
      using that(2) select_timer_within(2) [OF that(1) d'(1) refl poll] d'(2) \<open>0 \<le> lat\<close> by auto
  qed (use lat in \<open>fastforce+\<close>)
  with start show ?thesis by simp
qed

definition stuck_node :: "'x reader" where
  "stuck_node c req w = (Inr ''Off'', w\<lparr>clock := clock w + 1\<rparr>)"

lemma Verify_deadline_witness:
  "\<exists>r. Verify stuck_node (NewVerifier second second) background (sample_request OpOn)
        \<lparr>clock = 5, done_first = (\<lambda>_. True)\<rparr> = Some r \<and> clock (snd r) \<le> 6 + second"
proof -
  have "\<And>c req (w :: world) r w'. stuck_node c req w = (r, w') \<Longrightarrow> clock w \<le> clock w'"
    by (auto simp: stuck_node_def)
  then have "state_reader (stuck_node :: unit reader)" by unfold_locales
  then obtain r w' where run: "Verify stuck_node (NewVerifier second second) background
      (sample_request OpOn) \<lparr>clock = 5, done_first = (\<lambda>_. True)\<rparr> = Some (r, w' :: world)"
    using state_reader.Verify_returns NewVerifier_bounds by fastforce
  have "clock w' \<le> clock \<lparr>clock = 5, done_first = (\<lambda>_. True)\<rparr>
      + v_window (NewVerifier second second) + 1"
    by (rule Verify_deadline [OF run])
      (auto simp: stuck_node_def NewVerifier_def Let_def go_defs ctx_err_def background_def)
  with run show ?thesis by (auto simp: NewVerifier_def Let_def go_defs)
qed

end
