(* ===== verification/Power_Retry.thy ===== *)
theory Power_Retry
  imports Power_Verify
begin

text \<open>
  The execution policy of \<open>internal/engine/runner.go\<close>: the defaults of \<open>normalizeConfig\<close>, the
  classification of errors as retryable, the backoff delay and the retry loop.  The executor
  is a parameter that may move the clock and change the rest of the world.
\<close>

section \<open>Configuration\<close>

record Config =
  cf_GlobalConcurrency :: int
  cf_PerBMCConcurrency :: int
  cf_RetryAttempts :: int
  cf_RetryBackoffBase :: duration
  cf_RetryBackoffMax :: duration
  cf_TransitionDeadline :: duration
  cf_VerificationWindow :: duration
  cf_VerificationPoll :: duration
  cf_QueueSize :: int

text \<open>The three function fields \<open>now\<close>, \<open>sleep\<close> and \<open>jitter\<close> are arguments of their users.\<close>

record runtimeConfig =
  rc_globalConcurrency :: int
  rc_perBMCConcurrency :: int
  rc_retryAttempts :: int
  rc_retryBackoffBase :: duration
  rc_retryBackoffMax :: duration
  rc_transitionDeadline :: duration
  rc_queueSize :: int

definition defaultGlobalConcurrency :: int where "defaultGlobalConcurrency = 20"
definition defaultPerBMCConcurrency :: int where "defaultPerBMCConcurrency = 1"
definition defaultRetryAttempts :: int where "defaultRetryAttempts = 3"
definition defaultRetryBackoffBase :: duration where
  "defaultRetryBackoffBase = 250 * millisecond"
definition defaultRetryBackoffMax :: duration where "defaultRetryBackoffMax = 5 * second"
definition defaultTransitionTimeout :: duration where "defaultTransitionTimeout = 90 * second"

lemmas runner_defaults =
  defaultGlobalConcurrency_def defaultPerBMCConcurrency_def defaultRetryAttempts_def
  defaultRetryBackoffBase_def defaultRetryBackoffMax_def defaultTransitionTimeout_def

declare runner_defaults [go_defs]

definition normalizeConfig :: "Config \<Rightarrow> runtimeConfig" where
  "normalizeConfig cfg =
     (let globalConcurrency =
            (if cf_GlobalConcurrency cfg \<le> 0 then defaultGlobalConcurrency
             else cf_GlobalConcurrency cfg);
          perBMCConcurrency =
            (if cf_PerBMCConcurrency cfg \<le> 0 then defaultPerBMCConcurrency
             else cf_PerBMCConcurrency cfg);
          retryAttempts =
            (if cf_RetryAttempts cfg \<le> 0 then defaultRetryAttempts else cf_RetryAttempts cfg);
          retryBackoffBase =
            (if cf_RetryBackoffBase cfg \<le> 0 then defaultRetryBackoffBase
             else cf_RetryBackoffBase cfg);
          retryBackoffMax =
            (if cf_RetryBackoffMax cfg \<le> 0 then defaultRetryBackoffMax
             else cf_RetryBackoffMax cfg);
          retryBackoffMax =
            (if retryBackoffMax < retryBackoffBase then retryBackoffBase else retryBackoffMax);
          transitionDeadline =
            (if cf_TransitionDeadline cfg \<le> 0 then defaultTransitionTimeout
             else cf_TransitionDeadline cfg);
          queueSize =
            (if cf_QueueSize cfg \<le> 0 then wrap64 (globalConcurrency * 4) else cf_QueueSize cfg);
          queueSize = (if queueSize < 1 then 1 else queueSize)
      in \<lparr>rc_globalConcurrency = globalConcurrency,
          rc_perBMCConcurrency = perBMCConcurrency,
          rc_retryAttempts = retryAttempts,
          rc_retryBackoffBase = retryBackoffBase,
          rc_retryBackoffMax = retryBackoffMax,
          rc_transitionDeadline = transitionDeadline,
          rc_queueSize = queueSize\<rparr>)"

definition config_ok :: "runtimeConfig \<Rightarrow> bool" where
  "config_ok rc \<longleftrightarrow>
     0 < rc_globalConcurrency rc \<and> 0 < rc_perBMCConcurrency rc \<and> 0 < rc_retryAttempts rc \<and>
     0 < rc_retryBackoffBase rc \<and> rc_retryBackoffBase rc \<le> rc_retryBackoffMax rc \<and>
     0 < rc_transitionDeadline rc \<and> 0 < rc_queueSize rc"

lemma normalizeConfig_ok: "config_ok (normalizeConfig cfg)"
  by (simp add: config_ok_def normalizeConfig_def Let_def runner_defaults go_defs)

section \<open>Retryable errors\<close>

definition MarkRetryable :: "go_error option \<Rightarrow> go_error option" where
  "MarkRetryable err = (case err of None \<Rightarrow> None | Some e \<Rightarrow> Some (RetryableErr (Some e)))"

definition IsRetryable :: "go_error option \<Rightarrow> bool" where
  "IsRetryable err =
     (case err of
        None \<Rightarrow> False
      | Some e \<Rightarrow>
          if errors_is e Canceled \<or> errors_is e DeadlineExceeded then False
          else if list_ex is_retryable_struct (err_chain e) then True
          else (case errors_as_net e of Some timeout \<Rightarrow> timeout | None \<Rightarrow> False))"

lemma IsRetryable_not_ctx: "IsRetryable (Some e) \<Longrightarrow> \<not> is_ctx_error e"
  by (auto simp: IsRetryable_def is_ctx_error_def)

section \<open>Backoff\<close>

text \<open>
  \<open>time.Duration\<close> is an \<open>int64\<close>.  The product \<open>float64(base) * 2^(attempt-1)\<close> is exact for
  bases up to \<open>2^53\<close> nanoseconds (104 days).  The conversion of a float that does not fit an
  \<open>int64\<close> is left to the implementation by the language: its value is the argument \<open>ov\<close>
  (\<open>- 2^63\<close> on amd64, \<open>2^63 - 1\<close> on arm64).
\<close>

definition float_to_int64 :: "int \<Rightarrow> int \<Rightarrow> int" where
  "float_to_int64 ov x = (if - (2 ^ 63) \<le> x \<and> x < 2 ^ 63 then x else ov)"

definition retryDelay :: "int \<Rightarrow> runtimeConfig \<Rightarrow> (duration \<Rightarrow> duration) \<Rightarrow> int \<Rightarrow> duration" where
  "retryDelay ov cfg jitterFn attempt =
     (if attempt \<le> 0 then rc_retryBackoffBase cfg
      else
        (let scaled = rc_retryBackoffBase cfg * 2 ^ nat (attempt - 1);
             delay = float_to_int64 ov scaled;
             delay = (if delay > rc_retryBackoffMax cfg then rc_retryBackoffMax cfg else delay);
             delay = (if delay < 0 then rc_retryBackoffMax cfg else delay);
             jitter = jitterFn (delay div 2);
             jitter = (if jitter < 0 then 0 else jitter)
         in wrap64 (delay + jitter)))"

text \<open>\<open>rnd\<close> is the answer of \<open>rand.Int(rand.Reader, max + 1)\<close>, \<open>None\<close> its error.\<close>

definition cryptoJitter :: "(int \<Rightarrow> int option) \<Rightarrow> duration \<Rightarrow> duration" where
  "cryptoJitter rnd m =
     (if m \<le> 0 then 0 else (case rnd (m + 1) of None \<Rightarrow> 0 | Some v \<Rightarrow> v))"

lemma cryptoJitter_bounds:
  assumes "\<And>m v. rnd m = Some v \<Longrightarrow> 0 \<le> v \<and> v < m"
  shows "0 \<le> cryptoJitter rnd m \<and> cryptoJitter rnd m \<le> max 0 m"
  using assms [of "m + 1"] by (fastforce simp: cryptoJitter_def split: option.split)

text \<open>The delay before the jitter: doubling from the base, clamped to the maximum.\<close>

definition clamped_delay :: "runtimeConfig \<Rightarrow> int \<Rightarrow> int" where
  "clamped_delay cfg attempt =
     min (rc_retryBackoffBase cfg * 2 ^ nat (attempt - 1)) (rc_retryBackoffMax cfg)"

lemma retryDelay_clamped:
  assumes "config_ok cfg" "rc_retryBackoffMax cfg < 2 ^ 63"
    and "ov < 0 \<or> rc_retryBackoffMax cfg \<le> ov" and "0 < attempt"
  shows "retryDelay ov cfg j attempt =
    wrap64 (clamped_delay cfg attempt + max 0 (j (clamped_delay cfg attempt div 2)))"
proof -
  let ?x = "rc_retryBackoffBase cfg * 2 ^ nat (attempt - 1)"
  let ?m = "rc_retryBackoffMax cfg"
  have x: "0 < ?x" and m: "0 < ?m" using assms by (simp_all add: config_ok_def)
  have d: "(if (if float_to_int64 ov ?x > ?m then ?m else float_to_int64 ov ?x) < 0 then ?m
      else (if float_to_int64 ov ?x > ?m then ?m else float_to_int64 ov ?x)) = min ?x ?m"
  proof (cases "?x < 2 ^ 63")
    case True
    with x have "float_to_int64 ov ?x = ?x" by (simp add: float_to_int64_def)
    with x m show ?thesis by (simp only:) (simp add: min_def)
  next
    case False
    then have "float_to_int64 ov ?x = ov" and "?m < ?x"
      using assms(2) by (simp_all add: float_to_int64_def)
    with m assms(3) show ?thesis by (simp only:) (auto simp: min_def)
  qed
  have "max 0 (j k) = (if j k < 0 then 0 else j k)" for k by (simp add: max_def)
  with assms(4) show ?thesis
    unfolding retryDelay_def clamped_delay_def Let_def d by (simp only: not_le [symmetric] if_False)
qed

section \<open>The retry loop\<close>

definition sleepWithContext ::
    "ctx \<Rightarrow> duration \<Rightarrow> 'x world_scheme \<Rightarrow> go_error option \<times> 'x world_scheme" where
  "sleepWithContext c d w = select_timer c d w"

type_synonym 'x executor =
  "ctx \<Rightarrow> ExecutionRequest \<Rightarrow> 'x world_scheme \<Rightarrow> go_error option \<times> 'x world_scheme"

function retry_loop ::
    "int \<Rightarrow> runtimeConfig \<Rightarrow> (int \<Rightarrow> duration \<Rightarrow> duration) \<Rightarrow> 'x executor \<Rightarrow> ctx
     \<Rightarrow> ExecutionRequest \<Rightarrow> int \<Rightarrow> int \<Rightarrow> 'x world_scheme
     \<Rightarrow> (int \<times> go_error option) \<times> 'x world_scheme" where
  "retry_loop ov cfg jitter exec c req attempts attempt w =
     (if attempt \<le> rc_retryAttempts cfg then
        (case exec c req w of
           (None, w1) \<Rightarrow> ((attempt, None), w1)
         | (Some err, w1) \<Rightarrow>
             if attempt = rc_retryAttempts cfg \<or> \<not> IsRetryable (Some err)
             then ((attempt, Some err), w1)
             else
               (case sleepWithContext c (retryDelay ov cfg (jitter attempt) attempt) w1 of
                  (Some sleepErr, w2) \<Rightarrow> ((attempt, Some sleepErr), w2)
                | (None, w2) \<Rightarrow>
                    retry_loop ov cfg jitter exec c req attempt (attempt + 1) w2))
      else ((attempts, Some (ErrText ''exhausted retries without execution'')), w))"
  by pat_completeness auto
termination
  by (relation "measure (\<lambda>(ov, cfg, jitter, exec, c, req, attempts, attempt, w).
        nat (rc_retryAttempts cfg + 1 - attempt))") auto

declare retry_loop.simps [simp del]

definition executeWithRetry ::
    "int \<Rightarrow> runtimeConfig \<Rightarrow> (int \<Rightarrow> duration \<Rightarrow> duration) \<Rightarrow> 'x executor \<Rightarrow> ctx
     \<Rightarrow> ExecutionRequest \<Rightarrow> 'x world_scheme \<Rightarrow> (int \<times> go_error option) \<times> 'x world_scheme" where
  "executeWithRetry ov cfg jitter exec c req w = retry_loop ov cfg jitter exec c req 0 1 w"

text \<open>One round of the loop, by what the executor and the sleep answer.\<close>

lemma retry_loop_done:
  "exec c req w = (None, w1) \<Longrightarrow> attempt \<le> rc_retryAttempts cfg \<Longrightarrow>
   retry_loop ov cfg jitter exec c req n attempt w = ((attempt, None), w1)"
  by (simp add: retry_loop.simps)

lemma retry_loop_fail:
  "exec c req w = (Some e, w1) \<Longrightarrow> attempt \<le> rc_retryAttempts cfg \<Longrightarrow>
   attempt = rc_retryAttempts cfg \<or> \<not> IsRetryable (Some e) \<Longrightarrow>
   retry_loop ov cfg jitter exec c req n attempt w = ((attempt, Some e), w1)"
  by (simp add: retry_loop.simps)

lemma retry_loop_again:
  "exec c req w = (Some e, w1) \<Longrightarrow> attempt < rc_retryAttempts cfg \<Longrightarrow>
   IsRetryable (Some e) \<Longrightarrow>
   retry_loop ov cfg jitter exec c req n attempt w =
     (case sleepWithContext c (retryDelay ov cfg (jitter attempt) attempt) w1 of
        (Some sleepErr, w2) \<Rightarrow> ((attempt, Some sleepErr), w2)
      | (None, w2) \<Rightarrow> retry_loop ov cfg jitter exec c req attempt (attempt + 1) w2)"
  by (simp add: retry_loop.simps [of ov cfg jitter exec c req n attempt])

lemma retry_loop_result:
  assumes "retry_loop ov cfg jitter exec c req n attempt w = ((k, e), w')"
    and "attempt \<le> rc_retryAttempts cfg"
    and calls: "\<And>w r w'. exec c req w = (r, w') \<Longrightarrow> calls w' = calls w + (1::int)"
    and clk: "\<And>w t. calls (w\<lparr>clock := t\<rparr>) = calls w"
  shows "attempt \<le> k \<and> k \<le> rc_retryAttempts cfg \<and> calls w' = calls w + (k - attempt + 1) \<and>
    (\<exists>w0 w1 r. exec c req w0 = (r, w1) \<and>
      (case e of
         None \<Rightarrow> r = None \<and> w' = w1
       | Some err \<Rightarrow>
           r = Some err \<and> w' = w1 \<and> (k = rc_retryAttempts cfg \<or> \<not> IsRetryable r) \<or>
           IsRetryable r \<and> k < rc_retryAttempts cfg \<and> ctx_err c (clock w') = Some err))"
  using assms(1,2)
proof (induction "nat (rc_retryAttempts cfg - attempt)" arbitrary: n attempt w rule: less_induct)
  case less
  obtain r w1 where ex: "exec c req w = (r, w1)" by (cases "exec c req w")
  note c1 = calls [OF ex]
  show ?case
  proof (cases r)
    case None
    with ex less.prems retry_loop_done [of exec c req w w1 attempt cfg ov jitter n] c1
    show ?thesis by fastforce
  next
    case (Some err)
    show ?thesis
    proof (cases "attempt = rc_retryAttempts cfg \<or> \<not> IsRetryable (Some err)")
      case True
      with Some ex less.prems retry_loop_fail [of exec c req w err w1 attempt cfg ov jitter n] c1
      have "k = attempt \<and> e = Some err \<and> w' = w1" by auto
      with True Some ex less.prems c1 show ?thesis by fastforce
    next
      case False
      obtain se w2 where sl:
        "sleepWithContext c (retryDelay ov cfg (jitter attempt) attempt) w1 = (se, w2)"
        by (cases "sleepWithContext c (retryDelay ov cfg (jitter attempt) attempt) w1")
      have c2: "calls w2 = calls w1"
        using sl clk by (auto simp: sleepWithContext_def select_timer_def Let_def
            split: option.splits if_splits)
      have eq: "retry_loop ov cfg jitter exec c req n attempt w =
          (case (se, w2) of (Some sleepErr, w2) \<Rightarrow> ((attempt, Some sleepErr), w2)
           | (None, w2) \<Rightarrow> retry_loop ov cfg jitter exec c req attempt (attempt + 1) w2)"
        using retry_loop_again [of exec c req w err w1 attempt cfg ov jitter n] ex Some False
          less.prems sl by simp
      show ?thesis
      proof (cases se)
        case None
        with eq less.prems False less.hyps [of "attempt + 1" attempt w2]
        have "attempt + 1 \<le> k \<and> k \<le> rc_retryAttempts cfg \<and>
          calls w' = calls w2 + (k - (attempt + 1) + 1) \<and>
          (\<exists>w0 w1 r. exec c req w0 = (r, w1) \<and>
            (case e of
               None \<Rightarrow> r = None \<and> w' = w1
             | Some err \<Rightarrow>
                 r = Some err \<and> w' = w1 \<and> (k = rc_retryAttempts cfg \<or> \<not> IsRetryable r) \<or>
                 IsRetryable r \<and> k < rc_retryAttempts cfg \<and> ctx_err c (clock w') = Some err))"
          by (simp add: less.prems(1) eq)
        with c1 c2 show ?thesis by simp
      next
        case (Some serr)
        with eq less.prems have "k = attempt" "e = Some serr" "w' = w2" by simp_all
        moreover have "ctx_err c (clock w2) = Some serr"
          using sl Some by (auto simp: sleepWithContext_def dest: select_timer_done)
        ultimately show ?thesis
          using False ex \<open>r = Some err\<close> less.prems(2) c1 c2 by fastforce
      qed
    qed
  qed
qed

text \<open>
  A call of an executor or of a reader takes at most \<open>lat\<close>: what the timeout of the HTTP client
  behind them promises.
\<close>

definition takes_at_most ::
    "duration \<Rightarrow> (ctx \<Rightarrow> ExecutionRequest \<Rightarrow> 'x world_scheme \<Rightarrow> 'r \<times> 'x world_scheme) \<Rightarrow> bool" where
  "takes_at_most lat call \<longleftrightarrow>
     (\<forall>c req w. clock w \<le> clock (snd (call c req w)) \<and> clock (snd (call c req w)) \<le> clock w + lat)"

lemma takes_at_mostD:
  "takes_at_most lat call \<Longrightarrow> call c req w = (r, w') \<Longrightarrow> clock w \<le> clock w' \<and> clock w' \<le> clock w + lat"
  unfolding takes_at_most_def by (metis snd_conv)

text \<open>With positive delays no attempt starts after the end of the context.\<close>

lemma retry_loop_deadline:
  assumes exec: "takes_at_most lat exec" and d: "ctx_done_at c = Some d"
    and delay: "\<And>a. 0 < a \<Longrightarrow> 0 < retryDelay ov cfg (jitter a) a"
  shows "retry_loop ov cfg jitter exec c req n attempt w = (r, w') \<Longrightarrow> clock w \<le> d \<Longrightarrow> 0 < attempt \<Longrightarrow>
    attempt \<le> rc_retryAttempts cfg \<Longrightarrow> clock w \<le> clock w' \<and> clock w' \<le> d + lat"
proof (induction "nat (rc_retryAttempts cfg - attempt)" arbitrary: n attempt w rule: less_induct)
  case less
  obtain a w1 where ex: "exec c req w = (a, w1)" by fastforce
  note t = takes_at_mostD [OF exec ex]
  show ?case
  proof (cases "\<exists>e. a = Some e \<and> attempt \<noteq> rc_retryAttempts cfg \<and> IsRetryable a")
    case False
    then have "w' = w1"
      using less.prems ex by (cases a) (auto simp: retry_loop_done retry_loop_fail)
    with t less.prems(2) show ?thesis by simp
  next
    case True
    then obtain e where e: "a = Some e" "attempt < rc_retryAttempts cfg" "IsRetryable (Some e)"
      using less.prems(4) by auto
    let ?sleep = "sleepWithContext c (retryDelay ov cfg (jitter attempt) attempt) w1"
    obtain se w2 where sl: "?sleep = (se, w2)" by fastforce
    note sel = sl [unfolded sleepWithContext_def]
    note w2 = select_timer_clock [OF sel] select_timer_within [OF sel d]
    have "retry_loop ov cfg jitter exec c req n attempt w =
        (case (se, w2) of (Some sleepErr, w2) \<Rightarrow> ((attempt, Some sleepErr), w2)
         | (None, w2) \<Rightarrow> retry_loop ov cfg jitter exec c req attempt (attempt + 1) w2)"
      unfolding sl [symmetric]
      by (rule retry_loop_again [where w = w and e = e]) (use ex e in simp_all)
    note run = less.prems(1) [unfolded this prod.case]
    show ?thesis
    proof (cases se)
      case (Some x)
      with run have "w' = w2" by simp
      with t w2(1,2) less.prems(2) takes_at_mostD [OF exec ex] show ?thesis by auto
    next
      case None
      with run have "retry_loop ov cfg jitter exec c req attempt (attempt + 1) w2 = (r, w')" by simp
      moreover have "clock w2 \<le> d" using w2(3) None delay [OF less.prems(3)] by simp
      ultimately have "clock w2 \<le> clock w' \<and> clock w' \<le> d + lat"
        using less.hyps [of "attempt + 1" attempt w2] e(2) less.prems(3) by simp
      with t w2(1) show ?thesis by auto
    qed
  qed
qed

section \<open>Properties\<close>

text \<open>
  Exponential backoff with bounded jitter, with no overflow: under every configuration whose
  maximum is at most \<open>2^62\<close> nanoseconds, and whatever a float that does not fit an \<open>int64\<close> is
  converted to (out of the range of valid delays), the wait before attempt \<open>n + 1\<close> is at least
  \<open>min (base * 2^(n-1)) max\<close> and exceeds it by at most half.
\<close>

lemma retryDelay_bounds:
  assumes "rc_retryBackoffMax (normalizeConfig cfg) \<le> 2 ^ 62"
    and "ov < 0 \<or> rc_retryBackoffMax (normalizeConfig cfg) \<le> ov"
    and "0 < attempt" and "\<And>m v. rnd m = Some v \<Longrightarrow> 0 \<le> v \<and> v < m"
  shows "clamped_delay (normalizeConfig cfg) attempt
      \<le> retryDelay ov (normalizeConfig cfg) (cryptoJitter rnd) attempt \<and>
    retryDelay ov (normalizeConfig cfg) (cryptoJitter rnd) attempt
      \<le> clamped_delay (normalizeConfig cfg) attempt
        + clamped_delay (normalizeConfig cfg) attempt div 2"
proof -
  let ?c = "normalizeConfig cfg"
  let ?d = "clamped_delay ?c attempt"
  let ?j = "cryptoJitter rnd (?d div 2)"
  have ok: "config_ok ?c" by (rule normalizeConfig_ok)
  then have "0 < ?d" "?d \<le> rc_retryBackoffMax ?c" by (auto simp: clamped_delay_def config_ok_def)
  moreover have "0 \<le> ?j" "?j \<le> max 0 (?d div 2)" using cryptoJitter_bounds assms(4) by blast+
  moreover have "?d + ?d div 2 \<le> 2 ^ 62 + 2 ^ 61"
    using calculation(1,2) assms(1) by (simp add: algebra_simps)
  moreover have "wrap64 (?d + ?j) = ?d + ?j"
    by (rule wrap64_id) (use calculation in \<open>simp_all add: max_def\<close>)
  ultimately show ?thesis
    using retryDelay_clamped [OF ok _ assms(2,3), of "cryptoJitter rnd"] assms(1) by simp
qed

lemma retryDelay_positive:
  assumes "rc_retryBackoffMax (normalizeConfig cfg) \<le> 2 ^ 62"
    and "ov < 0 \<or> rc_retryBackoffMax (normalizeConfig cfg) \<le> ov"
    and "0 < attempt" and "\<And>m v. rnd m = Some v \<Longrightarrow> 0 \<le> v \<and> v < m"
  shows "0 < retryDelay ov (normalizeConfig cfg) (cryptoJitter rnd) attempt"
proof -
  have "0 < clamped_delay (normalizeConfig cfg) attempt"
    using normalizeConfig_ok [of cfg] by (auto simp: clamped_delay_def config_ok_def)
  also note retryDelay_bounds [OF assms, THEN conjunct1]
  finally show ?thesis .
qed

definition zero_config :: Config where
  "zero_config = \<lparr>cf_GlobalConcurrency = 0, cf_PerBMCConcurrency = 0, cf_RetryAttempts = 0,
     cf_RetryBackoffBase = 0, cf_RetryBackoffMax = 0, cf_TransitionDeadline = 0,
     cf_VerificationWindow = 0, cf_VerificationPoll = 0, cf_QueueSize = 0\<rparr>"

text \<open>With the defaults, attempt 6 waits up to 7.5 s although the configured maximum is 5 s.\<close>

lemma retryDelay_bounds_witness:
  "clamped_delay (normalizeConfig zero_config) 6 = 5 * second \<and>
   retryDelay (- 1) (normalizeConfig zero_config)
     (cryptoJitter (\<lambda>m. if 0 < m then Some (m - 1) else None)) 6 = 7500 * millisecond \<and>
   retryDelay (- 1) (normalizeConfig zero_config)
     (cryptoJitter (\<lambda>m. if 0 < m then Some (m - 1) else None)) 6
     \<le> 5 * second + 5 * second div 2"
proof -
  let ?j = "cryptoJitter (\<lambda>m. if 0 < m then Some (m - 1) else None)"
  have m: "rc_retryBackoffMax (normalizeConfig zero_config) = 5 * second"
    by (simp add: normalizeConfig_def zero_config_def Let_def go_defs)
  have c: "clamped_delay (normalizeConfig zero_config) 6 = 5 * second"
    by (simp add: clamped_delay_def normalizeConfig_def zero_config_def Let_def go_defs)
  have le: "retryDelay (- 1) (normalizeConfig zero_config) ?j 6
     \<le> clamped_delay (normalizeConfig zero_config) 6
        + clamped_delay (normalizeConfig zero_config) 6 div 2"
    by (rule retryDelay_bounds [THEN conjunct2])
      (simp_all add: m go_defs split: if_splits)
  have "retryDelay (- 1) (normalizeConfig zero_config) ?j 6 =
      wrap64 (5 * second + max 0 (?j (5 * second div 2)))"
    using retryDelay_clamped [OF normalizeConfig_ok, of zero_config "- 1" 6 ?j] m c
    by (simp add: go_defs)
  also have "\<dots> = 7500 * millisecond"
    by (simp add: cryptoJitter_def go_defs wrap64_def)
  finally show ?thesis using le c by simp
qed

text \<open>
  C40. The retry policy: between one and \<open>retryAttempts\<close> executor calls are made, exactly as many
  as reported; success is the executor's own; an error is either the executor's last one, not
  retryable or on the last attempt, or the context's error met while waiting after a retryable
  failure.  The "exhausted retries" branch is never taken.
\<close>

theorem executeWithRetry_policy:
  assumes "executeWithRetry ov (normalizeConfig cfg) jitter exec c req w = ((k, e), w')"
    and "\<And>w r w'. exec c req w = (r, w') \<Longrightarrow> calls w' = calls w + (1::int)"
    and "\<And>w t. calls (w\<lparr>clock := t\<rparr>) = calls w"
  shows "1 \<le> k \<and> k \<le> rc_retryAttempts (normalizeConfig cfg) \<and> calls w' = calls w + k \<and>
    (\<exists>w0 w1 r. exec c req w0 = (r, w1) \<and>
      (case e of
         None \<Rightarrow> r = None \<and> w' = w1
       | Some err \<Rightarrow>
           r = Some err \<and> w' = w1 \<and>
             (k = rc_retryAttempts (normalizeConfig cfg) \<or> \<not> IsRetryable r) \<or>
           IsRetryable r \<and> k < rc_retryAttempts (normalizeConfig cfg) \<and>
             ctx_err c (clock w') = Some err))"
proof -
  have "1 \<le> rc_retryAttempts (normalizeConfig cfg)"
    using normalizeConfig_ok [of cfg] by (simp add: config_ok_def)
  from retry_loop_result [OF assms(1) [unfolded executeWithRetry_def] this, of calls] assms(2,3)
  show ?thesis by simp
qed

text \<open>An executor whose first call times out and whose second one succeeds.\<close>

record counting_world = world +
  cw_calls :: int

definition flaky_executor :: "'x counting_world_ext executor" where
  "flaky_executor c req w =
     (if cw_calls w = 0 then Some (NetErr ''i/o timeout'' True None) else None,
      w\<lparr>cw_calls := cw_calls w + 1\<rparr>)"

theorem executeWithRetry_policy_witness:
  "\<exists>w'. executeWithRetry 0 (normalizeConfig zero_config) (\<lambda>_ _. 0) flaky_executor background
          (sample_request OpOn) \<lparr>clock = 0, done_first = (\<lambda>_. True), cw_calls = 0\<rparr> =
        ((2, None), w') \<and> cw_calls w' = 2"
proof -
  let ?w = "\<lparr>clock = 0, done_first = (\<lambda>_. True), cw_calls = 0\<rparr> :: counting_world"
  have ret: "IsRetryable (Some (NetErr ''i/o timeout'' True None))" by code_simp
  obtain w' where run: "executeWithRetry 0 (normalizeConfig zero_config) (\<lambda>_ _. 0) flaky_executor
      background (sample_request OpOn) ?w = ((2, None), w')"
    by (simp add: executeWithRetry_def retry_loop.simps flaky_executor_def ret
        sleepWithContext_def select_timer_def background_def
        normalizeConfig_def zero_config_def Let_def go_defs)
  have "cw_calls w' = cw_calls ?w + 2"
    by (rule executeWithRetry_policy [OF run, THEN conjunct2, THEN conjunct2, THEN conjunct1])
      (auto simp: flaky_executor_def)
  with run show ?thesis by simp
qed

end
