(* ===== verification/Power_Redfish.thy ===== *)
theory Power_Redfish
  imports Power_Retry
begin

text \<open>
  \<open>internal/engine/redfish_executor.go\<close>: the Redfish backends of the executor and of the
  verifier.  The Redfish client, the credential resolver and \<open>NormalizeEndpoint\<close> belong to
  \<open>chamicore-lib\<close> and are parameters; the system-path cache (a \<open>sync.Map\<close>) is a field that
  extends the world.
\<close>

section \<open>Choosing the system of a node\<close>

definition cacheKey :: "string \<Rightarrow> string \<Rightarrow> string" where
  "cacheKey endpoint nodeID = trim_space endpoint @ ''|'' @ trim_space nodeID"

definition systemIDFromPath :: "string \<Rightarrow> string" where
  "systemIDFromPath systemPath =
     (let trimmed = trim_suffix (trim_space systemPath) ''/'' in
      if trimmed = [] then [] else trim_space (last (split_on (CHR ''/'') trimmed)))"

definition selectSystemPath :: "string list \<Rightarrow> string \<Rightarrow> string" where
  "selectSystemPath paths nodeID =
     (let normalizedNodeID = trim_space nodeID;
          copied = trim_list paths;
          matching =
            (if normalizedNodeID = [] then []
             else filter (\<lambda>p. equal_fold (systemIDFromPath p) normalizedNodeID) copied)
      in (case matching of
            p # _ \<Rightarrow> p
          | [] \<Rightarrow>
              (case copied of [] \<Rightarrow> [] | [p] \<Rightarrow> p | _ \<Rightarrow> hd (sort copied))))"

section \<open>The resolver and its cache\<close>

record sys_world = world +
  sys_cache :: "string \<Rightarrow> string option"

record ('c, 'w) RedfishAPI =
  ListSystemPaths :: "ctx \<Rightarrow> string \<Rightarrow> 'c \<Rightarrow> 'w \<Rightarrow> (go_error + string list) \<times> 'w"
  ResetSystem :: "ctx \<Rightarrow> string \<Rightarrow> string \<Rightarrow> 'c \<Rightarrow> reset_op \<Rightarrow> 'w \<Rightarrow> go_error option \<times> 'w"
  GetSystemPowerState :: "ctx \<Rightarrow> string \<Rightarrow> string \<Rightarrow> 'c \<Rightarrow> 'w \<Rightarrow> (go_error + string) \<times> 'w"

definition Resolve ::
    "(string \<Rightarrow> go_error + string) \<Rightarrow> ctx \<Rightarrow> ('c, 'x sys_world_scheme) RedfishAPI \<Rightarrow> string
     \<Rightarrow> string \<Rightarrow> 'c \<Rightarrow> 'x sys_world_scheme \<Rightarrow> (go_error + string) \<times> 'x sys_world_scheme" where
  "Resolve normalizeEndpoint c client endpoint nodeID cred w =
     (case normalizeEndpoint endpoint of
        Inl e \<Rightarrow> (Inl e, w)
      | Inr normalized \<Rightarrow>
          (let key = cacheKey normalized nodeID;
               discover =
                 (case ListSystemPaths client c normalized cred w of
                    (Inl e, w1) \<Rightarrow> (Inl e, w1)
                  | (Inr paths, w1) \<Rightarrow>
                      if paths = []
                      then (Inl (ErrText (''endpoint '' @ go_quote normalized @
                             '' has no Redfish systems'')), w1)
                      else
                        (let chosen = selectSystemPath paths nodeID
                         in (Inr chosen, w1\<lparr>sys_cache := (sys_cache w1)(key \<mapsto> chosen)\<rparr>)))
           in (case sys_cache w key of
                 Some path \<Rightarrow> if trim_space path \<noteq> [] then (Inr path, w) else discover
               | None \<Rightarrow> discover)))"

section \<open>Errors worth a retry\<close>

definition retryablePatterns :: "string list" where
  "retryablePatterns =
     [''unexpected status 408'', ''unexpected status 429'', ''unexpected status 500'',
      ''unexpected status 502'', ''unexpected status 503'', ''unexpected status 504'',
      ''timeout'', ''temporary'', ''connection refused'', ''connection reset'',
      ''no such host'']"

definition classifyExecutionError :: "go_error option \<Rightarrow> go_error option" where
  "classifyExecutionError err =
     (case err of
        None \<Rightarrow> None
      | Some e \<Rightarrow>
          if errors_is e Canceled \<or> errors_is e DeadlineExceeded then Some e
          else if list_ex (str_contains (to_lower (err_msg e))) retryablePatterns
          then MarkRetryable (Some e)
          else Some e)"

section \<open>Executor and state reader\<close>

text \<open>
  \<open>newClient insecureSkipVerify\<close> is \<open>sharedredfish.New\<close> on the base configuration with that flag.
\<close>

definition ExecutePowerAction ::
    "(string \<Rightarrow> go_error + string) \<Rightarrow> (bool \<Rightarrow> ('c, 'x sys_world_scheme) RedfishAPI)
     \<Rightarrow> (ctx \<Rightarrow> string \<Rightarrow> go_error + 'c) \<Rightarrow> ctx \<Rightarrow> ExecutionRequest \<Rightarrow> 'x sys_world_scheme
     \<Rightarrow> go_error option \<times> 'x sys_world_scheme" where
  "ExecutePowerAction normalizeEndpoint newClient creds c req w =
     (let client = newClient (er_InsecureSkipVerify req) in
      case creds c (er_CredentialID req) of
        Inl e \<Rightarrow>
          (Some (Wrap (''resolving credential '' @ go_quote (er_CredentialID req) @ '': '') e []), w)
      | Inr cred \<Rightarrow>
          (case Resolve normalizeEndpoint c client (er_Endpoint req) (er_NodeID req) cred w of
             (Inl e, w1) \<Rightarrow>
               (classifyExecutionError (Some (Wrap ''resolving Redfish system path: '' e [])), w1)
           | (Inr systemPath, w1) \<Rightarrow>
               (case ResetSystem client c (er_Endpoint req) systemPath cred (er_Operation req) w1 of
                  (Some e, w2) \<Rightarrow>
                    (classifyExecutionError
                       (Some (Wrap ''issuing Redfish reset action: '' e [])), w2)
                | (None, w2) \<Rightarrow> (None, w2))))"

definition ReadPowerState ::
    "(string \<Rightarrow> go_error + string) \<Rightarrow> (bool \<Rightarrow> ('c, 'x sys_world_scheme) RedfishAPI)
     \<Rightarrow> (ctx \<Rightarrow> string \<Rightarrow> go_error + 'c) \<Rightarrow> ctx \<Rightarrow> ExecutionRequest \<Rightarrow> 'x sys_world_scheme
     \<Rightarrow> (go_error + string) \<times> 'x sys_world_scheme" where
  "ReadPowerState normalizeEndpoint newClient creds c req w =
     (let client = newClient (er_InsecureSkipVerify req) in
      case creds c (er_CredentialID req) of
        Inl e \<Rightarrow>
          (Inl (Wrap (''resolving credential '' @ go_quote (er_CredentialID req) @ '': '') e []), w)
      | Inr cred \<Rightarrow>
          (case Resolve normalizeEndpoint c client (er_Endpoint req) (er_NodeID req) cred w of
             (Inl e, w1) \<Rightarrow> (Inl (Wrap ''resolving Redfish system path: '' e []), w1)
           | (Inr systemPath, w1) \<Rightarrow>
               (case GetSystemPowerState client c (er_Endpoint req) systemPath cred w1 of
                  (Inl e, w2) \<Rightarrow> (Inl (Wrap ''reading Redfish power state: '' e []), w2)
                | (Inr powerState, w2) \<Rightarrow> (Inr (trim_space powerState), w2))))"

text \<open>\<open>EmptyCredentialResolver\<close> answers the zero credential of the library, \<open>cred0\<close>.\<close>

definition EmptyCredentialResolver :: "'c \<Rightarrow> ctx \<Rightarrow> string \<Rightarrow> go_error + 'c" where
  "EmptyCredentialResolver cred0 c credentialID = Inr cred0"

section \<open>Lemmas\<close>

lemma mem_trim_list: "p \<in> set (trim_list paths) \<Longrightarrow> p \<noteq> [] \<and> trim_space p = p"
  using nonblank_trimmed by simp

lemma hd_sort_min: "xs \<noteq> [] \<Longrightarrow> hd (sort xs) \<in> set xs \<and> (\<forall>p \<in> set xs. hd (sort xs) \<le> (p :: string))"
proof -
  assume "xs \<noteq> []"
  have st: "set (sort xs) = set xs" by simp
  with \<open>xs \<noteq> []\<close> have "sort xs \<noteq> []" by (metis set_empty)
  then obtain y ys where s: "sort xs = y # ys" by (cases "sort xs") auto
  then have "sorted (y # ys)" "set (y # ys) = set xs"
    using sorted_sort [of xs] st by simp_all
  with s show ?thesis by auto
qed

lemma fallback_min:
  "xs \<noteq> [] \<Longrightarrow> (case xs of [] \<Rightarrow> [] | [p] \<Rightarrow> p | _ \<Rightarrow> hd (sort xs)) = hd (sort (xs :: string list))"
  by (auto split: list.split)

lemma Resolve_clock:
  assumes "\<And>c ep cred w r w'. ListSystemPaths client c ep cred w = (r, w') \<Longrightarrow> clock w \<le> clock w'"
    and "Resolve ne c client ep n cred w = (r, w')"
  shows "clock w \<le> clock w'"
  using assms(2) assms(1) [of c _ cred w]
  by (auto simp: Resolve_def Let_def split: sum.splits prod.splits if_splits option.splits)

lemma ReadPowerState_clock:
  assumes "\<And>b c ep cred w r w'.
      ListSystemPaths (newClient b) c ep cred w = (r, w') \<Longrightarrow> clock w \<le> clock w'"
    and "\<And>b c ep p cred w r w'.
      GetSystemPowerState (newClient b) c ep p cred w = (r, w') \<Longrightarrow> clock w \<le> clock w'"
    and "ReadPowerState ne newClient creds c req w = (r, w')"
  shows "clock w \<le> clock w'"
proof (cases "creds c (er_CredentialID req)")
  case (Inl e)
  with assms(3) show ?thesis by (simp add: ReadPowerState_def)
next
  case (Inr cred)
  obtain p w1 where res: "Resolve ne c (newClient (er_InsecureSkipVerify req)) (er_Endpoint req)
      (er_NodeID req) cred w = (p, w1)" by fastforce
  have "clock w \<le> clock w1" by (rule Resolve_clock [OF _ res]) (rule assms(1))
  moreover have "clock w1 \<le> clock w'"
    using assms(3) Inr res assms(2) [of "er_InsecureSkipVerify req" c "er_Endpoint req" _ cred w1]
    by (fastforce simp: ReadPowerState_def Let_def split: sum.splits prod.splits)
  ultimately show ?thesis by simp
qed

text \<open>An answer of \<open>Resolve\<close> with a usable path leaves that path in the cache.\<close>

lemma Resolve_caches:
  assumes api: "\<And>c ep cred w r w'. ListSystemPaths client c ep cred w = (r, w') \<Longrightarrow>
      sys_cache w' = sys_cache w"
    and ne: "ne ep = Inr nep"
    and res: "Resolve ne c client ep n cred w = (Inr p, w')" and "trim_space p \<noteq> []"
  shows "sys_cache w' (cacheKey nep n) = Some p"
  using res ne \<open>trim_space p \<noteq> []\<close>
  by (auto simp: Resolve_def Let_def split: sum.splits prod.splits if_splits option.splits)

lemma Resolve_hit:
  assumes "ne ep = Inr nep" and "sys_cache w (cacheKey nep n) = Some p" and "trim_space p \<noteq> []"
  shows "Resolve ne c client ep n cred w = (Inr p, w)"
  using assms by (simp add: Resolve_def Let_def)

section \<open>Properties\<close>

text \<open>
  The system chosen for a node: when some discovered path has the node's ID as its last
  segment (up to case), the chosen path has it too; otherwise the least path is taken, and the
  result is empty only if every path is blank.
\<close>

lemma selectSystemPath_choice:
  "(if \<exists>p \<in> nonblank paths. trim_space n \<noteq> [] \<and> equal_fold (systemIDFromPath p) (trim_space n)
    then selectSystemPath paths n \<in> nonblank paths \<and>
      equal_fold (systemIDFromPath (selectSystemPath paths n)) (trim_space n)
    else if nonblank paths = {} then selectSystemPath paths n = []
    else selectSystemPath paths n = Min (nonblank paths))"
proof -
  let ?copied = "trim_list paths"
  let ?m = "if trim_space n = [] then []
    else filter (\<lambda>p. equal_fold (systemIDFromPath p) (trim_space n)) ?copied"
  have m: "set ?m = {p \<in> nonblank paths. trim_space n \<noteq> [] \<and>
      equal_fold (systemIDFromPath p) (trim_space n)}" by auto
  show ?thesis
  proof (cases ?m)
    case (Cons q qs)
    then have "q \<in> set ?m" by simp
    with m have "q \<in> nonblank paths \<and> trim_space n \<noteq> [] \<and>
      equal_fold (systemIDFromPath q) (trim_space n)" by blast
    moreover have "selectSystemPath paths n = q"
      unfolding selectSystemPath_def Let_def Cons by simp
    ultimately show ?thesis by auto
  next
    case Nil
    then have no: "\<not> (\<exists>p \<in> nonblank paths. trim_space n \<noteq> [] \<and>
        equal_fold (systemIDFromPath p) (trim_space n))" using m by auto
    have sel: "selectSystemPath paths n =
        (case ?copied of [] \<Rightarrow> [] | [p] \<Rightarrow> p | _ \<Rightarrow> hd (sort ?copied))"
      unfolding selectSystemPath_def Let_def Nil by simp
    show ?thesis
    proof (cases "?copied = []")
      case True
      then have "nonblank paths = {}" using set_trim_list [of paths] by simp
      with sel True no show ?thesis by simp
    next
      case False
      then have "nonblank paths \<noteq> {}" using set_trim_list [of paths] by (metis set_empty)
      moreover have "hd (sort ?copied) = Min (nonblank paths)"
        using hd_sort_min [OF False] by (intro Min_eqI [symmetric]) auto
      ultimately have "nonblank paths \<noteq> {}" "selectSystemPath paths n = Min (nonblank paths)"
        using sel fallback_min [OF False] by simp_all
      with no show ?thesis by (simp only: if_False if_True simp_thms)
    qed
  qed
qed

definition two_nodes_api :: "('c, 'x sys_world_scheme) RedfishAPI" where
  "two_nodes_api =
     \<lparr>ListSystemPaths = (\<lambda>c ep cred w.
        (Inr [''/redfish/v1/Systems/Node1'', ''/redfish/v1/Systems/Node0''],
         w\<lparr>clock := clock w + 1\<rparr>)),
      ResetSystem = (\<lambda>c ep p cred op w. (None, w\<lparr>clock := clock w + 1\<rparr>)),
      GetSystemPowerState = (\<lambda>c ep p cred w. (Inr ''On'', w\<lparr>clock := clock w + 1\<rparr>))\<rparr>"

text \<open>
  The path cache: once \<open>Resolve\<close> has answered a usable path for an endpoint and a node, the
  next call for them answers the same path without calling the BMC (the world is unchanged).
\<close>

lemma Resolve_cached:
  assumes "\<And>c ep cred w r w'. ListSystemPaths client c ep cred w = (r, w') \<Longrightarrow>
      sys_cache w' = sys_cache w"
    and "Resolve ne c client ep n cred w = (Inr p, w')" and "trim_space p \<noteq> []"
  shows "Resolve ne c' client' ep n cred' w' = (Inr p, w')"
proof -
  obtain nep where "ne ep = Inr nep"
    using assms(2) by (cases "ne ep") (simp_all add: Resolve_def)
  then show ?thesis
    using Resolve_caches [OF assms(1) _ assms(2,3)] assms(3) by (intro Resolve_hit)
qed

definition empty_sys_world :: sys_world where
  "empty_sys_world = \<lparr>clock = 0, done_first = (\<lambda>_. True), sys_cache = Map.empty\<rparr>"

text \<open>
  Classification of Redfish failures: the message and the wrapped sentinels stay what they
  were, a context error is returned as it is, and the result is retryable exactly when the
  error already was or its lower-case text has one of the patterns and no context error is
  behind it.
\<close>

lemma classifyExecutionError_spec:
  "\<exists>e'. classifyExecutionError (Some e) = Some e' \<and> err_msg e' = err_msg e \<and>
     (\<forall>s. errors_is e' s = errors_is e s) \<and>
     (if is_ctx_error e then e' = e
      else IsRetryable (Some e') =
        (IsRetryable (Some e) \<or>
         (\<exists>pat \<in> set retryablePatterns. sublist pat (to_lower (err_msg e)))))"
  by (auto simp: classifyExecutionError_def MarkRetryable_def IsRetryable_def is_ctx_error_def
      list_ex_iff str_contains_sublist)

text \<open>
  Verification against Redfish returns: whatever the BMC answers and however long its calls
  take, polling with \<open>RedfishStateReader\<close> ends.
\<close>

lemma Redfish_verification_terminates:
  assumes "\<And>b c ep cred w r w'.
      ListSystemPaths (newClient b) c ep cred w = (r, w') \<Longrightarrow> clock w \<le> clock w'"
    and "\<And>b c ep p cred w r w'.
      GetSystemPowerState (newClient b) c ep p cred w = (r, w') \<Longrightarrow> clock w \<le> clock w'"
  shows "\<exists>r. Verify (ReadPowerState ne newClient creds) (NewVerifier window poll) c req w = Some r"
proof -
  have "state_reader (ReadPowerState ne newClient creds)"
    by unfold_locales (rule ReadPowerState_clock [OF assms])
  from state_reader.Verify_returns [OF this] NewVerifier_bounds show ?thesis by blast
qed

end
