(* ===== verification/Power_Queue.thy ===== *)
theory Power_Queue
  imports Power_Model
begin

text \<open>
  \<open>internal/engine/queue.go\<close>: the bounded in-memory queue between \<open>StartTransition\<close> and the
  workers.  The buffered channel is the list of its waiting items; \<open>enqueue\<close> reads the closed
  flag under the lock and then sends without it, so its two halves are two definitions.
\<close>

section \<open>The queue and its operations\<close>

record 'a Queue =
  q_closed :: bool
  q_ch :: "'a list"
  q_cap :: nat

datatype 'a enq_result = EnqOk "'a Queue" | EnqErr go_error | EnqBlocked | EnqPanic

datatype 'a deq_result = DeqItem 'a "'a Queue" | DeqErr go_error | DeqBlocked

definition newQueue :: "int \<Rightarrow> 'a Queue" where
  "newQueue capacity =
     \<lparr>q_closed = False, q_ch = [], q_cap = nat (if capacity \<le> 0 then 1 else capacity)\<rparr>"

definition queue_channel :: "'a Queue \<Rightarrow> bool" where
  "queue_channel q = q_closed q"

text \<open>
  \<open>select { case ch <- item: case <-ctx.Done(): }\<close>.  \<open>ctxErr\<close> is \<open>ctx.Err()\<close>, \<open>pickDone\<close> the
  runtime's choice when both cases are ready.  A send on a closed channel is ready, and panics.
\<close>

definition enqueue_send :: "go_error option \<Rightarrow> bool \<Rightarrow> 'a \<Rightarrow> 'a Queue \<Rightarrow> 'a enq_result" where
  "enqueue_send ctxErr pickDone item q =
     (let ready = (q_closed q \<or> length (q_ch q) < q_cap q);
          send = (if q_closed q then EnqPanic else EnqOk (q\<lparr>q_ch := q_ch q @ [item]\<rparr>))
      in case ctxErr of
           None \<Rightarrow> if ready then send else EnqBlocked
         | Some e \<Rightarrow> if ready \<and> \<not> pickDone then send else EnqErr e)"

definition enqueue :: "go_error option \<Rightarrow> bool \<Rightarrow> 'a \<Rightarrow> 'a Queue \<Rightarrow> 'a enq_result" where
  "enqueue ctxErr pickDone item q =
     (if queue_channel q then EnqErr (Sentinel ErrQueueClosed)
      else enqueue_send ctxErr pickDone item q)"

definition dequeue :: "go_error option \<Rightarrow> bool \<Rightarrow> 'a Queue \<Rightarrow> 'a deq_result" where
  "dequeue ctxErr pickDone q =
     (let ready = (q_ch q \<noteq> [] \<or> q_closed q);
          recv = (case q_ch q of
                    [] \<Rightarrow> DeqErr (Sentinel ErrQueueClosed)
                  | x # xs \<Rightarrow> DeqItem x (q\<lparr>q_ch := xs\<rparr>))
      in case ctxErr of
           None \<Rightarrow> if ready then recv else DeqBlocked
         | Some e \<Rightarrow> if ready \<and> \<not> pickDone then recv else DeqErr e)"

definition queue_close :: "'a Queue \<Rightarrow> 'a Queue" where
  "queue_close q = (if q_closed q then q else q\<lparr>q_closed := True\<rparr>)"

section \<open>The queue interface\<close>

text \<open>
  What the runner relies on: a delivered item is the oldest one, an accepted item goes to the
  end and only into a queue with room, closing keeps the items.
\<close>

locale fifo_queue =
  fixes items :: "'q \<Rightarrow> 'a list"
    and room :: "'q \<Rightarrow> nat"
    and closed :: "'q \<Rightarrow> bool"
    and accepts :: "'a \<Rightarrow> 'q \<Rightarrow> 'q \<Rightarrow> bool"
    and delivers :: "'a \<Rightarrow> 'q \<Rightarrow> 'q \<Rightarrow> bool"
    and shut :: "'q \<Rightarrow> 'q"
  assumes accepts_items: "accepts x q q' \<Longrightarrow> items q' = items q @ [x]"
    and accepts_room: "accepts x q q' \<Longrightarrow> length (items q) < room q \<and> room q' = room q"
    and accepts_open: "accepts x q q' \<Longrightarrow> \<not> closed q \<and> \<not> closed q'"
    and delivers_items: "delivers x q q' \<Longrightarrow> items q = x # items q'"
    and delivers_room: "delivers x q q' \<Longrightarrow> room q' = room q \<and> closed q' = closed q"
    and shut_items: "items (shut q) = items q"
    and shut_closed: "closed (shut q)"
    and shut_room: "room (shut q) = room q"
begin

definition bounded :: "'q \<Rightarrow> bool" where
  "bounded q \<longleftrightarrow> length (items q) \<le> room q"

lemma bounded_accepts: "bounded q \<Longrightarrow> accepts x q q' \<Longrightarrow> bounded q'"
  using accepts_items accepts_room by (fastforce simp: bounded_def)

lemma bounded_delivers: "bounded q \<Longrightarrow> delivers x q q' \<Longrightarrow> bounded q'"
  using delivers_items delivers_room by (fastforce simp: bounded_def)

lemma bounded_shut: "bounded q \<Longrightarrow> bounded (shut q)"
  by (simp add: bounded_def shut_items shut_room)

inductive runs :: "'q \<Rightarrow> 'a list \<Rightarrow> 'a list \<Rightarrow> 'q \<Rightarrow> bool" for q0 where
  runs_start: "runs q0 [] [] q0"
| runs_accept: "runs q0 ins outs q \<Longrightarrow> accepts x q q' \<Longrightarrow> runs q0 (ins @ [x]) outs q'"
| runs_deliver: "runs q0 ins outs q \<Longrightarrow> delivers x q q' \<Longrightarrow> runs q0 ins (outs @ [x]) q'"
| runs_shut: "runs q0 ins outs q \<Longrightarrow> runs q0 ins outs (shut q)"

lemma runs_fifo: "runs q0 ins outs q \<Longrightarrow> items q0 @ ins = outs @ items q"
  by (induction rule: runs.induct)
    (auto dest: accepts_items delivers_items simp: shut_items)

lemma runs_bounded: "runs q0 ins outs q \<Longrightarrow> bounded q0 \<Longrightarrow> bounded q"
  by (induction rule: runs.induct)
    (auto intro: bounded_accepts bounded_delivers bounded_shut)

lemma runs_closed_no_accept: "runs q0 ins outs q \<Longrightarrow> closed q0 \<Longrightarrow> ins = [] \<and> closed q"
  by (induction rule: runs.induct)
    (auto dest: accepts_open delivers_room simp: shut_closed)

end

definition q_accepts :: "'a \<Rightarrow> 'a Queue \<Rightarrow> 'a Queue \<Rightarrow> bool" where
  "q_accepts x q q' \<longleftrightarrow> (\<exists>e p. enqueue e p x q = EnqOk q')"

definition q_delivers :: "'a \<Rightarrow> 'a Queue \<Rightarrow> 'a Queue \<Rightarrow> bool" where
  "q_delivers x q q' \<longleftrightarrow> (\<exists>e p. dequeue e p q = DeqItem x q')"

lemma enqueue_send_OkD:
  "enqueue_send e p x q = EnqOk q' \<Longrightarrow>
   \<not> q_closed q \<and> length (q_ch q) < q_cap q \<and> q' = q\<lparr>q_ch := q_ch q @ [x]\<rparr>"
  by (auto simp: enqueue_send_def Let_def split: option.splits if_splits)

lemma enqueue_OkD:
  "enqueue e p x q = EnqOk q' \<Longrightarrow>
   \<not> q_closed q \<and> length (q_ch q) < q_cap q \<and> q' = q\<lparr>q_ch := q_ch q @ [x]\<rparr>"
  by (auto simp: enqueue_def dest: enqueue_send_OkD split: if_splits)

lemma dequeue_ItemD:
  "dequeue e p q = DeqItem x q' \<Longrightarrow> q_ch q = x # q_ch q' \<and> q' = q\<lparr>q_ch := tl (q_ch q)\<rparr>"
  by (cases "q_ch q") (auto simp: dequeue_def Let_def split: option.splits if_splits)

interpretation lq: fifo_queue q_ch q_cap q_closed q_accepts q_delivers queue_close
  by unfold_locales
    (auto simp: q_accepts_def q_delivers_def queue_close_def
      dest!: enqueue_OkD dequeue_ItemD)

lemma newQueue_bounded: "lq.bounded (newQueue c)"
  by (simp add: lq.bounded_def newQueue_def)

lemma newQueue_cap: "0 < q_cap (newQueue c)"
  by (simp add: newQueue_def)

section \<open>Runs of queue calls\<close>

datatype 'a queue_call = CallEnqueue "go_error option" bool 'a
  | CallDequeue "go_error option" bool
  | CallClose

text \<open>One completed call after another; a blocked call leaves the queue as it is.\<close>

fun queue_run :: "'a queue_call list \<Rightarrow> 'a Queue \<Rightarrow> 'a list \<times> 'a list \<times> 'a Queue" where
  "queue_run [] q = ([], [], q)"
| "queue_run (CallEnqueue e p x # cs) q =
     (case enqueue e p x q of
        EnqOk q' \<Rightarrow> (case queue_run cs q' of (ins, outs, r) \<Rightarrow> (x # ins, outs, r))
      | _ \<Rightarrow> queue_run cs q)"
| "queue_run (CallDequeue e p # cs) q =
     (case dequeue e p q of
        DeqItem x q' \<Rightarrow> (case queue_run cs q' of (ins, outs, r) \<Rightarrow> (ins, x # outs, r))
      | _ \<Rightarrow> queue_run cs q)"
| "queue_run (CallClose # cs) q = queue_run cs (queue_close q)"

lemma queue_run_runs:
  "queue_run cs q = (ins, outs, r) \<Longrightarrow> lq.runs q0 i0 o0 q \<Longrightarrow> lq.runs q0 (i0 @ ins) (o0 @ outs) r"
proof (induction cs q arbitrary: ins outs r i0 o0 rule: queue_run.induct)
  case (2 e p x cs q)
  show ?case
  proof (cases "enqueue e p x q")
    case (EnqOk q')
    then have "q_accepts x q q'" by (auto simp: q_accepts_def)
    with 2 EnqOk show ?thesis
      by (fastforce split: prod.splits dest: lq.runs_accept)
  qed (use 2 in auto)
next
  case (3 e p cs q)
  show ?case
  proof (cases "dequeue e p q")
    case (DeqItem x q')
    then have "q_delivers x q q'" by (auto simp: q_delivers_def)
    with 3 DeqItem show ?thesis
      by (fastforce split: prod.splits dest: lq.runs_deliver)
  qed (use 3 in auto)
next
  case (4 cs q)
  then show ?case by (auto dest: lq.runs_shut)
qed auto

text \<open>
  First in, first out, nothing lost or duplicated, never more than the capacity: for any
  sequence of enqueue, dequeue and close calls on a new queue, the accepted items are the
  delivered items followed by the waiting ones, and at most \<open>q_cap\<close> items wait.
\<close>

lemma queue_fifo_bounded:
  "case queue_run cs (newQueue c) of
     (ins, outs, q) \<Rightarrow> ins = outs @ q_ch q \<and> length (q_ch q) \<le> q_cap q"
proof -
  obtain ins outs q where run: "queue_run cs (newQueue c) = (ins, outs, q)"
    by (cases "queue_run cs (newQueue c)")
  then have r: "lq.runs (newQueue c) ins outs q"
    using queue_run_runs [OF run lq.runs_start] by simp
  with lq.runs_fifo [OF r] lq.runs_bounded [OF r newQueue_bounded] run
  show ?thesis by (simp add: newQueue_def lq.bounded_def)
qed

text \<open>
  A closed queue drains: its waiting items are still delivered in order, then every
  dequeue reports \<open>errQueueClosed\<close>; an enqueue call that starts after the close is refused.
\<close>

lemma queue_closed_behaviour:
  "enqueue e p x (queue_close q) = EnqErr (Sentinel ErrQueueClosed) \<and>
   dequeue None d (queue_close q) =
     (case q_ch q of
        [] \<Rightarrow> DeqErr (Sentinel ErrQueueClosed)
      | y # ys \<Rightarrow> DeqItem y ((queue_close q)\<lparr>q_ch := ys\<rparr>))"
  by (auto simp: enqueue_def dequeue_def queue_close_def queue_channel_def Let_def
      split: list.splits)

text \<open>
  The send happens outside the lock: an enqueue that read the flag before a concurrent
  \<open>close\<close> and sends after it panics (send on a closed channel), whatever the room left.
\<close>

lemma enqueue_close_race_panics:
  "\<not> queue_channel q \<Longrightarrow> enqueue_send None p x (queue_close q) = EnqPanic"
  by (simp add: enqueue_send_def queue_close_def queue_channel_def)

lemma enqueue_close_race_panics_witness:
  "\<not> queue_channel (newQueue 4 :: nat Queue) \<and>
   enqueue_send None False 7 (queue_close (newQueue 4 :: nat Queue)) = EnqPanic"
proof -
  have o: "\<not> queue_channel (newQueue 4 :: nat Queue)"
    by (simp add: queue_channel_def newQueue_def)
  with enqueue_close_race_panics [OF o] show ?thesis by simp
qed

end
