(* ===== verification/DB_Tables.thy ===== *)
theory DB_Tables
  imports Main
begin

text \<open>
  Tables of a relational database as lists of rows with a key: finding the row of a key, the
  upsert, unique keys.  The stores of the power service and of the service template use them.
\<close>

definition row_of :: "('r \<Rightarrow> string) \<Rightarrow> 'r list \<Rightarrow> string \<Rightarrow> 'r option" where
  "row_of key rows k = find (\<lambda>r. key r = k) rows"

text \<open>\<open>INSERT ... ON CONFLICT (key) DO UPDATE\<close>: \<open>merge old new\<close> is the updated row.\<close>

definition upsert :: "('r \<Rightarrow> string) \<Rightarrow> ('r \<Rightarrow> 'r \<Rightarrow> 'r) \<Rightarrow> 'r \<Rightarrow> 'r list \<Rightarrow> 'r list" where
  "upsert key merge r rows =
     (if row_of key rows (key r) = None then rows @ [r]
      else map (\<lambda>x. if key x = key r then merge x r else x) rows)"

definition unique_keys :: "('r \<Rightarrow> string) \<Rightarrow> 'r list \<Rightarrow> bool" where
  "unique_keys key rows \<longleftrightarrow> distinct (map key rows)"

lemma row_of_Nil [simp]: "row_of key [] k = None"
  by (simp add: row_of_def)

lemma row_of_Cons: "row_of key (r # rs) k = (if key r = k then Some r else row_of key rs k)"
  by (simp add: row_of_def)

lemma row_of_append:
  "row_of key (xs @ ys) k = (case row_of key xs k of None \<Rightarrow> row_of key ys k | Some r \<Rightarrow> Some r)"
  by (induction xs) (simp_all add: row_of_Cons)

lemma row_of_None: "row_of key rows k = None \<longleftrightarrow> k \<notin> key ` set rows"
  by (induction rows) (auto simp: row_of_Cons)

lemma row_of_SomeD: "row_of key rows k = Some r \<Longrightarrow> r \<in> set rows \<and> key r = k"
  by (induction rows) (auto simp: row_of_Cons split: if_splits)

lemma row_of_unique:
  "unique_keys key rows \<Longrightarrow> r \<in> set rows \<Longrightarrow> row_of key rows (key r) = Some r"
  by (induction rows) (auto simp: row_of_Cons unique_keys_def)

lemma row_of_iff:
  "unique_keys key rows \<Longrightarrow> row_of key rows k = Some r \<longleftrightarrow> r \<in> set rows \<and> key r = k"
  using row_of_SomeD row_of_unique by metis

lemma row_of_map:
  assumes "\<And>x. key (f x) = key x"
  shows "row_of key (map f rows) k = map_option f (row_of key rows k)"
  by (induction rows) (auto simp: row_of_Cons assms)

lemma row_of_filter:
  "row_of key (filter (\<lambda>r. P (key r)) rows) k = (if P k then row_of key rows k else None)"
  by (induction rows) (auto simp: row_of_Cons)

lemma row_of_filter_unique:
  assumes "unique_keys key rows"
  shows "row_of key (filter P rows) k =
    (case row_of key rows k of None \<Rightarrow> None | Some r \<Rightarrow> if P r then Some r else None)"
  using assms
proof (induction rows)
  case (Cons r rs)
  then have "unique_keys key rs" and "row_of key rs (key r) = None"
    by (auto simp: unique_keys_def row_of_None)
  with Cons.IH show ?case
    by (cases "key r = k") (auto simp: row_of_Cons split: option.split)
qed simp

lemma row_of_upsert:
  assumes merge: "\<And>x. key x = key r \<Longrightarrow> key (merge x r) = key r"
  shows "row_of key (upsert key merge r rows) k =
    (if k = key r
     then Some (case row_of key rows k of None \<Rightarrow> r | Some old \<Rightarrow> merge old r)
     else row_of key rows k)"
proof (cases "row_of key rows (key r)")
  case None
  then show ?thesis by (auto simp: upsert_def row_of_append row_of_Cons split: option.split)
next
  case (Some old)
  have "row_of key (map (\<lambda>x. if key x = key r then merge x r else x) rows) k =
      map_option (\<lambda>x. if key x = key r then merge x r else x) (row_of key rows k)"
    by (rule row_of_map) (simp add: merge)
  with Some show ?thesis
    by (cases "row_of key rows k") (auto simp: upsert_def dest: row_of_SomeD)
qed

lemma keys_upsert:
  assumes "\<And>x. key x = key r \<Longrightarrow> key (merge x r) = key r"
  shows "map key (upsert key merge r rows) =
    (if key r \<in> key ` set rows then map key rows else map key rows @ [key r])"
  using assms by (auto simp: upsert_def row_of_None)

lemma unique_upsert:
  assumes "\<And>x. key x = key r \<Longrightarrow> key (merge x r) = key r" and "unique_keys key rows"
  shows "unique_keys key (upsert key merge r rows)"
  using assms(2) keys_upsert [where key = key and merge = merge and r = r, OF assms(1)]
  by (auto simp: unique_keys_def)

lemma unique_filter: "unique_keys key rows \<Longrightarrow> unique_keys key (filter P rows)"
  by (simp add: unique_keys_def distinct_map_filter)

text \<open>A run of upserts of rows with different keys, the loop of a reconciliation.\<close>

definition upsert_all ::
    "('r \<Rightarrow> string) \<Rightarrow> ('r \<Rightarrow> 'r \<Rightarrow> 'r) \<Rightarrow> ('r \<Rightarrow> 'r) \<Rightarrow> 'r list \<Rightarrow> 'r list \<Rightarrow> 'r list" where
  "upsert_all key merge mk rs rows = fold (\<lambda>r. upsert key merge (mk r)) rs rows"

lemma row_of_upsert_all:
  assumes mk: "\<And>r. key (mk r) = key r"
    and merge: "\<And>x r. key x = key r \<Longrightarrow> key (merge x r) = key r"
  shows "unique_keys key rs \<Longrightarrow> row_of key (upsert_all key merge mk rs rows) k =
    (case row_of key rs k of
       None \<Rightarrow> row_of key rows k
     | Some r \<Rightarrow> Some (case row_of key rows k of None \<Rightarrow> mk r | Some old \<Rightarrow> merge old (mk r)))"
proof (induction rs arbitrary: rows)
  case (Cons r rs)
  then have u: "unique_keys key rs" and no: "row_of key rs (key r) = None"
    by (auto simp: unique_keys_def row_of_None)
  have up: "row_of key (upsert key merge (mk r) rows) k =
      (if k = key r then Some (case row_of key rows k of None \<Rightarrow> mk r | Some old \<Rightarrow> merge old (mk r))
       else row_of key rows k)"
    using row_of_upsert [of key "mk r" merge rows k] mk merge by simp
  from Cons.IH [OF u, of "upsert key merge (mk r) rows"] up no show ?case
    by (auto simp: upsert_all_def row_of_Cons split: option.split)
qed (simp add: upsert_all_def)

lemma unique_upsert_all:
  assumes "\<And>r. key (mk r) = key r" and "\<And>x r. key x = key r \<Longrightarrow> key (merge x r) = key r"
  shows "unique_keys key rows \<Longrightarrow> unique_keys key (upsert_all key merge mk rs rows)"
proof (induction rs arbitrary: rows)
  case (Cons r rs)
  then have "unique_keys key (upsert key merge (mk r) rows)"
    using assms by (intro unique_upsert) simp_all
  from Cons.IH [OF this] show ?case by (simp add: upsert_all_def)
qed (simp add: upsert_all_def)

end
