(* ===== verification/Power_DB.thy ===== *)
theory Power_DB
  imports Power_Model DB_Tables
begin

text \<open>
  The part of PostgreSQL and \<open>database/sql\<close> that \<open>internal/store\<close> uses.  A table is the list of
  its rows with a primary key; a transaction works on its own copy of the tables and the
  deferred \<open>Rollback\<close> drops that copy unless \<open>Commit\<close> has succeeded.  Which calls of the driver
  fail, and with which error, is the argument \<open>pg\<close>.  The collation of \<open>ORDER BY\<close> is the
  bytewise one; instants are taken at the resolution of a \<open>timestamptz\<close> column.
\<close>

section \<open>Failing calls\<close>

text \<open>One label per call of the driver, of the query builder or of the random source.\<close>

datatype db_call =
    DbBegin | DbCommit | DbSearchPath | DbBuild
  | DbUpsertEndpoint string | DbUpsertLink string
  | DbDeleteLinks | DbDeleteEndpoints | DbRowsAffected
  | DbQuery | DbCount | DbScan nat | DbRowsErr
  | DbInsertTransition | DbInsertTask nat | DbUpdate
  | DbRandom nat | DbMarshal nat | DbOutbox nat
  | DbReread

record pg =
  pg_fault :: "db_call \<Rightarrow> go_error option"
  pg_constraint :: "string \<Rightarrow> go_error"

definition no_faults :: pg where
  "no_faults = \<lparr>pg_fault = (\<lambda>_. None), pg_constraint = ErrText\<rparr>"

lemma no_faults_simps [simp]:
  "pg_fault no_faults c = None"
  "pg_constraint no_faults s = ErrText s"
  by (simp_all add: no_faults_def)

section \<open>Transactions\<close>

type_synonym ('a, 't) tx = "'t \<Rightarrow> (go_error + 'a) \<times> 't"

definition tx_return :: "'a \<Rightarrow> ('a, 't) tx" where
  "tx_return a t = (Inr a, t)"

definition tx_fail :: "go_error \<Rightarrow> ('a, 't) tx" where
  "tx_fail e t = (Inl e, t)"

definition tx_bind :: "('a, 't) tx \<Rightarrow> ('a \<Rightarrow> ('b, 't) tx) \<Rightarrow> ('b, 't) tx" where
  "tx_bind m f t = (case m t of (Inl e, t') \<Rightarrow> (Inl e, t') | (Inr a, t') \<Rightarrow> f a t')"

text \<open>A call that may fail with a message around the driver's error.\<close>

definition db_try :: "pg \<Rightarrow> db_call \<Rightarrow> string \<Rightarrow> (unit, 't) tx" where
  "db_try pg call msg t =
     (case pg_fault pg call of Some e \<Rightarrow> (Inl (Wrap msg e []), t) | None \<Rightarrow> (Inr (), t))"

definition tx_modify :: "('t \<Rightarrow> 't) \<Rightarrow> (unit, 't) tx" where
  "tx_modify f t = (Inr (), f t)"

fun tx_each :: "('b \<Rightarrow> (unit, 't) tx) \<Rightarrow> 'b list \<Rightarrow> (unit, 't) tx" where
  "tx_each f [] = tx_return ()"
| "tx_each f (x # xs) = tx_bind (f x) (\<lambda>_. tx_each f xs)"

text \<open>\<open>BeginTx\<close>, the body with its deferred \<open>Rollback\<close>, \<open>Commit\<close>.\<close>

definition with_tx :: "pg \<Rightarrow> string \<Rightarrow> string \<Rightarrow> ('a, 't) tx \<Rightarrow> ('a, 't) tx" where
  "with_tx pg beginMsg commitMsg body t =
     (case pg_fault pg DbBegin of
        Some e \<Rightarrow> (Inl (Wrap beginMsg e []), t)
      | None \<Rightarrow>
          (case body t of
             (Inl e, _) \<Rightarrow> (Inl e, t)
           | (Inr a, t') \<Rightarrow>
               (case pg_fault pg DbCommit of
                  Some e \<Rightarrow> (Inl (Wrap commitMsg e []), t)
                | None \<Rightarrow> (Inr a, t'))))"

lemma tx_bind_Inr:
  "tx_bind m f t = (Inr b, t') \<longleftrightarrow> (\<exists>a t1. m t = (Inr a, t1) \<and> f a t1 = (Inr b, t'))"
  by (auto simp: tx_bind_def split: prod.splits sum.splits)

lemma tx_return_Inr [simp]: "tx_return a t = (Inr b, t') \<longleftrightarrow> b = a \<and> t' = t"
  by (auto simp: tx_return_def)

lemma tx_fail_Inr [simp]: "tx_fail e t = (Inr b, t') \<longleftrightarrow> False"
  by (simp add: tx_fail_def)

lemma tx_modify_Inr [simp]: "tx_modify f t = (Inr b, t') \<longleftrightarrow> t' = f t"
  by (auto simp: tx_modify_def)

lemma db_try_Inr [simp]:
  "db_try pg c msg t = (Inr b, t') \<longleftrightarrow> pg_fault pg c = None \<and> t' = t"
  by (auto simp: db_try_def split: option.splits)

lemma with_tx_Inr:
  "with_tx pg bm cm body t = (Inr a, t') \<longleftrightarrow>
   pg_fault pg DbBegin = None \<and> pg_fault pg DbCommit = None \<and> body t = (Inr a, t')"
  by (auto simp: with_tx_def split: option.splits prod.splits sum.splits)

lemma with_tx_Inl: "with_tx pg bm cm body t = (Inl e, t') \<Longrightarrow> t' = t"
  by (auto simp: with_tx_def split: option.splits prod.splits sum.splits)

lemmas tx_success = tx_bind_Inr with_tx_Inr

section \<open>Loops in a transaction\<close>

lemma tx_each_fold:
  assumes "\<And>x t t'. f x t = (Inr (), t') \<Longrightarrow> t' = g x t"
  shows "tx_each f xs t = (Inr (), t') \<Longrightarrow> t' = fold g xs t"
proof (induction xs arbitrary: t)
  case (Cons x xs)
  then obtain t1 where "f x t = (Inr (), t1)" "tx_each f xs t1 = (Inr (), t')"
    by (auto simp: tx_bind_Inr)
  with Cons.IH assms show ?case by fastforce
qed simp

section \<open>Reading rows\<close>

text \<open>
  \<open>for rows.Next() { if err := rows.Scan(...); err != nil { return scanning error } ... }\<close>
  followed by the check of \<open>rows.Err()\<close>: the rows read, or the wrapped error of the first
  failing call.
\<close>

definition read_rows :: "pg \<Rightarrow> (go_error \<Rightarrow> go_error) \<Rightarrow> string \<Rightarrow> 'r list \<Rightarrow> go_error + 'r list" where
  "read_rows pg scanErr rowsMsg rows =
     (case find (\<lambda>i. pg_fault pg (DbScan i) \<noteq> None) [0..<length rows] of
        Some i \<Rightarrow> Inl (scanErr (the (pg_fault pg (DbScan i))))
      | None \<Rightarrow>
          (case pg_fault pg DbRowsErr of
             Some e \<Rightarrow> Inl (Wrap rowsMsg e [])
           | None \<Rightarrow> Inr rows))"

lemma read_rows_Inr: "read_rows pg f m rows = Inr rs \<Longrightarrow> rs = rows"
  by (auto simp: read_rows_def split: option.splits)

lemma read_rows_no_faults [simp]: "read_rows no_faults f m rows = Inr rows"
  by (simp add: read_rows_def find_None_iff split: option.split)

text \<open>\<open>rowsAffectedAsInt\<close>: \<open>affected\<close> is the count of the driver.\<close>

definition rowsAffectedAsInt :: "pg \<Rightarrow> int \<Rightarrow> string \<Rightarrow> (int, 't) tx" where
  "rowsAffectedAsInt pg affected label =
     tx_bind (db_try pg DbRowsAffected (''reading rows affected for '' @ label @ '': ''))
       (\<lambda>_. tx_return (if affected < 0 then 0 else affected))"

lemma rowsAffectedAsInt_Inr:
  "0 \<le> n \<Longrightarrow> rowsAffectedAsInt pg n l t = (Inr k, t') \<longleftrightarrow>
    pg_fault pg DbRowsAffected = None \<and> k = n \<and> t' = t"
  by (auto simp: rowsAffectedAsInt_def tx_bind_Inr)

end
