(* ===== verification/Power_Store_Mapping.thy ===== *)
theory Power_Store_Mapping
  imports Power_DB
begin

text \<open>
  \<open>internal/store/postgres_mapping.go\<close> over the tables \<open>power.bmc_endpoints\<close> and
  \<open>power.node_bmc_links\<close>: replacing the topology, resolving the mapping of nodes, listing rows.
  The foreign key from links to endpoints, with its \<open>ON DELETE CASCADE\<close>, is that of
  \<open>migrations/postgres/000001_init.up.sql\<close>.
\<close>

record map_tables =
  t_endpoints :: "BMCEndpoint list"
  t_links :: "NodeBMCLink list"

definition map_tables_ok :: "map_tables \<Rightarrow> bool" where
  "map_tables_ok t \<longleftrightarrow>
     unique_keys be_BMCID (t_endpoints t) \<and> unique_keys nl_NodeID (t_links t) \<and>
     nl_BMCID ` set (t_links t) \<subseteq> be_BMCID ` set (t_endpoints t)"

section \<open>Normalisation of the desired topology\<close>

definition clean_endpoint :: "BMCEndpoint \<Rightarrow> (string \<times> BMCEndpoint) option" where
  "clean_endpoint item =
     (let bmcID = trim_space (be_BMCID item); source = trim_space (be_Source item) in
      if bmcID = [] then None
      else Some (bmcID, item\<lparr>be_BMCID := bmcID,
             be_Endpoint := trim_space (be_Endpoint item),
             be_CredentialID := trim_space (be_CredentialID item),
             be_Source := (if source = [] then ''smd'' else source)\<rparr>))"

definition normalizeEndpoints :: "BMCEndpoint list \<Rightarrow> BMCEndpoint list" where
  "normalizeEndpoints items = sorted_values (map_from clean_endpoint items)"

definition clean_link :: "NodeBMCLink \<Rightarrow> (string \<times> NodeBMCLink) option" where
  "clean_link item =
     (let nodeID = trim_space (nl_NodeID item); bmcID = trim_space (nl_BMCID item);
          source = trim_space (nl_Source item) in
      if nodeID = [] \<or> bmcID = [] then None
      else Some (nodeID, item\<lparr>nl_NodeID := nodeID, nl_BMCID := bmcID,
             nl_Source := (if source = [] then ''smd'' else source)\<rparr>))"

definition normalizeLinks :: "NodeBMCLink list \<Rightarrow> NodeBMCLink list" where
  "normalizeLinks items = sorted_values (map_from clean_link items)"

text \<open>The first result keeps duplicates, the second is the query's.\<close>

definition store_normalizeNodeIDs :: "string list \<Rightarrow> string list \<times> string list" where
  "store_normalizeNodeIDs nodeIDs = (trim_list nodeIDs, uniq_trim [] nodeIDs)"

section \<open>Replacing the topology\<close>

definition endpoint_row :: "time \<Rightarrow> BMCEndpoint \<Rightarrow> BMCEndpoint" where
  "endpoint_row syncedAt e =
     e\<lparr>be_LastSyncedAt := syncedAt, be_CreatedAt := syncedAt, be_UpdatedAt := syncedAt\<rparr>"

definition endpoint_conflict :: "BMCEndpoint \<Rightarrow> BMCEndpoint \<Rightarrow> BMCEndpoint" where
  "endpoint_conflict old new =
     old\<lparr>be_Endpoint := be_Endpoint new, be_CredentialID := be_CredentialID new,
         be_InsecureSkipVerify := be_InsecureSkipVerify new, be_Source := be_Source new,
         be_LastSyncedAt := be_LastSyncedAt new, be_UpdatedAt := be_UpdatedAt new\<rparr>"

definition upsert_endpoint :: "pg \<Rightarrow> time \<Rightarrow> BMCEndpoint \<Rightarrow> (unit, map_tables) tx" where
  "upsert_endpoint pg syncedAt e =
     tx_bind (db_try pg DbBuild ''building endpoint upsert query: '') (\<lambda>_.
     tx_bind (db_try pg (DbUpsertEndpoint (be_BMCID e))
               (''upserting endpoint '' @ go_quote (be_BMCID e) @ '': '')) (\<lambda>_.
     tx_modify (\<lambda>t. t\<lparr>t_endpoints :=
       upsert be_BMCID endpoint_conflict (endpoint_row syncedAt e) (t_endpoints t)\<rparr>)))"

definition link_row :: "time \<Rightarrow> NodeBMCLink \<Rightarrow> NodeBMCLink" where
  "link_row syncedAt l =
     l\<lparr>nl_LastSyncedAt := syncedAt, nl_CreatedAt := syncedAt, nl_UpdatedAt := syncedAt\<rparr>"

definition link_conflict :: "NodeBMCLink \<Rightarrow> NodeBMCLink \<Rightarrow> NodeBMCLink" where
  "link_conflict old new =
     old\<lparr>nl_BMCID := nl_BMCID new, nl_Source := nl_Source new,
         nl_LastSyncedAt := nl_LastSyncedAt new, nl_UpdatedAt := nl_UpdatedAt new\<rparr>"

text \<open>The insert fails when the BMC has no endpoint row (the foreign key).\<close>

definition upsert_link :: "pg \<Rightarrow> time \<Rightarrow> NodeBMCLink \<Rightarrow> (unit, map_tables) tx" where
  "upsert_link pg syncedAt l =
     (let msg = ''upserting link for node '' @ go_quote (nl_NodeID l) @ '': '' in
      tx_bind (db_try pg DbBuild ''building link upsert query: '') (\<lambda>_.
      tx_bind (db_try pg (DbUpsertLink (nl_NodeID l)) msg) (\<lambda>_ t.
        if row_of be_BMCID (t_endpoints t) (nl_BMCID l) = None
        then (Inl (Wrap msg (pg_constraint pg ''node_bmc_links_bmc_id_fkey'') []), t)
        else (Inr (), t\<lparr>t_links :=
          upsert nl_NodeID link_conflict (link_row syncedAt l) (t_links t)\<rparr>))))"

definition deleteStaleLinks :: "pg \<Rightarrow> NodeBMCLink list \<Rightarrow> (int, map_tables) tx" where
  "deleteStaleLinks pg desiredLinks =
     tx_bind (db_try pg DbBuild ''building stale-link delete query: '') (\<lambda>_.
     tx_bind (db_try pg DbDeleteLinks ''deleting stale node links: '') (\<lambda>_ t.
       let keep = (\<lambda>l. nl_NodeID l \<in> nl_NodeID ` set desiredLinks);
           kept = filter keep (t_links t)
       in rowsAffectedAsInt pg (int (length (t_links t)) - int (length kept))
            ''stale node links'' (t\<lparr>t_links := kept\<rparr>)))"

definition deleteStaleEndpoints :: "pg \<Rightarrow> BMCEndpoint list \<Rightarrow> (int, map_tables) tx" where
  "deleteStaleEndpoints pg desiredEndpoints =
     tx_bind (db_try pg DbBuild ''building stale-endpoint delete query: '') (\<lambda>_.
     tx_bind (db_try pg DbDeleteEndpoints ''deleting stale BMC endpoints: '') (\<lambda>_ t.
       let keep = (\<lambda>b. b \<in> be_BMCID ` set desiredEndpoints);
           kept = filter (\<lambda>e. keep (be_BMCID e)) (t_endpoints t);
           cascaded = filter (\<lambda>l. keep (nl_BMCID l)) (t_links t)
       in rowsAffectedAsInt pg (int (length (t_endpoints t)) - int (length kept))
            ''stale BMC endpoints'' (t\<lparr>t_endpoints := kept, t_links := cascaded\<rparr>)))"

definition ReplaceTopologyMappings ::
    "pg \<Rightarrow> BMCEndpoint list \<Rightarrow> NodeBMCLink list \<Rightarrow> time \<Rightarrow> (MappingApplyCounts, map_tables) tx" where
  "ReplaceTopologyMappings pg endpoints links syncedAt =
     (let cleanEndpoints = normalizeEndpoints endpoints;
          cleanLinks = normalizeLinks links in
      with_tx pg ''starting mapping transaction: '' ''committing mapping transaction: ''
        (tx_bind (tx_each (upsert_endpoint pg syncedAt) cleanEndpoints) (\<lambda>_.
         tx_bind (tx_each (upsert_link pg syncedAt) cleanLinks) (\<lambda>_.
         tx_bind (deleteStaleLinks pg cleanLinks) (\<lambda>deletedLinks.
         tx_bind (deleteStaleEndpoints pg cleanEndpoints) (\<lambda>deletedEndpoints.
         tx_return \<lparr>EndpointsUpserted = int (length cleanEndpoints),
                    EndpointsDeleted = deletedEndpoints,
                    LinksUpserted = int (length cleanLinks),
                    LinksDeleted = deletedLinks\<rparr>))))))"

section \<open>Resolving and listing\<close>

definition mapping_rows :: "map_tables \<Rightarrow> string list \<Rightarrow> NodePowerMapping list" where
  "mapping_rows t queryNodes =
     [\<lparr>pm_NodeID = nl_NodeID l, pm_BMCID = nl_BMCID l, pm_Endpoint = be_Endpoint e,
       pm_CredentialID = be_CredentialID e, pm_InsecureSkipVerify = be_InsecureSkipVerify e\<rparr>.
      l \<leftarrow> t_links t, e \<leftarrow> t_endpoints t,
      be_BMCID e = nl_BMCID l \<and> nl_NodeID l \<in> set queryNodes]"

fun sort_mappings ::
    "(string \<Rightarrow> NodePowerMapping option) \<Rightarrow> string list
     \<Rightarrow> NodePowerMapping list \<times> NodeMappingError list" where
  "sort_mappings byNode [] = ([], [])"
| "sort_mappings byNode (nodeID # rest) =
     (let (resolved, missing) = sort_mappings byNode rest in
      case byNode nodeID of
        None \<Rightarrow> (resolved, MissingNodeMappingError nodeID # missing)
      | Some row \<Rightarrow>
          if trim_space (pm_Endpoint row) = []
          then (resolved, MissingEndpointError nodeID (pm_BMCID row) # missing)
          else if trim_space (pm_CredentialID row) = []
          then (resolved, MissingCredentialError nodeID (pm_BMCID row) # missing)
          else (row # resolved, missing))"

definition ResolveNodeMappings ::
    "pg \<Rightarrow> map_tables \<Rightarrow> string list
     \<Rightarrow> go_error + (NodePowerMapping list \<times> NodeMappingError list)" where
  "ResolveNodeMappings pg t nodeIDs =
     (let (requestedNodes, queryNodes) = store_normalizeNodeIDs nodeIDs in
      if requestedNodes = [] then Inr ([], [])
      else
        (case pg_fault pg DbBuild of
           Some e \<Rightarrow> Inl (Wrap ''building mapping resolve query: '' e [])
         | None \<Rightarrow>
        (case pg_fault pg DbQuery of
           Some e \<Rightarrow> Inl (Wrap ''querying node mappings: '' e [])
         | None \<Rightarrow>
        (case read_rows pg (\<lambda>e. Wrap ''scanning mapping row: '' e [])
                ''iterating mapping rows: '' (mapping_rows t queryNodes) of
           Inl e \<Rightarrow> Inl e
         | Inr rows \<Rightarrow>
             Inr (sort_mappings (row_of pm_NodeID (rev rows)) requestedNodes)))))"

definition ListBMCEndpoints :: "pg \<Rightarrow> map_tables \<Rightarrow> go_error + BMCEndpoint list" where
  "ListBMCEndpoints pg t =
     (case pg_fault pg DbBuild of
        Some e \<Rightarrow> Inl (Wrap ''building list BMC endpoints query: '' e [])
      | None \<Rightarrow>
     (case pg_fault pg DbQuery of
        Some e \<Rightarrow> Inl (Wrap ''listing BMC endpoints: '' e [])
      | None \<Rightarrow>
         read_rows pg (\<lambda>e. Wrap ''scanning BMC endpoint row: '' e [])
           ''iterating BMC endpoint rows: '' (sort_key be_BMCID (t_endpoints t))))"

definition ListNodeBMCLinks :: "pg \<Rightarrow> map_tables \<Rightarrow> go_error + NodeBMCLink list" where
  "ListNodeBMCLinks pg t =
     (case pg_fault pg DbBuild of
        Some e \<Rightarrow> Inl (Wrap ''building list node links query: '' e [])
      | None \<Rightarrow>
     (case pg_fault pg DbQuery of
        Some e \<Rightarrow> Inl (Wrap ''listing node links: '' e [])
      | None \<Rightarrow>
         read_rows pg (\<lambda>e. Wrap ''scanning node link row: '' e [])
           ''iterating node link rows: '' (sort_key nl_NodeID (t_links t))))"

section \<open>Lemmas on normalisation\<close>

lemma clean_endpoint_key: "clean_endpoint x = Some (k, e) \<Longrightarrow> be_BMCID e = k \<and> k \<noteq> []"
  by (auto simp: clean_endpoint_def Let_def split: if_splits)

lemma clean_link_key:
  "clean_link x = Some (k, l) \<Longrightarrow> nl_NodeID l = k \<and> k \<noteq> [] \<and> nl_BMCID l \<noteq> []"
  by (auto simp: clean_link_def Let_def split: if_splits)

lemma normalizeEndpoints_keys:
  "map be_BMCID (normalizeEndpoints es) = sorted_keys (map_from clean_endpoint es)"
  unfolding normalizeEndpoints_def
  by (rule sorted_values_keys) (metis map_of_map_from_SomeD clean_endpoint_key)

lemma normalizeLinks_keys:
  "map nl_NodeID (normalizeLinks ls) = sorted_keys (map_from clean_link ls)"
  unfolding normalizeLinks_def
  by (rule sorted_values_keys) (metis map_of_map_from_SomeD clean_link_key)

lemma normalized_unique:
  "unique_keys be_BMCID (normalizeEndpoints es)" "unique_keys nl_NodeID (normalizeLinks ls)"
  by (simp_all add: unique_keys_def normalizeEndpoints_keys normalizeLinks_keys
      distinct_sorted_keys)

lemma normalized_sorted:
  "sorted (map be_BMCID (normalizeEndpoints es))" "sorted (map nl_NodeID (normalizeLinks ls))"
  by (simp_all add: normalizeEndpoints_keys normalizeLinks_keys)

lemma normalizeEndpoints_row:
  "row_of be_BMCID (normalizeEndpoints es) k = map_of (map_from clean_endpoint es) k"
  unfolding normalizeEndpoints_def row_of_def
  by (rule find_sorted_values) (metis map_of_map_from_SomeD clean_endpoint_key)

lemma normalizeLinks_row:
  "row_of nl_NodeID (normalizeLinks ls) k = map_of (map_from clean_link ls) k"
  unfolding normalizeLinks_def row_of_def
  by (rule find_sorted_values) (metis map_of_map_from_SomeD clean_link_key)

section \<open>Lemmas on the transaction\<close>

lemma endpoint_row_key [simp]: "be_BMCID (endpoint_row s e) = be_BMCID e"
  by (simp add: endpoint_row_def)

lemma endpoint_conflict_key [simp]: "be_BMCID (endpoint_conflict x r) = be_BMCID x"
  by (simp add: endpoint_conflict_def)

lemma link_row_key [simp]: "nl_NodeID (link_row s l) = nl_NodeID l" "nl_BMCID (link_row s l) = nl_BMCID l"
  by (simp_all add: link_row_def)

lemma link_conflict_key [simp]:
  "nl_NodeID (link_conflict x r) = nl_NodeID x" "nl_BMCID (link_conflict x r) = nl_BMCID r"
  by (simp_all add: link_conflict_def)

abbreviation upserted_endpoints where "upserted_endpoints s es rows \<equiv>
  upsert_all be_BMCID endpoint_conflict (endpoint_row s) es rows"

abbreviation upserted_links where "upserted_links s ls rows \<equiv>
  upsert_all nl_NodeID link_conflict (link_row s) ls rows"

lemma endpoints_phase:
  assumes "tx_each (upsert_endpoint pg s) es t = (Inr (), t')"
  shows "t' = t\<lparr>t_endpoints := upserted_endpoints s es (t_endpoints t)\<rparr>"
proof -
  have "t' = fold (\<lambda>e t. t\<lparr>t_endpoints :=
      upsert be_BMCID endpoint_conflict (endpoint_row s e) (t_endpoints t)\<rparr>) es t"
    by (rule tx_each_fold [OF _ assms]) (auto simp: upsert_endpoint_def tx_bind_Inr)
  also have "\<dots> = t\<lparr>t_endpoints := upserted_endpoints s es (t_endpoints t)\<rparr>"
    by (induction es arbitrary: t) (simp_all add: upsert_all_def)
  finally show ?thesis .
qed

lemma links_phase:
  assumes "tx_each (upsert_link pg s) ls t = (Inr (), t')"
  shows "t' = t\<lparr>t_links := upserted_links s ls (t_links t)\<rparr> \<and>
    nl_BMCID ` set ls \<subseteq> be_BMCID ` set (t_endpoints t)"
proof -
  have "t' = fold (\<lambda>l t. t\<lparr>t_links :=
      upsert nl_NodeID link_conflict (link_row s l) (t_links t)\<rparr>) ls t"
    by (rule tx_each_fold [OF _ assms])
      (auto simp: upsert_link_def Let_def tx_bind_Inr split: if_splits)
  also have "\<dots> = t\<lparr>t_links := upserted_links s ls (t_links t)\<rparr>"
    by (induction ls arbitrary: t) (simp_all add: upsert_all_def)
  finally have "t' = t\<lparr>t_links := upserted_links s ls (t_links t)\<rparr>" .
  moreover have "nl_BMCID ` set ls \<subseteq> be_BMCID ` set (t_endpoints t)"
    using assms
  proof (induction ls arbitrary: t)
    case (Cons l ls)
    then obtain t1 where "upsert_link pg s l t = (Inr (), t1)"
        and "tx_each (upsert_link pg s) ls t1 = (Inr (), t')"
      by (auto simp: tx_bind_Inr)
    moreover from this(1) have "t_endpoints t1 = t_endpoints t"
        and "row_of be_BMCID (t_endpoints t) (nl_BMCID l) \<noteq> None"
      by (auto simp: upsert_link_def Let_def tx_bind_Inr split: if_splits)
    ultimately show ?case
      using Cons.IH [of t1] row_of_None [of be_BMCID "t_endpoints t" "nl_BMCID l"] by auto
  qed simp
  ultimately show ?thesis by simp
qed

lemma filter_count_nonneg: "0 \<le> int (length xs) - int (length (filter P xs))"
  using length_filter_le [of P xs] by simp

lemma deleteStaleLinks_Inr:
  "deleteStaleLinks pg ls t = (Inr n, t') \<Longrightarrow>
   t' = t\<lparr>t_links := filter (\<lambda>l. nl_NodeID l \<in> nl_NodeID ` set ls) (t_links t)\<rparr> \<and>
   n = int (length (t_links t)) - int (length (t_links t'))"
  by (auto simp: deleteStaleLinks_def Let_def tx_bind_Inr rowsAffectedAsInt_Inr
      filter_count_nonneg)

lemma deleteStaleEndpoints_Inr:
  "deleteStaleEndpoints pg es t = (Inr n, t') \<Longrightarrow>
   t' = t\<lparr>t_endpoints := filter (\<lambda>e. be_BMCID e \<in> be_BMCID ` set es) (t_endpoints t),
          t_links := filter (\<lambda>l. nl_BMCID l \<in> be_BMCID ` set es) (t_links t)\<rparr> \<and>
   n = int (length (t_endpoints t)) - int (length (t_endpoints t'))"
  by (auto simp: deleteStaleEndpoints_def Let_def tx_bind_Inr rowsAffectedAsInt_Inr
      filter_count_nonneg)

text \<open>The tables a successful reconciliation leaves.\<close>

lemma ReplaceTopologyMappings_tables:
  assumes "ReplaceTopologyMappings pg es ls s t = (Inr counts, t')"
  shows "t_endpoints t' = filter (\<lambda>e. be_BMCID e \<in> be_BMCID ` set (normalizeEndpoints es))
      (upserted_endpoints s (normalizeEndpoints es) (t_endpoints t)) \<and>
    t_links t' = filter (\<lambda>l. nl_BMCID l \<in> be_BMCID ` set (normalizeEndpoints es))
      (filter (\<lambda>l. nl_NodeID l \<in> nl_NodeID ` set (normalizeLinks ls))
        (upserted_links s (normalizeLinks ls) (t_links t))) \<and>
    EndpointsUpserted counts = int (length (normalizeEndpoints es)) \<and>
    LinksUpserted counts = int (length (normalizeLinks ls))"
proof -
  from assms obtain t1 t2 t3 n1 n2 where
    "tx_each (upsert_endpoint pg s) (normalizeEndpoints es) t = (Inr (), t1)"
    "tx_each (upsert_link pg s) (normalizeLinks ls) t1 = (Inr (), t2)"
    "deleteStaleLinks pg (normalizeLinks ls) t2 = (Inr n1, t3)"
    "deleteStaleEndpoints pg (normalizeEndpoints es) t3 = (Inr n2, t')"
    "EndpointsUpserted counts = int (length (normalizeEndpoints es))"
    "LinksUpserted counts = int (length (normalizeLinks ls))"
    by (auto simp: ReplaceTopologyMappings_def Let_def tx_success)
  with endpoints_phase [OF this(1)] links_phase [OF this(2)] deleteStaleLinks_Inr [OF this(3)]
    deleteStaleEndpoints_Inr [OF this(4)]
  show ?thesis by simp
qed

section \<open>The abstract topology\<close>

text \<open>
  What the two tables promise: a map from BMC IDs to endpoints and one from node IDs to links.
  A reconciliation replaces both by the desired ones, keeping the creation time of known keys;
  a link survives only if its BMC is one of the desired endpoints.
\<close>

definition topology ::
    "map_tables \<Rightarrow> (string \<Rightarrow> BMCEndpoint option) \<times> (string \<Rightarrow> NodeBMCLink option)" where
  "topology t = (row_of be_BMCID (t_endpoints t), row_of nl_NodeID (t_links t))"

definition replaced_topology ::
    "BMCEndpoint list \<Rightarrow> NodeBMCLink list \<Rightarrow> time
     \<Rightarrow> (string \<Rightarrow> BMCEndpoint option) \<times> (string \<Rightarrow> NodeBMCLink option)
     \<Rightarrow> (string \<Rightarrow> BMCEndpoint option) \<times> (string \<Rightarrow> NodeBMCLink option)" where
  "replaced_topology es ls s old =
     ((\<lambda>k. case row_of be_BMCID es k of
         None \<Rightarrow> None
       | Some e \<Rightarrow> Some (case fst old k of
           None \<Rightarrow> endpoint_row s e | Some r \<Rightarrow> endpoint_conflict r (endpoint_row s e))),
      (\<lambda>k. case row_of nl_NodeID ls k of
         None \<Rightarrow> None
       | Some l \<Rightarrow>
           if row_of be_BMCID es (nl_BMCID l) = None then None
           else Some (case snd old k of
             None \<Rightarrow> link_row s l | Some r \<Rightarrow> link_conflict r (link_row s l))))"

lemma ReplaceTopologyMappings_topology:
  assumes ok: "map_tables_ok t" and run: "ReplaceTopologyMappings pg es ls s t = (Inr c, t')"
  shows "topology t' =
    replaced_topology (normalizeEndpoints es) (normalizeLinks ls) s (topology t)"
proof -
  let ?E = "normalizeEndpoints es" and ?L = "normalizeLinks ls"
  note tab = ReplaceTopologyMappings_tables [OF run]
  have e: "row_of be_BMCID (t_endpoints t') k =
      fst (replaced_topology ?E ?L s (topology t)) k" for k
  proof -
    have "row_of be_BMCID (t_endpoints t') k =
        (if k \<in> be_BMCID ` set ?E then row_of be_BMCID (upserted_endpoints s ?E (t_endpoints t)) k
         else None)"
      unfolding tab [THEN conjunct1] by (rule row_of_filter)
    then show ?thesis
      using row_of_None [of be_BMCID ?E k]
      by (auto simp: replaced_topology_def topology_def row_of_upsert_all normalized_unique
          split: option.split)
  qed
  have l: "row_of nl_NodeID (t_links t') k =
      snd (replaced_topology ?E ?L s (topology t)) k" for k
  proof -
    let ?U = "upserted_links s ?L (t_links t)"
    have u: "unique_keys nl_NodeID ?U"
      using ok by (intro unique_upsert_all) (simp_all add: map_tables_ok_def)
    have "row_of nl_NodeID (t_links t') k =
        (case row_of nl_NodeID (filter (\<lambda>l. nl_NodeID l \<in> nl_NodeID ` set ?L) ?U) k of
           None \<Rightarrow> None
         | Some r \<Rightarrow> if nl_BMCID r \<in> be_BMCID ` set ?E then Some r else None)"
      using tab row_of_filter_unique [OF unique_filter [OF u]] by simp
    also have "row_of nl_NodeID (filter (\<lambda>l. nl_NodeID l \<in> nl_NodeID ` set ?L) ?U) k =
        (if k \<in> nl_NodeID ` set ?L then row_of nl_NodeID ?U k else None)"
      by (rule row_of_filter)
    finally show ?thesis
      using row_of_None [of nl_NodeID ?L k] row_of_None [of be_BMCID ?E]
      by (auto simp: replaced_topology_def topology_def row_of_upsert_all normalized_unique
          split: option.split)
  qed
  from e l show ?thesis by (auto simp: topology_def prod_eq_iff)
qed

lemma ReplaceTopologyMappings_ok:
  assumes ok: "map_tables_ok t" and run: "ReplaceTopologyMappings pg es ls s t = (Inr c, t')"
  shows "map_tables_ok t'"
proof -
  let ?E = "normalizeEndpoints es"
  note tab = ReplaceTopologyMappings_tables [OF run]
  have "unique_keys be_BMCID (t_endpoints t')" "unique_keys nl_NodeID (t_links t')"
    using tab ok by (simp_all add: unique_filter unique_upsert_all map_tables_ok_def)
  moreover have "nl_BMCID ` set (t_links t') \<subseteq> be_BMCID ` set (t_endpoints t')"
  proof
    fix b assume "b \<in> nl_BMCID ` set (t_links t')"
    then have "b \<in> be_BMCID ` set ?E" using tab by auto
    then have "row_of be_BMCID (t_endpoints t') b \<noteq> None"
      using ReplaceTopologyMappings_topology [OF ok run] row_of_None [of be_BMCID ?E b]
      by (auto simp: topology_def replaced_topology_def)
    then show "b \<in> be_BMCID ` set (t_endpoints t')" by (simp add: row_of_None)
  qed
  ultimately show ?thesis by (simp add: map_tables_ok_def)
qed

section \<open>The resolver interface\<close>

text \<open>
  What the runner and the HTTP handlers rely on: every requested node is answered, as routable
  or as an actionable error, and never as both.
\<close>

locale node_resolver =
  fixes resolve :: "'d \<Rightarrow> string list
    \<Rightarrow> go_error + (NodePowerMapping list \<times> NodeMappingError list)"
  assumes answered: "resolve d ns = Inr (ms, es) \<Longrightarrow>
      pm_NodeID ` set ms \<union> me_NodeID ` set es = nonblank ns"
    and exclusive: "resolve d ns = Inr (ms, es) \<Longrightarrow>
      pm_NodeID ` set ms \<inter> me_NodeID ` set es = {}"
    and routable: "resolve d ns = Inr (ms, es) \<Longrightarrow> m \<in> set ms \<Longrightarrow>
      trim_space (pm_Endpoint m) \<noteq> [] \<and> trim_space (pm_CredentialID m) \<noteq> []"
begin

lemma not_missing_mapped:
  assumes "resolve d ns = Inr (ms, es)" and "n \<in> nonblank ns" and "n \<notin> me_NodeID ` set es"
  shows "\<exists>m \<in> set ms. pm_NodeID m = n"
  using answered [OF assms(1)] assms(2,3) by (metis Un_iff imageE)

lemma mapped_not_missing:
  "resolve d ns = Inr (ms, es) \<Longrightarrow> m \<in> set ms \<Longrightarrow> pm_NodeID m \<notin> me_NodeID ` set es"
  using exclusive by blast

lemma answers_trimmed:
  assumes "resolve d ns = Inr (ms, es)"
  shows "m \<in> set ms \<Longrightarrow> trim_space (pm_NodeID m) = pm_NodeID m"
    and "e \<in> set es \<Longrightarrow> trim_space (me_NodeID e) = me_NodeID e"
  using answered [OF assms] nonblank_trimmed by blast+

lemma nothing_requested: "nonblank ns = {} \<Longrightarrow> resolve d ns = Inr (ms, es) \<Longrightarrow> ms = [] \<and> es = []"
  using answered by fastforce

end

lemma sort_mappings_spec:
  assumes "sort_mappings (row_of pm_NodeID rows) ns = (ms, es)"
    and "\<And>n. n \<in> set ns \<Longrightarrow> trim_space n = n"
  shows "pm_NodeID ` set ms \<union> me_NodeID ` set es = set ns \<and>
    (\<forall>m \<in> set ms. row_of pm_NodeID rows (pm_NodeID m) = Some m \<and>
      trim_space (pm_Endpoint m) \<noteq> [] \<and> trim_space (pm_CredentialID m) \<noteq> []) \<and>
    (\<forall>e \<in> set es. case row_of pm_NodeID rows (me_NodeID e) of
        None \<Rightarrow> True
      | Some m \<Rightarrow> trim_space (pm_Endpoint m) = [] \<or> trim_space (pm_CredentialID m) = []) \<and>
    length ms + length es = length ns"
  using assms
proof (induction ns arbitrary: ms es)
  case (Cons n ns)
  obtain ms0 es0 where r: "sort_mappings (row_of pm_NodeID rows) ns = (ms0, es0)"
    by fastforce
  have IH: "pm_NodeID ` set ms0 \<union> me_NodeID ` set es0 = set ns \<and>
    (\<forall>m \<in> set ms0. row_of pm_NodeID rows (pm_NodeID m) = Some m \<and>
      trim_space (pm_Endpoint m) \<noteq> [] \<and> trim_space (pm_CredentialID m) \<noteq> []) \<and>
    (\<forall>e \<in> set es0. case row_of pm_NodeID rows (me_NodeID e) of
        None \<Rightarrow> True
      | Some m \<Rightarrow> trim_space (pm_Endpoint m) = [] \<or> trim_space (pm_CredentialID m) = []) \<and>
    length ms0 + length es0 = length ns"
    by (rule Cons.IH [OF r]) (rule Cons.prems(2), simp)
  have n: "trim_space n = n" by (rule Cons.prems(2)) simp
  show ?case
  proof (cases "row_of pm_NodeID rows n")
    case None
    with Cons.prems(1) r have "ms = ms0" "es = MissingNodeMappingError n # es0" by auto
    with IH n None show ?thesis by auto
  next
    case (Some row)
    then have row: "pm_NodeID row = n" by (blast dest: row_of_SomeD)
    consider "trim_space (pm_Endpoint row) = []" "ms = ms0"
        "es = MissingEndpointError n (pm_BMCID row) # es0"
      | "trim_space (pm_CredentialID row) = []" "ms = ms0"
        "es = MissingCredentialError n (pm_BMCID row) # es0"
      | "trim_space (pm_Endpoint row) \<noteq> []" "trim_space (pm_CredentialID row) \<noteq> []"
        "ms = row # ms0" "es = es0"
      using Cons.prems(1) r Some by (auto split: if_splits)
    then show ?thesis using IH n row Some by cases auto
  qed
qed simp

lemma ResolveNodeMappings_cases:
  assumes "ResolveNodeMappings pg t ns = Inr (ms, es)"
  shows "sort_mappings (row_of pm_NodeID (rev (mapping_rows t (uniq_trim [] ns)))) (trim_list ns)
    = (ms, es)"
  using assms
  by (auto simp: ResolveNodeMappings_def store_normalizeNodeIDs_def
      split: if_splits option.splits sum.splits dest: read_rows_Inr)

lemma trim_list_trimmed: "n \<in> set (trim_list ns) \<Longrightarrow> trim_space n = n"
  using nonblank_trimmed by simp

lemma ResolveNodeMappings_spec:
  assumes "ResolveNodeMappings pg t ns = Inr (ms, es)"
  defines "rows \<equiv> rev (mapping_rows t (uniq_trim [] ns))"
  shows "pm_NodeID ` set ms \<union> me_NodeID ` set es = nonblank ns \<and>
    (\<forall>m \<in> set ms. row_of pm_NodeID rows (pm_NodeID m) = Some m \<and>
      trim_space (pm_Endpoint m) \<noteq> [] \<and> trim_space (pm_CredentialID m) \<noteq> []) \<and>
    (\<forall>e \<in> set es. case row_of pm_NodeID rows (me_NodeID e) of
        None \<Rightarrow> True
      | Some m \<Rightarrow> trim_space (pm_Endpoint m) = [] \<or> trim_space (pm_CredentialID m) = []) \<and>
    length ms + length es = length (trim_list ns)"
  unfolding rows_def set_trim_list [symmetric]
  by (rule sort_mappings_spec [OF ResolveNodeMappings_cases [OF assms(1)]])
    (rule trim_list_trimmed)

interpretation pg_resolver: node_resolver "ResolveNodeMappings pg"
proof
  fix t ns ms es
  assume run: "ResolveNodeMappings pg t ns = Inr (ms, es)"
  note spec = ResolveNodeMappings_spec [OF run]
  show "pm_NodeID ` set ms \<union> me_NodeID ` set es = nonblank ns" using spec by simp
  show "pm_NodeID ` set ms \<inter> me_NodeID ` set es = {}" using spec by fastforce
  show "trim_space (pm_Endpoint m) \<noteq> [] \<and> trim_space (pm_CredentialID m) \<noteq> []" if "m \<in> set ms" for m
    using spec that by blast
qed

section \<open>What a node resolves to\<close>

definition node_route :: "map_tables \<Rightarrow> string \<Rightarrow> NodePowerMapping option" where
  "node_route t n =
     (case snd (topology t) n of
        None \<Rightarrow> None
      | Some l \<Rightarrow>
          map_option (\<lambda>e. \<lparr>pm_NodeID = n, pm_BMCID = nl_BMCID l, pm_Endpoint = be_Endpoint e,
              pm_CredentialID = be_CredentialID e,
              pm_InsecureSkipVerify = be_InsecureSkipVerify e\<rparr>)
            (fst (topology t) (nl_BMCID l)))"

definition route_error :: "string \<Rightarrow> NodePowerMapping option \<Rightarrow> NodeMappingError option" where
  "route_error n r =
     (case r of
        None \<Rightarrow> Some (MissingNodeMappingError n)
      | Some m \<Rightarrow>
          if trim_space (pm_Endpoint m) = [] then Some (MissingEndpointError n (pm_BMCID m))
          else if trim_space (pm_CredentialID m) = []
          then Some (MissingCredentialError n (pm_BMCID m))
          else None)"

definition good_route :: "string \<Rightarrow> NodePowerMapping option \<Rightarrow> NodePowerMapping option" where
  "good_route n r = (if route_error n r = None then r else None)"

lemma map_filter_cong:
  "(\<And>x. x \<in> set xs \<Longrightarrow> f x = g x) \<Longrightarrow> List.map_filter f xs = List.map_filter g xs"
  by (induction xs) (auto split: option.split)

lemma sort_mappings_routes:
  "sort_mappings f ns =
   (List.map_filter (\<lambda>n. good_route n (f n)) ns, List.map_filter (\<lambda>n. route_error n (f n)) ns)"
  by (induction ns)
    (auto simp: List.map_filter_def good_route_def route_error_def split: option.splits if_splits)

lemma concat_singleton_filter:
  assumes "unique_keys key rows"
  shows "concat (map (\<lambda>e. if key e = k \<and> b then [g e] else []) rows) =
    (if b then (case row_of key rows k of None \<Rightarrow> [] | Some e \<Rightarrow> [g e]) else [])"
  using assms
proof (induction rows)
  case (Cons r rs)
  then have "unique_keys key rs" and "row_of key rs (key r) = None"
    by (auto simp: unique_keys_def row_of_None)
  with Cons.IH show ?case by (auto simp: row_of_Cons split: option.split)
qed simp

lemma mapping_rows_ok:
  assumes "map_tables_ok t"
  shows "mapping_rows t ns = List.map_filter
    (\<lambda>l. if nl_NodeID l \<in> set ns then node_route t (nl_NodeID l) else None) (t_links t)"
proof -
  have *: "concat (map (\<lambda>e. if be_BMCID e = nl_BMCID l \<and> nl_NodeID l \<in> set ns
        then [\<lparr>pm_NodeID = nl_NodeID l, pm_BMCID = nl_BMCID l, pm_Endpoint = be_Endpoint e,
          pm_CredentialID = be_CredentialID e,
          pm_InsecureSkipVerify = be_InsecureSkipVerify e\<rparr>] else []) (t_endpoints t)) =
      (case (if nl_NodeID l \<in> set ns then node_route t (nl_NodeID l) else None) of
         None \<Rightarrow> [] | Some m \<Rightarrow> [m])" if "l \<in> set (t_links t)" for l
  proof -
    have "snd (topology t) (nl_NodeID l) = Some l"
      using that assms by (simp add: topology_def map_tables_ok_def row_of_unique)
    moreover have "unique_keys be_BMCID (t_endpoints t)"
      using assms by (simp add: map_tables_ok_def)
    ultimately show ?thesis
      by (simp add: concat_singleton_filter node_route_def topology_def split: option.split)
  qed
  have "concat (map (\<lambda>l. concat (map (\<lambda>e. if be_BMCID e = nl_BMCID l \<and> nl_NodeID l \<in> set ns
        then [\<lparr>pm_NodeID = nl_NodeID l, pm_BMCID = nl_BMCID l, pm_Endpoint = be_Endpoint e,
          pm_CredentialID = be_CredentialID e,
          pm_InsecureSkipVerify = be_InsecureSkipVerify e\<rparr>] else []) (t_endpoints t))) ls) =
      List.map_filter
        (\<lambda>l. if nl_NodeID l \<in> set ns then node_route t (nl_NodeID l) else None) ls"
    if "set ls \<subseteq> set (t_links t)" for ls
    using that
  proof (induction ls)
    case (Cons l ls)
    with * [of l] show ?case by (simp add: map_filter_simps split: option.split)
  qed (simp add: map_filter_simps)
  then show ?thesis by (simp add: mapping_rows_def)
qed

lemma row_of_routes:
  assumes "map_tables_ok t" "n \<in> set ns"
  shows "row_of pm_NodeID (rev (mapping_rows t ns)) n = node_route t n"
proof -
  let ?f = "\<lambda>l. if nl_NodeID l \<in> set ns then node_route t (nl_NodeID l) else None"
  have key: "pm_NodeID m = nl_NodeID l" if "?f l = Some m" for l m
    using that by (auto simp: node_route_def split: if_splits option.splits)
  have row: "row_of pm_NodeID (List.map_filter ?f ls) n = (case row_of nl_NodeID ls n of
      None \<Rightarrow> None | Some l \<Rightarrow> ?f l)" if "unique_keys nl_NodeID ls" for ls
    using that
  proof (induction ls)
    case (Cons l ls)
    then have "unique_keys nl_NodeID ls" "row_of nl_NodeID ls (nl_NodeID l) = None"
      by (auto simp: unique_keys_def row_of_None)
    with Cons.IH key [of l] show ?case
      by (cases "?f l") (auto simp: map_filter_simps row_of_Cons simp del: if_split_asm)
  qed (simp add: map_filter_simps)
  have u: "unique_keys pm_NodeID (List.map_filter ?f ls)" if "unique_keys nl_NodeID ls" for ls
    using that
  proof (induction ls)
    case (Cons l ls)
    then have *: "unique_keys nl_NodeID ls" "nl_NodeID l \<notin> nl_NodeID ` set ls"
      by (auto simp: unique_keys_def)
    have "pm_NodeID ` set (List.map_filter ?f ls) \<subseteq> nl_NodeID ` set ls"
      using key by (force simp: List.map_filter_def)
    with * Cons.IH key [of l] show ?case
      by (cases "?f l") (auto simp: map_filter_simps unique_keys_def)
  qed (simp add: map_filter_simps unique_keys_def)
  have links: "unique_keys nl_NodeID (t_links t)"
    using assms(1) by (simp add: map_tables_ok_def)
  have "row_of pm_NodeID (rev (mapping_rows t ns)) n = row_of pm_NodeID (mapping_rows t ns) n"
  proof (rule option.expand)
    show "(row_of pm_NodeID (rev (mapping_rows t ns)) n = None) =
        (row_of pm_NodeID (mapping_rows t ns) n = None)" by (simp add: row_of_None)
  next
    have um: "unique_keys pm_NodeID (mapping_rows t ns)"
      using u [OF links] by (simp add: mapping_rows_ok [OF assms(1)])
    then have um': "unique_keys pm_NodeID (rev (mapping_rows t ns))"
      by (simp add: unique_keys_def flip: rev_map)
    assume "row_of pm_NodeID (rev (mapping_rows t ns)) n \<noteq> None"
    then obtain m where m: "row_of pm_NodeID (rev (mapping_rows t ns)) n = Some m" by blast
    then have "row_of pm_NodeID (mapping_rows t ns) n = Some m"
      using row_of_iff [OF um] row_of_iff [OF um'] by simp
    with m show "the (row_of pm_NodeID (rev (mapping_rows t ns)) n) =
        the (row_of pm_NodeID (mapping_rows t ns) n)" by simp
  qed
  also have "\<dots> = node_route t n"
    unfolding mapping_rows_ok [OF assms(1)] row [OF links]
  proof (cases "row_of nl_NodeID (t_links t) n")
    case None
    then show "(case row_of nl_NodeID (t_links t) n of
        None \<Rightarrow> None | Some l \<Rightarrow> ?f l) = node_route t n"
      by (simp add: node_route_def topology_def)
  next
    case (Some l)
    then have "nl_NodeID l = n" by (blast dest: row_of_SomeD)
    with Some assms(2) show "(case row_of nl_NodeID (t_links t) n of
        None \<Rightarrow> None | Some l \<Rightarrow> ?f l) = node_route t n" by simp
  qed
  finally show ?thesis .
qed

section \<open>Properties\<close>

text \<open>
  C38. A reconciliation is all or nothing and does what it promises: after an error the tables
  are unchanged; after a success they satisfy their keys and the foreign key, they represent
  the desired topology, and the upsert counts are the numbers of distinct desired rows.
\<close>

theorem ReplaceTopologyMappings_refines:
  assumes "map_tables_ok t"
  shows "case ReplaceTopologyMappings pg es ls s t of
     (Inl e, t') \<Rightarrow> t' = t
   | (Inr c, t') \<Rightarrow>
       map_tables_ok t' \<and>
       topology t' = replaced_topology (normalizeEndpoints es) (normalizeLinks ls) s (topology t) \<and>
       EndpointsUpserted c = int (length (normalizeEndpoints es)) \<and>
       LinksUpserted c = int (length (normalizeLinks ls))"
proof (cases "ReplaceTopologyMappings pg es ls s t")
  case (Pair r t')
  show ?thesis
  proof (cases r)
    case (Inl e)
    then have "t' = t" using Pair with_tx_Inl by (fastforce simp: ReplaceTopologyMappings_def Let_def)
    with Inl Pair show ?thesis by simp
  next
    case (Inr c)
    then have run: "ReplaceTopologyMappings pg es ls s t = (Inr c, t')" using Pair by simp
    show ?thesis
      using ReplaceTopologyMappings_topology [OF assms run]
        ReplaceTopologyMappings_ok [OF assms run] ReplaceTopologyMappings_tables [OF run]
      by (simp add: run)
  qed
qed

lemma ResolveNodeMappings_routes:
  assumes "map_tables_ok t" and "ResolveNodeMappings pg t ns = Inr (ms, es)"
  shows "ms = List.map_filter (\<lambda>n. good_route n (node_route t n)) (trim_list ns) \<and>
    es = List.map_filter (\<lambda>n. route_error n (node_route t n)) (trim_list ns)"
proof -
  let ?row = "row_of pm_NodeID (rev (mapping_rows t (uniq_trim [] ns)))"
  have "?row n = node_route t n" if "n \<in> set (trim_list ns)" for n
    using that by (intro row_of_routes [OF assms(1)]) simp
  then have "List.map_filter (\<lambda>n. good_route n (?row n)) (trim_list ns) =
      List.map_filter (\<lambda>n. good_route n (node_route t n)) (trim_list ns)"
    "List.map_filter (\<lambda>n. route_error n (?row n)) (trim_list ns) =
      List.map_filter (\<lambda>n. route_error n (node_route t n)) (trim_list ns)"
    by (auto intro!: map_filter_cong)
  with ResolveNodeMappings_cases [OF assms(2)] show ?thesis
    by (simp add: sort_mappings_routes)
qed

text \<open>
  C39. Every requested node is answered, in the order of the request and as often as it was
  requested: with its route when the node has a link and its BMC an endpoint and a credential,
  and with the error for the first of these that is missing otherwise.
\<close>

theorem ResolveNodeMappings_exact:
  assumes "map_tables_ok t" and "ResolveNodeMappings pg t ns = Inr (ms, es)"
  shows "ms = List.map_filter (\<lambda>n. good_route n (node_route t n)) (trim_list ns) \<and>
    es = List.map_filter (\<lambda>n. route_error n (node_route t n)) (trim_list ns)"
  by (rule ResolveNodeMappings_routes [OF assms])

definition sample_tables :: map_tables where
  "sample_tables =
     \<lparr>t_endpoints = [\<lparr>be_BMCID = ''b1'', be_Endpoint = ''https://10.0.0.1'',
        be_CredentialID = ''c1'', be_Source = ''smd'', be_InsecureSkipVerify = True,
        be_LastSyncedAt = 5, be_CreatedAt = 5, be_UpdatedAt = 5\<rparr>],
      t_links = [\<lparr>nl_NodeID = ''n1'', nl_BMCID = ''b1'', nl_Source = ''smd'',
        nl_LastSyncedAt = 5, nl_CreatedAt = 5, nl_UpdatedAt = 5\<rparr>]\<rparr>"

lemma sample_tables_ok: "map_tables_ok sample_tables"
  by (simp add: sample_tables_def map_tables_ok_def unique_keys_def)

theorem ReplaceTopologyMappings_refines_witness:
  "\<exists>c t'. ReplaceTopologyMappings no_faults
      [\<lparr>be_BMCID = ''b2'', be_Endpoint = ''x'', be_CredentialID = [], be_Source = [],
         be_InsecureSkipVerify = False, be_LastSyncedAt = 0, be_CreatedAt = 0, be_UpdatedAt = 0\<rparr>]
      [\<lparr>nl_NodeID = ''n2'', nl_BMCID = ''b1'', nl_Source = [],
         nl_LastSyncedAt = 0, nl_CreatedAt = 0, nl_UpdatedAt = 0\<rparr>] 9 sample_tables = (Inr c, t') \<and>
    map_tables_ok t' \<and> map be_BMCID (t_endpoints t') = [''b2''] \<and> t_links t' = [] \<and>
    LinksUpserted c = 1 \<and> LinksDeleted c = 1"
proof -
  let ?es = "[\<lparr>be_BMCID = ''b2'', be_Endpoint = ''x'', be_CredentialID = [], be_Source = [],
         be_InsecureSkipVerify = False, be_LastSyncedAt = 0, be_CreatedAt = 0, be_UpdatedAt = 0\<rparr>]"
  let ?ls = "[\<lparr>nl_NodeID = ''n2'', nl_BMCID = ''b1'', nl_Source = [],
         nl_LastSyncedAt = 0, nl_CreatedAt = 0, nl_UpdatedAt = 0\<rparr>]"
  have t: "trim_space ''b2'' = ''b2''" "trim_space ''x'' = ''x''" "trim_space ''n2'' = ''n2''"
      "trim_space ''b1'' = ''b1''"
    by (simp_all add: trim_space_plain plain_ends_def plain_char_def)
  obtain c t' where run: "ReplaceTopologyMappings no_faults ?es ?ls 9 sample_tables = (Inr c, t')"
      and res: "map be_BMCID (t_endpoints t') = [''b2''] \<and> t_links t' = [] \<and>
        LinksUpserted c = 1 \<and> LinksDeleted c = 1"
    by (simp add: ReplaceTopologyMappings_def Let_def normalizeEndpoints_def normalizeLinks_def
        map_from_def clean_endpoint_def clean_link_def t sorted_values_def sorted_keys_def
        with_tx_def tx_bind_def tx_return_def tx_modify_def db_try_def upsert_endpoint_def
        upsert_link_def upsert_def row_of_def endpoint_row_def link_row_def deleteStaleLinks_def
        deleteStaleEndpoints_def rowsAffectedAsInt_def sample_tables_def)
  from ReplaceTopologyMappings_refines [OF sample_tables_ok, where pg = no_faults and es = ?es
      and ls = ?ls and s = 9] run res
  show ?thesis by auto
qed

theorem ResolveNodeMappings_exact_witness:
  "ResolveNodeMappings no_faults sample_tables ['' n1 '', ''n9'', ''''] =
     Inr ([\<lparr>pm_NodeID = ''n1'', pm_BMCID = ''b1'', pm_Endpoint = ''https://10.0.0.1'',
            pm_CredentialID = ''c1'', pm_InsecureSkipVerify = True\<rparr>],
          [MissingNodeMappingError ''n9''])"
proof -
  have t: "trim_space '' n1 '' = ''n1''" "trim_space ''n9'' = ''n9''"
      "trim_space ''https://10.0.0.1'' \<noteq> []" "trim_space ''c1'' \<noteq> []"
    by code_simp+
  obtain ms es where run:
    "ResolveNodeMappings no_faults sample_tables ['' n1 '', ''n9'', ''''] = Inr (ms, es)"
    by (simp add: ResolveNodeMappings_def store_normalizeNodeIDs_def trim_list_def t
        sort_mappings_routes)
  from ResolveNodeMappings_exact [OF sample_tables_ok run] run show ?thesis
    by (simp add: trim_list_def t node_route_def topology_def sample_tables_def row_of_Cons
        good_route_def route_error_def)
qed

end
