(* ===== verification/Power_Events.thy ===== *)
theory Power_Events
  imports Power_DB "HOL-Library.Word"
begin

text \<open>
  \<open>internal/store/events_transition.go\<close>: the outbox events of transitions and of finished tasks.
  The JSON encoding of a payload is left to the library: the payload is kept as the value that
  is marshalled, and a failure of the encoder is one of the labelled faults.
\<close>

definition transitionLifecycleEventType :: string where
  "transitionLifecycleEventType = ''chamicore.power.transitions.lifecycle''"

definition transitionTaskResultEventType :: string where
  "transitionTaskResultEventType = ''chamicore.power.transitions.task-result''"

definition transitionEventSource :: string where
  "transitionEventSource = ''chamicore-power''"

record transitionEventSnapshot =
  es_ID :: string
  es_RequestID :: string
  es_Operation :: string
  es_State :: string
  es_RequestedBy :: string
  es_DryRun :: bool
  es_TargetCount :: int
  es_SuccessCount :: int
  es_FailureCount :: int
  es_QueuedAt :: time
  es_StartedAt :: "time option"
  es_CompletedAt :: "time option"
  es_CreatedAt :: time
  es_UpdatedAt :: time

record transitionTaskEventSnapshot =
  ets_ID :: string
  ets_TransitionID :: string
  ets_NodeID :: string
  ets_BMCID :: string
  ets_BMCEndpoint :: string
  ets_CredentialID :: string
  ets_Operation :: string
  ets_State :: string
  ets_DryRun :: bool
  ets_AttemptCount :: int
  ets_FinalPowerState :: string
  ets_ErrorDetail :: string
  ets_QueuedAt :: time
  ets_StartedAt :: "time option"
  ets_CompletedAt :: "time option"
  ets_CreatedAt :: time
  ets_UpdatedAt :: time
  ets_InsecureSkipVerify :: bool

datatype event_data =
    LifecycleData string transitionEventSnapshot
  | TaskResultData string string string transitionTaskEventSnapshot

record Event =
  ev_ID :: string
  ev_Source :: string
  ev_Type :: string
  ev_Subject :: string
  ev_Data :: event_data

section \<open>Event identifiers\<close>

definition hex_byte :: "8 word \<Rightarrow> string" where
  "hex_byte b = [hex_digit (unat b div 16), hex_digit (unat b mod 16)]"

text \<open>\<open>k\<close> numbers the calls of the random source within one operation.\<close>

definition newTransitionEventID :: "pg \<Rightarrow> (nat \<Rightarrow> 8 word list) \<Rightarrow> nat \<Rightarrow> go_error + string" where
  "newTransitionEventID pg random k =
     (case pg_fault pg (DbRandom k) of
        Some e \<Rightarrow> Inl (Wrap ''generating event id: '' e [])
      | None \<Rightarrow> Inr (''evt-'' @ concat (map hex_byte (random k))))"

lemma hex_digit_inj: "a < 16 \<Longrightarrow> b < 16 \<Longrightarrow> hex_digit a = hex_digit b \<Longrightarrow> a = b"
proof -
  assume "a < 16" "b < 16" and eq: "hex_digit a = hex_digit b"
  then have "(of_char (hex_digit a) :: nat) = of_char (hex_digit b)" by simp
  with \<open>a < 16\<close> \<open>b < 16\<close> show "a = b"
    by (auto simp: hex_digit_def split: if_splits)
qed

lemma hex_byte_inj: "hex_byte a = hex_byte b \<Longrightarrow> a = b"
proof -
  assume eq: "hex_byte a = hex_byte b"
  have "unat a < 256" "unat b < 256"
    using unsigned_less [of a] unsigned_less [of b] by simp_all
  then have "unat a div 16 = unat b div 16" "unat a mod 16 = unat b mod 16"
    using eq by (auto simp: hex_byte_def intro: hex_digit_inj)
  then have "unat a = unat b" by (metis div_mult_mod_eq)
  then show ?thesis by (simp only: unsigned_word_eqI)
qed

lemma hex_bytes_inj:
  "length xs = length ys \<Longrightarrow> concat (map hex_byte xs) = concat (map hex_byte ys) \<Longrightarrow> xs = ys"
proof (induction xs ys rule: list_induct2)
  case (Cons x xs y ys)
  have "length (hex_byte x) = length (hex_byte y)" by (simp add: hex_byte_def)
  with Cons.prems have "hex_byte x = hex_byte y"
      "concat (map hex_byte xs) = concat (map hex_byte ys)"
    by simp_all
  with Cons.IH hex_byte_inj show ?case by blast
qed simp

section \<open>Building events\<close>

definition transition_snapshot :: "Transition \<Rightarrow> transitionEventSnapshot" where
  "transition_snapshot tr =
     \<lparr>es_ID = trim_space (tr_ID tr), es_RequestID = trim_space (tr_RequestID tr),
      es_Operation = trim_space (tr_Operation tr), es_State = trim_space (tr_State tr),
      es_RequestedBy = trim_space (tr_RequestedBy tr), es_DryRun = tr_DryRun tr,
      es_TargetCount = tr_TargetCount tr, es_SuccessCount = tr_SuccessCount tr,
      es_FailureCount = tr_FailureCount tr, es_QueuedAt = tr_QueuedAt tr,
      es_StartedAt = tr_StartedAt tr, es_CompletedAt = tr_CompletedAt tr,
      es_CreatedAt = tr_CreatedAt tr, es_UpdatedAt = tr_UpdatedAt tr\<rparr>"

definition newTransitionLifecycleEvent ::
    "pg \<Rightarrow> (nat \<Rightarrow> 8 word list) \<Rightarrow> nat \<Rightarrow> Transition \<Rightarrow> go_error + Event" where
  "newTransitionLifecycleEvent pg random k tr =
     (let transitionID = trim_space (tr_ID tr) in
      if transitionID = [] then Inl (ErrText ''transition id is required'')
      else
        (case newTransitionEventID pg random k of
           Inl e \<Rightarrow> Inl e
         | Inr eventID \<Rightarrow>
             (case pg_fault pg (DbMarshal k) of
                Some e \<Rightarrow> Inl (Wrap ''marshaling transition lifecycle payload: '' e [])
              | None \<Rightarrow>
                  Inr \<lparr>ev_ID = eventID, ev_Source = transitionEventSource,
                       ev_Type = transitionLifecycleEventType, ev_Subject = transitionID,
                       ev_Data = LifecycleData transitionID (transition_snapshot tr)\<rparr>)))"

definition task_snapshot :: "Task \<Rightarrow> transitionTaskEventSnapshot" where
  "task_snapshot tk =
     \<lparr>ets_ID = trim_space (tk_ID tk), ets_TransitionID = trim_space (tk_TransitionID tk),
      ets_NodeID = trim_space (tk_NodeID tk), ets_BMCID = trim_space (tk_BMCID tk),
      ets_BMCEndpoint = trim_space (tk_BMCEndpoint tk),
      ets_CredentialID = trim_space (tk_CredentialID tk),
      ets_Operation = trim_space (tk_Operation tk), ets_State = trim_space (tk_State tk),
      ets_DryRun = tk_DryRun tk, ets_AttemptCount = tk_AttemptCount tk,
      ets_FinalPowerState = trim_space (tk_FinalPowerState tk),
      ets_ErrorDetail = trim_space (tk_ErrorDetail tk), ets_QueuedAt = tk_QueuedAt tk,
      ets_StartedAt = tk_StartedAt tk, ets_CompletedAt = tk_CompletedAt tk,
      ets_CreatedAt = tk_CreatedAt tk, ets_UpdatedAt = tk_UpdatedAt tk,
      ets_InsecureSkipVerify = tk_InsecureSkipVerify tk\<rparr>"

definition newTransitionTaskResultEvent ::
    "pg \<Rightarrow> (nat \<Rightarrow> 8 word list) \<Rightarrow> nat \<Rightarrow> Task \<Rightarrow> go_error + Event" where
  "newTransitionTaskResultEvent pg random k tk =
     (let taskID = trim_space (tk_ID tk); transitionID = trim_space (tk_TransitionID tk);
          nodeID = trim_space (tk_NodeID tk) in
      if taskID = [] then Inl (ErrText ''task id is required'')
      else if transitionID = [] then Inl (ErrText ''transition id is required'')
      else if nodeID = [] then Inl (ErrText ''node id is required'')
      else
        (case newTransitionEventID pg random k of
           Inl e \<Rightarrow> Inl e
         | Inr eventID \<Rightarrow>
             (case pg_fault pg (DbMarshal k) of
                Some e \<Rightarrow> Inl (Wrap ''marshaling transition task payload: '' e [])
              | None \<Rightarrow>
                  Inr \<lparr>ev_ID = eventID, ev_Source = transitionEventSource,
                       ev_Type = transitionTaskResultEventType, ev_Subject = nodeID,
                       ev_Data = TaskResultData transitionID nodeID taskID (task_snapshot tk)\<rparr>)))"

lemma newTransitionLifecycleEvent_Inr:
  "newTransitionLifecycleEvent pg random k tr = Inr ev \<Longrightarrow>
   ev_Type ev = transitionLifecycleEventType \<and> ev_Subject ev = trim_space (tr_ID tr) \<and>
   ev_Data ev = LifecycleData (trim_space (tr_ID tr)) (transition_snapshot tr) \<and>
   newTransitionEventID pg random k = Inr (ev_ID ev) \<and> trim_space (tr_ID tr) \<noteq> []"
  by (auto simp: newTransitionLifecycleEvent_def Let_def split: if_splits sum.splits option.splits)

lemma newTransitionTaskResultEvent_Inr:
  "newTransitionTaskResultEvent pg random k tk = Inr ev \<Longrightarrow>
   ev_Type ev = transitionTaskResultEventType \<and> ev_Subject ev = trim_space (tk_NodeID tk) \<and>
   ev_Data ev = TaskResultData (trim_space (tk_TransitionID tk)) (trim_space (tk_NodeID tk))
     (trim_space (tk_ID tk)) (task_snapshot tk) \<and>
   newTransitionEventID pg random k = Inr (ev_ID ev)"
  by (auto simp: newTransitionTaskResultEvent_def Let_def split: if_splits sum.splits option.splits)

section \<open>Properties\<close>

text \<open>
  Event identifiers are a faithful rendering of the 16 random bytes: they have 36 bytes, and
  two of them are equal only if the random source answered the same bytes.
\<close>

lemma newTransitionEventID_injective:
  assumes "newTransitionEventID pg random k = Inr a" "newTransitionEventID pg' random' k' = Inr b"
    and "length (random k) = 16" "length (random' k') = 16"
  shows "length a = 36 \<and> prefix ''evt-'' a \<and> (a = b \<longleftrightarrow> random k = random' k')"
proof -
  have a: "a = ''evt-'' @ concat (map hex_byte (random k))"
    and b: "b = ''evt-'' @ concat (map hex_byte (random' k'))"
    using assms(1,2) by (auto simp: newTransitionEventID_def split: option.splits)
  have "length (concat (map hex_byte bs)) = 2 * length bs" for bs
    by (induction bs) (simp_all add: hex_byte_def)
  with assms(3) a have "length a = 36" by simp
  moreover have "a = b \<longleftrightarrow> random k = random' k'"
    using a b hex_bytes_inj [of "random k" "random' k'"] assms(3,4) by auto
  ultimately show ?thesis using a by simp
qed

end
