(* ===== verification/Power_Store_Transition.thy ===== *)
theory Power_Store_Transition
  imports Power_Events "HOL-Library.Product_Lexorder" "HOL-Library.Multiset"
begin

text \<open>
  \<open>internal/store/postgres_transition.go\<close> over the tables \<open>power.transitions\<close>,
  \<open>power.transition_tasks\<close> and \<open>power.outbox\<close>: each write puts its event into the outbox in the
  same transaction.  Columns the schema does not have (\<open>CredentialID\<close>, \<open>InsecureSkipVerify\<close>) are
  blank in the rows.
\<close>

section \<open>Tables and environment\<close>

record tr_tables =
  t_transitions :: "Transition list"
  t_tasks :: "Task list"
  t_outbox :: "Event list"

text \<open>
  What an operation meets outside its tables: the database faults, \<open>time.Now()\<close> (by call), the
  random bytes (by call) and the identifiers of \<open>gen_random_uuid()\<close> (by insert).
\<close>

record store_env =
  se_pg :: pg
  se_now :: "nat \<Rightarrow> time"
  se_random :: "nat \<Rightarrow> 8 word list"
  se_uuid :: "nat \<Rightarrow> string"

text \<open>An identifier of \<open>gen_random_uuid()\<close> is not blank and has no blanks around it.\<close>

definition uuids_ok :: "store_env \<Rightarrow> bool" where
  "uuids_ok env \<longleftrightarrow> (\<forall>k. se_uuid env k \<noteq> [] \<and> trim_space (se_uuid env k) = se_uuid env k)"

definition tr_tables_ok :: "tr_tables \<Rightarrow> bool" where
  "tr_tables_ok t \<longleftrightarrow>
     unique_keys tr_ID (t_transitions t) \<and> unique_keys tk_ID (t_tasks t) \<and>
     distinct (map (\<lambda>k. (tk_TransitionID k, tk_NodeID k)) (t_tasks t)) \<and>
     tk_TransitionID ` set (t_tasks t) \<subseteq> tr_ID ` set (t_transitions t)"

definition defaultTransitionPageLimit :: int where "defaultTransitionPageLimit = 100"
definition maxTransitionPageLimit :: int where "maxTransitionPageLimit = 1000"

definition normalizeTransitionPageLimit :: "int \<Rightarrow> int" where
  "normalizeTransitionPageLimit limit =
     (if limit \<le> 0 then defaultTransitionPageLimit
      else if limit > maxTransitionPageLimit then maxTransitionPageLimit
      else limit)"

definition safeUint64 :: "int \<Rightarrow> nat" where
  "safeUint64 value = (if value < 0 then 0 else nat value)"

definition isTerminalTaskState :: "string \<Rightarrow> bool" where
  "isTerminalTaskState state =
     (trim_space state \<in>
        {TaskStateSucceeded, TaskStateFailed, TaskStateCanceled, TaskStatePlanned})"

definition setLocalPowerSearchPath :: "pg \<Rightarrow> (unit, 't) tx" where
  "setLocalPowerSearchPath pg = db_try pg DbSearchPath ''setting local search_path: ''"

definition or_now :: "time \<Rightarrow> time \<Rightarrow> time" where
  "or_now t now = (if t = 0 then now else t)"

section \<open>Inserting\<close>

definition clean_transition :: "time \<Rightarrow> Transition \<Rightarrow> Transition" where
  "clean_transition now tr =
     (let created = or_now (tr_CreatedAt tr) now in
      tr\<lparr>tr_ID := trim_space (tr_ID tr), tr_RequestID := trim_space (tr_RequestID tr),
         tr_Operation := trim_space (tr_Operation tr), tr_State := trim_space (tr_State tr),
         tr_RequestedBy := trim_space (tr_RequestedBy tr),
         tr_QueuedAt := or_now (tr_QueuedAt tr) now, tr_CreatedAt := created,
         tr_UpdatedAt := or_now (tr_UpdatedAt tr) created\<rparr>)"

definition insertTransitionTx :: "store_env \<Rightarrow> Transition \<Rightarrow> (Transition, tr_tables) tx" where
  "insertTransitionTx env tr t =
     (let pg = se_pg env;
          clean = clean_transition (se_now env 0) tr;
          row = (if tr_ID clean = [] then clean\<lparr>tr_ID := se_uuid env 0\<rparr> else clean)
      in case pg_fault pg DbBuild of
           Some e \<Rightarrow> (Inl (Wrap ''building transition insert query: '' e []), t)
         | None \<Rightarrow>
         (case pg_fault pg DbInsertTransition of
           Some e \<Rightarrow> (Inl (Wrap ''inserting transition: '' e []), t)
         | None \<Rightarrow>
             if row_of tr_ID (t_transitions t) (tr_ID row) \<noteq> None
             then (Inl (Wrap ''inserting transition: '' (pg_constraint pg ''transitions_pkey'') []), t)
             else (Inr row, t\<lparr>t_transitions := t_transitions t @ [row]\<rparr>)))"

definition clean_task :: "time \<Rightarrow> Task \<Rightarrow> Task" where
  "clean_task now tk =
     (let created = or_now (tk_CreatedAt tk) now in
      tk\<lparr>tk_ID := trim_space (tk_ID tk), tk_TransitionID := trim_space (tk_TransitionID tk),
         tk_NodeID := trim_space (tk_NodeID tk), tk_BMCID := trim_space (tk_BMCID tk),
         tk_BMCEndpoint := trim_space (tk_BMCEndpoint tk),
         tk_Operation := trim_space (tk_Operation tk), tk_State := trim_space (tk_State tk),
         tk_FinalPowerState := trim_space (tk_FinalPowerState tk),
         tk_ErrorDetail := trim_space (tk_ErrorDetail tk),
         tk_QueuedAt := or_now (tk_QueuedAt tk) now, tk_CreatedAt := created,
         tk_UpdatedAt := or_now (tk_UpdatedAt tk) created\<rparr>)"

definition task_row :: "Task \<Rightarrow> Task" where
  "task_row tk = tk\<lparr>tk_CredentialID := [], tk_InsecureSkipVerify := False\<rparr>"

definition task_conflict :: "Task list \<Rightarrow> Task \<Rightarrow> string option" where
  "task_conflict rows tk =
     (if list_ex (\<lambda>r. tk_TransitionID r = tk_TransitionID tk \<and> tk_NodeID r = tk_NodeID tk) rows
      then Some ''transition_tasks_transition_id_node_id_key'' else None)"

definition insertTransitionTaskTx :: "store_env \<Rightarrow> nat \<Rightarrow> Task \<Rightarrow> (Task, tr_tables) tx" where
  "insertTransitionTaskTx env i tk t =
     (let pg = se_pg env;
          clean = clean_task (se_now env (Suc i)) tk;
          stored = (if tk_ID clean = [] then clean\<lparr>tk_ID := se_uuid env (Suc i)\<rparr> else clean);
          msg = ''inserting transition task for node '' @ go_quote (tk_NodeID clean) @ '': ''
      in case pg_fault pg DbBuild of
           Some e \<Rightarrow> (Inl (Wrap ''building transition task insert query: '' e []), t)
         | None \<Rightarrow>
         (case pg_fault pg (DbInsertTask i) of
           Some e \<Rightarrow> (Inl (Wrap msg e []), t)
         | None \<Rightarrow>
             if row_of tk_ID (t_tasks t) (tk_ID stored) \<noteq> None
             then (Inl (Wrap msg (pg_constraint pg ''transition_tasks_pkey'') []), t)
             else if row_of tr_ID (t_transitions t) (tk_TransitionID stored) = None
             then (Inl (Wrap msg (pg_constraint pg ''transition_tasks_transition_id_fkey'') []), t)
             else
               (case task_conflict (t_tasks t) stored of
                  Some c \<Rightarrow> (Inl (Wrap msg (pg_constraint pg c) []), t)
                | None \<Rightarrow> (Inr stored, t\<lparr>t_tasks := t_tasks t @ [task_row stored]\<rparr>))))"

fun insert_tasks :: "store_env \<Rightarrow> string \<Rightarrow> nat \<Rightarrow> Task list \<Rightarrow> (Task list, tr_tables) tx" where
  "insert_tasks env transitionID i [] = tx_return []"
| "insert_tasks env transitionID i (tk # tks) =
     tx_bind (insertTransitionTaskTx env i (tk\<lparr>tk_TransitionID := transitionID\<rparr>)) (\<lambda>created.
     tx_bind (insert_tasks env transitionID (Suc i) tks) (\<lambda>rest.
     tx_return (created # rest)))"

definition outbox_write :: "pg \<Rightarrow> nat \<Rightarrow> string \<Rightarrow> Event \<Rightarrow> (unit, tr_tables) tx" where
  "outbox_write pg k msg ev =
     tx_bind (db_try pg (DbOutbox k) msg)
       (\<lambda>_. tx_modify (\<lambda>t. t\<lparr>t_outbox := t_outbox t @ [ev]\<rparr>))"

definition tx_event :: "string \<Rightarrow> go_error + Event \<Rightarrow> (Event, 't) tx" where
  "tx_event msg r t = (case r of Inl e \<Rightarrow> (Inl (Wrap msg e []), t) | Inr ev \<Rightarrow> (Inr ev, t))"

text \<open>The loop that writes one event per finished task; \<open>k\<close> numbers the random source's calls.\<close>

fun write_task_events :: "store_env \<Rightarrow> nat \<Rightarrow> Task list \<Rightarrow> (unit, tr_tables) tx" where
  "write_task_events env k [] = tx_return ()"
| "write_task_events env k (tk # tks) =
     (if \<not> isTerminalTaskState (tk_State tk) then write_task_events env k tks
      else
        tx_bind (tx_event (''building transition task event for node '' @ go_quote (tk_NodeID tk) @ '': '')
                   (newTransitionTaskResultEvent (se_pg env) (se_random env) k tk)) (\<lambda>ev.
        tx_bind (outbox_write (se_pg env) k
                   (''writing transition task outbox event for node '' @ go_quote (tk_NodeID tk) @ '': '') ev)
          (\<lambda>_. write_task_events env (Suc k) tks)))"

definition CreateTransition ::
    "store_env \<Rightarrow> Transition \<Rightarrow> Task list \<Rightarrow> (Transition \<times> Task list, tr_tables) tx" where
  "CreateTransition env tr tasks =
     (let pg = se_pg env in
      with_tx pg ''starting transition transaction: '' ''committing transition transaction: ''
        (tx_bind (setLocalPowerSearchPath pg) (\<lambda>_.
         tx_bind (insertTransitionTx env tr) (\<lambda>createdTransition.
         tx_bind (insert_tasks env (tr_ID createdTransition) 0 tasks) (\<lambda>createdTasks.
         tx_bind (tx_event ''building transition lifecycle event: ''
                    (newTransitionLifecycleEvent pg (se_random env) 0 createdTransition)) (\<lambda>ev.
         tx_bind (outbox_write pg 0 ''writing transition lifecycle outbox event: '' ev) (\<lambda>_.
         tx_bind (write_task_events env 1 createdTasks) (\<lambda>_.
         tx_return (createdTransition, createdTasks)))))))))"

section \<open>Updating and reading\<close>

definition scanTransition :: "Transition \<Rightarrow> Transition" where
  "scanTransition row = row"

definition scanTransitionTask :: "Task \<Rightarrow> Task" where
  "scanTransitionTask row = task_row row"

definition GetTransition :: "pg \<Rightarrow> tr_tables \<Rightarrow> string \<Rightarrow> go_error + Transition" where
  "GetTransition pg t rawID =
     (let i = trim_space rawID in
      if i = [] then Inl (Sentinel ErrNotFound)
      else
        (case pg_fault pg DbBuild of
           Some e \<Rightarrow> Inl (Wrap ''building transition get query: '' e [])
         | None \<Rightarrow>
        (case pg_fault pg DbQuery of
           Some e \<Rightarrow> if errors_is e ErrNoRows then Inl (Sentinel ErrNotFound) else Inl e
         | None \<Rightarrow>
        (case row_of tr_ID (t_transitions t) i of
           None \<Rightarrow> Inl (Sentinel ErrNotFound)
         | Some row \<Rightarrow> Inr (scanTransition row)))))"

text \<open>The read after the commit is a call of its own, so it may fail on its own.\<close>

definition reread :: "pg \<Rightarrow> pg" where
  "reread pg = pg\<lparr>pg_fault := (\<lambda>c. if c = DbQuery then pg_fault pg DbReread else pg_fault pg c)\<rparr>"

definition updated_transition_row :: "Transition \<Rightarrow> Transition \<Rightarrow> Transition" where
  "updated_transition_row tr row =
     row\<lparr>tr_RequestID := trim_space (tr_RequestID tr), tr_Operation := trim_space (tr_Operation tr),
         tr_State := trim_space (tr_State tr), tr_RequestedBy := trim_space (tr_RequestedBy tr),
         tr_DryRun := tr_DryRun tr, tr_TargetCount := tr_TargetCount tr,
         tr_SuccessCount := tr_SuccessCount tr, tr_FailureCount := tr_FailureCount tr,
         tr_QueuedAt := tr_QueuedAt tr, tr_StartedAt := tr_StartedAt tr,
         tr_CompletedAt := tr_CompletedAt tr, tr_UpdatedAt := tr_UpdatedAt tr\<rparr>"

definition update_rows :: "('r \<Rightarrow> string) \<Rightarrow> string \<Rightarrow> ('r \<Rightarrow> 'r) \<Rightarrow> 'r list \<Rightarrow> 'r list" where
  "update_rows key i f rows = map (\<lambda>r. if key r = i then f r else r) rows"

definition rows_affected :: "('r \<Rightarrow> string) \<Rightarrow> string \<Rightarrow> 'r list \<Rightarrow> int" where
  "rows_affected key i rows = int (length (filter (\<lambda>r. key r = i) rows))"

definition UpdateTransition :: "store_env \<Rightarrow> Transition \<Rightarrow> (Transition, tr_tables) tx" where
  "UpdateTransition env tr0 t =
     (let pg = se_pg env; i = trim_space (tr_ID tr0) in
      if i = [] then (Inl (ErrText ''transition id is required''), t)
      else
        (let tr = tr0\<lparr>tr_ID := i, tr_UpdatedAt := or_now (tr_UpdatedAt tr0) (se_now env 0)\<rparr>;
             update =
               with_tx pg ''starting transition update transaction: ''
                 ''committing transition update transaction: ''
                 (tx_bind (setLocalPowerSearchPath pg) (\<lambda>_.
                  tx_bind (db_try pg DbBuild ''building transition update query: '') (\<lambda>_.
                  tx_bind (db_try pg DbUpdate (''updating transition '' @ go_quote i @ '': '')) (\<lambda>_ t.
                  tx_bind (rowsAffectedAsInt pg (rows_affected tr_ID i (t_transitions t))
                             ''transition update'') (\<lambda>affected.
                    if affected = 0 then tx_fail (Sentinel ErrNotFound)
                    else
                      tx_bind (tx_event ''building transition lifecycle event: ''
                        (newTransitionLifecycleEvent pg (se_random env) 0 tr)) (\<lambda>ev.
                      outbox_write pg 0 ''writing transition lifecycle outbox event: '' ev))
                    (t\<lparr>t_transitions :=
                       update_rows tr_ID i (updated_transition_row tr) (t_transitions t)\<rparr>)))))
         in case update t of
              (Inl e, t1) \<Rightarrow> (Inl e, t1)
            | (Inr _, t1) \<Rightarrow> (GetTransition (reread pg) t1 i, t1)))"

definition updated_task :: "time \<Rightarrow> Task \<Rightarrow> Task" where
  "updated_task now tk =
     tk\<lparr>tk_ID := trim_space (tk_ID tk), tk_TransitionID := trim_space (tk_TransitionID tk),
        tk_NodeID := trim_space (tk_NodeID tk), tk_BMCID := trim_space (tk_BMCID tk),
        tk_BMCEndpoint := trim_space (tk_BMCEndpoint tk),
        tk_Operation := trim_space (tk_Operation tk), tk_State := trim_space (tk_State tk),
        tk_FinalPowerState := trim_space (tk_FinalPowerState tk),
        tk_ErrorDetail := trim_space (tk_ErrorDetail tk),
        tk_UpdatedAt := or_now (tk_UpdatedAt tk) now\<rparr>"

definition updated_task_row :: "Task \<Rightarrow> Task \<Rightarrow> Task" where
  "updated_task_row tk row = (task_row tk)\<lparr>tk_ID := tk_ID row, tk_CreatedAt := tk_CreatedAt row\<rparr>"

text \<open>The constraints an \<open>UPDATE\<close> of a task can violate.\<close>

definition update_conflict :: "tr_tables \<Rightarrow> Task \<Rightarrow> string option" where
  "update_conflict t tk =
     (if row_of tk_ID (t_tasks t) (tk_ID tk) = None then None
      else if row_of tr_ID (t_transitions t) (tk_TransitionID tk) = None
      then Some ''transition_tasks_transition_id_fkey''
      else task_conflict (filter (\<lambda>r. tk_ID r \<noteq> tk_ID tk) (t_tasks t)) tk)"

definition UpdateTransitionTask :: "store_env \<Rightarrow> Task \<Rightarrow> (Task, tr_tables) tx" where
  "UpdateTransitionTask env tk0 t =
     (let pg = se_pg env; i = trim_space (tk_ID tk0) in
      if i = [] then (Inl (ErrText ''task id is required''), t)
      else
        (let tk = updated_task (se_now env 0) tk0;
             msg = ''updating transition task '' @ go_quote i @ '': ''
         in with_tx pg ''starting transition task update transaction: ''
              ''committing transition task update transaction: ''
              (tx_bind (setLocalPowerSearchPath pg) (\<lambda>_.
               tx_bind (db_try pg DbBuild ''building transition task update query: '') (\<lambda>_.
               tx_bind (db_try pg DbUpdate msg) (\<lambda>_ t.
               (case update_conflict t tk of
                  Some c \<Rightarrow> (Inl (Wrap msg (pg_constraint pg c) []), t)
                | None \<Rightarrow>
                    tx_bind (rowsAffectedAsInt pg (rows_affected tk_ID i (t_tasks t))
                               ''transition task update'') (\<lambda>affected.
                      if affected = 0 then tx_fail (Sentinel ErrNotFound)
                      else if isTerminalTaskState (tk_State tk) then
                        tx_bind (tx_event ''building transition task event: ''
                          (newTransitionTaskResultEvent pg (se_random env) 0 tk)) (\<lambda>ev.
                        tx_bind (outbox_write pg 0 ''writing transition task outbox event: '' ev)
                          (\<lambda>_. tx_return tk))
                      else tx_return tk)
                      (t\<lparr>t_tasks := update_rows tk_ID i (updated_task_row tk) (t_tasks t)\<rparr>)))))) t))"

definition ListTransitions ::
    "pg \<Rightarrow> tr_tables \<Rightarrow> int \<Rightarrow> int \<Rightarrow> go_error + (Transition list \<times> int)" where
  "ListTransitions pg t limit0 offset0 =
     (let limit = normalizeTransitionPageLimit limit0;
          offset = (if offset0 < 0 then 0 else offset0) in
      case pg_fault pg DbBuild of
        Some e \<Rightarrow> Inl (Wrap ''building transitions count query: '' e [])
      | None \<Rightarrow>
      (case pg_fault pg DbCount of
        Some e \<Rightarrow> Inl (Wrap ''counting transitions: '' e [])
      | None \<Rightarrow>
      (case pg_fault pg DbQuery of
        Some e \<Rightarrow> Inl (Wrap ''listing transitions: '' e [])
      | None \<Rightarrow>
          (let ordered = rev (sort_key (\<lambda>r. (tr_QueuedAt r, tr_ID r)) (t_transitions t));
               page = take (safeUint64 limit) (drop (safeUint64 offset) ordered)
           in case read_rows pg (\<lambda>e. e) ''iterating transition rows: '' page of
                Inl e \<Rightarrow> Inl e
              | Inr rows \<Rightarrow> Inr (map scanTransition rows, int (length (t_transitions t)))))))"

definition ListTransitionTasks :: "pg \<Rightarrow> tr_tables \<Rightarrow> string \<Rightarrow> go_error + Task list" where
  "ListTransitionTasks pg t rawID =
     (let transitionID = trim_space rawID in
      if transitionID = [] then Inr []
      else
        (case pg_fault pg DbBuild of
           Some e \<Rightarrow> Inl (Wrap ''building transition task list query: '' e [])
         | None \<Rightarrow>
        (case pg_fault pg DbQuery of
           Some e \<Rightarrow> Inl (Wrap ''listing transition tasks: '' e [])
         | None \<Rightarrow>
        (case read_rows pg (\<lambda>e. e) ''iterating transition task rows: ''
                (sort_key tk_NodeID
                   (filter (\<lambda>r. tk_TransitionID r = transitionID) (t_tasks t))) of
           Inl e \<Rightarrow> Inl e
         | Inr rows \<Rightarrow> Inr (map scanTransitionTask rows)))))"

text \<open>
  \<open>SELECT DISTINCT ON (node_id)\<close> keeps the first row of each node in the \<open>ORDER BY\<close> order; rows
  that tie in every column of the order stay in table order.
\<close>

fun distinct_on :: "('r \<Rightarrow> string) \<Rightarrow> string list \<Rightarrow> 'r list \<Rightarrow> 'r list" where
  "distinct_on key seen [] = []"
| "distinct_on key seen (r # rs) =
     (if key r \<in> set seen then distinct_on key seen rs
      else r # distinct_on key (key r # seen) rs)"

definition ListLatestTransitionTasksByNode ::
    "pg \<Rightarrow> tr_tables \<Rightarrow> string list \<Rightarrow> go_error + Task list" where
  "ListLatestTransitionTasksByNode pg t nodeIDs =
     (let queryNodeIDs = uniq_trim [] nodeIDs in
      if queryNodeIDs = [] then Inr []
      else
        (case pg_fault pg DbBuild of
           Some e \<Rightarrow> Inl (Wrap ''building latest transition task query: '' e [])
         | None \<Rightarrow>
        (case pg_fault pg DbQuery of
           Some e \<Rightarrow> Inl (Wrap ''listing latest transition tasks: '' e [])
         | None \<Rightarrow>
        (case read_rows pg (\<lambda>e. e) ''iterating latest transition task rows: ''
                (distinct_on tk_NodeID []
                   (sort_key (\<lambda>r. (tk_NodeID r, - tk_UpdatedAt r, - tk_CreatedAt r))
                     (filter (\<lambda>r. tk_NodeID r \<in> set queryNodeIDs) (t_tasks t)))) of
           Inl e \<Rightarrow> Inl e
         | Inr rows \<Rightarrow> Inr (map scanTransitionTask rows)))))"

section \<open>Lemmas on inserting\<close>

lemma insertTransitionTx_Inr:
  assumes "insertTransitionTx env tr t = (Inr row, t')"
  shows "row_of tr_ID (t_transitions t) (tr_ID row) = None \<and>
    t' = t\<lparr>t_transitions := t_transitions t @ [row]\<rparr> \<and>
    (tr_ID row = trim_space (tr_ID tr) \<or> tr_ID row = se_uuid env 0) \<and>
    row = (clean_transition (se_now env 0) tr)\<lparr>tr_ID := tr_ID row\<rparr>"
  using assms
  by (auto simp: insertTransitionTx_def Let_def clean_transition_def
      split: option.splits if_splits)

text \<open>What a task becomes when it is stored: what the runner hands in, trimmed, with its keys.\<close>

definition stored_as :: "string \<Rightarrow> Task \<Rightarrow> Task \<Rightarrow> bool" where
  "stored_as transitionID tk c \<longleftrightarrow>
     tk_TransitionID c = trim_space transitionID \<and> tk_NodeID c = trim_space (tk_NodeID tk) \<and>
     tk_BMCID c = trim_space (tk_BMCID tk) \<and> tk_BMCEndpoint c = trim_space (tk_BMCEndpoint tk) \<and>
     tk_CredentialID c = tk_CredentialID tk \<and>
     tk_InsecureSkipVerify c = tk_InsecureSkipVerify tk \<and> tk_DryRun c = tk_DryRun tk \<and>
     tk_State c = trim_space (tk_State tk) \<and> tk_ErrorDetail c = trim_space (tk_ErrorDetail tk)"

lemma task_conflict_None:
  "task_conflict rows tk = None \<longleftrightarrow>
   (tk_TransitionID tk, tk_NodeID tk) \<notin> (\<lambda>r. (tk_TransitionID r, tk_NodeID r)) ` set rows"
  by (auto simp: task_conflict_def list_ex_iff image_iff) metis

lemma stored_as_transition [simp]:
  "stored_as tid (tk\<lparr>tk_TransitionID := i\<rparr>) c \<longleftrightarrow> stored_as tid tk c"
  by (simp add: stored_as_def)

lemma tr_tables_ok_outbox [simp]: "tr_tables_ok (t\<lparr>t_outbox := evs\<rparr>) \<longleftrightarrow> tr_tables_ok t"
  by (simp add: tr_tables_ok_def)

lemma task_row_simps [simp]:
  "tk_ID (task_row k) = tk_ID k" "tk_TransitionID (task_row k) = tk_TransitionID k"
  "tk_NodeID (task_row k) = tk_NodeID k" "tk_State (task_row k) = tk_State k"
  "tk_UpdatedAt (task_row k) = tk_UpdatedAt k" "tk_CreatedAt (task_row k) = tk_CreatedAt k"
  "task_row (task_row k) = task_row k"
  by (simp_all add: task_row_def)

lemma insertTransitionTaskTx_Inr:
  assumes "insertTransitionTaskTx env i tk t = (Inr c, t')"
  shows "t' = t\<lparr>t_tasks := t_tasks t @ [task_row c]\<rparr> \<and>
    stored_as (tk_TransitionID tk) tk c \<and> (tr_tables_ok t \<longrightarrow> tr_tables_ok t') \<and>
    (uuids_ok env \<longrightarrow> trim_space (tk_ID c) = tk_ID c)"
proof -
  from assms have c: "row_of tk_ID (t_tasks t) (tk_ID c) = None"
      "row_of tr_ID (t_transitions t) (tk_TransitionID c) \<noteq> None"
      "task_conflict (t_tasks t) c = None" "t' = t\<lparr>t_tasks := t_tasks t @ [task_row c]\<rparr>"
      "stored_as (tk_TransitionID tk) tk c"
    by (auto simp: insertTransitionTaskTx_def Let_def stored_as_def clean_task_def
        split: option.splits if_splits)
  moreover have "tr_tables_ok t \<Longrightarrow> tr_tables_ok t'"
    using c by (auto simp: tr_tables_ok_def row_of_None task_conflict_None unique_keys_def)
  moreover have "trim_space (tk_ID c) = tk_ID c" if "uuids_ok env"
    using assms that
    by (auto simp: insertTransitionTaskTx_def Let_def clean_task_def uuids_ok_def
        split: option.splits if_splits)
  ultimately show ?thesis by blast
qed

lemma insert_tasks_Inr:
  "insert_tasks env tid i tks t = (Inr cs, t') \<Longrightarrow>
   t' = t\<lparr>t_tasks := t_tasks t @ map task_row cs\<rparr> \<and> list_all2 (stored_as tid) tks cs \<and>
   (tr_tables_ok t \<longrightarrow> tr_tables_ok t') \<and>
   (uuids_ok env \<longrightarrow> (\<forall>c \<in> set cs. trim_space (tk_ID c) = tk_ID c))"
proof (induction tks arbitrary: i t cs)
  case (Cons tk tks)
  then obtain c t1 cs1 where
    "insertTransitionTaskTx env i (tk\<lparr>tk_TransitionID := tid\<rparr>) t = (Inr c, t1)"
    "insert_tasks env tid (Suc i) tks t1 = (Inr cs1, t')" "cs = c # cs1"
    by (auto simp: tx_bind_Inr)
  with insertTransitionTaskTx_Inr [OF this(1)] Cons.IH [OF this(2)]
  show ?case by auto
qed simp

definition task_data :: "Task \<Rightarrow> event_data" where
  "task_data tk = TaskResultData (trim_space (tk_TransitionID tk)) (trim_space (tk_NodeID tk))
     (trim_space (tk_ID tk)) (task_snapshot tk)"

definition lifecycle_data :: "Transition \<Rightarrow> event_data" where
  "lifecycle_data tr = LifecycleData (trim_space (tr_ID tr)) (transition_snapshot tr)"

lemma tx_event_Inr [simp]: "tx_event m r t = (Inr ev, t') \<longleftrightarrow> r = Inr ev \<and> t' = t"
  by (auto simp: tx_event_def split: sum.splits)

lemma outbox_write_Inr:
  "outbox_write pg k m ev t = (Inr u, t') \<longleftrightarrow>
   pg_fault pg (DbOutbox k) = None \<and> t' = t\<lparr>t_outbox := t_outbox t @ [ev]\<rparr>"
  by (auto simp: outbox_write_def tx_bind_Inr)

lemma write_task_events_Inr:
  "write_task_events env k tks t = (Inr u, t') \<Longrightarrow>
   \<exists>evs. t' = t\<lparr>t_outbox := t_outbox t @ evs\<rparr> \<and>
     map ev_Data evs = map task_data (filter (\<lambda>tk. isTerminalTaskState (tk_State tk)) tks)"
proof (induction tks arbitrary: k t)
  case (Cons tk tks)
  show ?case
  proof (cases "isTerminalTaskState (tk_State tk)")
    case False
    with Cons show ?thesis by simp
  next
    case True
    with Cons.prems obtain ev t1 where
      ev: "newTransitionTaskResultEvent (se_pg env) (se_random env) k tk = Inr ev"
      and t1: "t1 = t\<lparr>t_outbox := t_outbox t @ [ev]\<rparr>"
      and rest: "write_task_events env (Suc k) tks t1 = (Inr u, t')"
      by (auto simp: tx_bind_Inr outbox_write_Inr)
    from Cons.IH [OF rest] obtain evs where
      "t' = t1\<lparr>t_outbox := t_outbox t1 @ evs\<rparr>"
      "map ev_Data evs = map task_data (filter (\<lambda>tk. isTerminalTaskState (tk_State tk)) tks)"
      by blast
    with True t1 newTransitionTaskResultEvent_Inr [OF ev] show ?thesis
      by (intro exI [of _ "ev # evs"]) (simp add: task_data_def)
  qed
qed simp

lemma CreateTransition_Inr:
  assumes "CreateTransition env tr tasks t = (Inr (ctr, ctks), t')"
  shows "row_of tr_ID (t_transitions t) (tr_ID ctr) = None \<and>
    (tr_ID ctr = trim_space (tr_ID tr) \<or> tr_ID ctr = se_uuid env 0) \<and>
    ctr = (clean_transition (se_now env 0) tr)\<lparr>tr_ID := tr_ID ctr\<rparr> \<and>
    list_all2 (stored_as (tr_ID ctr)) tasks ctks \<and>
    t_transitions t' = t_transitions t @ [ctr] \<and> t_tasks t' = t_tasks t @ map task_row ctks \<and>
    (\<exists>evs. t_outbox t' = t_outbox t @ evs \<and> map ev_Data evs =
       lifecycle_data ctr # map task_data (filter (\<lambda>k. isTerminalTaskState (tk_State k)) ctks)) \<and>
    (tr_tables_ok t \<longrightarrow> tr_tables_ok t') \<and>
    (uuids_ok env \<longrightarrow> (\<forall>c \<in> set ctks. trim_space (tk_ID c) = tk_ID c))"
proof -
  from assms obtain t1 t2 t3 ev where
    ins: "insertTransitionTx env tr t = (Inr ctr, t1)" and
    tks: "insert_tasks env (tr_ID ctr) 0 tasks t1 = (Inr ctks, t2)" and
    ev: "newTransitionLifecycleEvent (se_pg env) (se_random env) 0 ctr = Inr ev" and
    t3: "t3 = t2\<lparr>t_outbox := t_outbox t2 @ [ev]\<rparr>" and
    evs: "write_task_events env 1 ctks t3 = (Inr (), t')"
    by (auto simp: CreateTransition_def Let_def tx_success outbox_write_Inr
        setLocalPowerSearchPath_def)
  note i = insertTransitionTx_Inr [OF ins] and k = insert_tasks_Inr [OF tks]
  from write_task_events_Inr [OF evs] obtain es where
    es: "t' = t3\<lparr>t_outbox := t_outbox t3 @ es\<rparr>"
      "map ev_Data es = map task_data (filter (\<lambda>tk. isTerminalTaskState (tk_State tk)) ctks)"
    by blast
  have "tr_tables_ok t1" if "tr_tables_ok t"
    using that i by (auto simp: tr_tables_ok_def unique_keys_def row_of_None)
  then have "tr_tables_ok t2" if "tr_tables_ok t" using that k by blast
  then have "tr_tables_ok t'" if "tr_tables_ok t" using that es(1) t3 by simp
  moreover have "t_outbox t' = t_outbox t @ (ev # es) \<and> map ev_Data (ev # es) =
       lifecycle_data ctr # map task_data (filter (\<lambda>k. isTerminalTaskState (tk_State k)) ctks)"
    using es t3 k i newTransitionLifecycleEvent_Inr [OF ev] by (simp add: lifecycle_data_def)
  ultimately show ?thesis using i k es(1) t3 by auto
qed

lemma CreateTransition_Inl: "CreateTransition env tr tasks t = (Inl e, t') \<Longrightarrow> t' = t"
  unfolding CreateTransition_def Let_def by (rule with_tx_Inl)

section \<open>Lemmas on updating\<close>

lemma update_rows_keys:
  "(\<And>r. key (f r) = key r) \<Longrightarrow> map key (update_rows key i f rows) = map key rows"
  by (simp add: update_rows_def comp_def)

lemma rows_affected_nonneg [simp]: "0 \<le> rows_affected key i rows"
  by (simp add: rows_affected_def)

lemma rows_affected_0: "rows_affected key i rows = 0 \<longleftrightarrow> row_of key rows i = None"
  by (induction rows) (auto simp: rows_affected_def row_of_Cons)

lemma row_of_update_rows:
  assumes "\<And>r. key (f r) = key r"
  shows "row_of key (update_rows key i f rows) k =
    (if k = i then map_option f (row_of key rows k) else row_of key rows k)"
  by (induction rows) (auto simp: update_rows_def row_of_Cons assms)

lemma updated_transition_row_ID [simp]: "tr_ID (updated_transition_row tr row) = tr_ID row"
  by (simp add: updated_transition_row_def)

lemma updated_transition_row_Created [simp]:
  "tr_CreatedAt (updated_transition_row tr row) = tr_CreatedAt row"
  by (simp add: updated_transition_row_def)

text \<open>The argument as it is written: trimmed identifier, and \<open>UpdatedAt\<close> filled in.\<close>

definition stamped :: "store_env \<Rightarrow> Transition \<Rightarrow> Transition" where
  "stamped env tr = tr\<lparr>tr_ID := trim_space (tr_ID tr),
     tr_UpdatedAt := or_now (tr_UpdatedAt tr) (se_now env 0)\<rparr>"

text \<open>
  \<open>UpdateTransition\<close> either leaves the tables alone and reports an error, or writes the row and
  its event; in the second case its result is that of the read that follows the commit.
\<close>

lemma UpdateTransition_cases:
  assumes "UpdateTransition env tr t = (r, t')"
  obtains (unchanged) e where "r = Inl e" "t' = t"
  | (written) row ev where
      "row_of tr_ID (t_transitions t) (trim_space (tr_ID tr)) = Some row"
      "t' = t\<lparr>t_transitions := update_rows tr_ID (trim_space (tr_ID tr))
                 (updated_transition_row (stamped env tr)) (t_transitions t),
              t_outbox := t_outbox t @ [ev]\<rparr>"
      "ev_Data ev = lifecycle_data (stamped env tr)"
      "r = GetTransition (reread (se_pg env)) t' (trim_space (tr_ID tr))"
      "trim_space (tr_ID tr) \<noteq> []"
proof -
  let ?i = "trim_space (tr_ID tr)" and ?pg = "se_pg env" and ?tr = "stamped env tr"
  let ?body = "tx_bind (setLocalPowerSearchPath ?pg) (\<lambda>_.
      tx_bind (db_try ?pg DbBuild ''building transition update query: '') (\<lambda>_.
      tx_bind (db_try ?pg DbUpdate (''updating transition '' @ go_quote ?i @ '': '')) (\<lambda>_ t.
      tx_bind (rowsAffectedAsInt ?pg (rows_affected tr_ID ?i (t_transitions t))
                 ''transition update'') (\<lambda>affected.
        if affected = 0 then tx_fail (Sentinel ErrNotFound)
        else
          tx_bind (tx_event ''building transition lifecycle event: ''
            (newTransitionLifecycleEvent ?pg (se_random env) 0 ?tr)) (\<lambda>ev.
          outbox_write ?pg 0 ''writing transition lifecycle outbox event: '' ev))
        (t\<lparr>t_transitions :=
           update_rows tr_ID ?i (updated_transition_row ?tr) (t_transitions t)\<rparr>))))"
  let ?upd = "with_tx ?pg ''starting transition update transaction: ''
      ''committing transition update transaction: '' ?body"
  have eq: "UpdateTransition env tr t =
      (if ?i = [] then (Inl (ErrText ''transition id is required''), t)
       else (case ?upd t of (Inl e, t1) \<Rightarrow> (Inl e, t1)
             | (Inr _, t1) \<Rightarrow> (GetTransition (reread ?pg) t1 ?i, t1)))"
    unfolding UpdateTransition_def Let_def stamped_def ..
  show thesis
  proof (cases "?i = []")
    case True
    with assms eq unchanged show thesis by auto
  next
    case False
    obtain u t1 where upd: "?upd t = (u, t1)" by (cases "?upd t")
    show thesis
    proof (cases u)
      case (Inl e)
      from assms have "r = Inl e" "t' = t1" unfolding eq upd using False Inl by simp_all
      moreover have "t1 = t" by (rule with_tx_Inl [OF upd [unfolded Inl]])
      ultimately show thesis using unchanged by blast
    next
      case (Inr v)
      from assms have r: "r = GetTransition (reread ?pg) t1 ?i" and t1: "t' = t1"
        unfolding eq upd using False Inr by auto
      from upd Inr obtain ev where
        ev: "newTransitionLifecycleEvent ?pg (se_random env) 0 ?tr = Inr ev"
        and some: "rows_affected tr_ID ?i (t_transitions t) \<noteq> 0"
        and t1_eq: "t1 = t\<lparr>t_transitions := update_rows tr_ID ?i (updated_transition_row ?tr)
            (t_transitions t), t_outbox := t_outbox t @ [ev]\<rparr>"
        by (auto simp: with_tx_Inr tx_bind_Inr setLocalPowerSearchPath_def rowsAffectedAsInt_Inr
            outbox_write_Inr split: if_splits)
      from some obtain row where "row_of tr_ID (t_transitions t) ?i = Some row"
        by (auto simp: rows_affected_0)
      with written [of row ev] t1_eq t1 r False newTransitionLifecycleEvent_Inr [OF ev]
      show thesis by (simp add: lifecycle_data_def)
    qed
  qed
qed

lemma UpdateTransitionTask_Inr:
  assumes "UpdateTransitionTask env tk t = (Inr k, t')"
  shows "k = updated_task (se_now env 0) tk \<and>
    (\<exists>row. row_of tk_ID (t_tasks t) (trim_space (tk_ID tk)) = Some row) \<and>
    t_transitions t' = t_transitions t \<and>
    t_tasks t' = update_rows tk_ID (trim_space (tk_ID tk)) (updated_task_row k) (t_tasks t) \<and>
    update_conflict t k = None \<and>
    (\<exists>evs. t_outbox t' = t_outbox t @ evs \<and>
      map ev_Data evs = (if isTerminalTaskState (tk_State k) then [task_data k] else []))"
proof -
  let ?i = "trim_space (tk_ID tk)" and ?k = "updated_task (se_now env 0) tk"
  from assms have i: "?i \<noteq> []" by (auto simp: UpdateTransitionTask_def Let_def split: if_splits)
  with assms have "update_conflict t ?k = None"
    and aff: "rows_affected tk_ID ?i (t_tasks t) \<noteq> 0" and k: "k = ?k"
    and out: "\<exists>evs. t' = t\<lparr>t_tasks := update_rows tk_ID ?i (updated_task_row ?k) (t_tasks t),
        t_outbox := t_outbox t @ evs\<rparr> \<and>
      (if isTerminalTaskState (tk_State ?k)
       then \<exists>ev. evs = [ev] \<and>
         newTransitionTaskResultEvent (se_pg env) (se_random env) 0 ?k = Inr ev
       else evs = [])"
    by (auto simp: UpdateTransitionTask_def Let_def with_tx_Inr tx_bind_Inr
        setLocalPowerSearchPath_def rowsAffectedAsInt_Inr outbox_write_Inr
        split: if_splits option.splits)
  moreover from aff obtain row where "row_of tk_ID (t_tasks t) ?i = Some row"
    by (auto simp: rows_affected_0)
  ultimately show ?thesis
    using newTransitionTaskResultEvent_Inr [of "se_pg env" "se_random env" 0 ?k]
    by (auto simp: task_data_def split: if_splits)
qed

lemma UpdateTransitionTask_Inl: "UpdateTransitionTask env tk t = (Inl e, t') \<Longrightarrow> t' = t"
  by (auto simp: UpdateTransitionTask_def Let_def dest: with_tx_Inl split: if_splits)

section \<open>The store invariant\<close>

text \<open>
  The outbox tells each transition's story: the last lifecycle event of a row's identifier is a
  snapshot of the row.
\<close>

fun lifecycle_of :: "string \<Rightarrow> Event \<Rightarrow> transitionEventSnapshot option" where
  "lifecycle_of i ev =
     (case ev_Data ev of
        LifecycleData j s \<Rightarrow> if j = i then Some s else None
      | TaskResultData _ _ _ _ \<Rightarrow> None)"

fun task_result_of :: "string \<Rightarrow> Event \<Rightarrow> transitionTaskEventSnapshot option" where
  "task_result_of i ev =
     (case ev_Data ev of
        LifecycleData _ _ \<Rightarrow> None
      | TaskResultData _ _ k s \<Rightarrow> if k = i then Some s else None)"

definition last_of :: "('e \<Rightarrow> 's option) \<Rightarrow> 'e list \<Rightarrow> 's option" where
  "last_of f evs = (case List.map_filter f (rev evs) of [] \<Rightarrow> None | s # _ \<Rightarrow> Some s)"

definition last_snapshot :: "Event list \<Rightarrow> string \<Rightarrow> transitionEventSnapshot option" where
  "last_snapshot evs i = last_of (lifecycle_of i) evs"

definition last_result :: "Event list \<Rightarrow> string \<Rightarrow> transitionTaskEventSnapshot option" where
  "last_result evs i = last_of (task_result_of i) evs"

text \<open>What a row can show of an event: the credential and its flag are no columns.\<close>

definition shown :: "transitionTaskEventSnapshot \<Rightarrow> transitionTaskEventSnapshot" where
  "shown s = s\<lparr>ets_CredentialID := [], ets_InsecureSkipVerify := False\<rparr>"

text \<open>The last result told of a task that has ended is what its row says.\<close>

definition task_events_ok :: "tr_tables \<Rightarrow> bool" where
  "task_events_ok t \<longleftrightarrow>
     (\<forall>k \<in> set (t_tasks t). trim_space (tk_ID k) = tk_ID k \<and>
        (isTerminalTaskState (tk_State k) \<longrightarrow>
           map_option shown (last_result (t_outbox t) (tk_ID k)) = Some (task_snapshot k)))"

definition store_inv :: "tr_tables \<Rightarrow> bool" where
  "store_inv t \<longleftrightarrow>
     tr_tables_ok t \<and>
     (\<forall>r \<in> set (t_transitions t). tr_ID r \<noteq> [] \<and> trim_space (tr_ID r) = tr_ID r \<and>
        last_snapshot (t_outbox t) (tr_ID r) = Some (transition_snapshot r))"

lemma map_filter_append:
  "List.map_filter f (xs @ ys) = List.map_filter f xs @ List.map_filter f ys"
  by (induction xs) (auto split: option.split)

lemma last_of_append:
  "last_of f (xs @ ys) = (case last_of f ys of Some s \<Rightarrow> Some s | None \<Rightarrow> last_of f xs)"
  by (auto simp: last_of_def map_filter_append split: list.split)

lemma last_of_simps [simp]:
  "last_of f [] = None" "last_of f [e] = f e"
  by (simp_all add: last_of_def split: option.split)

lemma last_snapshot_append:
  "last_snapshot (xs @ ys) i =
   (case last_snapshot ys i of Some s \<Rightarrow> Some s | None \<Rightarrow> last_snapshot xs i)"
  unfolding last_snapshot_def by (rule last_of_append)

lemma last_result_append:
  "last_result (xs @ ys) i =
   (case last_result ys i of Some s \<Rightarrow> Some s | None \<Rightarrow> last_result xs i)"
  unfolding last_result_def by (rule last_of_append)

lemma last_snapshot_tasks:
  "map ev_Data evs = map task_data tks \<Longrightarrow> last_snapshot evs i = None"
proof (induction tks arbitrary: evs)
  case (Cons k ks)
  then obtain ev es where "evs = ev # es" "ev_Data ev = task_data k"
      "map ev_Data es = map task_data ks" by (cases evs) auto
  with Cons.IH [of es] show ?case
    using last_snapshot_append [of "[ev]" es i] by (simp add: last_snapshot_def task_data_def)
qed (simp add: last_snapshot_def)

lemma last_result_lifecycle: "ev_Data ev = lifecycle_data tr \<Longrightarrow> last_result [ev] i = None"
  by (simp add: last_result_def lifecycle_data_def)

lemma task_snapshot_row: "task_snapshot (task_row k) = shown (task_snapshot k)"
  by (simp add: task_snapshot_def task_row_def shown_def)

text \<open>The results told of tasks with different identifiers.\<close>

lemma last_result_tasks:
  "map ev_Data evs = map task_data tks \<Longrightarrow> distinct (map tk_ID tks) \<Longrightarrow>
   \<forall>k \<in> set tks. trim_space (tk_ID k) = tk_ID k \<Longrightarrow>
   last_result evs i = map_option task_snapshot (row_of tk_ID tks i)"
proof (induction tks arbitrary: evs)
  case (Cons k ks)
  then obtain ev es where ev: "evs = [ev] @ es" "ev_Data ev = task_data k"
      "map ev_Data es = map task_data ks" by (cases evs) auto
  have es: "last_result es i = map_option task_snapshot (row_of tk_ID ks i)"
    by (rule Cons.IH [OF ev(3)]) (use Cons.prems in simp_all)
  have one: "last_result [ev] i = (if tk_ID k = i then Some (task_snapshot k) else None)"
    using ev(2) Cons.prems(3) by (simp add: last_result_def task_data_def)
  have "row_of tk_ID ks i = None" if "tk_ID k = i"
    using Cons.prems(2) that by (auto simp: row_of_None)
  then show ?case
    unfolding ev(1) last_result_append es one by (auto simp: row_of_Cons split: option.split)
qed (simp add: last_result_def)

lemma last_snapshot_lifecycle:
  "ev_Data ev = lifecycle_data tr \<Longrightarrow>
   last_snapshot [ev] i = (if trim_space (tr_ID tr) = i then Some (transition_snapshot tr) else None)"
  by (simp add: last_snapshot_def lifecycle_data_def)

datatype store_op =
    OpCreate Transition "Task list"
  | OpUpdate Transition
  | OpUpdateTask Task

text \<open>The tables after an operation, whatever it answers.\<close>

fun store_apply :: "store_env \<Rightarrow> store_op \<Rightarrow> tr_tables \<Rightarrow> tr_tables" where
  "store_apply env (OpCreate tr tasks) t = snd (CreateTransition env tr tasks t)"
| "store_apply env (OpUpdate tr) t = snd (UpdateTransition env tr t)"
| "store_apply env (OpUpdateTask tk) t = snd (UpdateTransitionTask env tk t)"

text \<open>
  The runner updates a transition and a task with the creation time it got from
  \<open>CreateTransition\<close>.
\<close>

fun op_admissible :: "store_op \<Rightarrow> tr_tables \<Rightarrow> bool" where
  "op_admissible (OpUpdate tr) t =
     (case row_of tr_ID (t_transitions t) (trim_space (tr_ID tr)) of
        None \<Rightarrow> True | Some r \<Rightarrow> tr_CreatedAt tr = tr_CreatedAt r)"
| "op_admissible (OpUpdateTask tk) t =
     (case row_of tk_ID (t_tasks t) (trim_space (tk_ID tk)) of
        None \<Rightarrow> True | Some r \<Rightarrow> tk_CreatedAt tk = tk_CreatedAt r)"
| "op_admissible (OpCreate tr tasks) t = True"

lemma clean_transition_trimmed:
  "trim_space (tr_ID (clean_transition now tr)) = tr_ID (clean_transition now tr)"
  by (simp add: clean_transition_def Let_def)

lemma store_inv_create:
  assumes inv: "store_inv t" and uuid: "\<And>k. se_uuid env k \<noteq> [] \<and> trim_space (se_uuid env k) = se_uuid env k"
    and run: "CreateTransition env tr tasks t = (Inr (ctr, ctks), t')"
  shows "store_inv t'"
proof -
  note c = CreateTransition_Inr [OF run]
  from c obtain evs ev es where
    out: "t_outbox t' = t_outbox t @ ev # es" and ev: "ev_Data ev = lifecycle_data ctr"
    and es: "map ev_Data es = map task_data (filter (\<lambda>k. isTerminalTaskState (tk_State k)) ctks)"
    by (auto simp: map_eq_Cons_conv)
  have snap: "last_snapshot (t_outbox t') i = (if trim_space (tr_ID ctr) = i
      then Some (transition_snapshot ctr) else last_snapshot (t_outbox t) i)" for i
    using last_snapshot_append [of "t_outbox t @ [ev]" es] last_snapshot_append [of "t_outbox t" "[ev]"]
      last_snapshot_tasks [OF es] last_snapshot_lifecycle [OF ev]
    by (simp add: out split: option.split)
  have ne: "tr_ID ctr \<noteq> [] \<and> trim_space (tr_ID ctr) = tr_ID ctr"
  proof -
    obtain x where "newTransitionLifecycleEvent (se_pg env) (se_random env) 0 ctr = Inr x"
      using run by (auto simp: CreateTransition_def Let_def tx_success)
    then have "trim_space (tr_ID ctr) \<noteq> []" by (blast dest: newTransitionLifecycleEvent_Inr)
    moreover have "trim_space (tr_ID ctr) = tr_ID ctr" using c uuid by auto
    ultimately show ?thesis by auto
  qed
  have fresh: "tr_ID r \<noteq> tr_ID ctr" if "r \<in> set (t_transitions t)" for r
  proof -
    have "tr_ID ctr \<notin> tr_ID ` set (t_transitions t)"
      using c [THEN conjunct1] by (simp add: row_of_None)
    with that show ?thesis by (metis imageI)
  qed
  have rows: "t_transitions t' = t_transitions t @ [ctr]" "tr_tables_ok t \<longrightarrow> tr_tables_ok t'"
    using c by blast+
  show ?thesis
    using inv rows snap ne by (auto simp: store_inv_def dest: fresh)
qed

lemma updated_snapshot:
  assumes "tr_CreatedAt tr = tr_CreatedAt row" and "tr_ID row = trim_space (tr_ID tr)"
  shows "transition_snapshot (stamped env tr) =
    transition_snapshot (updated_transition_row (stamped env tr) row)"
  using assms by (simp add: transition_snapshot_def stamped_def updated_transition_row_def)

lemma store_inv_update:
  assumes inv: "store_inv t" and adm: "op_admissible (OpUpdate tr) t"
    and run: "UpdateTransition env tr t = (r, t')"
  shows "store_inv t'"
  using run
proof (cases rule: UpdateTransition_cases)
  case (written row ev)
  let ?i = "trim_space (tr_ID tr)"
  note row = row_of_SomeD [OF written(1)]
  have uniq: "unique_keys tr_ID (t_transitions t)"
    using inv by (simp add: store_inv_def tr_tables_ok_def)
  have keys: "map tr_ID (t_transitions t') = map tr_ID (t_transitions t)"
    using written(2) by (simp add: update_rows_keys)
  then have ids: "tr_ID ` set (t_transitions t') = tr_ID ` set (t_transitions t)"
    by (metis image_set)
  have ok: "tr_tables_ok t'"
    using inv written(2) keys ids by (simp add: store_inv_def tr_tables_ok_def unique_keys_def)
  have snap: "last_snapshot (t_outbox t') i = (if ?i = i
      then Some (transition_snapshot (stamped env tr)) else last_snapshot (t_outbox t) i)" for i
    using last_snapshot_append [of "t_outbox t" "[ev]"] last_snapshot_lifecycle [OF written(3)]
      written(2) by (simp add: stamped_def)
  have "tr_ID q \<noteq> [] \<and> trim_space (tr_ID q) = tr_ID q \<and>
      last_snapshot (t_outbox t') (tr_ID q) = Some (transition_snapshot q)"
    if q: "q \<in> set (t_transitions t')" for q
  proof -
    from q written(2) obtain p where p: "p \<in> set (t_transitions t)" and
      q_eq: "q = (if tr_ID p = ?i then updated_transition_row (stamped env tr) p else p)"
      by (auto simp: update_rows_def)
    show ?thesis
    proof (cases "tr_ID p = ?i")
      case True
      with p uniq row have "p = row" by (metis row_of_unique option.inject)
      moreover from adm written(1) have "tr_CreatedAt tr = tr_CreatedAt row" by simp
      ultimately show ?thesis
        using True q_eq snap updated_snapshot [of tr row env] inv p by (auto simp: store_inv_def)
    next
      case False
      with q_eq p inv snap show ?thesis by (auto simp: store_inv_def)
    qed
  qed
  with ok show ?thesis by (simp add: store_inv_def)
qed (use inv in simp)

lemma store_inv_update_task:
  assumes inv: "store_inv t" and run: "UpdateTransitionTask env tk t = (Inr k, t')"
  shows "store_inv t'"
proof -
  let ?i = "trim_space (tk_ID tk)"
  note u = UpdateTransitionTask_Inr [OF run]
  then obtain row evs where row: "row_of tk_ID (t_tasks t) ?i = Some row"
    and out: "t_outbox t' = t_outbox t @ evs"
      "map ev_Data evs = map task_data (if isTerminalTaskState (tk_State k) then [k] else [])"
    by (auto split: if_splits)
  have kid: "tk_ID k = ?i" using u by (simp add: updated_task_def)
  have ok: "tr_tables_ok t" using inv by (simp add: store_inv_def)
  have keys: "map tk_ID (t_tasks t') = map tk_ID (t_tasks t)"
    using u by (simp add: update_rows_keys updated_task_row_def)
  have conf: "row_of tr_ID (t_transitions t) (tk_TransitionID k) \<noteq> None"
      "(tk_TransitionID k, tk_NodeID k) \<notin>
       (\<lambda>r. (tk_TransitionID r, tk_NodeID r)) ` set (filter (\<lambda>r. tk_ID r \<noteq> ?i) (t_tasks t))"
    using u row kid by (auto simp: update_conflict_def task_conflict_None split: if_splits)
  let ?f = "\<lambda>r. if tk_ID r = ?i then updated_task_row k r else r"
  have tasks': "t_tasks t' = map ?f (t_tasks t)" using u by (simp add: update_rows_def)
  have pair: "(tk_TransitionID (?f r), tk_NodeID (?f r)) =
      (if tk_ID r = ?i then (tk_TransitionID k, tk_NodeID k) else (tk_TransitionID r, tk_NodeID r))" for r
    by (simp add: updated_task_row_def)
  have "distinct (map (\<lambda>r. (tk_TransitionID (?f r), tk_NodeID (?f r))) rows)"
    if "distinct (map (\<lambda>r. (tk_TransitionID r, tk_NodeID r)) rows)" "unique_keys tk_ID rows"
      "(tk_TransitionID k, tk_NodeID k) \<notin>
        (\<lambda>r. (tk_TransitionID r, tk_NodeID r)) ` set (filter (\<lambda>r. tk_ID r \<noteq> ?i) rows)" for rows
    using that unfolding pair
  proof (induction rows)
    case (Cons r rs)
    then show ?case by (cases "tk_ID r = ?i") (force simp: unique_keys_def)+
  qed simp
  then have "distinct (map (\<lambda>r. (tk_TransitionID r, tk_NodeID r)) (t_tasks t'))"
    using ok conf(2) by (simp add: tasks' comp_def tr_tables_ok_def)
  moreover have "tk_TransitionID ` set (t_tasks t') \<subseteq> tr_ID ` set (t_transitions t)"
    using ok conf(1) by (auto simp: tasks' updated_task_row_def tr_tables_ok_def row_of_None)
  ultimately have "tr_tables_ok t'"
    using ok u keys by (simp add: tr_tables_ok_def unique_keys_def)
  moreover have "last_snapshot (t_outbox t') i = last_snapshot (t_outbox t) i" for i
    using last_snapshot_append [of "t_outbox t" evs] last_snapshot_tasks [OF out(2)] out(1) by simp
  ultimately show ?thesis using inv u by (simp add: store_inv_def)
qed

text \<open>The results told of tasks keep up with their rows.\<close>

lemma task_events_create:
  assumes inv: "tr_tables_ok t" "task_events_ok t" and uuid: "uuids_ok env"
    and run: "CreateTransition env tr tasks t = (Inr (ctr, ctks), t')"
  shows "task_events_ok t'"
proof -
  note c = CreateTransition_Inr [OF run]
  let ?done = "filter (\<lambda>k. isTerminalTaskState (tk_State k)) ctks"
  from c obtain ev es where out: "t_outbox t' = t_outbox t @ [ev] @ es"
    and ev: "ev_Data ev = lifecycle_data ctr" and es: "map ev_Data es = map task_data ?done"
    by (auto simp: map_eq_Cons_conv)
  have rows: "t_tasks t' = t_tasks t @ map task_row ctks" using c by blast
  have trim: "\<forall>k \<in> set ctks. trim_space (tk_ID k) = tk_ID k" using c uuid by blast
  have "unique_keys tk_ID (t_tasks t')" using c inv(1) by (metis tr_tables_ok_def)
  then have keys: "distinct (map tk_ID ctks)"
    "\<And>k c. k \<in> set (t_tasks t) \<Longrightarrow> c \<in> set ctks \<Longrightarrow> tk_ID k \<noteq> tk_ID c"
    by (force simp: rows unique_keys_def comp_def)+
  have done_keys: "distinct (map tk_ID ?done)" using keys(1) by (rule distinct_map_filter)
  have last: "last_result (t_outbox t') i =
      (case row_of tk_ID ?done i of Some k \<Rightarrow> Some (task_snapshot k) | None \<Rightarrow> last_result (t_outbox t) i)"
    for i
  proof -
    have "last_result es i = map_option task_snapshot (row_of tk_ID ?done i)"
      by (rule last_result_tasks [OF es done_keys]) (use trim in simp)
    then show ?thesis
      unfolding out last_result_append last_result_lifecycle [OF ev] by (simp split: option.split)
  qed
  show ?thesis
    unfolding task_events_ok_def
  proof (intro ballI)
    fix k assume "k \<in> set (t_tasks t')"
    then consider "k \<in> set (t_tasks t)" | c where "c \<in> set ctks" "k = task_row c" by (auto simp: rows)
    then show "trim_space (tk_ID k) = tk_ID k \<and> (isTerminalTaskState (tk_State k) \<longrightarrow>
        map_option shown (last_result (t_outbox t') (tk_ID k)) = Some (task_snapshot k))"
    proof cases
      case 1
      then have "row_of tk_ID ?done (tk_ID k) = None" using keys(2) by (force simp: row_of_None)
      with 1 inv(2) show ?thesis by (simp add: task_events_ok_def last)
    next
      case (2 c)
      have "row_of tk_ID ?done (tk_ID c) = Some c" if "isTerminalTaskState (tk_State c)"
        by (rule row_of_unique) (use that 2(1) done_keys in \<open>simp_all add: unique_keys_def\<close>)
      with 2 trim show ?thesis by (simp add: last task_snapshot_row)
    qed
  qed
qed

lemma task_events_update:
  assumes "task_events_ok t" and run: "UpdateTransition env tr t = (r, t')"
  shows "task_events_ok t'"
  using run
proof (cases rule: UpdateTransition_cases)
  case (written row ev)
  have "last_result (t_outbox t') i = last_result (t_outbox t) i" for i
    by (simp add: written(2) last_result_append last_result_lifecycle [OF written(3)])
  with assms(1) written(2) show ?thesis by (simp add: task_events_ok_def)
qed (use assms in simp)

lemma task_events_update_task:
  assumes inv: "tr_tables_ok t" "task_events_ok t" and adm: "op_admissible (OpUpdateTask tk) t"
    and run: "UpdateTransitionTask env tk t = (Inr k, t')"
  shows "task_events_ok t'"
proof -
  let ?i = "trim_space (tk_ID tk)"
  note u = UpdateTransitionTask_Inr [OF run]
  then obtain row evs where row: "row_of tk_ID (t_tasks t) ?i = Some row"
    and out: "t_outbox t' = t_outbox t @ evs"
      "map ev_Data evs = map task_data (if isTerminalTaskState (tk_State k) then [k] else [])"
    by (auto split: if_splits)
  have k: "tk_ID k = ?i" "tk_CreatedAt k = tk_CreatedAt tk" using u by (simp_all add: updated_task_def)
  note r = row_of_SomeD [OF row]
  have keys: "unique_keys tk_ID (t_tasks t)" using inv(1) by (simp add: tr_tables_ok_def)
  have new: "updated_task_row k row = task_row k"
    using adm row r k by (simp add: updated_task_row_def task_row_def)
  have last: "last_result (t_outbox t') i = (if isTerminalTaskState (tk_State k) \<and> i = ?i
      then Some (task_snapshot k) else last_result (t_outbox t) i)" for i
  proof -
    have "last_result evs i = map_option task_snapshot
        (row_of tk_ID (if isTerminalTaskState (tk_State k) then [k] else []) i)"
      by (rule last_result_tasks [OF out(2)]) (simp_all add: k)
    then show ?thesis by (auto simp: out(1) last_result_append row_of_Cons k split: option.split)
  qed
  show ?thesis
    unfolding task_events_ok_def
  proof (intro ballI)
    fix q assume "q \<in> set (t_tasks t')"
    then obtain p where p: "p \<in> set (t_tasks t)"
      and q: "q = (if tk_ID p = ?i then updated_task_row k p else p)"
      using u by (auto simp: update_rows_def)
    show "trim_space (tk_ID q) = tk_ID q \<and> (isTerminalTaskState (tk_State q) \<longrightarrow>
        map_option shown (last_result (t_outbox t') (tk_ID q)) = Some (task_snapshot q))"
    proof (cases "tk_ID p = ?i")
      case True
      with p keys r row have "p = row" by (metis row_of_unique option.inject)
      with True q new k show ?thesis by (simp add: last task_snapshot_row)
    next
      case False
      with q p inv(2) show ?thesis by (simp add: task_events_ok_def last)
    qed
  qed
qed

section \<open>The store interface of the runner\<close>

text \<open>
  What the runner relies on: a failed creation leaves nothing behind, a created task is the one
  handed in (trimmed, with its keys), and an updated task keeps the state it was given.
\<close>

locale transition_store =
  fixes create :: "'e \<Rightarrow> Transition \<Rightarrow> Task list \<Rightarrow> (Transition \<times> Task list, 'd) tx"
    and update_task :: "'e \<Rightarrow> Task \<Rightarrow> (Task, 'd) tx"
  assumes create_fail: "create env tr tks d = (Inl x, d') \<Longrightarrow> d' = d"
    and create_tasks: "create env tr tks d = (Inr (ctr, ctks), d') \<Longrightarrow>
      list_all2 (stored_as (tr_ID ctr)) tks ctks"
    and create_counts: "create env tr tks d = (Inr (ctr, ctks), d') \<Longrightarrow>
      tr_State ctr = trim_space (tr_State tr) \<and> tr_TargetCount ctr = tr_TargetCount tr \<and>
      tr_SuccessCount ctr = tr_SuccessCount tr \<and> tr_FailureCount ctr = tr_FailureCount tr"
    and update_task_keeps: "update_task env tk d = (Inr k, d') \<Longrightarrow>
      tk_State k = trim_space (tk_State tk) \<and> tk_BMCID k = trim_space (tk_BMCID tk)"
begin

lemma created_states:
  assumes "create env tr tks d = (Inr (ctr, ctks), d')"
    and "\<And>tk. tk \<in> set tks \<Longrightarrow> trim_space (tk_State tk) = tk_State tk"
  shows "map tk_State ctks = map tk_State tks"
proof -
  from create_tasks [OF assms(1)] show ?thesis
    using assms(2) by (induction rule: list_all2_induct) (auto simp: stored_as_def)
qed

lemma created_pending:
  assumes "create env tr tks d = (Inr (ctr, ctks), d')"
    and "\<And>tk. tk \<in> set tks \<Longrightarrow> trim_space (tk_State tk) = tk_State tk"
  shows "length (filter (\<lambda>k. tk_State k = s) ctks) = length (filter (\<lambda>k. tk_State k = s) tks)"
proof -
  have "length (filter (\<lambda>k. tk_State k = s) xs) = length (filter (\<lambda>x. x = s) (map tk_State xs))"
    for xs by (simp add: filter_map comp_def)
  from this [of ctks] this [of tks] created_states [OF assms] show ?thesis by metis
qed

end

interpretation pg_store: transition_store CreateTransition UpdateTransitionTask
proof
  fix env tr tks d x d'
  show "CreateTransition env tr tks d = (Inl x, d') \<Longrightarrow> d' = d" by (rule CreateTransition_Inl)
next
  fix env tr tks d ctr ctks d'
  assume "CreateTransition env tr tks d = (Inr (ctr, ctks), d')"
  note c = CreateTransition_Inr [OF this]
  from c show "list_all2 (stored_as (tr_ID ctr)) tks ctks" by blast
  from c obtain i where "ctr = (clean_transition (se_now env 0) tr)\<lparr>tr_ID := i\<rparr>" by blast
  then show "tr_State ctr = trim_space (tr_State tr) \<and> tr_TargetCount ctr = tr_TargetCount tr \<and>
      tr_SuccessCount ctr = tr_SuccessCount tr \<and> tr_FailureCount ctr = tr_FailureCount tr"
    by (simp add: clean_transition_def Let_def)
next
  fix env tk d k d'
  assume "UpdateTransitionTask env tk d = (Inr k, d')"
  from UpdateTransitionTask_Inr [OF this]
  show "tk_State k = trim_space (tk_State tk) \<and> tk_BMCID k = trim_space (tk_BMCID tk)"
    by (simp add: updated_task_def)
qed

section \<open>Lemmas on listing\<close>

definition newest_first :: "Transition list \<Rightarrow> Transition list" where
  "newest_first rows = rev (sort_key (\<lambda>r. (tr_QueuedAt r, tr_ID r)) rows)"

lemma ListTransitions_Inr:
  assumes "ListTransitions pg t limit offset = Inr (rows, n)"
  shows "rows = take (nat (normalizeTransitionPageLimit limit))
      (drop (nat offset) (newest_first (t_transitions t))) \<and>
    n = int (length (t_transitions t))"
proof -
  have "map scanTransition rs = rs" for rs by (rule map_idI) (simp add: scanTransition_def)
  moreover have "safeUint64 (normalizeTransitionPageLimit limit) =
      nat (normalizeTransitionPageLimit limit)"
    by (simp add: safeUint64_def normalizeTransitionPageLimit_def defaultTransitionPageLimit_def
        maxTransitionPageLimit_def)
  moreover have "safeUint64 (if offset < 0 then 0 else offset) = nat offset"
    by (simp add: safeUint64_def)
  ultimately show ?thesis
    using assms
    by (auto simp: ListTransitions_def Let_def newest_first_def
        split: option.splits sum.splits dest!: read_rows_Inr)
qed

lemma ListTransitions_no_faults:
  "\<exists>rows. ListTransitions no_faults t limit offset = Inr (rows, int (length (t_transitions t)))"
  by (simp add: ListTransitions_def Let_def)

lemma concat_pages:
  "concat (map (\<lambda>k. take n (drop (k * n) xs)) [0..<m]) = take (m * n) xs"
proof (induction m)
  case (Suc m)
  have "take (m * n) xs @ take n (drop (m * n) xs) = take (m * n + n) xs"
    by (simp add: take_add)
  with Suc show ?case by (simp add: add.commute)
qed simp

lemma distinct_on_keys:
  "key ` set (distinct_on key seen rs) = key ` set rs - set seen \<and>
   distinct (map key (distinct_on key seen rs))"
  by (induction key seen rs rule: distinct_on.induct) auto

lemma distinct_on_first:
  "r \<in> set (distinct_on key seen rs) \<Longrightarrow>
   \<exists>pre post. rs = pre @ r # post \<and> key r \<notin> key ` set pre"
proof (induction key seen rs rule: distinct_on.induct)
  case (2 key seen r0 rs)
  show ?case
  proof (cases "key r0 \<in> set seen")
    case True
    with 2 obtain pre post where "rs = pre @ r # post" "key r \<notin> key ` set pre" by auto
    moreover have "key r \<notin> set seen"
      using 2(3) distinct_on_keys [of key seen "r0 # rs"] by blast
    ultimately show ?thesis
      using True by (intro exI [of _ "r0 # pre"] exI [of _ post]) auto
  next
    case False
    show ?thesis
    proof (cases "r = r0")
      case True
      then show ?thesis by (intro exI [of _ "[]"] exI [of _ rs]) simp
    next
      case ne: False
      with False 2 obtain pre post where p: "rs = pre @ r # post" "key r \<notin> key ` set pre" by auto
      have "r \<in> set (distinct_on key (key r0 # seen) rs)" using 2(3) False ne by simp
      then have "key r \<noteq> key r0"
        using distinct_on_keys [of key "key r0 # seen" rs] by (metis Diff_iff imageI list.set_intros(1))
      with p show ?thesis by (intro exI [of _ "r0 # pre"] exI [of _ post]) auto
    qed
  qed
qed simp

lemma distinct_on_subset: "r \<in> set (distinct_on key seen rs) \<Longrightarrow> r \<in> set rs"
  by (induction key seen rs rule: distinct_on.induct) (auto split: if_splits)

lemma distinct_on_least:
  assumes "sorted (map f rs)" and "r \<in> set (distinct_on key [] rs)"
    and "q \<in> set rs" "key q = key r"
  shows "f r \<le> f q"
proof -
  from distinct_on_first [OF assms(2)] obtain pre post where
    p: "rs = pre @ r # post" "key r \<notin> key ` set pre" by blast
  then have "q = r \<or> q \<in> set post" using assms(3,4) by (auto simp: image_iff)
  then show ?thesis using assms(1) p(1) by (auto simp: sorted_append)
qed

section \<open>Properties\<close>

text \<open>
  Creating a transition is atomic and announced: after an error nothing is stored; after a
  success the new row, one task row per requested task and the outbox have grown together, by
  one lifecycle event and one task event per task that is already finished, each with the data
  of its row.  The runner gets its tasks back with the credential the schema does not keep.
\<close>

lemma CreateTransition_atomic:
  "case CreateTransition env tr tasks t of
     (Inl e, t') \<Rightarrow> t' = t
   | (Inr (ctr, ctks), t') \<Rightarrow>
       tr_ID ctr \<notin> tr_ID ` set (t_transitions t) \<and>
       t_transitions t' = t_transitions t @ [ctr] \<and>
       t_tasks t' = t_tasks t @ map task_row ctks \<and>
       list_all2 (stored_as (tr_ID ctr)) tasks ctks \<and>
       (\<exists>evs. t_outbox t' = t_outbox t @ evs \<and> map ev_Data evs =
          lifecycle_data ctr # map task_data (filter (\<lambda>k. isTerminalTaskState (tk_State k)) ctks))"
proof (cases "CreateTransition env tr tasks t")
  case (Pair r t')
  show ?thesis
  proof (cases r)
    case (Inl e)
    with Pair CreateTransition_Inl show ?thesis by fastforce
  next
    case (Inr p)
    obtain ctr ctks where p: "p = (ctr, ctks)" by (cases p)
    have "CreateTransition env tr tasks t = (Inr (ctr, ctks), t')" using Pair Inr p by simp
    note c = CreateTransition_Inr [OF this]
    then have "tr_ID ctr \<notin> tr_ID ` set (t_transitions t)"
      using row_of_None by metis
    with c Pair Inr p show ?thesis by simp
  qed
qed

text \<open>
  C18. The store invariant: through every create, update and task update, successful or not, keys
  stay unique, tasks keep pointing at transitions, the last lifecycle event of a transition in the
  outbox remains a snapshot of its row, and the last result event of a task that has ended remains a
  snapshot of its row (without the credential, which is no column).  An update of an existing row must
  carry the creation time on record, which is what the runner hands in; the outbox would tell
  another one.
\<close>

theorem store_invariant:
  assumes "store_inv t" "task_events_ok t" and "op_admissible op t" and "uuids_ok env"
  shows "store_inv (store_apply env op t) \<and> task_events_ok (store_apply env op t)"
proof (cases op)
  case (OpCreate tr tasks)
  obtain r t' where run: "CreateTransition env tr tasks t = (r, t')" by fastforce
  show ?thesis
  proof (cases r)
    case (Inl e)
    with OpCreate run CreateTransition_Inl [of env tr tasks t e t'] assms show ?thesis by simp
  next
    case (Inr p)
    then have "CreateTransition env tr tasks t = (Inr (fst p, snd p), t')" using run by simp
    from store_inv_create [OF assms(1) _ this] task_events_create [OF _ assms(2,4) this]
    show ?thesis using OpCreate run assms(1,4) by (simp add: uuids_ok_def store_inv_def)
  qed
next
  case (OpUpdate tr)
  obtain r t' where run: "UpdateTransition env tr t = (r, t')" by fastforce
  with OpUpdate store_inv_update [OF assms(1) _ run] task_events_update [OF assms(2) run] assms(3)
  show ?thesis by simp
next
  case (OpUpdateTask tk)
  obtain r t' where run: "UpdateTransitionTask env tk t = (r, t')" by fastforce
  show ?thesis
  proof (cases r)
    case (Inl e)
    with OpUpdateTask run UpdateTransitionTask_Inl [of env tk t e t'] assms show ?thesis by simp
  next
    case (Inr k)
    with OpUpdateTask run store_inv_update_task [OF assms(1), of env tk k t']
      task_events_update_task [OF _ assms(2), of tk env k t'] assms(1,3)
    show ?thesis by (simp add: store_inv_def)
  qed
qed

text \<open>
  A transition update answers the row it wrote, tells the outbox about it, and touches no
  other row; without a row of that identifier it answers \<open>ErrNotFound\<close> and changes nothing.
\<close>

lemma UpdateTransition_spec:
  assumes "store_inv t" and "pg_fault (se_pg env) = (\<lambda>_. None)" and "trim_space (tr_ID tr) \<noteq> []"
  shows "case row_of tr_ID (t_transitions t) (trim_space (tr_ID tr)) of
     None \<Rightarrow> UpdateTransition env tr t = (Inl (Sentinel ErrNotFound), t)
   | Some row \<Rightarrow>
       \<exists>t' ev. UpdateTransition env tr t = (Inr (updated_transition_row (stamped env tr) row), t') \<and>
         (\<forall>i. row_of tr_ID (t_transitions t') i =
            (if i = trim_space (tr_ID tr) then Some (updated_transition_row (stamped env tr) row)
             else row_of tr_ID (t_transitions t) i)) \<and>
         t_tasks t' = t_tasks t \<and> t_outbox t' = t_outbox t @ [ev] \<and>
         ev_Data ev = lifecycle_data (stamped env tr)"
proof -
  let ?i = "trim_space (tr_ID tr)"
  obtain r t' where run: "UpdateTransition env tr t = (r, t')" by fastforce
  have no: "pg_fault (se_pg env) c = None" for c using assms(2) by simp
  show ?thesis
  proof (cases "row_of tr_ID (t_transitions t) ?i")
    case None
    then have "rows_affected tr_ID ?i (t_transitions t) = 0" by (simp add: rows_affected_0)
    then have "UpdateTransition env tr t = (Inl (Sentinel ErrNotFound), t)"
      using assms(3) no
      by (simp add: UpdateTransition_def Let_def with_tx_def tx_bind_def setLocalPowerSearchPath_def
          db_try_def rowsAffectedAsInt_def tx_return_def tx_fail_def)
    with None show ?thesis by simp
  next
    case (Some row)
    have "r \<noteq> Inl e" if "t' = t" for e
    proof -
      have "rows_affected tr_ID ?i (t_transitions t) \<noteq> 0" using Some by (simp add: rows_affected_0)
      moreover obtain ev where "newTransitionLifecycleEvent (se_pg env) (se_random env) 0
          (stamped env tr) = Inr ev"
        using no assms(3) by (simp add: newTransitionLifecycleEvent_def newTransitionEventID_def
            Let_def stamped_def)
      ultimately have "t_outbox t' \<noteq> t_outbox t"
        using run assms(3) no
        by (auto simp: UpdateTransition_def Let_def with_tx_def tx_bind_def stamped_def
            setLocalPowerSearchPath_def db_try_def rowsAffectedAsInt_def tx_return_def
            tx_event_def outbox_write_def tx_modify_def rows_affected_def split: if_splits)
      with that show ?thesis by simp
    qed
    with run have "\<exists>ev. t' = t\<lparr>t_transitions := update_rows tr_ID ?i
          (updated_transition_row (stamped env tr)) (t_transitions t),
        t_outbox := t_outbox t @ [ev]\<rparr> \<and> ev_Data ev = lifecycle_data (stamped env tr) \<and>
        r = GetTransition (reread (se_pg env)) t' ?i"
      by (elim UpdateTransition_cases) blast+
    then obtain ev where t': "t' = t\<lparr>t_transitions := update_rows tr_ID ?i
          (updated_transition_row (stamped env tr)) (t_transitions t),
        t_outbox := t_outbox t @ [ev]\<rparr>" "ev_Data ev = lifecycle_data (stamped env tr)"
      and r: "r = GetTransition (reread (se_pg env)) t' ?i" by blast
    have rows: "row_of tr_ID (t_transitions t') i =
        (if i = ?i then Some (updated_transition_row (stamped env tr) row)
         else row_of tr_ID (t_transitions t) i)" for i
      using Some by (simp add: t'(1) row_of_update_rows)
    have "r = Inr (updated_transition_row (stamped env tr) row)"
      using rows assms(3) no by (simp add: r GetTransition_def Let_def reread_def scanTransition_def)
    with run rows t' Some show ?thesis by auto
  qed
qed

text \<open>
  Paging misses nothing: with a page size of at most 1000, the pages at offsets 0, n, 2n, ...
  together are all transitions, newest first, and each page reports the same total.
\<close>

lemma ListTransitions_pages:
  assumes "0 < n" "n \<le> 1000" and "length (t_transitions t) \<le> m * n"
  shows "concat (map (\<lambda>k. case ListTransitions no_faults t (int n) (int (k * n)) of
        Inl e \<Rightarrow> [] | Inr (rows, cnt) \<Rightarrow> rows) [0..<m]) = newest_first (t_transitions t) \<and>
    mset (newest_first (t_transitions t)) = mset (t_transitions t) \<and>
    sorted_wrt (\<lambda>a b. (tr_QueuedAt b, tr_ID b) \<le> (tr_QueuedAt a, tr_ID a))
      (newest_first (t_transitions t))"
proof -
  let ?xs = "newest_first (t_transitions t)"
  have "normalizeTransitionPageLimit (int n) = int n"
    using assms by (simp add: normalizeTransitionPageLimit_def maxTransitionPageLimit_def)
  then have page: "(case ListTransitions no_faults t (int n) (int (k * n)) of
        Inl e \<Rightarrow> [] | Inr (rows, cnt) \<Rightarrow> rows) = take n (drop (k * n) ?xs)" for k
    using ListTransitions_no_faults [of t "int n" "int (k * n)"]
      ListTransitions_Inr [of no_faults t "int n" "int (k * n)"] by (auto simp: nat_mult_distrib)
  have "length ?xs \<le> m * n" using assms(3) by (simp add: newest_first_def)
  moreover have "sorted_wrt (\<lambda>a b. (tr_QueuedAt b, tr_ID b) \<le> (tr_QueuedAt a, tr_ID a)) ?xs"
    using sorted_sort_key [of "\<lambda>r. (tr_QueuedAt r, tr_ID r)" "t_transitions t"]
    by (simp add: newest_first_def sorted_wrt_rev sorted_map)
  ultimately show ?thesis
    unfolding page concat_pages by (simp add: newest_first_def)
qed

lemma ListLatest_spec:
  assumes "ListLatestTransitionTasksByNode pg t nodeIDs = Inr rows"
  shows "distinct (map tk_NodeID rows) \<and>
    tk_NodeID ` set rows = nonblank nodeIDs \<inter> tk_NodeID ` set (t_tasks t) \<and>
    (\<forall>r \<in> set rows. (\<exists>q \<in> set (t_tasks t). r = task_row q) \<and>
       (\<forall>q \<in> set (t_tasks t). tk_NodeID q = tk_NodeID r \<longrightarrow>
          (tk_UpdatedAt q, tk_CreatedAt q) \<le> (tk_UpdatedAt r, tk_CreatedAt r)))"
proof (cases "uniq_trim [] nodeIDs = []")
  case True
  then have "nonblank nodeIDs = {}" using set_uniq_trim_Nil [of nodeIDs] by simp
  with True assms show ?thesis by (simp add: ListLatestTransitionTasksByNode_def)
next
  case False
  let ?f = "\<lambda>r. (tk_NodeID r, - tk_UpdatedAt r, - tk_CreatedAt r)"
  let ?sel = "filter (\<lambda>r. tk_NodeID r \<in> nonblank nodeIDs) (t_tasks t)"
  let ?d = "distinct_on tk_NodeID [] (sort_key ?f ?sel)"
  have rows: "rows = map task_row ?d"
    using assms False
    by (auto simp: ListLatestTransitionTasksByNode_def scanTransitionTask_def
        split: option.splits sum.splits dest!: read_rows_Inr)
  note keys = distinct_on_keys [of tk_NodeID "[]" "sort_key ?f ?sel"]
  have sub: "r \<in> set ?sel" if "r \<in> set ?d" for r
  proof -
    have "r \<in> set (sort_key ?f ?sel)" by (rule distinct_on_subset [OF that])
    then show ?thesis by (simp only: set_sort)
  qed
  have nodes: "tk_NodeID ` set ?d = nonblank nodeIDs \<inter> tk_NodeID ` set (t_tasks t)"
  proof -
    have "tk_NodeID ` set ?d = tk_NodeID ` set ?sel" using keys by (simp only: set_sort) simp
    also have "\<dots> = nonblank nodeIDs \<inter> tk_NodeID ` set (t_tasks t)" by auto
    finally show ?thesis .
  qed
  have least: "(tk_UpdatedAt q, tk_CreatedAt q) \<le> (tk_UpdatedAt r, tk_CreatedAt r)"
    if r: "r \<in> set ?d" and q: "q \<in> set (t_tasks t)" "tk_NodeID q = tk_NodeID r" for r q
  proof -
    have "q \<in> set (sort_key ?f ?sel)" using sub [OF r] q by simp
    from distinct_on_least [OF sorted_sort_key r this q(2)] q(2)
    show ?thesis by (simp add: less_eq_prod_def)
  qed
  have "distinct (map tk_NodeID rows)"
    using keys by (simp add: rows comp_def)
  moreover have "tk_NodeID ` set rows = tk_NodeID ` set ?d"
    by (simp only: rows set_map image_image task_row_simps)
  moreover have "(\<exists>q \<in> set (t_tasks t). r = task_row q) \<and>
      (\<forall>q \<in> set (t_tasks t). tk_NodeID q = tk_NodeID r \<longrightarrow>
        (tk_UpdatedAt q, tk_CreatedAt q) \<le> (tk_UpdatedAt r, tk_CreatedAt r))"
    if "r \<in> set rows" for r
  proof -
    from that obtain d where d: "d \<in> set ?d" "r = task_row d" by (auto simp: rows)
    have "d \<in> set (t_tasks t)" using sub [OF d(1)] by simp
    then have "\<exists>q \<in> set (t_tasks t). r = task_row q" using d(2) by (rule rev_bexI)
    moreover have "(tk_UpdatedAt q, tk_CreatedAt q) \<le> (tk_UpdatedAt r, tk_CreatedAt r)"
      if "q \<in> set (t_tasks t)" "tk_NodeID q = tk_NodeID r" for q
      using least [OF d(1) that(1)] that(2) by (simp only: d(2) task_row_simps)
    ultimately show ?thesis by (intro conjI ballI impI)
  qed
  ultimately show ?thesis unfolding nodes [symmetric] by (intro conjI ballI) simp_all
qed

text \<open>
  The latest task of each node: the answer has exactly one task for every requested node that
  has any, in node order, and no stored task of that node is newer.
\<close>

lemma ListLatest_newest:
  assumes "ListLatestTransitionTasksByNode pg t nodeIDs = Inr rows"
  shows "distinct (map tk_NodeID rows) \<and>
    tk_NodeID ` set rows = nonblank nodeIDs \<inter> tk_NodeID ` set (t_tasks t) \<and>
    (\<forall>r \<in> set rows. (\<exists>q \<in> set (t_tasks t). r = task_row q) \<and>
       (\<forall>q \<in> set (t_tasks t). tk_NodeID q = tk_NodeID r \<longrightarrow>
          (tk_UpdatedAt q, tk_CreatedAt q) \<le> (tk_UpdatedAt r, tk_CreatedAt r)))"
  by (rule ListLatest_spec [OF assms])

section \<open>Witnesses\<close>

definition sample_env :: store_env where
  "sample_env = \<lparr>se_pg = no_faults, se_now = (\<lambda>_. 100), se_random = (\<lambda>_. replicate 16 0),
     se_uuid = (\<lambda>k. ''uuid-'' @ replicate k (CHR ''x''))\<rparr>"

lemma sample_env_uuid:
  "se_uuid sample_env k \<noteq> [] \<and> trim_space (se_uuid sample_env k) = se_uuid sample_env k"
  by (cases k) (simp_all add: sample_env_def trim_space_plain plain_ends_def plain_char_def)

lemma sample_env_pg [simp]: "se_pg sample_env = no_faults"
  by (simp add: sample_env_def)

definition sample_transition :: Transition where
  "sample_transition =
     \<lparr>tr_ID = ''t-1'', tr_RequestID = [], tr_Operation = ''On'', tr_State = ''pending'',
      tr_RequestedBy = ''ops'', tr_DryRun = False, tr_TargetCount = 1, tr_SuccessCount = 0,
      tr_FailureCount = 0, tr_QueuedAt = 50, tr_StartedAt = None, tr_CompletedAt = None,
      tr_CreatedAt = 50, tr_UpdatedAt = 50\<rparr>"

definition sample_task :: Task where
  "sample_task =
     \<lparr>tk_ID = ''k-1'', tk_TransitionID = ''t-1'', tk_NodeID = ''n1'', tk_BMCID = ''b1'',
      tk_BMCEndpoint = ''e'', tk_CredentialID = [], tk_Operation = ''On'',
      tk_State = ''pending'', tk_DryRun = False, tk_InsecureSkipVerify = False,
      tk_AttemptCount = 0, tk_FinalPowerState = [], tk_ErrorDetail = [], tk_QueuedAt = 50,
      tk_StartedAt = None, tk_CompletedAt = None, tk_CreatedAt = 50, tk_UpdatedAt = 50\<rparr>"

definition sample_event :: Event where
  "sample_event = \<lparr>ev_ID = ''evt-0'', ev_Source = transitionEventSource,
     ev_Type = transitionLifecycleEventType, ev_Subject = ''t-1'',
     ev_Data = lifecycle_data sample_transition\<rparr>"

definition sample_tr_tables :: tr_tables where
  "sample_tr_tables = \<lparr>t_transitions = [sample_transition], t_tasks = [sample_task],
     t_outbox = [sample_event]\<rparr>"

lemma trim_sample [simp]: "trim_space ''t-1'' = ''t-1''" "trim_space ''n1'' = ''n1''"
  by (simp_all add: trim_space_plain plain_ends_def plain_char_def)

lemma sample_tr_tables_inv: "store_inv sample_tr_tables"
  using last_snapshot_lifecycle [of sample_event sample_transition]
  by (simp add: store_inv_def tr_tables_ok_def unique_keys_def sample_tr_tables_def
      sample_task_def sample_event_def) (simp add: sample_transition_def)

theorem store_invariant_witness:
  "store_inv sample_tr_tables \<and> task_events_ok sample_tr_tables \<and>
   (let t' = store_apply sample_env (OpUpdateTask (sample_task\<lparr>tk_State := ''succeeded''\<rparr>)) sample_tr_tables
    in map tk_State (t_tasks t') = [''succeeded''] \<and> store_inv t' \<and> task_events_ok t')"
proof -
  let ?op = "OpUpdateTask (sample_task\<lparr>tk_State := ''succeeded''\<rparr>)"
  have adm: "op_admissible ?op sample_tr_tables"
    by (simp add: sample_tr_tables_def sample_task_def row_of_Cons)
  have ok: "task_events_ok sample_tr_tables"
    by (simp add: task_events_ok_def sample_tr_tables_def sample_task_def isTerminalTaskState_def
        trim_space_plain plain_ends_def plain_char_def)
  have "uuids_ok sample_env" using sample_env_uuid by (simp add: uuids_ok_def)
  note inv = store_invariant [OF sample_tr_tables_inv ok adm this]
  have "map tk_State (t_tasks (store_apply sample_env ?op sample_tr_tables)) = [''succeeded'']"
    by code_simp
  with inv ok sample_tr_tables_inv show ?thesis by (simp add: Let_def)
qed

lemma UpdateTransition_spec_witness:
  "\<exists>t' r. UpdateTransition sample_env (sample_transition\<lparr>tr_State := ''running''\<rparr>)
        sample_tr_tables = (Inr r, t') \<and> tr_State r = ''running'' \<and> length (t_outbox t') = 2"
proof -
  let ?tr = "sample_transition\<lparr>tr_State := ''running''\<rparr>"
  have i: "trim_space (tr_ID ?tr) = ''t-1''" by (simp add: sample_transition_def)
  have row: "row_of tr_ID (t_transitions sample_tr_tables) ''t-1'' = Some sample_transition"
    by (simp add: sample_tr_tables_def row_of_Cons) (simp add: sample_transition_def)
  have s: "tr_State (updated_transition_row (stamped sample_env ?tr) sample_transition) = ''running''"
    by (simp add: updated_transition_row_def stamped_def)
  have "pg_fault (se_pg sample_env) = (\<lambda>_. None)" by (simp add: fun_eq_iff)
  moreover have "trim_space (tr_ID ?tr) \<noteq> []" unfolding i by simp
  ultimately have "\<exists>t' ev. UpdateTransition sample_env ?tr sample_tr_tables =
      (Inr (updated_transition_row (stamped sample_env ?tr) sample_transition), t') \<and>
      t_outbox t' = t_outbox sample_tr_tables @ [ev]"
    using UpdateTransition_spec [OF sample_tr_tables_inv, of sample_env ?tr] unfolding i row
    by auto
  with s show ?thesis by (fastforce simp: sample_tr_tables_def)
qed

lemma ListTransitions_pages_witness:
  "concat (map (\<lambda>k. case ListTransitions no_faults sample_tr_tables (int 1) (int (k * 1)) of
        Inl e \<Rightarrow> [] | Inr (rows, cnt) \<Rightarrow> rows) [0..<2]) = [sample_transition]"
  using ListTransitions_pages [of 1 sample_tr_tables 2]
  by (simp add: sample_tr_tables_def newest_first_def)

lemma ListLatest_newest_witness:
  "ListLatestTransitionTasksByNode no_faults sample_tr_tables [''n1'', ''n1''] = Inr [sample_task] \<and>
   tk_NodeID ` set [sample_task] = {''n1''}"
proof -
  have run: "ListLatestTransitionTasksByNode no_faults sample_tr_tables [''n1'', ''n1''] =
      Inr [sample_task]"
    by (simp add: ListLatestTransitionTasksByNode_def sample_tr_tables_def scanTransitionTask_def
        task_row_def) (simp add: sample_task_def)
  from ListLatest_newest [OF run] run show ?thesis
    by (simp add: sample_tr_tables_def sample_task_def)
qed

end
