(* ===== verification/Power_Runner.thy ===== *)
theory Power_Runner
  imports Power_Retry Power_Queue Power_Store_Mapping Power_Store_Transition
begin

text \<open>
  The transition runner of \<open>internal/engine/runner.go\<close>.  The shared memory is the progress map
  (under \<open>progressMu\<close>) and the canceled execution contexts, one per transition.  A method that
  locks is split at the lock: its critical section is a function on the memory, and the whole
  method composes that section with the store calls around it.  \<open>Power_Runner_Conc\<close>
  interleaves the same sections.
\<close>

section \<open>Progress\<close>

record transitionProgress =
  tp_transition :: Transition
  tp_remaining :: int
  tp_executableTotal :: int
  tp_canceledCount :: int
  tp_started :: bool
  tp_aborted :: bool

record queuedTask =
  qt_operation :: reset_op
  qt_transitionID :: string
  qt_task :: Task

record runner_mem =
  rm_progress :: "string \<Rightarrow> transitionProgress option"
  rm_canceled :: "string \<Rightarrow> bool"

datatype section_result = SecErr go_error | SecDone | SecPersist Transition

definition cancel_ctx :: "string \<Rightarrow> runner_mem \<Rightarrow> runner_mem" where
  "cancel_ctx i m = m\<lparr>rm_canceled := (rm_canceled m)(i := True)\<rparr>"

definition set_progress :: "string \<Rightarrow> transitionProgress option \<Rightarrow> runner_mem \<Rightarrow> runner_mem" where
  "set_progress i p m = m\<lparr>rm_progress := (rm_progress m)(i := p)\<rparr>"

definition normalizeNodeIDs :: "string list \<Rightarrow> string list" where
  "normalizeNodeIDs nodeIDs = sort (uniq_trim [] nodeIDs)"

lemma normalizeNodeIDs_simps [simp]:
  "set (normalizeNodeIDs ns) = nonblank ns" "distinct (normalizeNodeIDs ns)"
  "sorted (normalizeNodeIDs ns)"
  by (simp_all add: normalizeNodeIDs_def)

section \<open>Critical sections\<close>

definition register_section :: "Transition \<Rightarrow> Task list \<Rightarrow> runner_mem \<Rightarrow> runner_mem" where
  "register_section tr pendingTasks m =
     set_progress (tr_ID tr)
       (Some \<lparr>tp_transition = tr, tp_remaining = int (length pendingTasks),
              tp_executableTotal = int (length pendingTasks), tp_canceledCount = 0,
              tp_started = False, tp_aborted = False\<rparr>)
       (m\<lparr>rm_canceled := (rm_canceled m)(tr_ID tr := False)\<rparr>)"

definition abort_section :: "time \<Rightarrow> string \<Rightarrow> runner_mem \<Rightarrow> section_result \<times> runner_mem" where
  "abort_section now i m =
     (case rm_progress m i of
        None \<Rightarrow> (SecErr (Sentinel ErrTransitionNotFound), m)
      | Some p \<Rightarrow>
          if tp_aborted p then (SecDone, m)
          else
            (let tr = (tp_transition p)\<lparr>tr_State := TransitionStateCanceled, tr_UpdatedAt := now\<rparr>
             in (SecPersist tr,
                 set_progress i (Some (p\<lparr>tp_aborted := True, tp_transition := tr\<rparr>))
                   (cancel_ctx i m))))"

definition mark_section :: "time \<Rightarrow> string \<Rightarrow> runner_mem \<Rightarrow> section_result \<times> runner_mem" where
  "mark_section now i m =
     (case rm_progress m i of
        None \<Rightarrow>
          (SecErr (ErrText (''transition '' @ go_quote i @ '' has no active progress'')), m)
      | Some p \<Rightarrow>
          if tp_aborted p then (SecDone, m)
          else if tp_started p then (SecDone, m)
          else
            (let tr = (tp_transition p)\<lparr>tr_State := TransitionStateRunning,
                   tr_StartedAt := Some now, tr_UpdatedAt := now\<rparr>
             in (SecPersist tr,
                 set_progress i (Some (p\<lparr>tp_started := True, tp_transition := tr\<rparr>)) m)))"

definition finalTransitionState :: "transitionProgress \<Rightarrow> string" where
  "finalTransitionState p =
     (let s = tr_SuccessCount (tp_transition p); f = tr_FailureCount (tp_transition p) in
      if 0 < tp_executableTotal p \<and> tp_canceledCount p = tp_executableTotal p \<and> s = 0 \<and>
         f = tp_canceledCount p
      then TransitionStateCanceled
      else if f = 0 then TransitionStateCompleted
      else if s = 0 then TransitionStateFailed
      else TransitionStatePartial)"

definition count_outcome :: "string \<Rightarrow> transitionProgress \<Rightarrow> transitionProgress" where
  "count_outcome taskState p =
     (let tr = tp_transition p in
      if taskState = TaskStateSucceeded
      then p\<lparr>tp_transition := tr\<lparr>tr_SuccessCount := tr_SuccessCount tr + 1\<rparr>\<rparr>
      else if taskState = TaskStateCanceled
      then p\<lparr>tp_transition := tr\<lparr>tr_FailureCount := tr_FailureCount tr + 1\<rparr>,
             tp_canceledCount := tp_canceledCount p + 1\<rparr>
      else p\<lparr>tp_transition := tr\<lparr>tr_FailureCount := tr_FailureCount tr + 1\<rparr>\<rparr>)"

definition outcome_section ::
    "time \<Rightarrow> string \<Rightarrow> string \<Rightarrow> runner_mem \<Rightarrow> section_result \<times> runner_mem" where
  "outcome_section now i taskState m =
     (case rm_progress m i of
        None \<Rightarrow> (SecDone, m)
      | Some p0 \<Rightarrow>
          (let p = (count_outcome taskState p0)\<lparr>tp_remaining := tp_remaining p0 - 1\<rparr> in
           if tp_remaining p \<le> 0 then
             (let tr = (tp_transition p)\<lparr>tr_CompletedAt := Some now, tr_UpdatedAt := now,
                    tr_State := finalTransitionState p\<rparr>
              in (SecPersist tr, set_progress i None (cancel_ctx i m)))
           else (SecDone, set_progress i (Some p) m)))"

section \<open>The store interface (type Store)\<close>

record ('e, 'd) Store =
  S_ResolveNodeMappings :: "'e \<Rightarrow> 'd \<Rightarrow> string list
    \<Rightarrow> go_error + (NodePowerMapping list \<times> NodeMappingError list)"
  S_CreateTransition :: "'e \<Rightarrow> Transition \<Rightarrow> Task list \<Rightarrow> (Transition \<times> Task list, 'd) tx"
  S_UpdateTransition :: "'e \<Rightarrow> Transition \<Rightarrow> (Transition, 'd) tx"
  S_UpdateTransitionTask :: "'e \<Rightarrow> Task \<Rightarrow> (Task, 'd) tx"

section \<open>Planning a transition\<close>

definition new_task :: "time \<Rightarrow> string \<Rightarrow> bool \<Rightarrow> string \<Rightarrow> Task" where
  "new_task now operation dryRun nodeID =
     \<lparr>tk_ID = [], tk_TransitionID = [], tk_NodeID = nodeID, tk_BMCID = [], tk_BMCEndpoint = [],
      tk_CredentialID = [], tk_Operation = operation, tk_State = [], tk_DryRun = dryRun,
      tk_InsecureSkipVerify = False, tk_AttemptCount = 0, tk_FinalPowerState = [],
      tk_ErrorDetail = [], tk_QueuedAt = now, tk_StartedAt = None, tk_CompletedAt = None,
      tk_CreatedAt = now, tk_UpdatedAt = now\<rparr>"

definition mappingByNode :: "NodePowerMapping list \<Rightarrow> string \<Rightarrow> NodePowerMapping option" where
  "mappingByNode ms = map_of (map_from (\<lambda>m. Some (trim_space (pm_NodeID m), m)) ms)"

definition missingByNode :: "NodeMappingError list \<Rightarrow> string \<Rightarrow> NodeMappingError option" where
  "missingByNode es = map_of (map_from (\<lambda>e. Some (trim_space (me_NodeID e), e)) es)"

definition plan_task ::
    "time \<Rightarrow> string \<Rightarrow> bool \<Rightarrow> NodePowerMapping list \<Rightarrow> NodeMappingError list \<Rightarrow> string \<Rightarrow> Task" where
  "plan_task now operation dryRun ms es nodeID =
     (let task = new_task now operation dryRun nodeID in
      case missingByNode es nodeID of
        Some missingErr \<Rightarrow>
          task\<lparr>tk_State := TaskStateFailed, tk_ErrorDetail := trim_space (me_Detail missingErr),
               tk_CompletedAt := Some now\<rparr>
      | None \<Rightarrow>
      (case mappingByNode ms nodeID of
        None \<Rightarrow>
          task\<lparr>tk_State := TaskStateFailed,
               tk_ErrorDetail := me_Detail (MissingNodeMappingError nodeID),
               tk_CompletedAt := Some now\<rparr>
      | Some mapping \<Rightarrow>
          (let task = task\<lparr>tk_BMCID := trim_space (pm_BMCID mapping),
                 tk_BMCEndpoint := trim_space (pm_Endpoint mapping),
                 tk_CredentialID := trim_space (pm_CredentialID mapping),
                 tk_InsecureSkipVerify := pm_InsecureSkipVerify mapping\<rparr>
           in if dryRun then task\<lparr>tk_State := TaskStatePlanned, tk_CompletedAt := Some now\<rparr>
              else task\<lparr>tk_State := TaskStatePending\<rparr>)))"

definition count_state :: "string \<Rightarrow> Task list \<Rightarrow> nat" where
  "count_state s tasks = length (filter (\<lambda>k. tk_State k = s) tasks)"

definition plan_transition ::
    "time \<Rightarrow> string \<Rightarrow> StartRequest \<Rightarrow> Task list \<Rightarrow> Transition" where
  "plan_transition now operation req tasks =
     (let tr = \<lparr>tr_ID = [], tr_RequestID = trim_space (sr_RequestID req), tr_Operation = operation,
                tr_State = TransitionStatePending,
                tr_RequestedBy = trim_space (sr_RequestedBy req), tr_DryRun = sr_DryRun req,
                tr_TargetCount = int (length tasks), tr_SuccessCount = 0,
                tr_FailureCount = int (count_state TaskStateFailed tasks),
                tr_QueuedAt = now, tr_StartedAt = None, tr_CompletedAt = None,
                tr_CreatedAt = now, tr_UpdatedAt = now\<rparr>
      in if sr_DryRun req
         then tr\<lparr>tr_State := TransitionStatePlanned, tr_CompletedAt := Some now\<rparr>
         else if count_state TaskStatePending tasks = 0
         then tr\<lparr>tr_State := TransitionStateFailed, tr_CompletedAt := Some now\<rparr>
         else tr)"

section \<open>StartTransition\<close>

datatype enqueue_all_result =
    AllQueued | EnqueueFailed go_error | EnqueueBlocked "queuedTask list" | EnqueuePanicked

text \<open>
  The enqueue loop; \<open>answers\<close> gives, per item, the error of the request's context and the
  runtime's choice when both channel and context are ready.
\<close>

fun enqueue_all ::
    "(nat \<Rightarrow> go_error option \<times> bool) \<Rightarrow> nat \<Rightarrow> queuedTask list \<Rightarrow> queuedTask Queue
     \<Rightarrow> enqueue_all_result \<times> queuedTask Queue" where
  "enqueue_all answers k [] q = (AllQueued, q)"
| "enqueue_all answers k (x # xs) q =
     (case answers k of (ctxErr, pickDone) \<Rightarrow>
        (case enqueue ctxErr pickDone x q of
           EnqOk q' \<Rightarrow> enqueue_all answers (Suc k) xs q'
         | EnqErr e \<Rightarrow> (EnqueueFailed e, q)
         | EnqBlocked \<Rightarrow> (EnqueueBlocked (x # xs), q)
         | EnqPanic \<Rightarrow> (EnqueuePanicked, q)))"

datatype start_result =
    StartErr go_error | StartOk Transition | StartWaiting Transition "queuedTask list" | StartPanic

record 'd runner_state =
  rs_mem :: runner_mem
  rs_db :: 'd
  rs_queue :: "queuedTask Queue"

text \<open>
  \<open>running\<close> is \<open>isRunning()\<close>; \<open>env k\<close> is what the \<open>k\<close>-th store call meets; \<open>now\<close> and \<open>now2\<close> are the
  two readings of the clock; \<open>parse_op\<close> is \<open>redfish.ParseResetOperation\<close> and \<open>op_string\<close> the
  conversion of the operation to a string.
\<close>

definition StartTransition ::
    "('e, 'd) Store \<Rightarrow> (nat \<Rightarrow> 'e) \<Rightarrow> (string \<Rightarrow> go_error + reset_op) \<Rightarrow> (reset_op \<Rightarrow> string)
     \<Rightarrow> bool \<Rightarrow> time \<Rightarrow> time \<Rightarrow> (nat \<Rightarrow> go_error option \<times> bool) \<Rightarrow> StartRequest
     \<Rightarrow> 'd runner_state \<Rightarrow> start_result \<times> 'd runner_state" where
  "StartTransition st env parse_op op_string running now now2 answers req s =
     (if \<not> running then (StartErr (Sentinel ErrRunnerNotStarted), s)
      else
        (case parse_op (sr_Operation req) of
           Inl e \<Rightarrow> (StartErr (Wrap ''parsing operation: '' e []), s)
         | Inr operation \<Rightarrow>
      (let nodeIDs = normalizeNodeIDs (sr_NodeIDs req) in
       if nodeIDs = [] then (StartErr (Sentinel ErrNoTargetNodes), s)
       else
         (case S_ResolveNodeMappings st (env 0) (rs_db s) nodeIDs of
            Inl e \<Rightarrow> (StartErr (Wrap ''resolving node mappings: '' e []), s)
          | Inr (mappings, missing) \<Rightarrow>
       (let tasks = map (plan_task now (op_string operation) (sr_DryRun req) mappings missing) nodeIDs;
            transition = plan_transition now (op_string operation) req tasks;
            pendingCount = count_state TaskStatePending tasks
        in case S_CreateTransition st (env 1) transition tasks (rs_db s) of
             (Inl e, d1) \<Rightarrow> (StartErr (Wrap ''creating transition record: '' e []), s\<lparr>rs_db := d1\<rparr>)
           | (Inr (created, createdTasks), d1) \<Rightarrow>
               if sr_DryRun req \<or> pendingCount = 0 then
                 (case S_UpdateTransition st (env 2) (created\<lparr>tr_UpdatedAt := now2\<rparr>) d1 of
                    (Inl e, d2) \<Rightarrow>
                      (StartErr (Wrap ''updating terminal transition record: '' e []), s\<lparr>rs_db := d2\<rparr>)
                  | (Inr updated, d2) \<Rightarrow> (StartOk updated, s\<lparr>rs_db := d2\<rparr>))
               else
                 (let pendingTasks = filter (\<lambda>k. tk_State k = TaskStatePending) createdTasks;
                      mem = register_section created pendingTasks (rs_mem s);
                      items = map (\<lambda>k. \<lparr>qt_operation = operation, qt_transitionID = tr_ID created,
                                        qt_task = k\<rparr>) pendingTasks
                  in case enqueue_all answers 0 items (rs_queue s) of
                       (AllQueued, q) \<Rightarrow>
                         (StartOk created, s\<lparr>rs_db := d1, rs_mem := mem, rs_queue := q\<rparr>)
                     | (EnqueueFailed e, q) \<Rightarrow>
                         (StartErr (Wrap ''enqueueing transition task: '' e []),
                          s\<lparr>rs_db := d1, rs_mem := cancel_ctx (tr_ID created) mem, rs_queue := q\<rparr>)
                     | (EnqueueBlocked rest, q) \<Rightarrow>
                         (StartWaiting created rest, s\<lparr>rs_db := d1, rs_mem := mem, rs_queue := q\<rparr>)
                     | (EnqueuePanicked, q) \<Rightarrow>
                         (StartPanic, s\<lparr>rs_db := d1, rs_mem := mem, rs_queue := q\<rparr>)))))))"

section \<open>AbortTransition and markTransitionRunning\<close>

definition persist_section ::
    "('e, 'd) Store \<Rightarrow> 'e \<Rightarrow> string \<Rightarrow> section_result \<Rightarrow> 'd \<Rightarrow> go_error option \<times> 'd" where
  "persist_section st env msg r d =
     (case r of
        SecErr e \<Rightarrow> (Some e, d)
      | SecDone \<Rightarrow> (None, d)
      | SecPersist tr \<Rightarrow>
          (case S_UpdateTransition st env tr d of
             (Inl e, d1) \<Rightarrow> (Some (Wrap msg e []), d1)
           | (Inr _, d1) \<Rightarrow> (None, d1)))"

definition AbortTransition ::
    "('e, 'd) Store \<Rightarrow> 'e \<Rightarrow> time \<Rightarrow> string \<Rightarrow> 'd runner_state \<Rightarrow> go_error option \<times> 'd runner_state" where
  "AbortTransition st env now transitionID s =
     (let i = trim_space transitionID in
      if i = [] then (Some (Sentinel ErrTransitionNotFound), s)
      else
        (let (r, m) = abort_section now i (rs_mem s);
             (e, d) = persist_section st env ''marking transition canceled: '' r (rs_db s)
         in (e, s\<lparr>rs_mem := m, rs_db := d\<rparr>)))"

definition markTransitionRunning ::
    "('e, 'd) Store \<Rightarrow> 'e \<Rightarrow> time \<Rightarrow> string \<Rightarrow> 'd runner_state \<Rightarrow> go_error option \<times> 'd runner_state" where
  "markTransitionRunning st env now transitionID s =
     (let (r, m) = mark_section now transitionID (rs_mem s);
          (e, d) = persist_section st env ''marking transition running: '' r (rs_db s)
      in (e, s\<lparr>rs_mem := m, rs_db := d\<rparr>))"

section \<open>Completing and executing a task\<close>

definition recordTaskOutcome ::
    "('e, 'd) Store \<Rightarrow> 'e \<Rightarrow> time \<Rightarrow> string \<Rightarrow> string \<Rightarrow> 'd runner_state \<Rightarrow> 'd runner_state" where
  "recordTaskOutcome st env now transitionID taskState s =
     (let (r, m) = outcome_section now transitionID taskState (rs_mem s);
          (_, d) = persist_section st env [] r (rs_db s)
      in s\<lparr>rs_mem := m, rs_db := d\<rparr>)"

definition finished_task ::
    "time \<Rightarrow> (string \<Rightarrow> string \<Rightarrow> go_error option) option \<Rightarrow> Task \<Rightarrow> int \<Rightarrow> string
     \<Rightarrow> go_error option \<Rightarrow> Task" where
  "finished_task now updater task attempts finalPowerState resultErr =
     (let task = task\<lparr>tk_AttemptCount := attempts, tk_FinalPowerState := trim_space finalPowerState,
            tk_CompletedAt := Some now, tk_UpdatedAt := now\<rparr>
      in case resultErr of
           Some e \<Rightarrow>
             task\<lparr>tk_ErrorDetail := trim_space (err_msg e),
                  tk_State := (if errors_is e Canceled \<or> errors_is e DeadlineExceeded
                               then TaskStateCanceled else TaskStateFailed)\<rparr>
         | None \<Rightarrow>
             (case updater of
                Some update \<Rightarrow>
                  if tk_DryRun task then task\<lparr>tk_State := TaskStateSucceeded\<rparr>
                  else
                    (case update (tk_NodeID task) (tk_FinalPowerState task) of
                       Some e \<Rightarrow>
                         task\<lparr>tk_ErrorDetail := trim_space (''updating SMD state: '' @ err_msg e),
                              tk_State := TaskStateFailed\<rparr>
                     | None \<Rightarrow> task\<lparr>tk_State := TaskStateSucceeded\<rparr>)
              | None \<Rightarrow> task\<lparr>tk_State := TaskStateSucceeded\<rparr>))"

text \<open>\<open>env 1\<close> and \<open>env 2\<close> are met by the task update and by the transition update.\<close>

definition completeTask ::
    "('e, 'd) Store \<Rightarrow> (nat \<Rightarrow> 'e) \<Rightarrow> time \<Rightarrow> (string \<Rightarrow> string \<Rightarrow> go_error option) option \<Rightarrow> string
     \<Rightarrow> Task \<Rightarrow> int \<Rightarrow> string \<Rightarrow> go_error option \<Rightarrow> 'd runner_state \<Rightarrow> 'd runner_state" where
  "completeTask st env now updater transitionID task0 attempts finalPowerState resultErr s =
     (let task = finished_task now updater task0 attempts finalPowerState resultErr in
      case S_UpdateTransitionTask st (env 1) task (rs_db s) of
        (r, d1) \<Rightarrow>
          (let task = (case r of Inr updated \<Rightarrow> updated | Inl _ \<Rightarrow> task)
           in recordTaskOutcome st (env 2) now transitionID (tk_State task) (s\<lparr>rs_db := d1\<rparr>)))"

definition exec_request :: "queuedTask \<Rightarrow> Task \<Rightarrow> ExecutionRequest" where
  "exec_request item task =
     \<lparr>er_TransitionID = qt_transitionID item, er_TaskID = tk_ID task, er_NodeID = tk_NodeID task,
      er_BMCID = tk_BMCID task, er_Endpoint = tk_BMCEndpoint task,
      er_CredentialID = tk_CredentialID task,
      er_InsecureSkipVerify = tk_InsecureSkipVerify task, er_Operation = qt_operation item\<rparr>"

text \<open>
  The action of a task under its execution context: attempts, the verified state, the error.
\<close>

definition run_action ::
    "int \<Rightarrow> runtimeConfig \<Rightarrow> (int \<Rightarrow> duration \<Rightarrow> duration) \<Rightarrow> 'x executor \<Rightarrow> 'x reader \<Rightarrow> Verifier
     \<Rightarrow> ctx \<Rightarrow> ExecutionRequest \<Rightarrow> 'x world_scheme
     \<Rightarrow> ((int \<times> string \<times> go_error option) \<times> 'x world_scheme) option" where
  "run_action ov cfg jitter exec read v execCtx req w =
     (case executeWithRetry ov cfg jitter exec execCtx req w of
        ((attempts, Some execErr), w1) \<Rightarrow> Some ((attempts, [], Some execErr), w1)
      | ((attempts, None), w1) \<Rightarrow>
          (case Verify read v execCtx req w1 of
             None \<Rightarrow> None
           | Some ((finalPowerState, verifyErr), w2) \<Rightarrow>
               Some ((attempts, finalPowerState, verifyErr), w2)))"

text \<open>
  \<open>executeTask\<close>, run to its end by one worker.  \<open>base\<close> is the transition's execution context and
  \<open>limiter\<close> the error of \<open>acquireBMCLimiter\<close>, if the context ended before a token was free.
  The result is \<open>None\<close> only if the verification loop does not return.
\<close>

definition executeTask ::
    "('e, 'd) Store \<Rightarrow> (nat \<Rightarrow> 'e) \<Rightarrow> int \<Rightarrow> runtimeConfig \<Rightarrow> (int \<Rightarrow> duration \<Rightarrow> duration)
     \<Rightarrow> 'x executor \<Rightarrow> 'x reader \<Rightarrow> Verifier \<Rightarrow> (string \<Rightarrow> string \<Rightarrow> go_error option) option
     \<Rightarrow> ctx \<Rightarrow> go_error option \<Rightarrow> queuedTask \<Rightarrow> 'd runner_state \<times> 'x world_scheme
     \<Rightarrow> ('d runner_state \<times> 'x world_scheme) option" where
  "executeTask st env ov cfg jitter exec read v updater base limiter item sw =
     (case sw of (s, w) \<Rightarrow>
        (case markTransitionRunning st (env 3) (clock w) (qt_transitionID item) s of
           (Some _, s1) \<Rightarrow> Some (s1, w)
         | (None, s1) \<Rightarrow>
             (case ctx_err base (clock w) of
                Some e \<Rightarrow>
                  Some (completeTask st env (clock w) updater (qt_transitionID item)
                          (qt_task item) 0 [] (Some e) s1, w)
              | None \<Rightarrow>
                  (let task = (qt_task item)\<lparr>tk_State := TaskStateRunning,
                         tk_StartedAt := Some (clock w), tk_UpdatedAt := clock w\<rparr>;
                       (r, d2) = S_UpdateTransitionTask st (env 0) task (rs_db s1);
                       task = (case r of Inr updated \<Rightarrow> updated | Inl _ \<Rightarrow> task);
                       s2 = s1\<lparr>rs_db := d2\<rparr>
                   in case limiter of
                        Some e \<Rightarrow>
                          Some (completeTask st env (clock w) updater (qt_transitionID item)
                                  task 0 [] (Some e) s2, w)
                      | None \<Rightarrow>
                          (let execCtx =
                                 (if rc_transitionDeadline cfg > 0
                                  then with_timeout base (clock w) (rc_transitionDeadline cfg)
                                  else base)
                           in case run_action ov cfg jitter exec read v execCtx
                                     (exec_request item task) w of
                                None \<Rightarrow> None
                              | Some ((attempts, finalPowerState, resultErr), w2) \<Rightarrow>
                                  Some (completeTask st env (clock w2) updater
                                          (qt_transitionID item) task attempts finalPowerState
                                          resultErr s2, w2))))))"

section \<open>Accounting\<close>

text \<open>
  What holds of a progress entry between two critical sections: the two counters and the tasks
  that still have to report add up to the number of targets.
\<close>

definition tp_ok :: "transitionProgress \<Rightarrow> bool" where
  "tp_ok p \<longleftrightarrow>
     tr_SuccessCount (tp_transition p) + tr_FailureCount (tp_transition p) + tp_remaining p =
       tr_TargetCount (tp_transition p) \<and>
     0 \<le> tr_SuccessCount (tp_transition p) \<and> 0 \<le> tp_canceledCount p \<and>
     tp_canceledCount p \<le> tr_FailureCount (tp_transition p) \<and> 0 < tp_remaining p \<and>
     tp_canceledCount p + tp_remaining p \<le> tp_executableTotal p"

definition mem_ok :: "runner_mem \<Rightarrow> bool" where
  "mem_ok m \<longleftrightarrow>
     (\<forall>i p. rm_progress m i = Some p \<longrightarrow> tp_ok p \<and> tr_ID (tp_transition p) = i)"

text \<open>A transition whose tasks have all reported.\<close>

definition settled :: "Transition \<Rightarrow> bool" where
  "settled tr \<longleftrightarrow>
     tr_SuccessCount tr + tr_FailureCount tr = tr_TargetCount tr \<and> tr_CompletedAt tr \<noteq> None \<and>
     tr_State tr \<in> {TransitionStateCompleted, TransitionStateFailed, TransitionStatePartial,
       TransitionStateCanceled}"

lemma mem_okD: "mem_ok m \<Longrightarrow> rm_progress m i = Some p \<Longrightarrow> tp_ok p \<and> tr_ID (tp_transition p) = i"
  by (simp add: mem_ok_def)

lemma mem_ok_set:
  "mem_ok m \<Longrightarrow> (\<And>p. q = Some p \<Longrightarrow> tp_ok p \<and> tr_ID (tp_transition p) = i) \<Longrightarrow>
   mem_ok (set_progress i q m)"
  by (auto simp: mem_ok_def set_progress_def)

lemma mem_ok_cancel [simp]: "mem_ok (cancel_ctx i m) \<longleftrightarrow> mem_ok m"
  by (simp add: mem_ok_def cancel_ctx_def)

lemma rm_progress_simps [simp]:
  "rm_progress (set_progress i q m) = (rm_progress m)(i := q)"
  "rm_progress (cancel_ctx i m) = rm_progress m"
  "rm_canceled (set_progress i q m) = rm_canceled m"
  "rm_canceled (cancel_ctx i m) = (rm_canceled m)(i := True)"
  by (simp_all add: set_progress_def cancel_ctx_def)

lemma abort_section_ok:
  assumes "mem_ok m" "abort_section now i m = (r, m')"
  shows "mem_ok m' \<and> (\<forall>j. map_option tp_remaining (rm_progress m' j) =
      map_option tp_remaining (rm_progress m j)) \<and>
    (case r of
       SecErr e \<Rightarrow> rm_progress m i = None \<and> m' = m
     | SecDone \<Rightarrow> m' = m
     | SecPersist tr \<Rightarrow> tr_ID tr = i \<and> tr_State tr = TransitionStateCanceled \<and> rm_canceled m' i)"
  using assms mem_okD [OF assms(1)]
  by (auto simp: abort_section_def Let_def tp_ok_def split: option.splits if_splits
      intro!: mem_ok_set)

lemma mark_section_ok:
  assumes "mem_ok m" "mark_section now i m = (r, m')"
  shows "mem_ok m' \<and> (\<forall>j. map_option tp_remaining (rm_progress m' j) =
      map_option tp_remaining (rm_progress m j)) \<and> rm_canceled m' = rm_canceled m \<and>
    (case r of
       SecErr e \<Rightarrow> rm_progress m i = None \<and> m' = m
     | SecDone \<Rightarrow> m' = m
     | SecPersist tr \<Rightarrow> tr_ID tr = i \<and> tr_State tr = TransitionStateRunning)"
  using assms mem_okD [OF assms(1)]
  by (auto simp: mark_section_def Let_def tp_ok_def split: option.splits if_splits
      intro!: mem_ok_set)

lemma finalTransitionState_range:
  "finalTransitionState p \<in> {TransitionStateCompleted, TransitionStateFailed,
     TransitionStatePartial, TransitionStateCanceled}"
  by (simp add: finalTransitionState_def Let_def)

lemma count_outcome_simps [simp]:
  "tr_ID (tp_transition (count_outcome s p)) = tr_ID (tp_transition p)"
  "tr_TargetCount (tp_transition (count_outcome s p)) = tr_TargetCount (tp_transition p)"
  "tp_remaining (count_outcome s p) = tp_remaining p"
  "tp_executableTotal (count_outcome s p) = tp_executableTotal p"
  by (simp_all add: count_outcome_def Let_def)

lemma count_outcome_sum:
  "tr_SuccessCount (tp_transition (count_outcome s p)) +
     tr_FailureCount (tp_transition (count_outcome s p)) =
   tr_SuccessCount (tp_transition p) + tr_FailureCount (tp_transition p) + 1"
  by (simp add: count_outcome_def Let_def)

lemma count_outcome_ok:
  assumes "tp_ok p" "1 < tp_remaining p"
  shows "tp_ok ((count_outcome s p)\<lparr>tp_remaining := tp_remaining p - 1\<rparr>)"
  using assms by (auto simp: tp_ok_def count_outcome_def Let_def)

lemma outcome_section_ok:
  assumes "mem_ok m" "outcome_section now i s m = (r, m')"
  shows "mem_ok m' \<and> (\<forall>j. j \<noteq> i \<longrightarrow> rm_progress m' j = rm_progress m j) \<and>
    (case rm_progress m i of
       None \<Rightarrow> r = SecDone \<and> m' = m
     | Some p \<Rightarrow>
         if tp_remaining p = 1
         then rm_progress m' i = None \<and> rm_canceled m' i \<and>
           (\<exists>tr. r = SecPersist tr \<and> settled tr \<and> tr_ID tr = i)
         else r = SecDone \<and>
           (\<exists>p'. rm_progress m' i = Some p' \<and> tp_remaining p' = tp_remaining p - 1))"
proof (cases "rm_progress m i")
  case None
  with assms show ?thesis by (simp add: outcome_section_def)
next
  case (Some p)
  note ok = mem_okD [OF assms(1) Some]
  let ?p = "(count_outcome s p)\<lparr>tp_remaining := tp_remaining p - 1\<rparr>"
  show ?thesis
  proof (cases "tp_remaining p = 1")
    case True
    let ?tr = "(tp_transition ?p)\<lparr>tr_CompletedAt := Some now, tr_UpdatedAt := now,
        tr_State := finalTransitionState ?p\<rparr>"
    from True assms(2) Some have r: "r = SecPersist ?tr" "m' = set_progress i None (cancel_ctx i m)"
      by (simp_all add: outcome_section_def Let_def)
    have "settled ?tr"
      using ok True count_outcome_sum [of s p] finalTransitionState_range [of ?p]
      by (simp add: settled_def tp_ok_def)
    with r True Some ok assms(1) show ?thesis by (auto intro!: mem_ok_set)
  next
    case False
    with ok have gt: "1 < tp_remaining p" by (simp add: tp_ok_def)
    with assms(2) Some have r: "r = SecDone" "m' = set_progress i (Some ?p) m"
      by (simp_all add: outcome_section_def Let_def)
    moreover have "mem_ok m'"
      using r assms(1) ok count_outcome_ok [of p s] gt by (auto intro!: mem_ok_set)
    ultimately show ?thesis using Some False by simp
  qed
qed

section \<open>All outcomes of a transition\<close>

text \<open>The reports of a transition's tasks, one after another, each with its clock reading.\<close>

fun run_outcomes ::
    "string \<Rightarrow> (time \<times> string) list \<Rightarrow> runner_mem \<Rightarrow> section_result list \<times> runner_mem" where
  "run_outcomes i [] m = ([], m)"
| "run_outcomes i ((now, s) # os) m =
     (let (r, m1) = outcome_section now i s m; (rs, m2) = run_outcomes i os m1 in (r # rs, m2))"

definition reported :: "string \<Rightarrow> (time \<times> string) list \<Rightarrow> int" where
  "reported s os = int (length (filter (\<lambda>o'. snd o' = s) os))"

lemma reported_simps [simp]:
  "reported s [] = 0"
  "reported s (o' # os) = (if snd o' = s then 1 else 0) + reported s os"
  by (simp_all add: reported_def)

lemma reported_nonneg [simp]: "0 \<le> reported s os"
  by (simp add: reported_def)

lemma reported_le: "reported TaskStateSucceeded os + reported TaskStateCanceled os \<le> int (length os)"
  by (induction os) auto

text \<open>The final state as a function of the counts: executable, canceled, succeeded, failed.\<close>

definition final_state :: "int \<Rightarrow> int \<Rightarrow> int \<Rightarrow> int \<Rightarrow> string" where
  "final_state n c s f =
     (if 0 < n \<and> c = n \<and> s = 0 \<and> f = c then TransitionStateCanceled
      else if f = 0 then TransitionStateCompleted
      else if s = 0 then TransitionStateFailed
      else TransitionStatePartial)"

lemma finalTransitionState_counts:
  "finalTransitionState p = final_state (tp_executableTotal p) (tp_canceledCount p)
     (tr_SuccessCount (tp_transition p)) (tr_FailureCount (tp_transition p))"
  by (simp add: finalTransitionState_def final_state_def Let_def)

lemma count_outcome_counts:
  "tr_SuccessCount (tp_transition (count_outcome s p)) =
     tr_SuccessCount (tp_transition p) + (if s = TaskStateSucceeded then 1 else 0)"
  "tr_FailureCount (tp_transition (count_outcome s p)) =
     tr_FailureCount (tp_transition p) + (if s = TaskStateSucceeded then 0 else 1)"
  "tp_canceledCount (count_outcome s p) =
     tp_canceledCount p + (if s = TaskStateCanceled then 1 else 0)"
  by (simp_all add: count_outcome_def Let_def)

lemma run_outcomes_final:
  assumes "rm_progress m i = Some p" "tp_remaining p = int (length os)" "os \<noteq> []"
  shows "\<exists>fin m'. run_outcomes i os m = (replicate (length os - 1) SecDone @ [SecPersist fin], m') \<and>
    rm_progress m' i = None \<and> rm_canceled m' i \<and> tr_ID fin = tr_ID (tp_transition p) \<and>
    tr_SuccessCount fin = tr_SuccessCount (tp_transition p) + reported TaskStateSucceeded os \<and>
    tr_FailureCount fin = tr_FailureCount (tp_transition p) + int (length os)
      - reported TaskStateSucceeded os \<and>
    tr_CompletedAt fin = Some (fst (last os)) \<and>
    tr_State fin = final_state (tp_executableTotal p)
      (tp_canceledCount p + reported TaskStateCanceled os)
      (tr_SuccessCount fin) (tr_FailureCount fin)"
  using assms
proof (induction os arbitrary: m p)
  case (Cons o' os)
  obtain now s where o': "o' = (now, s)" by (cases o')
  let ?p = "(count_outcome s p)\<lparr>tp_remaining := tp_remaining p - 1\<rparr>"
  show ?case
  proof (cases "os = []")
    case True
    with Cons.prems show ?thesis
      by (simp add: o' outcome_section_def Let_def finalTransitionState_counts count_outcome_counts)
  next
    case False
    then have sec: "outcome_section now i s m = (SecDone, set_progress i (Some ?p) m)"
      using Cons.prems by (simp add: outcome_section_def Let_def)
    have "rm_progress (set_progress i (Some ?p) m) i = Some ?p" by simp
    moreover have "tp_remaining ?p = int (length os)" using Cons.prems by simp
    ultimately obtain fin m' where
      fin: "run_outcomes i os (set_progress i (Some ?p) m) =
        (replicate (length os - 1) SecDone @ [SecPersist fin], m')"
      and rest: "rm_progress m' i = None" "rm_canceled m' i" "tr_ID fin = tr_ID (tp_transition ?p)"
        "tr_SuccessCount fin = tr_SuccessCount (tp_transition ?p) + reported TaskStateSucceeded os"
        "tr_FailureCount fin = tr_FailureCount (tp_transition ?p) + int (length os)
          - reported TaskStateSucceeded os"
        "tr_CompletedAt fin = Some (fst (last os))"
        "tr_State fin = final_state (tp_executableTotal ?p)
          (tp_canceledCount ?p + reported TaskStateCanceled os)
          (tr_SuccessCount fin) (tr_FailureCount fin)"
      using Cons.IH [of "set_progress i (Some ?p) m" ?p] False by blast
    obtain k where k: "length os = Suc k" using False by (cases os) auto
    have "run_outcomes i (o' # os) m =
        (replicate (length (o' # os) - 1) SecDone @ [SecPersist fin], m')"
      using sec fin k by (simp add: o')
    with rest False show ?thesis
      by (intro exI [of _ fin] exI [of _ m']) (simp add: o' count_outcome_counts algebra_simps)
  qed
qed simp

section \<open>Lemmas on planning\<close>

lemma plan_task_state:
  "tk_State (plan_task now op dry ms es n) \<in>
     (if dry then {TaskStateFailed, TaskStatePlanned} else {TaskStateFailed, TaskStatePending})"
  by (simp add: plan_task_def Let_def split: option.split)

lemma plan_task_node [simp]: "tk_NodeID (plan_task now op dry ms es n) = n"
  by (simp add: plan_task_def new_task_def Let_def split: option.split)

lemma plan_counts:
  assumes "tasks = map (plan_task now op False ms es) ns"
  shows "count_state TaskStateFailed tasks + count_state TaskStatePending tasks = length tasks"
  unfolding assms
proof (induction ns)
  case (Cons n ns)
  with plan_task_state [of now op False ms es n] show ?case by (auto simp: count_state_def)
qed (simp add: count_state_def)

lemma plan_trimmed:
  "tk \<in> set (map (plan_task now op dry ms es) ns) \<Longrightarrow> trim_space (tk_State tk) = tk_State tk"
proof -
  assume "tk \<in> set (map (plan_task now op dry ms es) ns)"
  then obtain n where "tk = plan_task now op dry ms es n" by auto
  with plan_task_state [of now op dry ms es n] show ?thesis by (cases dry) auto
qed

lemma mappingByNode_SomeD:
  "mappingByNode ms n = Some m \<Longrightarrow> m \<in> set ms \<and> trim_space (pm_NodeID m) = n"
  unfolding mappingByNode_def by (drule map_of_map_from_SomeD) auto

lemma mappingByNode_NoneD:
  "mappingByNode ms n = None \<Longrightarrow> m \<in> set ms \<Longrightarrow> trim_space (pm_NodeID m) \<noteq> n"
  by (auto simp: mappingByNode_def dest: map_of_map_from_NoneD)

lemma missingByNode_SomeD:
  "missingByNode es n = Some e \<Longrightarrow> e \<in> set es \<and> trim_space (me_NodeID e) = n"
  unfolding missingByNode_def by (drule map_of_map_from_SomeD) auto

lemma missingByNode_NoneD:
  "missingByNode es n = None \<Longrightarrow> e \<in> set es \<Longrightarrow> trim_space (me_NodeID e) \<noteq> n"
  by (auto simp: missingByNode_def dest: map_of_map_from_NoneD)

lemma enqueue_all_queued:
  "enqueue_all answers k xs q = (AllQueued, q') \<Longrightarrow> q_ch q' = q_ch q @ xs"
  by (induction answers k xs q rule: enqueue_all.induct)
    (auto split: prod.splits enq_result.splits dest: enqueue_OkD)

lemma enqueue_all_failed:
  "enqueue_all answers k xs q = (EnqueueFailed e, q') \<Longrightarrow>
   \<exists>done x rest. xs = done @ x # rest \<and> q_ch q' = q_ch q @ done"
proof (induction answers k xs q rule: enqueue_all.induct)
  case (2 answers k x xs q)
  obtain ce pd where a: "answers k = (ce, pd)" by fastforce
  show ?case
  proof (cases "enqueue ce pd x q")
    case (EnqOk q1)
    with "2.prems" a have "enqueue_all answers (Suc k) xs q1 = (EnqueueFailed e, q')" by simp
    from "2.IH" [OF a [symmetric] EnqOk this]
    obtain dn y rest where "xs = dn @ y # rest" "q_ch q' = q_ch q1 @ dn" by blast
    with enqueue_OkD [OF EnqOk] show ?thesis
      by (intro exI [of _ "x # dn"] exI [of _ y] exI [of _ rest]) simp
  next
    case (EnqErr e')
    with 2 a have "q' = q" by simp
    then show ?thesis by (intro exI [of _ "[]"] exI [of _ x] exI [of _ xs]) simp
  qed (use 2 a in auto)
qed simp

text \<open>The route of a task is that of the mapping of its node.\<close>

definition routed_by :: "NodePowerMapping list \<Rightarrow> Task \<Rightarrow> bool" where
  "routed_by ms k \<longleftrightarrow>
     (\<exists>m \<in> set ms. trim_space (pm_NodeID m) = tk_NodeID k \<and>
        tk_BMCID k = trim_space (pm_BMCID m) \<and> tk_BMCEndpoint k = trim_space (pm_Endpoint m) \<and>
        tk_CredentialID k = trim_space (pm_CredentialID m) \<and>
        tk_InsecureSkipVerify k = pm_InsecureSkipVerify m)"

lemma routed_byI:
  "m \<in> set ms \<Longrightarrow> trim_space (pm_NodeID m) = tk_NodeID k \<Longrightarrow> tk_BMCID k = trim_space (pm_BMCID m) \<Longrightarrow>
   tk_BMCEndpoint k = trim_space (pm_Endpoint m) \<Longrightarrow>
   tk_CredentialID k = trim_space (pm_CredentialID m) \<Longrightarrow>
   tk_InsecureSkipVerify k = pm_InsecureSkipVerify m \<Longrightarrow> routed_by ms k"
  by (auto simp: routed_by_def)

lemma filter_by_node:
  "list_all2 (\<lambda>n c. tk_NodeID c = n \<and> (tk_State c = st \<longleftrightarrow> P n) \<and> (tk_State c = st \<longrightarrow> R c)) ns cs \<Longrightarrow>
   map tk_NodeID cs = ns \<and>
   map tk_NodeID (filter (\<lambda>k. tk_State k = st) cs) = filter P ns \<and>
   (\<forall>k \<in> set (filter (\<lambda>k. tk_State k = st) cs). R k)"
  by (induction rule: list_all2_induct) auto

section \<open>The runner over its store\<close>

text \<open>
  The contract of the runner's \<open>Store\<close>: the mapping contract, for whatever a call meets, and the
  transition contract.
\<close>

locale runner_store =
  transition_store "S_CreateTransition st" "S_UpdateTransitionTask st"
  for st :: "('e, 'd) Store" +
  assumes resolver: "node_resolver (S_ResolveNodeMappings st e)"
begin

text \<open>The planned tasks of a request over the answers of the resolver.\<close>

lemma planned_states:
  assumes "S_ResolveNodeMappings st e d ns = Inr (ms, es)" and "n \<in> nonblank ns"
  shows "tk_State (plan_task now op False ms es n) =
    (if n \<in> me_NodeID ` set es then TaskStateFailed else TaskStatePending)"
proof -
  note trimmed = node_resolver.answers_trimmed [OF resolver assms(1)]
  show ?thesis
  proof (cases "n \<in> me_NodeID ` set es")
    case True
    then obtain x where "x \<in> set es" "me_NodeID x = n" by auto
    then have "missingByNode es n \<noteq> None"
      using missingByNode_NoneD [of es n x] trimmed(2) [of x] by auto
    with True show ?thesis by (auto simp: plan_task_def Let_def)
  next
    case False
    then have "missingByNode es n = None"
      using missingByNode_SomeD [of es n] trimmed(2) by (cases "missingByNode es n") force+
    moreover obtain m where "m \<in> set ms" "pm_NodeID m = n"
      using node_resolver.not_missing_mapped [OF resolver assms False] by blast
    then have "mappingByNode ms n \<noteq> None"
      using mappingByNode_NoneD [of ms n m] trimmed(1) [of m] by auto
    ultimately show ?thesis using False by (auto simp: plan_task_def Let_def)
  qed
qed

lemma started_entry:
  assumes create: "S_CreateTransition st e (plan_transition now op req tasks) tasks d =
      (Inr (created, createdTasks), d1)"
    and tasks: "tasks = map (plan_task now op False ms es) ns" and "\<not> sr_DryRun req"
    and pending: "count_state TaskStatePending tasks \<noteq> 0"
  defines "pend \<equiv> filter (\<lambda>k. tk_State k = TaskStatePending) createdTasks"
  shows "length pend = count_state TaskStatePending tasks \<and>
    tr_TargetCount created = int (length ns) \<and>
    tr_FailureCount created + int (length pend) = tr_TargetCount created \<and>
    tr_SuccessCount created = 0 \<and> 0 \<le> tr_FailureCount created \<and>
    tr_State created = TransitionStatePending"
proof -
  have "length pend = count_state TaskStatePending tasks"
    using created_pending [OF create, of TaskStatePending] plan_trimmed [of _ now op False ms es ns]
    by (simp add: pend_def count_state_def tasks)
  moreover note create_counts [OF create] plan_counts [OF tasks]
  ultimately show ?thesis
    using assms(3,4) by (simp add: plan_transition_def Let_def tasks flip: of_nat_add)
qed

lemma register_ok:
  assumes "mem_ok m" and "pend \<noteq> []" and "tr_SuccessCount tr = 0" "0 \<le> tr_FailureCount tr"
    and "tr_FailureCount tr + int (length pend) = tr_TargetCount tr"
  shows "mem_ok (register_section tr pend m)"
proof -
  have "mem_ok (m\<lparr>rm_canceled := c\<rparr>)" for c using assms(1) by (simp add: mem_ok_def)
  then show ?thesis
    unfolding register_section_def using assms(2-)
    by (intro mem_ok_set) (auto simp: tp_ok_def)
qed

text \<open>A created task: that of its node, pending when the node has a route, and then with the route.\<close>

lemma created_task:
  assumes res: "S_ResolveNodeMappings st e d ns = Inr (ms, es)"
    and n: "n \<in> set ns" "trim_space n = n" "n \<noteq> []"
    and c: "stored_as i (plan_task now op False ms es n) c"
  shows "tk_NodeID c = n \<and> (tk_State c = TaskStatePending \<longleftrightarrow> n \<notin> me_NodeID ` set es) \<and>
    (tk_State c = TaskStatePending \<longrightarrow> routed_by ms c)"
proof -
  let ?p = "plan_task now op False ms es n"
  have "n \<in> nonblank ns" using n by (force simp: nonblank_def)
  note state = planned_states [OF res this, of now op]
  have "tk_State c = tk_State ?p" using c state by (simp add: stored_as_def)
  moreover have "routed_by ms c" if pd: "tk_State ?p = TaskStatePending"
  proof -
    have none: "missingByNode es n = None"
      using pd by (auto simp: plan_task_def Let_def split: option.splits)
    then obtain m where m: "mappingByNode ms n = Some m"
      using pd none by (cases "mappingByNode ms n") (auto simp: plan_task_def Let_def)
    with mappingByNode_SomeD [OF m] c n(2) none show ?thesis
      by (intro routed_byI [of m]) (simp_all add: stored_as_def plan_task_def new_task_def Let_def)
  qed
  ultimately show ?thesis using state c n(2) by (auto simp: stored_as_def)
qed

text \<open>What an accepted start leaves behind.\<close>

lemma StartTransition_accepted:
  assumes run: "StartTransition st env parse_op op_string running now now2 answers req s =
      (StartOk tr, s')"
    and dry: "\<not> sr_DryRun req" and mem: "mem_ok (rs_mem s)"
  obtains op ms es plan planned created tasks d1 pend where
    "parse_op (sr_Operation req) = Inr op"
    "S_ResolveNodeMappings st (env 0) (rs_db s) (normalizeNodeIDs (sr_NodeIDs req)) = Inr (ms, es)"
    "S_CreateTransition st (env 1) plan planned (rs_db s) = (Inr (created, tasks), d1)"
    "pend = filter (\<lambda>k. tk_State k = TaskStatePending) tasks"
    "map tk_NodeID tasks = normalizeNodeIDs (sr_NodeIDs req)"
    "map tk_NodeID pend = filter (\<lambda>n. n \<notin> me_NodeID ` set es) (normalizeNodeIDs (sr_NodeIDs req))"
    "\<forall>k \<in> set pend. routed_by ms k"
    "tr_TargetCount created = int (card (nonblank (sr_NodeIDs req)))"
    "if pend = []
     then tr_State created = TransitionStateFailed \<and> rs_mem s' = rs_mem s \<and> rs_queue s' = rs_queue s \<and>
       S_UpdateTransition st (env 2) (created\<lparr>tr_UpdatedAt := now2\<rparr>) d1 = (Inr tr, rs_db s')
     else tr = created \<and> tr_State created = TransitionStatePending \<and> rs_db s' = d1 \<and>
       mem_ok (rs_mem s') \<and> rs_mem s' = register_section created pend (rs_mem s) \<and>
       q_ch (rs_queue s') = q_ch (rs_queue s) @ map (\<lambda>k. \<lparr>qt_operation = op,
         qt_transitionID = tr_ID created, qt_task = k\<rparr>) pend"
proof -
  let ?ns = "normalizeNodeIDs (sr_NodeIDs req)"
  from run have running by (auto simp: StartTransition_def split: if_splits)
  from run obtain op ms es where op: "parse_op (sr_Operation req) = Inr op" and ns: "?ns \<noteq> []"
    and res: "S_ResolveNodeMappings st (env 0) (rs_db s) ?ns = Inr (ms, es)"
    by (auto simp: StartTransition_def Let_def split: if_splits sum.splits prod.splits)
  define planned where "planned = map (plan_task now (op_string op) False ms es) ?ns"
  define plan where "plan = plan_transition now (op_string op) req planned"
  obtain r d1 where create: "S_CreateTransition st (env 1) plan planned (rs_db s) = (r, d1)"
    by fastforce
  from run \<open>running\<close> op ns res create dry obtain created tasks where r: "r = Inr (created, tasks)"
    by (cases r) (auto simp: StartTransition_def Let_def planned_def plan_def)
  define pend where "pend = filter (\<lambda>k. tk_State k = TaskStatePending) tasks"
  note made = create [unfolded r]
  have len: "length ?ns = card (nonblank (sr_NodeIDs req))" using distinct_card [of ?ns] by simp
  have node: "n \<in> set ?ns \<Longrightarrow> trim_space n = n \<and> n \<noteq> []" for n by (auto dest: nonblank_trimmed)
  have "list_all2 (\<lambda>n c. tk_NodeID c = n \<and>
      (tk_State c = TaskStatePending \<longleftrightarrow> n \<notin> me_NodeID ` set es) \<and>
      (tk_State c = TaskStatePending \<longrightarrow> routed_by ms c)) ?ns tasks"
    using create_tasks [OF made] unfolding planned_def list_all2_map1
    by (rule list.rel_mono_strong) (use created_task [OF res] node in blast)
  note nodes = filter_by_node [OF this, folded pend_def]
  have pending: "length pend = count_state TaskStatePending planned"
    using created_pending [OF made, of TaskStatePending]
      plan_trimmed [of _ now "op_string op" False ms es ?ns]
    by (simp add: pend_def count_state_def planned_def)
  have target: "tr_TargetCount created = int (card (nonblank (sr_NodeIDs req)))"
    using create_counts [OF made] len by (simp add: plan_def plan_transition_def Let_def planned_def dry)
  show thesis
  proof (cases "pend = []")
    case True
    then have zero: "count_state TaskStatePending planned = 0" using pending by simp
    then have "tr_State created = TransitionStateFailed"
      using create_counts [OF made] by (simp add: plan_def plan_transition_def Let_def dry)
    moreover have "rs_mem s' = rs_mem s \<and> rs_queue s' = rs_queue s \<and>
        S_UpdateTransition st (env 2) (created\<lparr>tr_UpdatedAt := now2\<rparr>) d1 = (Inr tr, rs_db s')"
      using run \<open>running\<close> op ns res create r zero dry
      by (auto simp: StartTransition_def Let_def planned_def plan_def split: prod.splits sum.splits)
    ultimately show thesis using that [OF op res made pend_def] nodes target True by simp
  next
    case False
    then have some: "count_state TaskStatePending planned \<noteq> 0"
      using pending by (metis length_0_conv)
    define items where "items = map (\<lambda>k. \<lparr>qt_operation = op, qt_transitionID = tr_ID created,
        qt_task = k\<rparr>) pend"
    let ?mem = "register_section created pend (rs_mem s)"
    from started_entry [OF made [unfolded plan_def] planned_def dry some]
    have entry: "tr_FailureCount created + int (length pend) = tr_TargetCount created"
      "tr_SuccessCount created = 0" "0 \<le> tr_FailureCount created"
      "tr_State created = TransitionStatePending"
      by (simp_all add: pend_def)
    obtain q where q: "enqueue_all answers 0 items (rs_queue s) = (AllQueued, q)"
      and s': "tr = created" "s' = s\<lparr>rs_db := d1, rs_mem := ?mem, rs_queue := q\<rparr>"
      using run \<open>running\<close> op ns res create dry r some
      by (auto simp: StartTransition_def Let_def planned_def plan_def pend_def items_def
          split: prod.splits enqueue_all_result.splits)
    have "mem_ok ?mem" using entry mem False by (intro register_ok) simp_all
    then show thesis
      using that [OF op res made pend_def] nodes target False s' entry enqueue_all_queued [OF q]
      by (simp add: items_def)
  qed
qed

end

section \<open>The PostgreSQL store as the runner's store\<close>

record pg_tables =
  pt_map :: map_tables
  pt_tr :: tr_tables

definition on_tr :: "('a, tr_tables) tx \<Rightarrow> ('a, pg_tables) tx" where
  "on_tr m d = (case m (pt_tr d) of (r, t) \<Rightarrow> (r, d\<lparr>pt_tr := t\<rparr>))"

definition PostgresStore :: "(store_env, pg_tables) Store" where
  "PostgresStore =
     \<lparr>S_ResolveNodeMappings = (\<lambda>e d. ResolveNodeMappings (se_pg e) (pt_map d)),
      S_CreateTransition = (\<lambda>e tr tasks. on_tr (CreateTransition e tr tasks)),
      S_UpdateTransition = (\<lambda>e tr. on_tr (UpdateTransition e tr)),
      S_UpdateTransitionTask = (\<lambda>e tk. on_tr (UpdateTransitionTask e tk))\<rparr>"

lemma on_tr_eq: "on_tr m d = (r, d') \<longleftrightarrow> (\<exists>t. m (pt_tr d) = (r, t) \<and> d' = d\<lparr>pt_tr := t\<rparr>)"
  by (auto simp: on_tr_def split: prod.splits)

interpretation pg_runner: runner_store PostgresStore
proof unfold_locales
  fix env tr tks x and d d' :: pg_tables
  assume "S_CreateTransition PostgresStore env tr tks d = (Inl x, d')"
  then show "d' = d" by (auto simp: PostgresStore_def on_tr_eq dest: pg_store.create_fail)
next
  fix env tr tks ctr ctks and d d' :: pg_tables
  assume "S_CreateTransition PostgresStore env tr tks d = (Inr (ctr, ctks), d')"
  then obtain t where run: "CreateTransition env tr tks (pt_tr d) = (Inr (ctr, ctks), t)"
    by (auto simp: PostgresStore_def on_tr_eq)
  show "list_all2 (stored_as (tr_ID ctr)) tks ctks" by (rule pg_store.create_tasks [OF run])
  show "tr_State ctr = trim_space (tr_State tr) \<and> tr_TargetCount ctr = tr_TargetCount tr \<and>
      tr_SuccessCount ctr = tr_SuccessCount tr \<and> tr_FailureCount ctr = tr_FailureCount tr"
    by (rule pg_store.create_counts [OF run])
next
  fix env tk k and d d' :: pg_tables
  assume "S_UpdateTransitionTask PostgresStore env tk d = (Inr k, d')"
  then show "tk_State k = trim_space (tk_State tk) \<and> tk_BMCID k = trim_space (tk_BMCID tk)"
    by (auto simp: PostgresStore_def on_tr_eq dest: pg_store.update_task_keeps)
next
  fix e ns ms es m and d :: pg_tables
  assume "S_ResolveNodeMappings PostgresStore e d ns = Inr (ms, es)"
  then have run: "ResolveNodeMappings (se_pg e) (pt_map d) ns = Inr (ms, es)"
    by (simp add: PostgresStore_def)
  show "pm_NodeID ` set ms \<union> me_NodeID ` set es = nonblank ns"
    and "pm_NodeID ` set ms \<inter> me_NodeID ` set es = {}"
    and "m \<in> set ms \<Longrightarrow> trim_space (pm_Endpoint m) \<noteq> [] \<and> trim_space (pm_CredentialID m) \<noteq> []"
    using pg_resolver.answered [OF run] pg_resolver.exclusive [OF run]
      pg_resolver.routable [OF run] by blast+
qed

section \<open>Lemmas on executing a task\<close>

lemma mark_section_other: "mark_section now i m = (r, m') \<Longrightarrow> j \<noteq> i \<Longrightarrow>
    rm_progress m' j = rm_progress m j"
  by (auto simp: mark_section_def Let_def split: option.splits if_splits)

lemma markTransitionRunning_mem:
  "markTransitionRunning st env now i s = (e, s') \<Longrightarrow>
   \<exists>r. mark_section now i (rs_mem s) = (r, rs_mem s')"
  by (auto simp: markTransitionRunning_def split: prod.splits)

lemma recordTaskOutcome_mem:
  "rs_mem (recordTaskOutcome st env now i state s) = snd (outcome_section now i state (rs_mem s))"
  by (simp add: recordTaskOutcome_def split: prod.split)

lemma completeTask_mem:
  "\<exists>state. rs_mem (completeTask st env now upd i task k fps e s) =
     snd (outcome_section now i state (rs_mem s))"
  by (auto simp: completeTask_def Let_def recordTaskOutcome_mem split: prod.split sum.split)

lemma executeTask_mem:
  assumes "executeTask st env ov cfg jitter exec read v upd base limiter item (s, w) = Some (s', w')"
    and mark: "markTransitionRunning st (env 3) (clock w) (qt_transitionID item) s = (me, s1)"
  shows "if me = None
    then \<exists>now state. rs_mem s' = snd (outcome_section now (qt_transitionID item) state (rs_mem s1))
    else rs_mem s' = rs_mem s1"
proof (cases me)
  case (Some e)
  with assms show ?thesis by (simp add: executeTask_def)
next
  case None
  let ?i = "qt_transitionID item"
  have "\<exists>now task k fps e s2. rs_mem s2 = rs_mem s1 \<and>
      s' = completeTask st env now upd ?i task k fps e s2"
  proof (cases "ctx_err base (clock w)")
    case (Some e)
    then have "s' = completeTask st env (clock w) upd ?i (qt_task item) 0 [] (Some e) s1"
      using assms None by (auto simp: executeTask_def)
    then show ?thesis by blast
  next
    case ok: None
    define task where "task = (qt_task item)\<lparr>tk_State := TaskStateRunning,
        tk_StartedAt := Some (clock w), tk_UpdatedAt := clock w\<rparr>"
    obtain r d2 where upd: "S_UpdateTransitionTask st (env 0) task (rs_db s1) = (r, d2)"
      by fastforce
    let ?s2 = "s1\<lparr>rs_db := d2\<rparr>"
    have mem: "rs_mem ?s2 = rs_mem s1" by simp
    show ?thesis
    proof (cases limiter)
      case (Some e)
      then have "s' = completeTask st env (clock w) upd ?i
          (case r of Inr updated \<Rightarrow> updated | Inl _ \<Rightarrow> task) 0 [] (Some e) ?s2"
        using assms None ok upd unfolding task_def by (auto simp: executeTask_def Let_def)
      with mem show ?thesis by blast
    next
      case lim: None
      obtain now k fps e where "s' = completeTask st env now upd ?i
          (case r of Inr updated \<Rightarrow> updated | Inl _ \<Rightarrow> task) k fps e ?s2"
        using assms None ok upd lim unfolding task_def
        by (auto simp: executeTask_def Let_def split: option.splits prod.splits)
      with mem show ?thesis by blast
    qed
  qed
  then obtain now task k fps e s2 where s2: "rs_mem s2 = rs_mem s1"
      "s' = completeTask st env now upd ?i task k fps e s2"
    by blast
  show ?thesis
    using completeTask_mem [of st env now upd ?i task k fps e s2] s2 None by auto
qed

text \<open>What a start relies on the PostgreSQL store for.\<close>

lemma pg_created:
  assumes "S_CreateTransition PostgresStore e plan planned d = (Inr (created, tasks), d1)"
    and "uuids_ok e"
  shows "t_tasks (pt_tr d1) = t_tasks (pt_tr d) @ map task_row tasks"
    and "\<forall>k \<in> set tasks. tk_TransitionID k = tr_ID created"
    and "trim_space (tr_ID created) = tr_ID created"
    and "row_of tr_ID (t_transitions (pt_tr d1)) (tr_ID created) = Some created"
proof -
  from assms(1) have "CreateTransition e plan planned (pt_tr d) = (Inr (created, tasks), pt_tr d1)"
    by (auto simp: PostgresStore_def on_tr_eq)
  note c = CreateTransition_Inr [OF this]
  show "t_tasks (pt_tr d1) = t_tasks (pt_tr d) @ map task_row tasks" using c by blast
  show trim: "trim_space (tr_ID created) = tr_ID created"
    using c assms(2) by (auto simp: uuids_ok_def)
  have "list_all2 (stored_as (tr_ID created)) planned tasks" using c by blast
  then show "\<forall>k \<in> set tasks. tk_TransitionID k = tr_ID created"
    by (induction rule: list_all2_induct) (simp_all add: stored_as_def trim)
  show "row_of tr_ID (t_transitions (pt_tr d1)) (tr_ID created) = Some created"
    using c by (simp add: row_of_append row_of_Cons)
qed

lemma pg_updated:
  assumes "S_UpdateTransition PostgresStore e (created\<lparr>tr_UpdatedAt := now2\<rparr>) d1 = (Inr tr, d2)"
    and "row_of tr_ID (t_transitions (pt_tr d1)) (tr_ID created) = Some created"
    and "trim_space (tr_ID created) = tr_ID created"
  shows "t_tasks (pt_tr d2) = t_tasks (pt_tr d1)" "tr_ID tr = tr_ID created"
    "tr_State tr = trim_space (tr_State created)" "tr_TargetCount tr = tr_TargetCount created"
proof -
  let ?c = "created\<lparr>tr_UpdatedAt := now2\<rparr>"
  obtain t2 where run: "UpdateTransition e ?c (pt_tr d1) = (Inr tr, t2)" and t2: "pt_tr d2 = t2"
    using assms(1) by (auto simp: PostgresStore_def on_tr_eq)
  have "t_tasks t2 = t_tasks (pt_tr d1) \<and>
      tr = updated_transition_row (stamped e ?c) created"
    using run
  proof (cases rule: UpdateTransition_cases)
    case (written row ev)
    have "row_of tr_ID (t_transitions t2) (tr_ID created) =
        Some (updated_transition_row (stamped e ?c) created)"
      using written(2) assms(2,3) by (simp add: row_of_update_rows)
    moreover have "Inr tr = GetTransition (reread (se_pg e)) t2 (tr_ID created)"
      using written(4) assms(3) by simp
    ultimately have "tr = updated_transition_row (stamped e ?c) created"
      using assms(3) by (auto simp: GetTransition_def Let_def scanTransition_def split: if_splits option.splits)
    then show ?thesis using written(2) by simp
  qed simp
  then show "t_tasks (pt_tr d2) = t_tasks (pt_tr d1)" "tr_ID tr = tr_ID created"
    "tr_State tr = trim_space (tr_State created)" "tr_TargetCount tr = tr_TargetCount created"
    using t2 by (simp_all add: updated_transition_row_def stamped_def)
qed

lemma run_action_deadline:
  assumes exec: "takes_at_most lat exec" and read: "takes_at_most lat read"
    and c: "ctx_done_at c = Some d" and v: "0 < v_pollInterval v"
    and delay: "\<And>a. 0 < a \<Longrightarrow> 0 < retryDelay ov cfg (jitter a) a"
    and start: "clock w \<le> d" and "0 < rc_retryAttempts cfg"
  shows "\<exists>r w'. run_action ov cfg jitter exec read v c req w = Some (r, w') \<and> clock w' \<le> d + 2 * lat"
proof -
  obtain a e w1 where r: "executeWithRetry ov cfg jitter exec c req w = ((a, e), w1)"
    by (metis surj_pair)
  have "clock w1 \<le> d + lat"
    using retry_loop_deadline [OF exec c delay r [unfolded executeWithRetry_def] start] assms(7)
    by simp
  have "clock w \<le> clock w + lat" using exec by (metis takes_at_most_def order_trans)
  then have lat: "0 \<le> lat" by simp
  show ?thesis
  proof (cases e)
    case (Some x)
    with r \<open>clock w1 \<le> d + lat\<close> lat show ?thesis by (simp add: run_action_def)
  next
    case None
    have "state_reader read" using takes_at_mostD [OF read] by unfold_locales blast
    from state_reader.Verify_returns [OF this v] obtain x w2 where
      ver: "Verify read v c req w1 = Some (x, w2)" by fastforce
    have "clock w2 \<le> d + 2 * lat"
      by (rule Verify_within [OF ver c takes_at_mostD [OF read] v \<open>clock w1 \<le> d + lat\<close> lat])
    with r None ver show ?thesis by (cases x) (simp add: run_action_def)
  qed
qed

text \<open>The execution context of a task ends within its transition deadline.\<close>

lemma executeTask_within:
  assumes exec: "takes_at_most lat exec" and read: "takes_at_most lat read"
    and delay: "\<And>a. 0 < a \<Longrightarrow> 0 < retryDelay ov cfg (jitter a) a" and cfg: "config_ok cfg"
  shows "\<exists>s' w'. executeTask st env ov cfg jitter exec read (NewVerifier window poll) upd base limiter
      item (s, w) = Some (s', w') \<and>
    clock w' \<le> clock w + rc_transitionDeadline cfg + 2 * lat"
proof -
  have v: "0 < v_pollInterval (NewVerifier window poll)" using NewVerifier_bounds by blast
  have "clock w \<le> clock w + lat" using exec by (metis takes_at_most_def order_trans)
  then have lat: "0 \<le> lat" by simp
  have D: "0 < rc_transitionDeadline cfg" "0 < rc_retryAttempts cfg"
    using cfg by (simp_all add: config_ok_def)
  let ?c = "with_timeout base (clock w) (rc_transitionDeadline cfg)"
  obtain d where d: "ctx_done_at ?c = Some d" "d \<le> clock w + rc_transitionDeadline cfg"
    using with_timeout_deadline by blast
  have act: "\<exists>r w'. run_action ov cfg jitter exec read (NewVerifier window poll) ?c req w = Some (r, w') \<and>
      clock w' \<le> clock w + rc_transitionDeadline cfg + 2 * lat"
    if "ctx_err base (clock w) = None" for req
  proof -
    have "clock w \<le> d"
      using d(1) that D(1) by (auto simp: with_timeout_def ctx_err_def split: option.splits if_splits)
    from run_action_deadline [OF exec read d(1) v delay this D(2), of req] d(2) show ?thesis by fastforce
  qed
  obtain m s1 where mark: "markTransitionRunning st (env 3) (clock w) (qt_transitionID item) s = (m, s1)"
    by fastforce
  show ?thesis
  proof (cases "m = None \<and> ctx_err base (clock w) = None \<and> limiter = None")
    case False
    with mark D(1) lat show ?thesis
      by (cases m; cases "ctx_err base (clock w)"; cases limiter)
        (simp_all add: executeTask_def Let_def split: prod.split)
  next
    case True
    let ?task0 = "(qt_task item)\<lparr>tk_State := TaskStateRunning, tk_StartedAt := Some (clock w),
      tk_UpdatedAt := clock w\<rparr>"
    obtain r d2 where upd: "S_UpdateTransitionTask st (env 0) ?task0 (rs_db s1) = (r, d2)" by fastforce
    let ?task = "case r of Inr updated \<Rightarrow> updated | Inl _ \<Rightarrow> ?task0"
    from act [of "exec_request item ?task"] True obtain a fps e w' where
      "run_action ov cfg jitter exec read (NewVerifier window poll) ?c (exec_request item ?task) w =
        Some ((a, fps, e), w')"
      "clock w' \<le> clock w + rc_transitionDeadline cfg + 2 * lat" by auto
    with True mark upd D(1) show ?thesis by (simp add: executeTask_def Let_def)
  qed
qed

section \<open>Properties\<close>

text \<open>
  C1. An accepted transition is stored, registered and queued as a whole.  When \<open>StartTransition\<close>, over
  the PostgreSQL store, answers a transition (no dry run), it has stored one task per distinct
  requested node, and \<open>pend\<close>, the pending ones among them, are exactly those of the nodes the
  resolver found no part missing of, each with the route of its mapping.  If there are none, the
  answered transition is failed and neither memory nor queue has changed.  Otherwise it is
  pending, exactly one item for each task of \<open>pend\<close>, in that order, has been appended to the queue,
  a new entry awaits that many outcomes with its context live, and no other entry has changed.
\<close>

theorem StartTransition_registers:
  assumes "StartTransition PostgresStore env parse_op op_string running now now2 answers req s =
      (StartOk tr, s')"
    and "\<not> sr_DryRun req" "mem_ok (rs_mem s)" "uuids_ok (env 1)"
  shows "\<exists>op ms es tasks pend.
    parse_op (sr_Operation req) = Inr op \<and>
    ResolveNodeMappings (se_pg (env 0)) (pt_map (rs_db s)) (normalizeNodeIDs (sr_NodeIDs req)) =
      Inr (ms, es) \<and>
    t_tasks (pt_tr (rs_db s')) = t_tasks (pt_tr (rs_db s)) @ map task_row tasks \<and>
    map tk_NodeID tasks = normalizeNodeIDs (sr_NodeIDs req) \<and>
    (\<forall>k \<in> set tasks. tk_TransitionID k = tr_ID tr) \<and>
    pend = filter (\<lambda>k. tk_State k = TaskStatePending) tasks \<and>
    map tk_NodeID pend = filter (\<lambda>n. n \<notin> me_NodeID ` set es) (normalizeNodeIDs (sr_NodeIDs req)) \<and>
    (\<forall>k \<in> set pend. routed_by ms k) \<and>
    tr_TargetCount tr = int (card (nonblank (sr_NodeIDs req))) \<and>
    (if pend = []
     then tr_State tr = TransitionStateFailed \<and> rs_mem s' = rs_mem s \<and> rs_queue s' = rs_queue s
     else tr_State tr = TransitionStatePending \<and> mem_ok (rs_mem s') \<and>
       (\<exists>p. rm_progress (rs_mem s') = (rm_progress (rs_mem s))(tr_ID tr \<mapsto> p) \<and>
          tp_transition p = tr \<and> tp_remaining p = int (length pend) \<and>
          tp_executableTotal p = int (length pend) \<and> \<not> tp_started p \<and> \<not> tp_aborted p) \<and>
       \<not> rm_canceled (rs_mem s') (tr_ID tr) \<and>
       q_ch (rs_queue s') = q_ch (rs_queue s) @
         map (\<lambda>k. \<lparr>qt_operation = op, qt_transitionID = tr_ID tr, qt_task = k\<rparr>) pend)"
  using assms(1-3)
proof (rule pg_runner.StartTransition_accepted)
  fix op ms es plan planned created tasks d1 pend
  assume op: "parse_op (sr_Operation req) = Inr op"
    and res: "S_ResolveNodeMappings PostgresStore (env 0) (rs_db s) (normalizeNodeIDs (sr_NodeIDs req)) =
      Inr (ms, es)"
    and create: "S_CreateTransition PostgresStore (env 1) plan planned (rs_db s) =
      (Inr (created, tasks), d1)"
    and pend: "pend = filter (\<lambda>k. tk_State k = TaskStatePending) tasks"
      "map tk_NodeID tasks = normalizeNodeIDs (sr_NodeIDs req)"
      "map tk_NodeID pend = filter (\<lambda>n. n \<notin> me_NodeID ` set es) (normalizeNodeIDs (sr_NodeIDs req))"
      "\<forall>k \<in> set pend. routed_by ms k"
    and target: "tr_TargetCount created = int (card (nonblank (sr_NodeIDs req)))"
    and rest: "if pend = []
     then tr_State created = TransitionStateFailed \<and> rs_mem s' = rs_mem s \<and> rs_queue s' = rs_queue s \<and>
       S_UpdateTransition PostgresStore (env 2) (created\<lparr>tr_UpdatedAt := now2\<rparr>) d1 = (Inr tr, rs_db s')
     else tr = created \<and> tr_State created = TransitionStatePending \<and> rs_db s' = d1 \<and>
       mem_ok (rs_mem s') \<and> rs_mem s' = register_section created pend (rs_mem s) \<and>
       q_ch (rs_queue s') = q_ch (rs_queue s) @ map (\<lambda>k. \<lparr>qt_operation = op,
         qt_transitionID = tr_ID created, qt_task = k\<rparr>) pend"
  note made = pg_created [OF create assms(4)]
  show ?thesis
  proof (cases "pend = []")
    case True
    with rest have "S_UpdateTransition PostgresStore (env 2) (created\<lparr>tr_UpdatedAt := now2\<rparr>) d1 =
        (Inr tr, rs_db s')" by simp
    note upd = pg_updated [OF this made(4,3)]
    show ?thesis
      using op res made pend target rest True upd
      by (intro exI [of _ op] exI [of _ ms] exI [of _ es] exI [of _ tasks] exI [of _ pend])
        (simp add: PostgresStore_def)
  next
    case False
    let ?p = "\<lparr>tp_transition = tr, tp_remaining = int (length pend),
      tp_executableTotal = int (length pend), tp_canceledCount = 0, tp_started = False,
      tp_aborted = False\<rparr>"
    note r = rest [unfolded if_not_P [OF False]]
    have tr: "tr = created" and s': "rs_db s' = d1" "mem_ok (rs_mem s')"
      "rs_mem s' = register_section created pend (rs_mem s)" "tr_State created = TransitionStatePending"
      "q_ch (rs_queue s') = q_ch (rs_queue s) @ map (\<lambda>k. \<lparr>qt_operation = op,
         qt_transitionID = tr_ID created, qt_task = k\<rparr>) pend"
      by (use r in blast)+
    have entry: "rm_progress (rs_mem s') = (rm_progress (rs_mem s))(tr_ID tr \<mapsto> ?p)"
      "\<not> rm_canceled (rs_mem s') (tr_ID tr)"
      by (simp_all add: s'(3) tr register_section_def)
    have "\<exists>p. rm_progress (rs_mem s') = (rm_progress (rs_mem s))(tr_ID tr \<mapsto> p) \<and>
        tp_transition p = tr \<and> tp_remaining p = int (length pend) \<and>
        tp_executableTotal p = int (length pend) \<and> \<not> tp_started p \<and> \<not> tp_aborted p"
      by (rule exI [of _ ?p]) (simp add: entry(1))
    then show ?thesis
      using op res made(1,2) pend target False entry(2) s'(1,2,4,5) unfolding tr
      by (intro exI [of _ op] exI [of _ ms] exI [of _ es] exI [of _ tasks] exI [of _ pend])
        (simp only: PostgresStore_def Store.simps if_False simp_thms)
  qed
qed

text \<open>
  C11. A start whose enqueueing fails strands its transition: the progress entry stays behind, its
  context canceled, waiting for more outcomes than tasks were queued.
\<close>

theorem StartTransition_enqueue_failure_strands:
  assumes "StartTransition st env parse_op op_string running now now2 answers req s = (r, s')"
    and "r = StartErr (Wrap ''enqueueing transition task: '' e [])"
  shows "\<exists>i p queued. rm_progress (rs_mem s') i = Some p \<and> rm_canceled (rs_mem s') i \<and>
    q_ch (rs_queue s') = q_ch (rs_queue s) @ queued \<and>
    (\<forall>x \<in> set queued. qt_transitionID x = i) \<and> int (length queued) < tp_remaining p"
proof -
  have "\<exists>created pend op q. enqueue_all answers 0 (map (\<lambda>k. \<lparr>qt_operation = op,
        qt_transitionID = tr_ID created, qt_task = k\<rparr>) pend) (rs_queue s) = (EnqueueFailed e, q) \<and>
      rs_mem s' = cancel_ctx (tr_ID created) (register_section created pend (rs_mem s)) \<and>
      rs_queue s' = q"
    using assms(1,2)
    by (simp add: StartTransition_def Let_def split: if_splits sum.splits prod.splits
        enqueue_all_result.splits) fastforce
  then obtain created pend op q where
    enq: "enqueue_all answers 0 (map (\<lambda>k. \<lparr>qt_operation = op,
        qt_transitionID = tr_ID created, qt_task = k\<rparr>) pend) (rs_queue s) = (EnqueueFailed e, q)"
    and mem: "rs_mem s' = cancel_ctx (tr_ID created) (register_section created pend (rs_mem s))"
    and q: "rs_queue s' = q" by blast
  from enqueue_all_failed [OF enq] obtain queued x rest where
    xs: "map (\<lambda>k. \<lparr>qt_operation = op, qt_transitionID = tr_ID created, qt_task = k\<rparr>) pend =
      queued @ x # rest" and ch: "q_ch q = q_ch (rs_queue s) @ queued" by blast
  have "length pend = length queued + 1 + length rest"
    using arg_cong [OF xs, of length] by simp
  moreover have "\<forall>y \<in> set queued. qt_transitionID y = tr_ID created"
  proof
    fix y assume "y \<in> set queued"
    then have "y \<in> set (map (\<lambda>k. \<lparr>qt_operation = op, qt_transitionID = tr_ID created,
        qt_task = k\<rparr>) pend)" unfolding xs by simp
    then show "qt_transitionID y = tr_ID created" by auto
  qed
  ultimately show ?thesis
    using mem q ch by (intro exI [of _ "tr_ID created"] exI [of _ queued] exI)
      (auto simp: register_section_def)
qed

text \<open>
  C2. One task, one outcome: executing a queued task of a registered transition either fails to
  mark the transition as running, and then its outcome is never recorded, or records exactly one
  outcome; the entry disappears with the last one, and no other transition's entry is touched.
\<close>

theorem executeTask_accounts:
  assumes "mem_ok (rs_mem s)" and "rm_progress (rs_mem s) (qt_transitionID item) = Some p"
    and run: "executeTask st env ov cfg jitter exec read v upd base limiter item (s, w) = Some (s', w')"
  shows "mem_ok (rs_mem s') \<and>
    (\<forall>j. j \<noteq> qt_transitionID item \<longrightarrow> rm_progress (rs_mem s') j = rm_progress (rs_mem s) j) \<and>
    map_option tp_remaining (rm_progress (rs_mem s') (qt_transitionID item)) =
      (if fst (markTransitionRunning st (env 3) (clock w) (qt_transitionID item) s) \<noteq> None
       then Some (tp_remaining p)
       else if tp_remaining p = 1 then None else Some (tp_remaining p - 1))"
proof -
  let ?i = "qt_transitionID item"
  obtain me s1 where mark: "markTransitionRunning st (env 3) (clock w) ?i s = (me, s1)" by fastforce
  from markTransitionRunning_mem [OF mark] obtain r where
    sec: "mark_section (clock w) ?i (rs_mem s) = (r, rs_mem s1)" by blast
  note m = mark_section_ok [OF assms(1) sec]
  with assms(2) obtain p1 where p1: "rm_progress (rs_mem s1) ?i = Some p1"
      "tp_remaining p1 = tp_remaining p"
    by (metis (no_types, lifting) map_option_eq_Some option.simps(9))
  show ?thesis
  proof (cases me)
    case (Some e)
    with executeTask_mem [OF run mark] have "rs_mem s' = rs_mem s1" by simp
    with m p1 mark Some mark_section_other [OF sec] show ?thesis by simp
  next
    case None
    with executeTask_mem [OF run mark] obtain now state where
      "rs_mem s' = snd (outcome_section now ?i state (rs_mem s1))" by auto
    then have "outcome_section now ?i state (rs_mem s1) =
        (fst (outcome_section now ?i state (rs_mem s1)), rs_mem s')" by simp
    from outcome_section_ok [OF _ this] m p1 mark None mark_section_other [OF sec]
    show ?thesis by (auto split: if_splits)
  qed
qed

text \<open>
  C3. The final state of a transition: once all tasks of a registered transition have reported,
  in any order and with any outcomes, exactly the last report persists the transition, with
  success and failure counts of all its targets; it is \<open>canceled\<close> when every task was canceled
  and no node was unmapped, \<open>completed\<close> when everything succeeded, \<open>failed\<close> when nothing did, and
  \<open>partial\<close> otherwise.
\<close>

theorem transition_final_state:
  assumes "os \<noteq> []" "length pend = length os" "tr_SuccessCount tr = 0" "0 \<le> tr_FailureCount tr"
  shows "\<exists>fin m'. run_outcomes (tr_ID tr) os (register_section tr pend m) =
      (replicate (length os - 1) SecDone @ [SecPersist fin], m') \<and>
    rm_progress m' (tr_ID tr) = None \<and> tr_ID fin = tr_ID tr \<and>
    tr_SuccessCount fin = reported TaskStateSucceeded os \<and>
    tr_FailureCount fin = tr_FailureCount tr + int (length os) - reported TaskStateSucceeded os \<and>
    tr_State fin =
      (if reported TaskStateCanceled os = int (length os) \<and> tr_FailureCount tr = 0
       then TransitionStateCanceled
       else if reported TaskStateSucceeded os = int (length os) \<and> tr_FailureCount tr = 0
       then TransitionStateCompleted
       else if reported TaskStateSucceeded os = 0 then TransitionStateFailed
       else TransitionStatePartial)"
proof -
  let ?p = "\<lparr>tp_transition = tr, tp_remaining = int (length pend),
      tp_executableTotal = int (length pend), tp_canceledCount = 0, tp_started = False,
      tp_aborted = False\<rparr>"
  have "rm_progress (register_section tr pend m) (tr_ID tr) = Some ?p"
    by (simp add: register_section_def)
  from run_outcomes_final [OF this _ assms(1)] assms(2) obtain fin m' where
    fin: "run_outcomes (tr_ID tr) os (register_section tr pend m) =
      (replicate (length os - 1) SecDone @ [SecPersist fin], m')"
      "rm_progress m' (tr_ID tr) = None" "tr_ID fin = tr_ID tr"
      "tr_SuccessCount fin = reported TaskStateSucceeded os"
      "tr_FailureCount fin = tr_FailureCount tr + int (length os) - reported TaskStateSucceeded os"
      "tr_State fin = final_state (int (length os)) (reported TaskStateCanceled os)
         (tr_SuccessCount fin) (tr_FailureCount fin)"
    using assms(3) by auto
  have pos: "0 < int (length os)" using assms(1) by simp
  have le: "reported TaskStateSucceeded os + reported TaskStateCanceled os \<le> int (length os)"
    by (rule reported_le)
  have "final_state (int (length os)) (reported TaskStateCanceled os)
      (reported TaskStateSucceeded os)
      (tr_FailureCount tr + int (length os) - reported TaskStateSucceeded os) =
      (if reported TaskStateCanceled os = int (length os) \<and> tr_FailureCount tr = 0
       then TransitionStateCanceled
       else if reported TaskStateSucceeded os = int (length os) \<and> tr_FailureCount tr = 0
       then TransitionStateCompleted
       else if reported TaskStateSucceeded os = 0 then TransitionStateFailed
       else TransitionStatePartial)"
    using pos le assms(4) reported_nonneg [of TaskStateCanceled os]
      reported_nonneg [of TaskStateSucceeded os]
    unfolding final_state_def by (auto simp del: reported_nonneg)
  with fin show ?thesis by auto
qed

lemma executeWithRetry_success:
  assumes "executeWithRetry ov cfg jitter exec c req w = ((k, None), w')"
  shows "\<exists>w0 w1. exec c req w0 = (None, w1)"
proof -
  have "retry_loop ov cfg jitter exec c req n a w = ((k, None), w') \<Longrightarrow>
      \<exists>w0 w1. exec c req w0 = (None, w1)" for n a w
  proof (induction ov cfg jitter exec c req n a w rule: retry_loop.induct)
    case (1 ov cfg jitter exec c req n a w)
    from 1(2) show ?case
      by (subst (asm) retry_loop.simps)
        (auto split: if_splits prod.splits option.splits dest: 1(1))
  qed
  with assms show ?thesis by (simp add: executeWithRetry_def)
qed

text \<open>
  C4. A task counts as succeeded only when the node was seen in the expected state: the executor
  accepted the action, the verifier's last reading is the operation's final power state up to
  case, and the state of record was updated with it (when there is an updater and no dry run).
\<close>

theorem succeeded_task_verified:
  assumes run: "run_action ov cfg jitter exec read v c req w = Some ((k, fps, err), w')"
    and state: "tk_State (finished_task now upd task k fps err) = TaskStateSucceeded"
  shows "\<exists>expected. expectedFinalPowerState (er_Operation req) = Inr expected \<and>
    equal_fold fps expected \<and>
    (\<exists>w0 w1. exec c req w0 = (None, w1)) \<and>
    (\<exists>vc st w0 w1. read vc req w0 = (Inr st, w1) \<and> fps = trim_space st) \<and>
    (case upd of None \<Rightarrow> True
     | Some u \<Rightarrow> tk_DryRun task \<or> u (tk_NodeID task) fps = None)"
proof -
  have err: "err = None"
    using state by (auto simp: finished_task_def Let_def split: option.splits if_splits)
  obtain w1 where ex: "executeWithRetry ov cfg jitter exec c req w = ((k, None), w1)"
    and ver: "Verify read v c req w1 = Some ((fps, None), w')"
    using run err by (auto simp: run_action_def split: prod.splits option.splits)
  from Verify_result [OF ver] obtain expected w0 st where
    "expectedFinalPowerState (er_Operation req) = Inr expected" "equal_fold fps expected"
    "fps = trim_space st" "read (with_timeout c (clock w1) (v_window v)) req w0 = (Inr st, w')"
    "trim_space fps = fps" by auto
  moreover have "case upd of None \<Rightarrow> True
     | Some u \<Rightarrow> tk_DryRun task \<or> u (tk_NodeID task) fps = None"
    using state err \<open>trim_space fps = fps\<close>
    by (auto simp: finished_task_def Let_def split: option.splits if_splits)
  ultimately show ?thesis using executeWithRetry_success [OF ex] by blast
qed


section \<open>Witnesses\<close>

definition empty_mem :: runner_mem where
  "empty_mem = \<lparr>rm_progress = (\<lambda>_. None), rm_canceled = (\<lambda>_. False)\<rparr>"

lemma empty_mem_ok: "mem_ok empty_mem"
  by (simp add: mem_ok_def empty_mem_def)

definition start_state :: "int \<Rightarrow> pg_tables runner_state" where
  "start_state cap =
     \<lparr>rs_mem = empty_mem,
      rs_db = \<lparr>pt_map = sample_tables, pt_tr = \<lparr>t_transitions = [], t_tasks = [], t_outbox = []\<rparr>\<rparr>,
      rs_queue = newQueue cap\<rparr>"

definition sample_start :: "string list \<Rightarrow> StartRequest" where
  "sample_start nodes = \<lparr>sr_RequestID = ''r-1'', sr_RequestedBy = ''ops'', sr_Operation = ''On'',
     sr_NodeIDs = nodes, sr_DryRun = False\<rparr>"

definition sample_run :: "(nat \<Rightarrow> go_error option \<times> bool) \<Rightarrow> start_result \<times> pg_tables runner_state" where
  "sample_run answers =
     StartTransition PostgresStore (\<lambda>_. sample_env) (\<lambda>_. Inr OpOn) (\<lambda>_. ''On'') True 50 60 answers
       (sample_start [''n1'']) (start_state 4)"

lemmas plain_strings = trim_space_plain plain_ends_def plain_char_def

lemma sample_resolve:
  "ResolveNodeMappings no_faults sample_tables [''n1''] =
     Inr ([\<lparr>pm_NodeID = ''n1'', pm_BMCID = ''b1'', pm_Endpoint = ''https://10.0.0.1'',
            pm_CredentialID = ''c1'', pm_InsecureSkipVerify = True\<rparr>], [])"
  by (simp add: ResolveNodeMappings_def store_normalizeNodeIDs_def trim_list_def sample_tables_def
      mapping_rows_def row_of_def plain_strings)


definition planned_task :: Task where
  "planned_task = (new_task 50 ''On'' False ''n1'')\<lparr>tk_BMCID := ''b1'',
     tk_BMCEndpoint := ''https://10.0.0.1'', tk_CredentialID := ''c1'', tk_InsecureSkipVerify := True,
     tk_State := ''pending''\<rparr>"

lemma sample_plan:
  "plan_task 50 ''On'' False [\<lparr>pm_NodeID = ''n1'', pm_BMCID = ''b1'',
      pm_Endpoint = ''https://10.0.0.1'', pm_CredentialID = ''c1'', pm_InsecureSkipVerify = True\<rparr>]
      [] ''n1'' = planned_task"
  by (simp add: plan_task_def missingByNode_def mappingByNode_def map_from_def planned_task_def
    plain_strings Let_def)

lemma sample_normalize: "normalizeNodeIDs [''n1''] = [''n1'']"
  by (simp add: normalizeNodeIDs_def)

lemmas sample_run_eval =
  sample_run_def StartTransition_def sample_start_def sample_normalize PostgresStore_def
  start_state_def sample_resolve sample_plan on_tr_def CreateTransition_def with_tx_def tx_bind_def
  tx_return_def setLocalPowerSearchPath_def db_try_def insertTransitionTx_def clean_transition_def
  plan_transition_def count_state_def planned_task_def new_task_def or_now_def sample_env_def
  insertTransitionTaskTx_def clean_task_def task_conflict_def newTransitionLifecycleEvent_def
  newTransitionEventID_def tx_event_def outbox_write_def tx_modify_def isTerminalTaskState_def
  newQueue_def enqueue_def enqueue_send_def queue_channel_def Let_def plain_strings row_of_def

lemma sample_run_ok:
  "case sample_run (\<lambda>_. (None, False)) of (r, s') \<Rightarrow>
   (case r of StartOk tr \<Rightarrow> tr_FailureCount tr = 0 \<and> tr_TargetCount tr = 1 \<and>
       length (q_ch (rs_queue s')) = 1
   | _ \<Rightarrow> False)"
  by (simp add: sample_run_eval)

theorem StartTransition_registers_witness:
  "\<exists>tr s' p pend. sample_run (\<lambda>_. (None, False)) = (StartOk tr, s') \<and>
     tr_State tr = TransitionStatePending \<and> map tk_NodeID pend = [''n1''] \<and>
     rm_progress (rs_mem s') (tr_ID tr) = Some p \<and> tp_remaining p = 1 \<and>
     q_ch (rs_queue s') =
       map (\<lambda>k. \<lparr>qt_operation = OpOn, qt_transitionID = tr_ID tr, qt_task = k\<rparr>) pend"
proof -
  obtain r s' where run0: "sample_run (\<lambda>_. (None, False)) = (r, s')" by fastforce
  with sample_run_ok obtain tr where r: "r = StartOk tr" by (cases r) simp_all
  from run0 r have run: "sample_run (\<lambda>_. (None, False)) = (StartOk tr, s')" by simp
  have q0: "q_ch (rs_queue (start_state 4)) = []" by (simp add: start_state_def newQueue_def)
  have ok: "mem_ok (rs_mem (start_state 4))" by (simp add: start_state_def empty_mem_ok)
  have dry: "\<not> sr_DryRun (sample_start [''n1''])" by (simp add: sample_start_def)
  have res: "ResolveNodeMappings (se_pg sample_env) (pt_map (rs_db (start_state 4))) [''n1''] =
      Inr ([\<lparr>pm_NodeID = ''n1'', pm_BMCID = ''b1'', pm_Endpoint = ''https://10.0.0.1'',
            pm_CredentialID = ''c1'', pm_InsecureSkipVerify = True\<rparr>], [])"
    using sample_resolve by (simp add: start_state_def)
  have nodes: "normalizeNodeIDs (sr_NodeIDs (sample_start [''n1''])) = [''n1'']"
    by (simp add: sample_start_def sample_normalize)
  have "uuids_ok sample_env" using sample_env_uuid by (simp add: uuids_ok_def)
  from StartTransition_registers [OF run [unfolded sample_run_def] dry ok this, unfolded nodes res q0]
  show ?thesis
  proof (elim exE conjE)
    fix op ms es tasks pend
    assume "(Inr OpOn :: go_error + reset_op) = Inr op"
      and "(Inr ([\<lparr>pm_NodeID = ''n1'', pm_BMCID = ''b1'', pm_Endpoint = ''https://10.0.0.1'',
            pm_CredentialID = ''c1'', pm_InsecureSkipVerify = True\<rparr>], []) ::
          go_error + NodePowerMapping list \<times> NodeMappingError list) = Inr (ms, es)"
      and nodes: "map tk_NodeID pend = filter (\<lambda>n. n \<notin> me_NodeID ` set es) [''n1'']"
      and out: "if pend = []
        then tr_State tr = TransitionStateFailed \<and> rs_mem s' = rs_mem (start_state 4) \<and>
          rs_queue s' = rs_queue (start_state 4)
        else tr_State tr = TransitionStatePending \<and> mem_ok (rs_mem s') \<and>
          (\<exists>p. rm_progress (rs_mem s') = (rm_progress (rs_mem (start_state 4)))(tr_ID tr \<mapsto> p) \<and>
             tp_transition p = tr \<and> tp_remaining p = int (length pend) \<and>
             tp_executableTotal p = int (length pend) \<and> \<not> tp_started p \<and> \<not> tp_aborted p) \<and>
          \<not> rm_canceled (rs_mem s') (tr_ID tr) \<and>
          q_ch (rs_queue s') = [] @
            map (\<lambda>k. \<lparr>qt_operation = op, qt_transitionID = tr_ID tr, qt_task = k\<rparr>) pend"
    then have op: "op = OpOn" and es: "es = []" by simp_all
    have pend: "map tk_NodeID pend = [''n1'']" using nodes es by simp
    then have one: "length pend = 1" and ne: "pend \<noteq> []" by auto
    from out [unfolded if_not_P [OF ne]] one op run pend show ?thesis
      by (elim conjE exE) (intro exI [of _ tr] exI [of _ s'] exI exI [of _ pend] conjI; simp)
  qed
qed

theorem StartTransition_enqueue_failure_strands_witness:
  "\<exists>s' i p. sample_run (\<lambda>_. (Some (Sentinel Canceled), True)) =
       (StartErr (Wrap ''enqueueing transition task: '' (Sentinel Canceled) []), s') \<and>
     rm_progress (rs_mem s') i = Some p \<and> 0 < tp_remaining p"
proof -
  have "fst (sample_run (\<lambda>_. (Some (Sentinel Canceled), True))) =
      StartErr (Wrap ''enqueueing transition task: '' (Sentinel Canceled) [])"
    by (simp add: sample_run_eval)
  then obtain s' where run: "sample_run (\<lambda>_. (Some (Sentinel Canceled), True)) =
      (StartErr (Wrap ''enqueueing transition task: '' (Sentinel Canceled) []), s')"
    by (metis prod.collapse)
  from StartTransition_enqueue_failure_strands [OF run [unfolded sample_run_def] refl]
  show ?thesis
  proof (elim conjE exE)
    fix i p queued
    assume "rm_progress (rs_mem s') i = Some p" "int (length queued) < tp_remaining p"
    then show ?thesis using run by (intro exI [of _ s'] exI [of _ i] exI [of _ p]) simp
  qed
qed

theorem transition_final_state_witness:
  "\<exists>fin m'. run_outcomes ''t-1'' [(10, ''canceled''), (20, ''succeeded'')]
       (register_section sample_transition [sample_task, sample_task] empty_mem) =
     ([SecDone, SecPersist fin], m') \<and> tr_State fin = ''partial''"
proof -
  have "tr_ID sample_transition = ''t-1''" "tr_FailureCount sample_transition = 0"
      "tr_SuccessCount sample_transition = 0"
    by (simp_all add: sample_transition_def)
  with transition_final_state [of "[(10, ''canceled''), (20, ''succeeded'')]"
      "[sample_task, sample_task]" sample_transition empty_mem]
  show ?thesis by auto
qed

definition sample_item :: queuedTask where
  "sample_item = \<lparr>qt_operation = OpOn, qt_transitionID = ''t-1'', qt_task = sample_task\<rparr>"

definition running_state :: "pg_tables runner_state" where
  "running_state =
     \<lparr>rs_mem = register_section (sample_transition\<lparr>tr_TargetCount := 2\<rparr>) [sample_task, sample_task]
        empty_mem,
      rs_db = \<lparr>pt_map = sample_tables, pt_tr = sample_tr_tables\<rparr>, rs_queue = newQueue 4\<rparr>"

definition sample_world :: world where
  "sample_world = \<lparr>clock = 1000, done_first = (\<lambda>_. True)\<rparr>"

definition sample_execute :: "(pg_tables runner_state \<times> world) option" where
  "sample_execute = executeTask PostgresStore (\<lambda>_. sample_env) (- 1) (normalizeConfig zero_config)
     (\<lambda>_. cryptoJitter (\<lambda>_. None)) NoopExecutor ExpectedStateReader (NewVerifier 0 0) None background None
     sample_item (running_state, sample_world)"

lemma sample_takes: "takes_at_most 0 NoopExecutor" "takes_at_most 0 ExpectedStateReader"
  by (simp_all add: takes_at_most_def NoopExecutor_def ExpectedStateReader_def)

lemma sample_backoff: "rc_retryBackoffMax (normalizeConfig zero_config) = 5 * second"
  by (simp add: normalizeConfig_def zero_config_def Let_def go_defs)

lemma sample_execute_returns: "\<exists>r. sample_execute = Some r"
proof -
  have "0 < retryDelay (- 1) (normalizeConfig zero_config) (cryptoJitter (\<lambda>_. None)) a" if "0 < a" for a
    by (rule retryDelay_positive) (use that in \<open>simp_all add: sample_backoff go_defs\<close>)
  from executeTask_within [OF sample_takes this normalizeConfig_ok] show ?thesis
    unfolding sample_execute_def by blast
qed

lemma running_state_ok:
  "mem_ok (rs_mem running_state)"
  "rm_progress (rs_mem running_state) ''t-1'' =
    Some \<lparr>tp_transition = sample_transition\<lparr>tr_TargetCount := 2\<rparr>, tp_remaining = 2,
      tp_executableTotal = 2, tp_canceledCount = 0, tp_started = False, tp_aborted = False\<rparr>"
  by (auto simp: running_state_def register_section_def sample_transition_def empty_mem_def
      mem_ok_def tp_ok_def set_progress_def)


theorem executeTask_accounts_witness:
  "\<exists>s' w'. sample_execute = Some (s', w') \<and>
     map_option tp_remaining (rm_progress (rs_mem s') ''t-1'') = Some 1"
proof -
  obtain s' w' where run: "sample_execute = Some (s', w')" using sample_execute_returns by auto
  have i: "qt_transitionID sample_item = ''t-1''" by (simp add: sample_item_def)
  have mark: "fst (markTransitionRunning PostgresStore sample_env (clock sample_world)
      ''t-1'' running_state) = None"
    by code_simp
  from executeTask_accounts [OF running_state_ok(1) _ run [unfolded sample_execute_def]]
    running_state_ok(2) mark
  have "map_option tp_remaining (rm_progress (rs_mem s') ''t-1'') = Some 1" by (simp add: i)
  with run show ?thesis by blast
qed

theorem succeeded_task_verified_witness:
  "run_action 0 (normalizeConfig zero_config) (\<lambda>_ _. 0) NoopExecutor ExpectedStateReader
     (NewVerifier 0 0) background (sample_request OpForceOff) sample_world =
     Some ((1, ''Off'', None), sample_world) \<and>
   equal_fold ''Off'' ''Off''"
proof -
  have run: "run_action 0 (normalizeConfig zero_config) (\<lambda>_ _. 0) NoopExecutor ExpectedStateReader
     (NewVerifier 0 0) background (sample_request OpForceOff) sample_world =
     Some ((1, ''Off'', None), sample_world)"
    by (simp add: run_action_def executeWithRetry_def retry_loop.simps NoopExecutor_def
        normalizeConfig_def zero_config_def Let_def go_defs Verify_def sample_request_def
        verify_loop.simps ExpectedStateReader_def trim_space_plain plain_ends_def plain_char_def)
  have "tk_State (finished_task 5 None sample_task 1 ''Off'' None) = TaskStateSucceeded"
    by (simp add: finished_task_def Let_def)
  from succeeded_task_verified [OF run this] run show ?thesis by simp
qed

end
