(* ===== verification/Power_Runner_Conc.thy ===== *)
theory Power_Runner_Conc
  imports Power_Runner
begin

text \<open>
  The runner as a concurrent program: API calls (\<open>StartTransition\<close> in its enqueue loop,
  \<open>AbortTransition\<close>) and workers (\<open>worker\<close>, \<open>executeTask\<close>, \<open>completeTask\<close>) interleave at their
  critical sections, queue operations, limiter operations and store writes.  A step runs one of
  the definitions of \<open>Power_Runner\<close> and \<open>Power_Queue\<close>; what lies between two of them in the code
  is the program counter of the worker or call.  A store write is a step of its own that may
  fail, so a snapshot taken under the lock can be written late.
\<close>

section \<open>States\<close>

datatype worker =
    WIdle
  | WTaken queuedTask
  | WMarking queuedTask Transition
  | WMarked queuedTask
  | WHolding queuedTask
  | WDone queuedTask string bool
  | WRecorded queuedTask Transition bool
  | WReleasing queuedTask bool
  | WExited

datatype api_call = AEnqueue string "queuedTask list" | AAborting Transition | AFinished

text \<open>
  \<open>rn_rows\<close> is the table of transitions by identifier.  \<open>rn_lost\<close> is a ghost field: the tasks a
  failed enqueue or a failed mark has dropped without an outcome.
\<close>

record runner =
  rn_mem :: runner_mem
  rn_queue :: "queuedTask Queue"
  rn_tokens :: "string \<Rightarrow> int"
  rn_workers :: "worker list"
  rn_calls :: "api_call list"
  rn_rows :: "string \<Rightarrow> Transition option"
  rn_stopped :: bool
  rn_lost :: "queuedTask list"

definition initial_runner :: "runtimeConfig \<Rightarrow> runner" where
  "initial_runner cfg =
     \<lparr>rn_mem = empty_mem, rn_queue = newQueue (rc_queueSize cfg), rn_tokens = (\<lambda>_. 0),
      rn_workers = replicate (nat (rc_globalConcurrency cfg)) WIdle, rn_calls = [],
      rn_rows = (\<lambda>_. None), rn_stopped = False, rn_lost = []\<rparr>"

definition bmc_of :: "queuedTask \<Rightarrow> string" where
  "bmc_of x = trim_space (tk_BMCID (qt_task x))"

definition add_token :: "string \<Rightarrow> int \<Rightarrow> (string \<Rightarrow> int) \<Rightarrow> (string \<Rightarrow> int)" where
  "add_token b n t = (if b = [] then t else t(b := t b + n))"

definition persist_row :: "bool \<Rightarrow> Transition \<Rightarrow> runner \<Rightarrow> runner" where
  "persist_row ok tr s = (if ok then s\<lparr>rn_rows := (rn_rows s)(tr_ID tr \<mapsto> tr)\<rparr> else s)"

abbreviation set_worker where
  "set_worker k w s \<equiv> s\<lparr>rn_workers := (rn_workers s)[k := w]\<rparr>"
abbreviation set_call where "set_call k c s \<equiv> s\<lparr>rn_calls := (rn_calls s)[k := c]\<rparr>"

definition worker_at :: "runner \<Rightarrow> nat \<Rightarrow> worker \<Rightarrow> bool" where
  "worker_at s k w \<longleftrightarrow> k < length (rn_workers s) \<and> rn_workers s ! k = w"

definition call_at :: "runner \<Rightarrow> nat \<Rightarrow> api_call \<Rightarrow> bool" where
  "call_at s k c \<longleftrightarrow> k < length (rn_calls s) \<and> rn_calls s ! k = c"

section \<open>Steps\<close>

text \<open>The error of the context the runner was started with.\<close>

definition running_err :: "runner \<Rightarrow> go_error option" where
  "running_err s = (if rn_stopped s then Some (Sentinel Canceled) else None)"

text \<open>
  \<open>step_start\<close> is \<open>StartTransition\<close> up to its registration: the created transition is new in the
  table and counts the nodes without a mapping as failures.
\<close>

inductive runner_step :: "runtimeConfig \<Rightarrow> runner \<Rightarrow> runner \<Rightarrow> bool" for cfg where
  step_start:
    "rn_rows s (tr_ID tr) = None \<Longrightarrow> items \<noteq> [] \<Longrightarrow>
     \<forall>x \<in> set items. qt_transitionID x = tr_ID tr \<Longrightarrow>
     tr_SuccessCount tr = 0 \<Longrightarrow> 0 \<le> tr_FailureCount tr \<Longrightarrow>
     tr_FailureCount tr + int (length items) = tr_TargetCount tr \<Longrightarrow>
     runner_step cfg s
       (s\<lparr>rn_mem := register_section tr (map qt_task items) (rn_mem s),
          rn_rows := (rn_rows s)(tr_ID tr \<mapsto> tr),
          rn_calls := rn_calls s @ [AEnqueue (tr_ID tr) items]\<rparr>)"
| step_enqueue:
    "call_at s k (AEnqueue i (x # xs)) \<Longrightarrow> enqueue ctxErr pickDone x (rn_queue s) = EnqOk q \<Longrightarrow>
     runner_step cfg s ((set_call k (AEnqueue i xs) s)\<lparr>rn_queue := q\<rparr>)"
| step_enqueue_fail:
    "call_at s k (AEnqueue i (x # xs)) \<Longrightarrow> enqueue ctxErr pickDone x (rn_queue s) = EnqErr e \<Longrightarrow>
     runner_step cfg s
       ((set_call k AFinished s)\<lparr>rn_mem := cancel_ctx i (rn_mem s), rn_lost := rn_lost s @ x # xs\<rparr>)"
| step_abort:
    "abort_section now i (rn_mem s) = (r, m) \<Longrightarrow>
     runner_step cfg s
       (s\<lparr>rn_mem := m,
          rn_calls := rn_calls s @ [case r of SecPersist tr \<Rightarrow> AAborting tr | _ \<Rightarrow> AFinished]\<rparr>)"
| step_abort_write:
    "call_at s k (AAborting tr) \<Longrightarrow>
     runner_step cfg s (persist_row ok tr (set_call k AFinished s))"
| step_stop: "runner_step cfg s (s\<lparr>rn_stopped := True\<rparr>)"
| step_close:
    "rn_stopped s \<Longrightarrow> runner_step cfg s (s\<lparr>rn_queue := queue_close (rn_queue s)\<rparr>)"
| step_dequeue:
    "worker_at s k WIdle \<Longrightarrow> dequeue (running_err s) pickDone (rn_queue s) = DeqItem x q \<Longrightarrow>
     runner_step cfg s ((set_worker k (WTaken x) s)\<lparr>rn_queue := q\<rparr>)"
| step_exit:
    "worker_at s k WIdle \<Longrightarrow> dequeue (running_err s) pickDone (rn_queue s) = DeqErr e \<Longrightarrow>
     errors_is e Canceled \<or> errors_is e ErrQueueClosed \<Longrightarrow>
     runner_step cfg s (set_worker k WExited s)"
| step_mark:
    "worker_at s k (WTaken x) \<Longrightarrow>
     mark_section now (qt_transitionID x) (rn_mem s) = (r, m) \<Longrightarrow> \<forall>e. r \<noteq> SecErr e \<Longrightarrow>
     runner_step cfg s
       ((set_worker k (case r of SecPersist tr \<Rightarrow> WMarking x tr | _ \<Rightarrow> WMarked x) s)\<lparr>rn_mem := m\<rparr>)"
| step_mark_missing:
    "worker_at s k (WTaken x) \<Longrightarrow>
     mark_section now (qt_transitionID x) (rn_mem s) = (SecErr e, m) \<Longrightarrow>
     runner_step cfg s ((set_worker k WIdle s)\<lparr>rn_mem := m, rn_lost := rn_lost s @ [x]\<rparr>)"
| step_mark_write:
    "worker_at s k (WMarking x tr) \<Longrightarrow>
     runner_step cfg s (persist_row True tr (set_worker k (WMarked x) s))"
| step_mark_write_fail:
    "worker_at s k (WMarking x tr) \<Longrightarrow>
     runner_step cfg s ((set_worker k WIdle s)\<lparr>rn_lost := rn_lost s @ [x]\<rparr>)"
| step_context_done:
    "worker_at s k (WMarked x) \<Longrightarrow> rm_canceled (rn_mem s) (qt_transitionID x) \<or> rn_stopped s \<Longrightarrow>
     runner_step cfg s (set_worker k (WDone x TaskStateCanceled False) s)"
| step_acquire:
    "worker_at s k (WMarked x) \<Longrightarrow>
     bmc_of x = [] \<or> rn_tokens s (bmc_of x) < rc_perBMCConcurrency cfg \<Longrightarrow>
     runner_step cfg s
       ((set_worker k (WHolding x) s)\<lparr>rn_tokens := add_token (bmc_of x) 1 (rn_tokens s)\<rparr>)"
| step_act:
    "worker_at s k (WHolding x) \<Longrightarrow>
     state \<in> {TaskStateSucceeded, TaskStateFailed, TaskStateCanceled} \<Longrightarrow>
     runner_step cfg s (set_worker k (WDone x state True) s)"
| step_record:
    "worker_at s k (WDone x state held) \<Longrightarrow>
     outcome_section now (qt_transitionID x) state (rn_mem s) = (r, m) \<Longrightarrow>
     runner_step cfg s
       ((set_worker k (case r of SecPersist tr \<Rightarrow> WRecorded x tr held | _ \<Rightarrow> WReleasing x held) s)
          \<lparr>rn_mem := m\<rparr>)"
| step_final_write:
    "worker_at s k (WRecorded x tr held) \<Longrightarrow>
     runner_step cfg s (persist_row ok tr (set_worker k (WReleasing x held) s))"
| step_release:
    "worker_at s k (WReleasing x held) \<Longrightarrow>
     runner_step cfg s
       ((set_worker k WIdle s)
          \<lparr>rn_tokens := (if held then add_token (bmc_of x) (- 1) (rn_tokens s) else rn_tokens s)\<rparr>)"

inductive runner_reachable :: "runtimeConfig \<Rightarrow> runner \<Rightarrow> bool" for cfg where
  reach_init: "runner_reachable cfg (initial_runner cfg)"
| reach_step: "runner_reachable cfg s \<Longrightarrow> runner_step cfg s s' \<Longrightarrow> runner_reachable cfg s'"

section \<open>Counting tasks\<close>

fun worker_task :: "worker \<Rightarrow> queuedTask option" where
  "worker_task (WTaken x) = Some x"
| "worker_task (WMarking x tr) = Some x"
| "worker_task (WMarked x) = Some x"
| "worker_task (WHolding x) = Some x"
| "worker_task (WDone x s h) = Some x"
| "worker_task _ = None"

definition of_id :: "string \<Rightarrow> queuedTask list \<Rightarrow> nat" where
  "of_id i xs = length (filter (\<lambda>x. qt_transitionID x = i) xs)"

definition worker_live :: "string \<Rightarrow> worker \<Rightarrow> nat" where
  "worker_live i w =
     (case worker_task w of None \<Rightarrow> 0 | Some x \<Rightarrow> if qt_transitionID x = i then 1 else 0)"

fun call_live :: "string \<Rightarrow> api_call \<Rightarrow> nat" where
  "call_live i (AEnqueue j xs) = of_id i xs"
| "call_live i _ = 0"

text \<open>The tasks of a transition that have no outcome yet, wherever they are.\<close>

definition live :: "runner \<Rightarrow> string \<Rightarrow> nat" where
  "live s i = sum_list (map (call_live i) (rn_calls s)) + of_id i (q_ch (rn_queue s)) +
     sum_list (map (worker_live i) (rn_workers s)) + of_id i (rn_lost s)"

fun holds :: "string \<Rightarrow> worker \<Rightarrow> nat" where
  "holds b (WHolding x) = (if bmc_of x = b then 1 else 0)"
| "holds b (WDone x s h) = (if h \<and> bmc_of x = b then 1 else 0)"
| "holds b (WRecorded x tr h) = (if h \<and> bmc_of x = b then 1 else 0)"
| "holds b (WReleasing x h) = (if h \<and> bmc_of x = b then 1 else 0)"
| "holds b _ = 0"

definition holders :: "runner \<Rightarrow> string \<Rightarrow> nat" where
  "holders s b = sum_list (map (holds b) (rn_workers s))"

definition remaining_of :: "runner \<Rightarrow> string \<Rightarrow> int" where
  "remaining_of s i = (case rm_progress (rn_mem s) i of None \<Rightarrow> 0 | Some p \<Rightarrow> tp_remaining p)"

fun call_ok :: "runner \<Rightarrow> api_call \<Rightarrow> bool" where
  "call_ok s (AEnqueue j xs) \<longleftrightarrow> (\<forall>x \<in> set xs. qt_transitionID x = j)"
| "call_ok s (AAborting tr) \<longleftrightarrow> rn_rows s (tr_ID tr) \<noteq> None \<and> tr_State tr = TransitionStateCanceled"
| "call_ok s AFinished \<longleftrightarrow> True"

fun worker_ok :: "runner \<Rightarrow> worker \<Rightarrow> bool" where
  "worker_ok s (WMarking x tr) \<longleftrightarrow> rn_rows s (tr_ID tr) \<noteq> None \<and> tr_ID tr = qt_transitionID x"
| "worker_ok s (WRecorded x tr h) \<longleftrightarrow>
     rn_rows s (tr_ID tr) \<noteq> None \<and> settled tr \<and> tr_ID tr = qt_transitionID x"
| "worker_ok s _ \<longleftrightarrow> True"

definition runner_inv :: "runtimeConfig \<Rightarrow> runner \<Rightarrow> bool" where
  "runner_inv cfg s \<longleftrightarrow>
     mem_ok (rn_mem s) \<and>
     (\<forall>i. int (live s i) = remaining_of s i) \<and>
     (\<forall>i. rm_progress (rn_mem s) i \<noteq> None \<longrightarrow> rn_rows s i \<noteq> None) \<and>
     (\<forall>b. b \<noteq> [] \<longrightarrow> rn_tokens s b = int (holders s b) \<and> rn_tokens s b \<le> rc_perBMCConcurrency cfg) \<and>
     lq.bounded (rn_queue s) \<and> q_cap (rn_queue s) = nat (rc_queueSize cfg) \<and>
     length (rn_workers s) = nat (rc_globalConcurrency cfg) \<and>
     (\<not> rn_stopped s \<longrightarrow> \<not> q_closed (rn_queue s) \<and> WExited \<notin> set (rn_workers s)) \<and>
     (\<forall>c \<in> set (rn_calls s). call_ok s c) \<and> (\<forall>w \<in> set (rn_workers s). worker_ok s w)"

section \<open>How a step changes the counts\<close>

lemma sum_update:
  "k < length xs \<Longrightarrow> int (sum_list (map f (xs[k := y]))) =
   int (sum_list (map f xs)) + int (f y) - int (f (xs ! k))"
proof (induction xs arbitrary: k)
  case (Cons x xs)
  then show ?case by (cases k) auto
qed simp

lemma of_id_simps [simp]:
  "of_id i [] = 0"
  "of_id i (x # xs) = (if qt_transitionID x = i then 1 else 0) + of_id i xs"
  "of_id i (xs @ ys) = of_id i xs + of_id i ys"
  by (simp_all add: of_id_def)

lemma live_set_worker:
  "worker_at s k w0 \<Longrightarrow>
   int (live (set_worker k w s) i) = int (live s i) + int (worker_live i w) - int (worker_live i w0)"
  using sum_update [of k "rn_workers s" "worker_live i" w] by (auto simp: live_def worker_at_def)

lemma live_keep:
  "worker_at s k w0 \<Longrightarrow> worker_live i w = worker_live i w0 \<Longrightarrow> live (set_worker k w s) i = live s i"
  using live_set_worker [of s k w0 w i] by simp

lemma live_set_call:
  "call_at s k c0 \<Longrightarrow>
   int (live (set_call k c s) i) = int (live s i) + int (call_live i c) - int (call_live i c0)"
  using sum_update [of k "rn_calls s" "call_live i" c] by (auto simp: live_def call_at_def)

lemma live_others [simp]:
  "live (s\<lparr>rn_mem := m\<rparr>) i = live s i"
  "live (s\<lparr>rn_rows := rows\<rparr>) i = live s i"
  "live (s\<lparr>rn_tokens := t\<rparr>) i = live s i"
  "live (s\<lparr>rn_stopped := b\<rparr>) i = live s i"
  "live (s\<lparr>rn_lost := rn_lost s @ xs\<rparr>) i = live s i + of_id i xs"
  "live (s\<lparr>rn_calls := rn_calls s @ [c]\<rparr>) i = live s i + call_live i c"
  by (simp_all add: live_def)

lemma live_queue:
  "int (live (s\<lparr>rn_queue := q\<rparr>) i) =
   int (live s i) + int (of_id i (q_ch q)) - int (of_id i (q_ch (rn_queue s)))"
  by (simp add: live_def)

lemma holders_set_worker:
  "worker_at s k w0 \<Longrightarrow>
   int (holders (set_worker k w s) b) = int (holders s b) + int (holds b w) - int (holds b w0)"
  using sum_update [of k "rn_workers s" "holds b" w] by (auto simp: holders_def worker_at_def)

lemma holders_others [simp]:
  "holders (s\<lparr>rn_mem := m\<rparr>) b = holders s b" "holders (s\<lparr>rn_rows := rows\<rparr>) b = holders s b"
  "holders (s\<lparr>rn_tokens := t\<rparr>) b = holders s b" "holders (s\<lparr>rn_stopped := x\<rparr>) b = holders s b"
  "holders (s\<lparr>rn_lost := l\<rparr>) b = holders s b" "holders (s\<lparr>rn_calls := cs\<rparr>) b = holders s b"
  "holders (s\<lparr>rn_queue := q\<rparr>) b = holders s b"
  by (simp_all add: holders_def)

lemma persist_row_simps [simp]:
  "rn_mem (persist_row ok tr s) = rn_mem s" "rn_queue (persist_row ok tr s) = rn_queue s"
  "rn_tokens (persist_row ok tr s) = rn_tokens s" "rn_workers (persist_row ok tr s) = rn_workers s"
  "rn_calls (persist_row ok tr s) = rn_calls s" "rn_lost (persist_row ok tr s) = rn_lost s"
  "live (persist_row ok tr s) i = live s i" "holders (persist_row ok tr s) b = holders s b"
  "rn_rows (persist_row ok tr s) i =
     (if ok \<and> i = tr_ID tr then Some tr else rn_rows s i)"
  by (simp_all add: persist_row_def)

lemma same_remaining:
  assumes "\<forall>j. map_option tp_remaining (rm_progress m' j) = map_option tp_remaining (rm_progress m j)"
  shows "rm_progress m' j = None \<longleftrightarrow> rm_progress m j = None"
    and "(case rm_progress m' j of None \<Rightarrow> 0 | Some p \<Rightarrow> tp_remaining p) =
      (case rm_progress m j of None \<Rightarrow> 0 | Some p \<Rightarrow> tp_remaining p)"
  using assms [rule_format, of j] by (auto split: option.splits)

lemma register_remaining:
  "rm_progress (register_section tr ks m) i =
   (if i = tr_ID tr
    then Some \<lparr>tp_transition = tr, tp_remaining = int (length ks),
      tp_executableTotal = int (length ks), tp_canceledCount = 0, tp_started = False,
      tp_aborted = False\<rparr>
    else rm_progress m i)"
  by (simp add: register_section_def)

lemma of_id_all: "\<forall>x \<in> set xs. qt_transitionID x = j \<Longrightarrow> of_id i xs = (if i = j then length xs else 0)"
  by (induction xs) auto

section \<open>The invariant\<close>

text \<open>The memory and the counts of outstanding tasks.\<close>

lemma step_mem:
  assumes "runner_step cfg s s'" "runner_inv cfg s"
  shows "mem_ok (rn_mem s')"
  using assms(1)
proof cases
  case (step_start tr items)
  have "mem_ok (rn_mem s)" using assms(2) by (simp add: runner_inv_def)
  with step_start show ?thesis
    by (simp add: pg_runner.register_ok)
next
  case (step_record k x state held now r m)
  with outcome_section_ok [of "rn_mem s" now "qt_transitionID x" state r m] assms(2)
  show ?thesis by (simp add: runner_inv_def)
next
  case (step_abort now i r m)
  with abort_section_ok [of "rn_mem s" now i r m] assms(2) show ?thesis
    by (simp add: runner_inv_def)
next
  case (step_mark k x now r m)
  with mark_section_ok [of "rn_mem s" now "qt_transitionID x" r m] assms(2) show ?thesis
    by (simp add: runner_inv_def)
next
  case (step_mark_missing k x now e m)
  with mark_section_ok [of "rn_mem s" now "qt_transitionID x" "SecErr e" m] assms(2) show ?thesis
    by (simp add: runner_inv_def)
qed (use assms(2) in \<open>simp_all add: runner_inv_def\<close>)

lemma live_no_entry:
  "runner_inv cfg s \<Longrightarrow> 0 < live s i \<Longrightarrow> rm_progress (rn_mem s) i \<noteq> None"
  unfolding runner_inv_def remaining_of_def by (metis less_numeral_extra(3) of_nat_0_eq_iff option.simps(4))

lemma worker_live_le: "worker_at s k w \<Longrightarrow> worker_live i w \<le> live s i"
proof -
  assume w: "worker_at s k w"
  then have "worker_live i w \<in> set (map (worker_live i) (rn_workers s))"
    by (auto simp: worker_at_def)
  then have "worker_live i w \<le> sum_list (map (worker_live i) (rn_workers s))"
    by (rule member_le_sum_list) simp
  then show ?thesis by (simp add: live_def)
qed

lemma step_live:
  assumes "runner_step cfg s s'" "runner_inv cfg s"
  shows "int (live s' i) = remaining_of s' i"
  using assms(1)
proof cases
  case (step_start tr items)
  have none: "rm_progress (rn_mem s) (tr_ID tr) = None"
    using assms(2) step_start by (auto simp: runner_inv_def)
  have "int (live s i) = remaining_of s i" using assms(2) by (simp add: runner_inv_def)
  with step_start none of_id_all [of items "tr_ID tr" i] show ?thesis
    by (auto simp: remaining_of_def register_remaining live_def)
next
  case (step_enqueue k j x xs ctxErr pickDone q)
  note q = enqueue_OkD [OF step_enqueue(3)]
  have "int (live s i) = remaining_of s i" using assms(2) by (simp add: runner_inv_def)
  moreover have "int (live s' i) = int (live s i)"
    using step_enqueue q live_set_call [OF step_enqueue(2), of "AEnqueue j xs" i]
    by (auto simp: live_queue)
  ultimately show ?thesis using step_enqueue by (simp add: remaining_of_def)
next
  case (step_enqueue_fail k j x xs ctxErr pickDone e)
  have "int (live s i) = remaining_of s i" using assms(2) by (simp add: runner_inv_def)
  moreover have "int (live s' i) = int (live s i)"
    using step_enqueue_fail live_set_call [OF step_enqueue_fail(2), of AFinished i]
      by (simp add: live_def)
  ultimately show ?thesis using step_enqueue_fail by (simp add: remaining_of_def)
next
  case (step_abort now j r m)
  have ok: "mem_ok (rn_mem s)" and eq: "int (live s i) = remaining_of s i"
    using assms(2) by (simp_all add: runner_inv_def)
  from abort_section_ok [OF ok step_abort(2)] have
    "remaining_of s' i = remaining_of s i"
    using same_remaining(2) [of m "rn_mem s" i] step_abort by (simp add: remaining_of_def)
  with eq step_abort show ?thesis by (cases r) (simp_all add: live_def)
next
  case (step_abort_write k tr ok)
  have "int (live s i) = remaining_of s i" using assms(2) by (simp add: runner_inv_def)
  with step_abort_write live_set_call [OF step_abort_write(2), of AFinished i] show ?thesis
    by (simp add: remaining_of_def)
next
  case step_close
  have "int (live s i) = remaining_of s i" using assms(2) by (simp add: runner_inv_def)
  with step_close show ?thesis by (simp add: remaining_of_def live_queue queue_close_def)
next
  case (step_exit k pickDone e)
  with live_keep [OF step_exit(2), of i WExited] assms(2) show ?thesis
    by (simp add: runner_inv_def remaining_of_def worker_live_def)
next
  case step_stop
  with assms(2) show ?thesis by (simp add: runner_inv_def remaining_of_def)
next
  case (step_dequeue k pickDone x q)
  note q = dequeue_ItemD [OF step_dequeue(3), THEN conjunct1]
  have "int (live s i) = remaining_of s i" using assms(2) by (simp add: runner_inv_def)
  moreover have "int (live s' i) = int (live s i)"
    using step_dequeue q live_set_worker [OF step_dequeue(2), of "WTaken x" i]
    by (auto simp: live_queue worker_live_def)
  ultimately show ?thesis using step_dequeue by (simp add: remaining_of_def)
next
  case (step_mark k x now r m)
  have ok: "mem_ok (rn_mem s)" and eq: "int (live s i) = remaining_of s i"
    using assms(2) by (simp_all add: runner_inv_def)
  from mark_section_ok [OF ok step_mark(3)] have
    "remaining_of s' i = remaining_of s i"
    using same_remaining(2) [of m "rn_mem s" i] step_mark by (simp add: remaining_of_def)
  with eq step_mark live_set_worker [OF step_mark(2)] show ?thesis
    by (cases r) (simp_all add: worker_live_def)
next
  case (step_mark_missing k x now e m)
  have ok: "mem_ok (rn_mem s)" and eq: "int (live s i) = remaining_of s i"
    using assms(2) by (simp_all add: runner_inv_def)
  from mark_section_ok [OF ok step_mark_missing(3)] have "m = rn_mem s" by simp
  with eq step_mark_missing live_set_worker [OF step_mark_missing(2), of WIdle i] show ?thesis
    by (simp add: worker_live_def remaining_of_def live_def)
next
  case (step_mark_write_fail k x tr)
  have "int (live s i) = remaining_of s i" using assms(2) by (simp add: runner_inv_def)
  with step_mark_write_fail live_set_worker [OF step_mark_write_fail(2), of WIdle i] show ?thesis
    by (simp add: worker_live_def remaining_of_def live_def)
next
  case (step_record k x state held now r m)
  let ?j = "qt_transitionID x"
  have ok: "mem_ok (rn_mem s)" and eq: "int (live s i) = remaining_of s i"
    using assms(2) by (simp_all add: runner_inv_def)
  have "0 < live s ?j"
    using worker_live_le [OF step_record(2), of ?j] by (simp add: worker_live_def)
  then obtain p where p: "rm_progress (rn_mem s) ?j = Some p"
    using live_no_entry [OF assms(2)] by blast
  have l: "int (live s' i) = int (live s i) - (if i = ?j then 1 else 0)"
    using step_record live_set_worker [OF step_record(2)]
    by (cases r) (simp_all add: worker_live_def)
  have "remaining_of s' i = remaining_of s i - (if i = ?j then 1 else 0)"
    using outcome_section_ok [OF ok step_record(3)] p step_record(1)
    by (auto simp: remaining_of_def split: if_splits)
  with eq l show ?thesis by simp
next
  case (step_mark_write k x tr)
  with live_keep [OF step_mark_write(2), of i "WMarked x"] assms(2) show ?thesis
    by (simp add: runner_inv_def remaining_of_def worker_live_def)
next
  case (step_context_done k x)
  with live_keep [OF step_context_done(2), of i "WDone x TaskStateCanceled False"] assms(2)
  show ?thesis by (simp add: runner_inv_def remaining_of_def worker_live_def)
next
  case (step_acquire k x)
  with live_keep [OF step_acquire(2), of i "WHolding x"] assms(2) show ?thesis
    by (simp add: runner_inv_def remaining_of_def worker_live_def)
next
  case (step_act k x state)
  with live_keep [OF step_act(2), of i "WDone x state True"] assms(2) show ?thesis
    by (simp add: runner_inv_def remaining_of_def worker_live_def)
next
  case (step_final_write k x tr held ok)
  with live_keep [OF step_final_write(2), of i "WReleasing x held"] assms(2) show ?thesis
    by (simp add: runner_inv_def remaining_of_def worker_live_def)
next
  case (step_release k x held)
  with live_keep [OF step_release(2), of i WIdle] assms(2) show ?thesis
    by (simp add: runner_inv_def remaining_of_def worker_live_def)
qed

lemma step_tokens:
  assumes "runner_step cfg s s'" "runner_inv cfg s" "b \<noteq> []"
  shows "rn_tokens s' b = int (holders s' b) \<and> rn_tokens s' b \<le> rc_perBMCConcurrency cfg"
proof -
  have tok: "rn_tokens s b = int (holders s b)" "int (holders s b) \<le> rc_perBMCConcurrency cfg"
    using assms(2,3) by (auto simp: runner_inv_def)
  from assms(1) show ?thesis
proof cases
  case (step_acquire k x)
  have "int (holders s' b) = int (holders s b) + (if bmc_of x = b then 1 else 0)"
    using step_acquire(1) holders_set_worker [OF step_acquire(2), of "WHolding x" b] by simp
  with step_acquire tok assms(3) show ?thesis by (auto simp: add_token_def)
next
  case (step_release k x held)
  have "int (holders s' b) = int (holders s b) - (if held \<and> bmc_of x = b then 1 else 0)"
    using step_release(1) holders_set_worker [OF step_release(2), of WIdle b] by simp
  with step_release tok assms(3) show ?thesis by (auto simp: add_token_def)
next
  case (step_dequeue k pickDone x q)
  with holders_set_worker [OF step_dequeue(2), of "WTaken x" b] tok assms(3) show ?thesis
    by simp
next
  case (step_exit k pickDone e)
  with holders_set_worker [OF step_exit(2), of WExited b] tok assms(3) show ?thesis by simp
next
  case (step_mark k x now r m)
  with holders_set_worker [OF step_mark(2)] tok assms(3) show ?thesis
    by (cases r) simp_all
next
  case (step_mark_missing k x now e m)
  with holders_set_worker [OF step_mark_missing(2), of WIdle b] tok assms(3) show ?thesis
    by simp
next
  case (step_mark_write k x tr)
  with holders_set_worker [OF step_mark_write(2), of "WMarked x" b] tok assms(3) show ?thesis
    by simp
next
  case (step_mark_write_fail k x tr)
  with holders_set_worker [OF step_mark_write_fail(2), of WIdle b] tok assms(3) show ?thesis
    by simp
next
  case (step_context_done k x)
  with holders_set_worker [OF step_context_done(2), of "WDone x TaskStateCanceled False" b] tok assms(3)
  show ?thesis by simp
next
  case (step_act k x state)
  with holders_set_worker [OF step_act(2), of "WDone x state True" b] tok assms(3) show ?thesis
    by simp
next
  case (step_record k x state held now r m)
  with holders_set_worker [OF step_record(2)] tok assms(3) show ?thesis
    by (cases r) simp_all
next
  case (step_final_write k x tr held ok)
  with holders_set_worker [OF step_final_write(2), of "WReleasing x held" b] tok assms(3) show ?thesis
    by simp
qed (use tok in \<open>simp_all add: holders_def\<close>)
qed

lemma step_queue:
  assumes "runner_step cfg s s'" "runner_inv cfg s"
  shows "lq.bounded (rn_queue s') \<and> q_cap (rn_queue s') = nat (rc_queueSize cfg) \<and>
    length (rn_workers s') = nat (rc_globalConcurrency cfg)"
  using assms(1)
proof cases
  case (step_enqueue k i x xs ctxErr pickDone q)
  then have "q_accepts x (rn_queue s) q" by (auto simp: q_accepts_def)
  note acc = this
  have "lq.bounded (rn_queue s)" using assms(2) by (simp add: runner_inv_def)
  then have "lq.bounded q" using acc by (rule lq.bounded_accepts)
  with lq.accepts_room [OF acc, THEN conjunct2] step_enqueue(1) assms(2) show ?thesis
    by (simp add: runner_inv_def)
next
  case (step_dequeue k pickDone x q)
  then have "q_delivers x (rn_queue s) q" by (auto simp: q_delivers_def)
  note del = this
  have "lq.bounded (rn_queue s)" using assms(2) by (simp add: runner_inv_def)
  then have "lq.bounded q" using del by (rule lq.bounded_delivers)
  with lq.delivers_room [OF del, THEN conjunct1] step_dequeue(1) assms(2) show ?thesis
    by (simp add: runner_inv_def)
next
  case step_close
  with lq.bounded_shut [of "rn_queue s"] lq.shut_room [of "rn_queue s"] assms(2) show ?thesis
    by (simp add: runner_inv_def)
qed (use assms(2) in \<open>simp_all add: runner_inv_def\<close>)

lemma step_rows_mono:
  "runner_step cfg s s' \<Longrightarrow> rn_rows s i \<noteq> None \<Longrightarrow> rn_rows s' i \<noteq> None"
  by (erule runner_step.cases) auto

lemma call_ok_mono:
  "call_ok s c \<Longrightarrow> (\<And>i. rn_rows s i \<noteq> None \<Longrightarrow> rn_rows s' i \<noteq> None) \<Longrightarrow> call_ok s' c"
  by (cases c) auto

lemma worker_ok_mono:
  "worker_ok s w \<Longrightarrow> (\<And>i. rn_rows s i \<noteq> None \<Longrightarrow> rn_rows s' i \<noteq> None) \<Longrightarrow> worker_ok s' w"
  by (cases w) auto

lemma abort_section_none:
  "abort_section now i m = (r, m') \<Longrightarrow> rm_progress m' j = None \<longleftrightarrow> rm_progress m j = None"
  by (auto simp: abort_section_def Let_def split: option.splits if_splits)

lemma mark_section_none:
  "mark_section now i m = (r, m') \<Longrightarrow> rm_progress m' j = None \<longleftrightarrow> rm_progress m j = None"
  by (auto simp: mark_section_def Let_def split: option.splits if_splits)

lemma outcome_section_none:
  "outcome_section now i st m = (r, m') \<Longrightarrow> rm_progress m j = None \<Longrightarrow> rm_progress m' j = None"
  by (auto simp: outcome_section_def Let_def split: option.splits if_splits)

lemma step_rows:
  assumes "runner_step cfg s s'" "runner_inv cfg s" "rm_progress (rn_mem s') i \<noteq> None"
  shows "rn_rows s' i \<noteq> None"
proof (cases "rm_progress (rn_mem s) i")
  case (Some p)
  with step_rows_mono [OF assms(1)] assms(2) show ?thesis by (simp add: runner_inv_def)
next
  case None
  from assms(1) show ?thesis
  proof cases
    case (step_start tr items)
    with None assms(3) show ?thesis by (auto simp: register_remaining split: if_splits)
  next
    case (step_abort now j r m)
    with None assms(3) abort_section_none [OF step_abort(2), of i] show ?thesis by simp
  next
    case (step_mark k x now r m)
    with None assms(3) mark_section_none [OF step_mark(3), of i] show ?thesis by simp
  next
    case (step_mark_missing k x now e m)
    with None assms(3) mark_section_none [OF step_mark_missing(3), of i] show ?thesis by simp
  next
    case (step_record k x state held now r m)
    with None assms(3) outcome_section_none [OF step_record(3), of i] show ?thesis by simp
  qed (use None assms(3) in simp_all)
qed

lemma nth_update_set:
  "k < length xs \<Longrightarrow> y \<in> set (xs[k := z]) \<Longrightarrow> y = z \<or> y \<in> set xs"
  using set_update_subset_insert [of xs k z] by auto

lemma row_of_entry:
  "runner_inv cfg s \<Longrightarrow> rm_progress (rn_mem s) i = Some p \<Longrightarrow> rn_rows s i \<noteq> None"
  by (simp add: runner_inv_def)

lemma step_calls_ok:
  assumes "runner_step cfg s s'" "runner_inv cfg s" "c \<in> set (rn_calls s')"
  shows "call_ok s' c"
proof (cases "c \<in> set (rn_calls s)")
  case True
  then have "call_ok s c" using assms(2) by (simp add: runner_inv_def)
  then show ?thesis by (rule call_ok_mono) (rule step_rows_mono [OF assms(1)])
next
  case False
  from assms(1) show ?thesis
  proof cases
    case (step_start tr items)
    with False assms(3) show ?thesis by auto
  next
    case (step_enqueue k i x xs ctxErr pickDone q)
    then have "AEnqueue i (x # xs) \<in> set (rn_calls s)" by (metis call_at_def nth_mem)
    moreover have "\<forall>c \<in> set (rn_calls s). call_ok s c" using assms(2) by (simp add: runner_inv_def)
    ultimately have "call_ok s (AEnqueue i (x # xs))" by blast
    moreover have "c = AEnqueue i xs"
      using step_enqueue False assms(3) nth_update_set [of k "rn_calls s" c] by (auto simp: call_at_def)
    ultimately show ?thesis by simp
  next
    case (step_enqueue_fail k i x xs ctxErr pickDone e)
    then have "c = AFinished"
      using False assms(3) nth_update_set [of k "rn_calls s" c] by (auto simp: call_at_def)
    then show ?thesis by simp
  next
    case (step_abort now i r m)
    have ok: "mem_ok (rn_mem s)" using assms(2) by (simp add: runner_inv_def)
    have c: "c = (case r of SecPersist tr \<Rightarrow> AAborting tr | _ \<Rightarrow> AFinished)"
      using step_abort False assms(3) by auto
    show ?thesis
    proof (cases r)
      case (SecPersist tr)
      with abort_section_ok [OF ok step_abort(2)] have tr: "tr_ID tr = i"
        "tr_State tr = TransitionStateCanceled" by simp_all
      have "rm_progress (rn_mem s) i \<noteq> None"
        using step_abort(2) SecPersist by (auto simp: abort_section_def split: option.splits)
      then have "rn_rows s i \<noteq> None" using assms(2) by (simp add: runner_inv_def)
      then show ?thesis using c SecPersist tr step_abort(1) by simp
    qed (use c in simp_all)
  next
    case (step_abort_write k tr ok)
    then have "c = AFinished"
      using False assms(3) nth_update_set [of k "rn_calls s" c] by (auto simp: call_at_def)
    then show ?thesis by simp
  qed (use False assms(3) in simp_all)
qed

lemma new_worker:
  assumes "runner_step cfg s s'" "w \<in> set (rn_workers s')" "w \<notin> set (rn_workers s)"
    and "rn_workers s' = (rn_workers s)[k := w']" "k < length (rn_workers s)"
  shows "w = w'"
  using assms nth_update_set [of k "rn_workers s" w w'] by auto

lemma step_workers_ok:
  assumes "runner_step cfg s s'" "runner_inv cfg s" "w \<in> set (rn_workers s')"
  shows "worker_ok s' w"
proof (cases "w \<in> set (rn_workers s)")
  case True
  then have "worker_ok s w" using assms(2) by (simp add: runner_inv_def)
  then show ?thesis by (rule worker_ok_mono) (rule step_rows_mono [OF assms(1)])
next
  case False
  have ok: "mem_ok (rn_mem s)" using assms(2) by (simp add: runner_inv_def)
  from assms(1) show ?thesis
  proof cases
    case (step_mark k x now r m)
    have w: "w = (case r of SecPersist tr \<Rightarrow> WMarking x tr | _ \<Rightarrow> WMarked x)"
      by (rule new_worker [OF assms(1,3) False, of k]) (use step_mark in \<open>simp_all add: worker_at_def\<close>)
    show ?thesis
    proof (cases r)
      case (SecPersist tr)
      with mark_section_ok [OF ok step_mark(3)] have tr: "tr_ID tr = qt_transitionID x" by simp
      have "rm_progress (rn_mem s) (qt_transitionID x) \<noteq> None"
        using step_mark(3) SecPersist by (auto simp: mark_section_def split: option.splits)
      then have "rn_rows s (qt_transitionID x) \<noteq> None" using assms(2) by (simp add: runner_inv_def)
      then show ?thesis using w SecPersist tr step_mark(1) by simp
    qed (use w in simp_all)
  next
    case (step_record k x state held now r m)
    have w: "w = (case r of SecPersist tr \<Rightarrow> WRecorded x tr held | _ \<Rightarrow> WReleasing x held)"
      by (rule new_worker [OF assms(1,3) False, of k]) (use step_record in \<open>simp_all add: worker_at_def\<close>)
    show ?thesis
    proof (cases r)
      case (SecPersist tr)
      have some: "rm_progress (rn_mem s) (qt_transitionID x) \<noteq> None"
        using step_record(3) SecPersist by (auto simp: outcome_section_def split: option.splits)
      with outcome_section_ok [OF ok step_record(3)] SecPersist
      have "settled tr" "tr_ID tr = qt_transitionID x" by (auto split: if_splits option.splits)
      moreover have "rn_rows s (qt_transitionID x) \<noteq> None"
        using some assms(2) by (simp add: runner_inv_def)
      ultimately show ?thesis using w SecPersist step_record(1) by simp
    qed (use w in simp_all)
  next
    case (step_dequeue k pickDone x q)
    have "w = WTaken x"
      by (rule new_worker [OF assms(1,3) False, of k]) (use step_dequeue in \<open>simp_all add: worker_at_def\<close>)
    then show ?thesis by simp
  next
    case (step_exit k pickDone e)
    have "w = WExited" by (rule new_worker [OF assms(1,3) False, of k])
      (use step_exit in \<open>simp_all add: worker_at_def\<close>)
    then show ?thesis by simp
  next
    case (step_mark_missing k x now e m)
    have "w = WIdle" by (rule new_worker [OF assms(1,3) False, of k])
      (use step_mark_missing in \<open>simp_all add: worker_at_def\<close>)
    then show ?thesis by simp
  next
    case (step_mark_write k x tr)
    have "w = WMarked x" by (rule new_worker [OF assms(1,3) False, of k])
      (use step_mark_write in \<open>simp_all add: worker_at_def\<close>)
    then show ?thesis by simp
  next
    case (step_mark_write_fail k x tr)
    have "w = WIdle" by (rule new_worker [OF assms(1,3) False, of k])
      (use step_mark_write_fail in \<open>simp_all add: worker_at_def\<close>)
    then show ?thesis by simp
  next
    case (step_context_done k x)
    have "w = WDone x TaskStateCanceled False" by (rule new_worker [OF assms(1,3) False, of k])
      (use step_context_done in \<open>simp_all add: worker_at_def\<close>)
    then show ?thesis by simp
  next
    case (step_acquire k x)
    have "w = WHolding x" by (rule new_worker [OF assms(1,3) False, of k])
      (use step_acquire in \<open>simp_all add: worker_at_def\<close>)
    then show ?thesis by simp
  next
    case (step_act k x state)
    have "w = WDone x state True" by (rule new_worker [OF assms(1,3) False, of k])
      (use step_act in \<open>simp_all add: worker_at_def\<close>)
    then show ?thesis by simp
  next
    case (step_final_write k x tr held ok)
    have "w = WReleasing x held" by (rule new_worker [OF assms(1,3) False, of k])
      (use step_final_write in \<open>simp_all add: worker_at_def\<close>)
    then show ?thesis by simp
  next
    case (step_release k x held)
    have "w = WIdle" by (rule new_worker [OF assms(1,3) False, of k])
      (use step_release in \<open>simp_all add: worker_at_def\<close>)
    then show ?thesis by simp
  qed (use False assms(3) in simp_all)
qed

lemma dequeue_running_err:
  "dequeue None p q = DeqErr e \<Longrightarrow> q_closed q"
  by (auto simp: dequeue_def Let_def split: list.splits if_splits)

lemma step_running:
  assumes "runner_step cfg s s'" "runner_inv cfg s" "\<not> rn_stopped s'"
  shows "\<not> rn_stopped s \<and> \<not> q_closed (rn_queue s') \<and> WExited \<notin> set (rn_workers s')"
proof -
  have run: "\<not> rn_stopped s"
    using assms(1,3) by cases (simp_all add: persist_row_def split: if_splits)
  have q: "\<not> q_closed (rn_queue s)" and w: "WExited \<notin> set (rn_workers s)"
    using assms(2) run by (simp_all add: runner_inv_def)
  have "WExited \<notin> set (rn_workers s')"
  proof
    assume *: "WExited \<in> set (rn_workers s')"
    from assms(1) show False
    proof cases
      case (step_exit k pickDone e)
      with dequeue_running_err [of pickDone "rn_queue s" e] run q show False
        by (simp add: running_err_def)
    next
      case (step_mark k x now r m)
      with * w new_worker [OF assms(1) * w, of k] show False
        by (cases r) (auto simp: worker_at_def)
    next
      case (step_record k x state held now r m)
      with * w new_worker [OF assms(1) * w, of k] show False
        by (cases r) (auto simp: worker_at_def)
    qed (use * w new_worker [OF assms(1) * w] in \<open>auto simp: worker_at_def\<close>)
  qed
  moreover have "\<not> q_closed (rn_queue s')"
    using assms(1)
  proof cases
    case (step_enqueue k i x xs ctxErr pickDone q')
    then have "q_accepts x (rn_queue s) q'" by (auto simp: q_accepts_def)
    from lq.accepts_open [OF this] step_enqueue(1) show ?thesis by simp
  next
    case (step_dequeue k pickDone x q')
    then have "q_delivers x (rn_queue s) q'" by (auto simp: q_delivers_def)
    from lq.delivers_room [OF this, THEN conjunct2] step_dequeue(1) q show ?thesis by simp
  qed (use q run in simp_all)
  ultimately show ?thesis using run by blast
qed

lemma runner_inv_step: "runner_step cfg s s' \<Longrightarrow> runner_inv cfg s \<Longrightarrow> runner_inv cfg s'"
  unfolding runner_inv_def [of cfg s']
  by (intro conjI allI ballI impI)
    (blast intro: step_mem step_live step_calls_ok step_workers_ok
      dest: step_rows step_tokens step_queue step_running)+

lemma sum_replicate_0: "f w = 0 \<Longrightarrow> sum_list (map f (replicate n w)) = (0 :: nat)"
  by (induction n) auto

lemma runner_inv_init: "config_ok cfg \<Longrightarrow> runner_inv cfg (initial_runner cfg)"
  by (simp add: runner_inv_def initial_runner_def empty_mem_ok live_def remaining_of_def
      holders_def sum_replicate_0 worker_live_def config_ok_def newQueue_bounded)
    (simp add: empty_mem_def newQueue_def)

lemma runner_inv_reachable:
  "runner_reachable cfg s \<Longrightarrow> config_ok cfg \<Longrightarrow> runner_inv cfg s"
  by (induction rule: runner_reachable.induct) (auto intro: runner_inv_init runner_inv_step)

section \<open>Work that is left\<close>

fun worker_work :: "worker \<Rightarrow> nat" where
  "worker_work (WTaken x) = 7"
| "worker_work (WMarking x tr) = 6"
| "worker_work (WMarked x) = 5"
| "worker_work (WHolding x) = 4"
| "worker_work (WDone x s h) = 3"
| "worker_work (WRecorded x tr h) = 2"
| "worker_work (WReleasing x h) = 1"
| "worker_work _ = 0"

fun call_work :: "api_call \<Rightarrow> nat" where
  "call_work (AEnqueue i xs) = 9 * length xs"
| "call_work (AAborting tr) = 1"
| "call_work AFinished = 0"

definition work :: "runner \<Rightarrow> nat" where
  "work s = sum_list (map call_work (rn_calls s)) + 8 * length (q_ch (rn_queue s)) +
     sum_list (map worker_work (rn_workers s))"

lemma work_set_worker:
  "worker_at s k w0 \<Longrightarrow>
   int (work (set_worker k w s)) = int (work s) + int (worker_work w) - int (worker_work w0)"
  using sum_update [of k "rn_workers s" worker_work w] by (auto simp: work_def worker_at_def)

lemma work_set_call:
  "call_at s k c0 \<Longrightarrow>
   int (work (set_call k c s)) = int (work s) + int (call_work c) - int (call_work c0)"
  using sum_update [of k "rn_calls s" call_work c] by (auto simp: work_def call_at_def)

lemma work_others [simp]:
  "work (s\<lparr>rn_mem := m\<rparr>) = work s" "work (s\<lparr>rn_tokens := t\<rparr>) = work s"
  "work (s\<lparr>rn_rows := r\<rparr>) = work s" "work (s\<lparr>rn_lost := l\<rparr>) = work s"
  "work (persist_row ok tr s) = work s"
  by (simp_all add: work_def persist_row_def)

lemma work_queue:
  "int (work (s\<lparr>rn_queue := q\<rparr>)) =
   int (work s) + 8 * int (length (q_ch q)) - 8 * int (length (q_ch (rn_queue s)))"
  by (simp add: work_def)

text \<open>
  The steps the runner takes on its own: no request or abort arrives, it is not stopped, and no task
  is dropped by a failed enqueue or a failed mark.
\<close>

definition own_step :: "runtimeConfig \<Rightarrow> runner \<Rightarrow> runner \<Rightarrow> bool" where
  "own_step cfg s s' \<longleftrightarrow>
     runner_step cfg s s' \<and> length (rn_calls s') = length (rn_calls s) \<and>
     rn_stopped s' = rn_stopped s \<and> rn_lost s' = rn_lost s"

definition advances :: "runtimeConfig \<Rightarrow> runner \<Rightarrow> bool" where
  "advances cfg s \<longleftrightarrow> (\<exists>s'. own_step cfg s s')"

lemma advancesI:
  "runner_step cfg s s' \<Longrightarrow> length (rn_calls s') = length (rn_calls s) \<Longrightarrow>
   rn_stopped s' = rn_stopped s \<Longrightarrow> rn_lost s' = rn_lost s \<Longrightarrow> advances cfg s"
  by (auto simp: advances_def own_step_def)

lemma persist_row_stopped [simp]: "rn_stopped (persist_row ok tr s) = rn_stopped s"
  by (simp add: persist_row_def)

text \<open>Every such step uses up work, so there are at most as many as there was work.\<close>

lemma own_step_work:
  assumes own: "own_step cfg s s'" and inv: "runner_inv cfg s" and run: "\<not> rn_stopped s"
  shows "work s' < work s"
proof -
  have step: "runner_step cfg s s'" and calls: "length (rn_calls s') = length (rn_calls s)"
    and stop: "rn_stopped s' = rn_stopped s" and lost: "rn_lost s' = rn_lost s"
    using own by (simp_all add: own_step_def)
  from step have "int (work s') < int (work s)"
  proof cases
    case (step_enqueue k i x xs ctxErr pickDone q)
    note q = enqueue_OkD [OF step_enqueue(3)]
    have "int (work (set_call k (AEnqueue i xs) s)) =
        int (work s) + int (call_work (AEnqueue i xs)) - int (call_work (AEnqueue i (x # xs)))"
      by (rule work_set_call [OF step_enqueue(2)])
    then show ?thesis using step_enqueue(1) q by (simp add: work_queue)
  next
    case (step_abort_write k tr ok)
    then show ?thesis using work_set_call [OF step_abort_write(2), of AFinished] by simp
  next
    case (step_dequeue k pickDone x q)
    note q = dequeue_ItemD [OF step_dequeue(3), THEN conjunct1]
    then show ?thesis
      using step_dequeue(1) work_set_worker [OF step_dequeue(2), of "WTaken x"] by (simp add: work_queue)
  next
    case (step_exit k pickDone e)
    have "\<not> q_closed (rn_queue s)" using inv run by (simp add: runner_inv_def)
    with step_exit dequeue_running_err [of pickDone "rn_queue s" e] run show ?thesis
      by (simp add: running_err_def)
  next
    case (step_mark k x now r m)
    then show ?thesis using work_set_worker [OF step_mark(2)] by (cases r) simp_all
  next
    case (step_mark_write k x tr)
    then show ?thesis using work_set_worker [OF step_mark_write(2), of "WMarked x"] by simp
  next
    case (step_context_done k x)
    then show ?thesis
      using work_set_worker [OF step_context_done(2), of "WDone x TaskStateCanceled False"] by simp
  next
    case (step_acquire k x)
    then show ?thesis using work_set_worker [OF step_acquire(2), of "WHolding x"] by simp
  next
    case (step_act k x state)
    then show ?thesis using work_set_worker [OF step_act(2), of "WDone x state True"] by simp
  next
    case (step_record k x state held now r m)
    then show ?thesis using work_set_worker [OF step_record(2)] by (cases r) simp_all
  next
    case (step_final_write k x tr held ok)
    then show ?thesis using work_set_worker [OF step_final_write(2), of "WReleasing x held"] by simp
  next
    case (step_release k x held)
    then show ?thesis using work_set_worker [OF step_release(2), of WIdle] by simp
  qed (use calls stop lost run in simp_all)
  then show ?thesis by simp
qed

lemma marked_entry:
  assumes "runner_inv cfg s" "worker_at s k (WTaken x)"
  shows "mark_section now (qt_transitionID x) (rn_mem s) \<noteq> (SecErr e, m)"
proof -
  have "0 < live s (qt_transitionID x)"
    using worker_live_le [OF assms(2), of "qt_transitionID x"] by (simp add: worker_live_def)
  with live_no_entry [OF assms(1)] obtain p where "rm_progress (rn_mem s) (qt_transitionID x) = Some p"
    by blast
  then show ?thesis by (simp add: mark_section_def Let_def)
qed

lemma worker_advances:
  assumes "runner_inv cfg s" "worker_at s k w" "w \<notin> {WIdle, WExited}" "\<And>x. w \<noteq> WMarked x"
  shows "advances cfg s"
proof (cases w)
  case (WTaken x)
  with assms(2) have w: "worker_at s k (WTaken x)" by simp
  obtain r m where sec: "mark_section undefined (qt_transitionID x) (rn_mem s) = (r, m)" by fastforce
  with marked_entry [OF assms(1) w] have "\<forall>e. r \<noteq> SecErr e" by blast
  from runner_step.step_mark [OF w sec this] show ?thesis by (rule advancesI) simp_all
next
  case (WMarking x tr)
  with assms(2) have w: "worker_at s k (WMarking x tr)" by simp
  from runner_step.step_mark_write [OF w] show ?thesis by (rule advancesI) simp_all
next
  case (WHolding x)
  with assms(2) have w: "worker_at s k (WHolding x)" by simp
  have "TaskStateSucceeded \<in> {TaskStateSucceeded, TaskStateFailed, TaskStateCanceled}" by simp
  from runner_step.step_act [OF w this] show ?thesis by (rule advancesI) simp_all
next
  case (WDone x st h)
  with assms(2) have w: "worker_at s k (WDone x st h)" by simp
  obtain r m where sec: "outcome_section undefined (qt_transitionID x) st (rn_mem s) = (r, m)"
    by fastforce
  from runner_step.step_record [OF w sec] show ?thesis by (rule advancesI) simp_all
next
  case (WRecorded x tr h)
  with assms(2) have w: "worker_at s k (WRecorded x tr h)" by simp
  from runner_step.step_final_write [OF w, of cfg True] show ?thesis by (rule advancesI) simp_all
next
  case (WReleasing x h)
  with assms(2) have w: "worker_at s k (WReleasing x h)" by simp
  from runner_step.step_release [OF w] show ?thesis by (rule advancesI) simp_all
qed (use assms(3,4) in simp_all)

lemma sum_map_pos: "0 < sum_list (map f xs) \<longleftrightarrow> (\<exists>x \<in> set xs. 0 < (f x :: nat))"
  by (induction xs) auto

lemma holder_exists: "0 < holders s b \<Longrightarrow> \<exists>k w. worker_at s k w \<and> 0 < holds b w"
  by (auto simp: holders_def sum_map_pos worker_at_def in_set_conv_nth)

lemma holds_pos: "0 < holds b w \<Longrightarrow> w \<notin> {WIdle, WExited} \<and> (\<forall>x. w \<noteq> WMarked x)"
  by (cases w) auto

text \<open>A worker that waits for a token waits for one that is held by a worker that can go on.\<close>

lemma marked_advances:
  assumes inv: "runner_inv cfg s" and cfg: "config_ok cfg" and w: "worker_at s k (WMarked x)"
  shows "advances cfg s"
proof (cases "bmc_of x = [] \<or> rn_tokens s (bmc_of x) < rc_perBMCConcurrency cfg")
  case True
  from runner_step.step_acquire [OF w True] show ?thesis by (rule advancesI) simp_all
next
  case False
  then have "0 < holders s (bmc_of x)"
    using inv cfg by (auto simp: runner_inv_def config_ok_def)
  with holder_exists obtain j v where "worker_at s j v" "0 < holds (bmc_of x) v" by blast
  with holds_pos [of "bmc_of x" v] worker_advances [OF inv, of j v] show ?thesis by blast
qed

lemma busy_advances:
  assumes "runner_inv cfg s" "config_ok cfg" "worker_at s k w" "w \<notin> {WIdle, WExited}"
  shows "advances cfg s"
  using worker_advances [OF assms(1,3,4)] marked_advances [OF assms(1,2), of k] assms(3)
  by (cases w) auto

lemma queue_advances:
  assumes inv: "runner_inv cfg s" and cfg: "config_ok cfg" and run: "\<not> rn_stopped s"
    and q: "q_ch (rn_queue s) \<noteq> []"
  shows "advances cfg s"
proof -
  have "0 < length (rn_workers s)" "WExited \<notin> set (rn_workers s)"
    using inv cfg run by (simp_all add: runner_inv_def config_ok_def)
  then have w: "worker_at s 0 (rn_workers s ! 0)" "rn_workers s ! 0 \<noteq> WExited"
    by (auto simp: worker_at_def) (metis length_greater_0_conv nth_mem)
  show ?thesis
  proof (cases "rn_workers s ! 0 = WIdle")
    case True
    with w have idle: "worker_at s 0 WIdle" by simp
    from q obtain x xs where "q_ch (rn_queue s) = x # xs" by (cases "q_ch (rn_queue s)") auto
    then have deq: "dequeue (running_err s) False (rn_queue s) =
        DeqItem x ((rn_queue s)\<lparr>q_ch := xs\<rparr>)"
      using run by (simp add: dequeue_def running_err_def)
    from runner_step.step_dequeue [OF idle deq] show ?thesis by (rule advancesI) simp_all
  qed (use busy_advances [OF inv cfg w(1)] w(2) in simp)
qed

lemma call_advances:
  assumes inv: "runner_inv cfg s" and cfg: "config_ok cfg" and run: "\<not> rn_stopped s"
    and c: "call_at s k c" "0 < call_work c"
  shows "advances cfg s"
proof (cases c)
  case (AEnqueue i ys)
  with c(2) obtain x xs where "ys = x # xs" by (cases ys) auto
  with c AEnqueue have c: "call_at s k (AEnqueue i (x # xs))" by simp
  show ?thesis
  proof (cases "q_ch (rn_queue s) = []")
    case True
    have "0 < q_cap (rn_queue s)" "\<not> q_closed (rn_queue s)"
      using inv cfg run by (simp_all add: runner_inv_def config_ok_def)
    with True have enq: "enqueue None False x (rn_queue s) = EnqOk ((rn_queue s)\<lparr>q_ch := [x]\<rparr>)"
      by (simp add: enqueue_def enqueue_send_def queue_channel_def)
    from runner_step.step_enqueue [OF c enq] show ?thesis by (rule advancesI) simp_all
  qed (rule queue_advances [OF inv cfg run])
next
  case (AAborting tr)
  with c have c: "call_at s k (AAborting tr)" by simp
  from runner_step.step_abort_write [OF c, of cfg True] show ?thesis
    by (rule advancesI) simp_all
qed (use c in simp)

lemma work_advances:
  assumes inv: "runner_inv cfg s" and cfg: "config_ok cfg" and run: "\<not> rn_stopped s"
    and pos: "0 < work s"
  shows "advances cfg s"
proof (cases "\<exists>c \<in> set (rn_calls s). 0 < call_work c")
  case True
  then obtain k c where "call_at s k c" "0 < call_work c" by (auto simp: call_at_def in_set_conv_nth)
  then show ?thesis by (rule call_advances [OF inv cfg run])
next
  case no_call: False
  show ?thesis
  proof (cases "q_ch (rn_queue s) = []")
    case True
    with no_call pos have "0 < sum_list (map worker_work (rn_workers s))"
      using sum_map_pos [of call_work "rn_calls s"] by (simp add: work_def)
    then obtain k w where "worker_at s k w" "worker_work w \<noteq> 0"
      by (auto simp: sum_map_pos worker_at_def in_set_conv_nth)
    with busy_advances [OF inv cfg this(1)] show ?thesis by (cases w) auto
  qed (rule queue_advances [OF inv cfg run])
qed

text \<open>A run of own steps: it stays within the reachable states, and its length is paid with work.\<close>

lemma own_run:
  assumes "(own_step cfg ^^ n) s t" and "runner_reachable cfg s" "\<not> rn_stopped s" "config_ok cfg"
  shows "runner_reachable cfg t \<and> \<not> rn_stopped t \<and> rn_lost t = rn_lost s \<and> n + work t \<le> work s"
  using assms(1)
proof (induction n arbitrary: t)
  case (Suc n)
  then obtain u where u: "(own_step cfg ^^ n) s u" and step: "own_step cfg u t" by auto
  note ih = Suc.IH [OF u]
  then have "work t < work u"
    using own_step_work [OF step runner_inv_reachable [OF _ assms(4)]] by blast
  with ih step show ?case by (auto simp: own_step_def intro: reach_step)
qed (use assms in simp)

text \<open>All workers are idle, nothing is queued, and no call has anything left to do.\<close>

definition at_rest :: "runtimeConfig \<Rightarrow> runner \<Rightarrow> bool" where
  "at_rest cfg s \<longleftrightarrow>
     rn_workers s = replicate (nat (rc_globalConcurrency cfg)) WIdle \<and> q_ch (rn_queue s) = [] \<and>
     (\<forall>c \<in> set (rn_calls s). c = AFinished \<or> (\<exists>i. c = AEnqueue i []))"

lemma work_at_rest:
  assumes inv: "runner_inv cfg s" and run: "\<not> rn_stopped s" and "work s = 0"
  shows "at_rest cfg s"
proof -
  have zero: "\<forall>c \<in> set (rn_calls s). call_work c = 0" "\<forall>w \<in> set (rn_workers s). worker_work w = 0"
      "q_ch (rn_queue s) = []"
    using assms(3) sum_map_pos [of call_work "rn_calls s"] sum_map_pos [of worker_work "rn_workers s"]
    by (auto simp: work_def)
  have "WExited \<notin> set (rn_workers s)" using inv run by (simp add: runner_inv_def)
  then have "w = WIdle" if "w \<in> set (rn_workers s)" for w
    using that bspec [OF zero(2) that] by (cases w) auto
  moreover have "length (rn_workers s) = nat (rc_globalConcurrency cfg)"
    using inv by (simp add: runner_inv_def)
  ultimately have "rn_workers s = replicate (nat (rc_globalConcurrency cfg)) WIdle"
    by (metis replicate_eqI)
  moreover have "c = AFinished \<or> (\<exists>i. c = AEnqueue i [])" if "c \<in> set (rn_calls s)" for c
    using bspec [OF zero(1) that] by (cases c) auto
  ultimately show ?thesis using zero(3) by (simp add: at_rest_def)
qed

lemma rest_live: "work s = 0 \<Longrightarrow> live s i = of_id i (rn_lost s)"
proof -
  assume "work s = 0"
  then have c: "\<forall>c \<in> set (rn_calls s). call_work c = 0" and q: "q_ch (rn_queue s) = []"
    and w: "\<forall>w \<in> set (rn_workers s). worker_work w = 0"
    using sum_map_pos [of call_work "rn_calls s"] sum_map_pos [of worker_work "rn_workers s"]
    by (auto simp: work_def)
  have "call_work c = 0 \<Longrightarrow> call_live i c = 0" for c by (cases c) auto
  moreover have "worker_work w = 0 \<Longrightarrow> worker_live i w = 0" for w
    by (cases w) (auto simp: worker_live_def)
  ultimately show ?thesis
    using c q w sum_map_pos [of "call_live i" "rn_calls s"]
      sum_map_pos [of "worker_live i" "rn_workers s"] by (auto simp: live_def)
qed

lemma no_entry_live:
  assumes inv: "runner_inv cfg s"
  shows "rm_progress (rn_mem s) i = None \<longleftrightarrow> live s i = 0"
proof (cases "rm_progress (rn_mem s) i")
  case (Some p)
  have "tp_ok p" "int (live s i) = tp_remaining p"
    using inv Some by (auto simp: runner_inv_def remaining_of_def mem_ok_def
        dest: spec [of "\<lambda>i. int (live s i) = _ i" i])
  with Some show ?thesis by (simp add: tp_ok_def)
next
  case None
  have "int (live s i) = remaining_of s i" using inv by (simp add: runner_inv_def)
  with None show ?thesis by (simp add: remaining_of_def)
qed

section \<open>Properties\<close>

text \<open>
  C6. No outcome is lost and none is counted twice, whatever the interleaving: in every reachable
  state the tasks of a transition without an outcome are exactly the \<open>remaining\<close> of its entry, its
  two counters and those tasks add up to the targets, and a transition without an entry has none.
\<close>

theorem runner_accounting:
  assumes "runner_reachable (normalizeConfig c) s"
  shows "case rm_progress (rn_mem s) i of
      None \<Rightarrow> live s i = 0
    | Some p \<Rightarrow>
        0 < live s i \<and> tp_remaining p = int (live s i) \<and> tr_ID (tp_transition p) = i \<and>
        tr_SuccessCount (tp_transition p) + tr_FailureCount (tp_transition p) + int (live s i) =
          tr_TargetCount (tp_transition p)"
proof -
  have inv: "runner_inv (normalizeConfig c) s"
    using runner_inv_reachable [OF assms normalizeConfig_ok] .
  then have l: "int (live s i) = remaining_of s i" and m: "mem_ok (rn_mem s)"
    by (simp_all add: runner_inv_def)
  show ?thesis
  proof (cases "rm_progress (rn_mem s) i")
    case (Some p)
    with mem_okD [OF m Some] l show ?thesis by (auto simp: remaining_of_def tp_ok_def)
  qed (use l in \<open>simp add: remaining_of_def\<close>)
qed

text \<open>
  C8. The configured limits hold in every reachable state: as many workers as
  \<open>globalConcurrency\<close>, at most \<open>perBMCConcurrency\<close> of them between acquiring and releasing the
  limiter of one BMC, and at most \<open>queueSize\<close> waiting tasks.
\<close>

theorem runner_limits:
  assumes "runner_reachable (normalizeConfig c) s"
  shows "int (length (rn_workers s)) = rc_globalConcurrency (normalizeConfig c) \<and>
    int (length (q_ch (rn_queue s))) \<le> rc_queueSize (normalizeConfig c) \<and>
    (b = [] \<or> int (holders s b) \<le> rc_perBMCConcurrency (normalizeConfig c))"
proof -
  have inv: "runner_inv (normalizeConfig c) s"
    using runner_inv_reachable [OF assms normalizeConfig_ok] .
  have "0 < rc_globalConcurrency (normalizeConfig c)" "0 < rc_queueSize (normalizeConfig c)"
    using normalizeConfig_ok [of c] by (simp_all add: config_ok_def)
  moreover have "length (rn_workers s) = nat (rc_globalConcurrency (normalizeConfig c))"
    "lq.bounded (rn_queue s)" "q_cap (rn_queue s) = nat (rc_queueSize (normalizeConfig c))"
    using inv by (simp_all add: runner_inv_def)
  moreover have "b \<noteq> [] \<Longrightarrow> int (holders s b) \<le> rc_perBMCConcurrency (normalizeConfig c)"
    using inv by (auto simp: runner_inv_def)
  ultimately show ?thesis by (auto simp: lq.bounded_def)
qed

text \<open>
  C7. The runner cannot deadlock and comes to rest by itself: from every reachable state in which it
  is not stopped, a run of its own steps (nobody aborts, no enqueue or mark fails) has no more steps
  than the work there was, and it can always go on until all workers are idle, the queue is empty
  and no call is pending.  Then a transition has outstanding tasks only if they had been dropped
  before.
\<close>

theorem runner_finishes:
  assumes "runner_reachable (normalizeConfig c) s" "\<not> rn_stopped s"
    and "(own_step (normalizeConfig c) ^^ n) s t"
  shows "n + work t \<le> work s \<and>
    ((\<exists>u. own_step (normalizeConfig c) t u) \<or>
     at_rest (normalizeConfig c) t \<and> rn_lost t = rn_lost s \<and>
     (\<forall>i. live t i = of_id i (rn_lost s) \<and>
        (rm_progress (rn_mem t) i = None \<longleftrightarrow> of_id i (rn_lost s) = 0)))"
proof -
  let ?cfg = "normalizeConfig c"
  note run = own_run [OF assms(3,1,2) normalizeConfig_ok]
  then have inv: "runner_inv ?cfg t" by (blast intro: runner_inv_reachable normalizeConfig_ok)
  show ?thesis
  proof (cases "work t = 0")
    case True
    have "rm_progress (rn_mem t) i = None \<longleftrightarrow> live t i = 0" for i
      by (rule no_entry_live [OF inv])
    with run True rest_live [OF True] work_at_rest [OF inv] show ?thesis by simp
  next
    case False
    with work_advances [OF inv normalizeConfig_ok] run show ?thesis by (auto simp: advances_def)
  qed
qed

lemma closed_step:
  assumes step: "runner_step cfg s s'" and inv: "runner_inv cfg s"
    and row: "rn_rows s i \<noteq> None" and none: "rm_progress (rn_mem s) i = None"
  shows "rm_progress (rn_mem s') i = None"
  using step
proof cases
  case (step_start tr items)
  with row none show ?thesis by (auto simp: register_remaining)
next
  case (step_abort now j r m)
  with none abort_section_none [OF step_abort(2), of i] show ?thesis by simp
next
  case (step_mark k x now r m)
  with none mark_section_none [OF step_mark(3), of i] show ?thesis by simp
next
  case (step_mark_missing k x now e m)
  with none mark_section_none [OF step_mark_missing(3), of i] show ?thesis by simp
next
  case (step_record k x state held now r m)
  with none outcome_section_none [OF step_record(3), of i] show ?thesis by simp
qed (use none in simp_all)

text \<open>The final snapshots of a transition that wait to be written.\<close>

definition final_snapshots :: "string \<Rightarrow> runner \<Rightarrow> Transition set" where
  "final_snapshots i s = {tr. tr_ID tr = i \<and> (\<exists>x h. WRecorded x tr h \<in> set (rn_workers s))}"

lemma recorded_step:
  assumes step: "runner_step cfg s s'" and inv: "runner_inv cfg s"
    and none: "rm_progress (rn_mem s) i = None" and new: "WRecorded x tr h \<in> set (rn_workers s')"
    and id: "tr_ID tr = i"
  shows "WRecorded x tr h \<in> set (rn_workers s)"
proof (rule ccontr)
  assume old: "WRecorded x tr h \<notin> set (rn_workers s)"
  note nw = new_worker [OF step new old]
  from step show False
  proof cases
    case (step_record k y state held now r m)
    have w: "WRecorded x tr h = (case r of SecPersist tr \<Rightarrow> WRecorded y tr held | _ \<Rightarrow> WReleasing y held)"
      by (rule nw [of k]) (use step_record in \<open>simp_all add: worker_at_def\<close>)
    then have r: "r = SecPersist tr" by (cases r) auto
    have "worker_ok s' (WRecorded x tr h)" by (rule step_workers_ok [OF step inv new])
    then have "qt_transitionID x = i" using id by simp
    moreover have "x = y" using w r by simp
    ultimately have "outcome_section now i state (rn_mem s) = (SecPersist tr, m)"
      using step_record(3) r by simp
    with none show False by (simp add: outcome_section_def)
  next
    case (step_mark k y now r m)
    have "WRecorded x tr h = (case r of SecPersist tr \<Rightarrow> WMarking y tr | _ \<Rightarrow> WMarked y)"
      by (rule nw [of k]) (use step_mark in \<open>simp_all add: worker_at_def\<close>)
    then show False by (cases r) auto
  qed (use new old nw in \<open>auto simp: worker_at_def\<close>)
qed

text \<open>
  C9. A transition is finalized at most once: once its entry is gone it never comes back, no
  further final snapshot of it is taken, and every snapshot waiting to be written is settled, its
  counts adding up to the targets.
\<close>

theorem finalized_once:
  assumes "runner_reachable (normalizeConfig c) s" "runner_step (normalizeConfig c) s s'"
    and "rn_rows s i \<noteq> None" "rm_progress (rn_mem s) i = None"
  shows "rm_progress (rn_mem s') i = None \<and> rn_rows s' i \<noteq> None \<and>
    final_snapshots i s' \<subseteq> final_snapshots i s \<and> Ball (final_snapshots i s') settled"
proof -
  have inv: "runner_inv (normalizeConfig c) s"
    by (rule runner_inv_reachable [OF assms(1) normalizeConfig_ok])
  have "Ball (final_snapshots i s') settled"
  proof
    fix tr assume "tr \<in> final_snapshots i s'"
    then obtain x h where "WRecorded x tr h \<in> set (rn_workers s')" by (auto simp: final_snapshots_def)
    from step_workers_ok [OF assms(2) inv this] show "settled tr" by simp
  qed
  moreover have "final_snapshots i s' \<subseteq> final_snapshots i s"
    using recorded_step [OF assms(2) inv assms(4)] by (fastforce simp: final_snapshots_def)
  ultimately show ?thesis
    using closed_step [OF assms(2) inv assms(3,4)] step_rows_mono [OF assms(2) assms(3)] by blast
qed

section \<open>A run with an abort\<close>

text \<open>
  One worker, one task.  The abort takes its snapshot while the task is in the worker's hands and
  writes it after the worker has finished the transition.
\<close>

definition demo_config :: Config where
  "demo_config = zero_config\<lparr>cf_GlobalConcurrency := 1, cf_QueueSize := 1\<rparr>"

abbreviation demo_cfg where "demo_cfg \<equiv> normalizeConfig demo_config"

definition demo_tr :: Transition where
  "demo_tr = (plan_transition 50 ''On'' (sample_start [''n1'']) [planned_task])\<lparr>tr_ID := ''t1''\<rparr>"

definition demo_item :: queuedTask where
  "demo_item = \<lparr>qt_operation = OpOn, qt_transitionID = ''t1'', qt_task = planned_task\<rparr>"

definition demo_aborted :: Transition where
  "demo_aborted = demo_tr\<lparr>tr_State := TransitionStateCanceled, tr_UpdatedAt := 60\<rparr>"

definition demo_final :: Transition where
  "demo_final = demo_aborted\<lparr>tr_FailureCount := 1, tr_CompletedAt := Some 70, tr_UpdatedAt := 70\<rparr>"

definition demo1 :: runner where
  "demo1 = (initial_runner demo_cfg)
     \<lparr>rn_mem := register_section demo_tr (map qt_task [demo_item]) (rn_mem (initial_runner demo_cfg)),
      rn_rows := (rn_rows (initial_runner demo_cfg))(tr_ID demo_tr \<mapsto> demo_tr),
      rn_calls := rn_calls (initial_runner demo_cfg) @ [AEnqueue (tr_ID demo_tr) [demo_item]]\<rparr>"

definition demo2 :: runner where
  "demo2 = (set_call 0 (AEnqueue ''t1'' []) demo1)
     \<lparr>rn_queue := \<lparr>q_closed = False, q_ch = [demo_item], q_cap = 1\<rparr>\<rparr>"

definition demo3 :: runner where
  "demo3 = (set_worker 0 (WTaken demo_item) demo2)
     \<lparr>rn_queue := \<lparr>q_closed = False, q_ch = [], q_cap = 1\<rparr>\<rparr>"

definition demo4 :: runner where
  "demo4 = demo3\<lparr>rn_mem := snd (abort_section 60 ''t1'' (rn_mem demo3)),
     rn_calls := rn_calls demo3 @ [AAborting demo_aborted]\<rparr>"

definition demo5 :: runner where
  "demo5 = (set_worker 0 (WMarked demo_item) demo4)\<lparr>rn_mem := rn_mem demo4\<rparr>"

definition demo6 :: runner where
  "demo6 = set_worker 0 (WDone demo_item TaskStateCanceled False) demo5"

definition demo7 :: runner where
  "demo7 = (set_worker 0 (WRecorded demo_item demo_final False) demo6)
     \<lparr>rn_mem := snd (outcome_section 70 ''t1'' TaskStateCanceled (rn_mem demo6))\<rparr>"

definition demo8 :: runner where
  "demo8 = persist_row True demo_final (set_worker 0 (WReleasing demo_item False) demo7)"

definition demo9 :: runner where
  "demo9 = (set_worker 0 WIdle demo8)\<lparr>rn_tokens := rn_tokens demo8\<rparr>"

definition demo10 :: runner where
  "demo10 = persist_row True demo_aborted (set_call 1 AFinished demo9)"

lemmas demo_trs = demo_tr_def plan_transition_def sample_start_def planned_task_def new_task_def
  count_state_def demo_aborted_def demo_final_def demo_item_def plain_strings Let_def

lemma demo_cfg_simps [simp]:
  "rc_globalConcurrency demo_cfg = 1" "rc_queueSize demo_cfg = 1" "rc_perBMCConcurrency demo_cfg = 1"
  by (simp_all add: normalizeConfig_def demo_config_def zero_config_def Let_def go_defs)

lemma demo_tr_simps [simp]:
  "tr_ID demo_tr = ''t1''" "tr_SuccessCount demo_tr = 0" "tr_FailureCount demo_tr = 0"
  "tr_TargetCount demo_tr = 1" "tr_CompletedAt demo_tr = None" "qt_transitionID demo_item = ''t1''"
  "tr_ID demo_aborted = ''t1''" "tr_ID demo_final = ''t1''" "tr_CompletedAt demo_aborted = None"
  "tr_CompletedAt demo_final = Some 70" "tr_State demo_aborted = TransitionStateCanceled"
  by (simp_all add: demo_trs)

lemmas demo_eval = call_at_def worker_at_def initial_runner_def newQueue_def empty_mem_def
  running_err_def enqueue_def enqueue_send_def queue_channel_def dequeue_def

lemma demo_mem:
  "rn_mem demo1 = register_section demo_tr [planned_task] empty_mem"
  "rn_mem demo3 = rn_mem demo1" "rn_mem demo5 = rn_mem demo4" "rn_mem demo6 = rn_mem demo4"
  "rn_mem demo4 = snd (abort_section 60 ''t1'' (rn_mem demo1))"
  "rn_mem demo7 = snd (outcome_section 70 ''t1'' TaskStateCanceled (rn_mem demo4))"
  "rn_mem demo10 = rn_mem demo7"
  by (simp_all add: demo1_def demo2_def demo3_def demo4_def demo5_def demo6_def demo7_def demo8_def
      demo9_def demo10_def initial_runner_def demo_item_def)

lemma demo_abort:
  "abort_section 60 ''t1'' (rn_mem demo1) = (SecPersist demo_aborted, rn_mem demo4)"
  by (simp add: demo_mem register_section_def abort_section_def Let_def demo_aborted_def)

lemma demo_entry:
  "rm_progress (rn_mem demo4) ''t1'' = Some \<lparr>tp_transition = demo_aborted, tp_remaining = 1,
     tp_executableTotal = 1, tp_canceledCount = 0, tp_started = False, tp_aborted = True\<rparr>"
  "rm_canceled (rn_mem demo4) ''t1''"
  by (simp_all add: demo_mem register_section_def abort_section_def Let_def demo_aborted_def)

lemma demo_outcome:
  "outcome_section 70 ''t1'' TaskStateCanceled (rn_mem demo4) = (SecPersist demo_final, rn_mem demo7)"
  by (simp add: demo_mem(6) outcome_section_def demo_entry Let_def count_outcome_def
      finalTransitionState_def demo_aborted_def demo_final_def)

lemma demo_fields [simp]:
  "rn_workers demo1 = [WIdle]" "rn_calls demo1 = [AEnqueue ''t1'' [demo_item]]"
  "rn_queue demo1 = \<lparr>q_closed = False, q_ch = [], q_cap = 1\<rparr>" "\<not> rn_stopped demo1"
  "rn_workers demo2 = [WIdle]" "rn_calls demo2 = [AEnqueue ''t1'' []]"
  "rn_queue demo2 = \<lparr>q_closed = False, q_ch = [demo_item], q_cap = 1\<rparr>" "\<not> rn_stopped demo2"
  "rn_workers demo3 = [WTaken demo_item]" "rn_calls demo3 = [AEnqueue ''t1'' []]"
  "rn_workers demo4 = [WTaken demo_item]"
  "rn_calls demo4 = [AEnqueue ''t1'' [], AAborting demo_aborted]"
  "rn_workers demo5 = [WMarked demo_item]" "rn_workers demo6 = [WDone demo_item TaskStateCanceled False]"
  "rn_workers demo7 = [WRecorded demo_item demo_final False]"
  "rn_workers demo8 = [WReleasing demo_item False]" "rn_workers demo9 = [WIdle]"
  "rn_calls demo9 = [AEnqueue ''t1'' [], AAborting demo_aborted]"
  by (simp_all add: demo1_def initial_runner_def newQueue_def demo2_def demo3_def demo4_def demo5_def
      demo6_def demo7_def demo8_def demo9_def)

lemma demo_step1: "runner_step demo_cfg (initial_runner demo_cfg) demo1"
  unfolding demo1_def by (rule runner_step.step_start) (simp_all add: initial_runner_def)

lemma demo_step2: "runner_step demo_cfg demo1 demo2"
  unfolding demo2_def
  by (rule runner_step.step_enqueue [of _ 0 "''t1''" demo_item "[]" None False])
    (simp_all add: call_at_def enqueue_def enqueue_send_def queue_channel_def)

lemma demo_step3: "runner_step demo_cfg demo2 demo3"
  unfolding demo3_def
  by (rule runner_step.step_dequeue [of _ 0 False])
    (simp_all add: worker_at_def dequeue_def running_err_def)

lemma demo_step4: "runner_step demo_cfg demo3 demo4"
proof -
  have "abort_section 60 ''t1'' (rn_mem demo3) = (SecPersist demo_aborted, rn_mem demo4)"
    by (simp only: demo_mem(2) demo_abort)
  from runner_step.step_abort [OF this, of demo_cfg]
  have step: "runner_step demo_cfg demo3
      (demo3\<lparr>rn_mem := rn_mem demo4, rn_calls := rn_calls demo3 @ [AAborting demo_aborted]\<rparr>)"
    by (simp only: section_result.case)
  have eq: "demo4 =
      demo3\<lparr>rn_mem := rn_mem demo4, rn_calls := rn_calls demo3 @ [AAborting demo_aborted]\<rparr>"
    by (simp add: demo4_def)
  show ?thesis by (subst eq) (rule step)
qed

lemma demo_step5: "runner_step demo_cfg demo4 demo5"
  using runner_step.step_mark [of demo4 0 demo_item 65 SecDone "rn_mem demo4" demo_cfg]
  by (simp add: demo5_def worker_at_def mark_section_def demo_entry)

lemma demo_step6: "runner_step demo_cfg demo5 demo6"
  unfolding demo6_def
  by (rule runner_step.step_context_done) (simp_all add: worker_at_def demo_mem(3) demo_entry)

lemma demo_step7: "runner_step demo_cfg demo6 demo7"
  using runner_step.step_record [of demo6 0 demo_item TaskStateCanceled False 70 "SecPersist demo_final"
      "rn_mem demo7" demo_cfg] demo_outcome
  by (simp add: demo7_def worker_at_def demo_mem)

lemma demo_step8: "runner_step demo_cfg demo7 demo8"
  unfolding demo8_def by (rule runner_step.step_final_write) (simp add: worker_at_def)

lemma demo_step9: "runner_step demo_cfg demo8 demo9"
  using runner_step.step_release [of demo8 0 demo_item False demo_cfg]
  by (simp add: demo9_def worker_at_def)

lemma demo_step10: "runner_step demo_cfg demo9 demo10"
  unfolding demo10_def by (rule runner_step.step_abort_write) (simp add: call_at_def)

lemma demo_reach1: "runner_reachable demo_cfg demo1"
  using reach_step [OF reach_init demo_step1] .

lemma demo_reach4: "runner_reachable demo_cfg demo4"
  using demo_reach1 demo_step2 demo_step3 demo_step4 by (meson reach_step)

lemma demo_reach7: "runner_reachable demo_cfg demo7"
  using demo_reach4 demo_step5 demo_step6 demo_step7 by (meson reach_step)

lemma demo_reach9: "runner_reachable demo_cfg demo9"
  using demo_reach7 demo_step8 demo_step9 by (meson reach_step)

lemma demo7_none: "rm_progress (rn_mem demo7) ''t1'' = None" "rn_rows demo7 ''t1'' = Some demo_tr"
  by (simp add: demo_mem(6) outcome_section_def demo_entry Let_def count_outcome_def demo_aborted_def)
    (simp add: demo1_def demo2_def demo3_def demo4_def demo5_def demo6_def demo7_def)

text \<open>
  C10. The abort writes its snapshot outside the lock, so it can replace the final record: a reachable
  state exists in which a transition is finished, no task was lost, and its row is the final one,
  with its counts and its completion time; one more step, the write of an abort that came
  earlier, replaces that row by one that is \<open>canceled\<close> with no completion time and counts that
  miss a task, and nothing is left to do that could put it right.
\<close>

theorem stale_abort_overwrites:
  "\<exists>c s s' i fin tr. runner_reachable (normalizeConfig c) s \<and> runner_step (normalizeConfig c) s s' \<and>
     rm_progress (rn_mem s) i = None \<and> rn_rows s i = Some fin \<and> settled fin \<and>
     tr_CompletedAt fin \<noteq> None \<and>
     rn_rows s' i = Some tr \<and> \<not> settled tr \<and> tr_CompletedAt tr = None \<and>
     tr_State tr = TransitionStateCanceled \<and> work s' = 0 \<and> rn_lost s' = []"
proof -
  have "work demo10 = 0" by (simp add: work_def demo10_def demo9_def persist_row_def)
      (simp add: demo8_def demo7_def demo6_def demo5_def demo4_def demo3_def persist_row_def)
  moreover have "rn_lost demo10 = []"
    by (simp add: demo10_def demo9_def demo8_def demo7_def demo6_def demo5_def demo4_def demo3_def
        demo2_def demo1_def initial_runner_def)
  moreover have "rm_progress (rn_mem demo9) ''t1'' = None"
    using demo7_none by (simp add: demo9_def demo8_def)
  moreover have "rn_rows demo9 ''t1'' = Some demo_final" by (simp add: demo9_def demo8_def)
  moreover have "settled demo_final" by (simp add: settled_def demo_final_def demo_aborted_def)
  moreover have "rn_rows demo10 ''t1'' = Some demo_aborted" by (simp add: demo10_def)
  moreover have "\<not> settled demo_aborted" by (simp add: settled_def)
  moreover have "tr_CompletedAt demo_final \<noteq> None" by simp
  ultimately show ?thesis
    using demo_reach9 demo_step10
    by (intro exI [of _ demo_config] exI [of _ demo9] exI [of _ demo10] exI [of _ "''t1''"]
        exI [of _ demo_final] exI [of _ demo_aborted]) simp
qed

section \<open>Witnesses\<close>

theorem runner_accounting_witness:
  "\<exists>p. rm_progress (rn_mem demo4) ''t1'' = Some p \<and> tp_aborted p \<and> live demo4 ''t1'' = 1"
  using runner_accounting [OF demo_reach4, of "''t1''"] demo_entry by auto

theorem runner_limits_witness:
  "runner_reachable demo_cfg demo4 \<and> length (rn_workers demo4) = 1 \<and>
   length (q_ch (rn_queue demo4)) \<le> 1 \<and> holders demo4 ''b1'' \<le> 1"
  using runner_limits [OF demo_reach4, of "''b1''"] demo_reach4 by simp

theorem runner_finishes_witness:
  "own_step demo_cfg demo1 demo2 \<and> work demo1 = 9 \<and> work demo2 \<le> 8 \<and>
   ((\<exists>u. own_step demo_cfg demo2 u) \<or> at_rest demo_cfg demo2)"
proof -
  have "rn_lost demo2 = rn_lost demo1" by (simp add: demo2_def)
  then have own: "own_step demo_cfg demo1 demo2" using demo_step2 by (simp add: own_step_def)
  have w: "work demo1 = 9" by (simp add: work_def)
  from own have "(own_step demo_cfg ^^ Suc 0) demo1 demo2" by (auto simp: relcompp_apply)
  from runner_finishes [OF demo_reach1 _ this] own w show ?thesis by auto
qed

theorem finalized_once_witness:
  "rm_progress (rn_mem demo8) ''t1'' = None \<and> demo_final \<in> final_snapshots ''t1'' demo7 \<and>
   final_snapshots ''t1'' demo8 \<subseteq> final_snapshots ''t1'' demo7"
  using finalized_once [OF demo_reach7 demo_step8, of "''t1''"] demo7_none
  by (auto simp: final_snapshots_def)

end
