(* ===== verification/Go_JSON.thy ===== *)
theory Go_JSON
  imports Go_Base
begin

text \<open>
  JSON values as \<open>encoding/json\<close> decodes them, and the typed views of \<open>json.Unmarshal\<close> that the
  program uses.  A number keeps its literal.
\<close>

datatype json =
    JNull | JBool bool | JNumber string | JString string | JArray "json list"
  | JObject "(string \<times> json) list"

text \<open>
  \<open>json.Unmarshal\<close> into \<open>[]string\<close> and into \<open>[]any\<close>.  A null element of a string list decodes to
  the empty string, the value null to an empty list.
\<close>

fun unmarshal_string :: "json \<Rightarrow> string option" where
  "unmarshal_string (JString s) = Some s"
| "unmarshal_string JNull = Some []"
| "unmarshal_string _ = None"

fun unmarshal_strings :: "json \<Rightarrow> string list option" where
  "unmarshal_strings (JArray vs) = those (map unmarshal_string vs)"
| "unmarshal_strings JNull = Some []"
| "unmarshal_strings _ = None"

fun unmarshal_any_list :: "json \<Rightarrow> json list option" where
  "unmarshal_any_list (JArray vs) = Some vs"
| "unmarshal_any_list JNull = Some []"
| "unmarshal_any_list _ = None"

fun as_string :: "json \<Rightarrow> string option" where
  "as_string (JString s) = Some s"
| "as_string _ = None"

end
