(* ===== verification/Power_Sync.thy ===== *)
theory Power_Sync
  imports Power_Store_Mapping Go_JSON
begin

text \<open>
  \<open>internal/sync/smd_sync.go\<close>: the reconciliation of the local topology with SMD.  The SMD client,
  \<open>url.Parse\<close>, \<open>json.Marshal\<close> and \<open>sha256.Sum256\<close> are parameters; the store is the interface of
  the locale \<open>topology_store\<close>, interpreted on the PostgreSQL store.  \<open>runMu\<close> serialises the
  cycles, so a cycle is one function on the state of the syncer and the store.
\<close>

section \<open>Data\<close>

record Component =
  cp_ID :: string
  cp_Type :: string
  cp_ParentID :: "string option"

text \<open>A \<open>json.RawMessage\<close> of a decoded response is empty (\<open>None\<close>) or holds one value.\<close>

record EthernetInterface =
  ei_ComponentID :: string
  ei_IPAddrs :: "json option"

text \<open>\<open>rl_Rest\<close> stands for the fields the syncer only hashes.\<close>

record 'a ResourceList =
  rl_Items :: "'a list"
  rl_Rest :: string

record SyncConfig =
  sc_Interval :: duration
  sc_StartupRetryInterval :: duration
  sc_SyncOnStartup :: bool
  sc_DefaultCredentialID :: string

record Status =
  st_Ready :: bool
  st_InProgress :: bool
  st_LastAttemptAt :: "time option"
  st_LastSyncAt :: "time option"
  st_LastComponentETag :: string
  st_LastInterfaceETag :: string
  st_LastError :: string
  st_NotModified :: bool
  st_LastCounts :: MappingApplyCounts
  st_SuccessfulRuns :: int
  st_FailedRuns :: int

record Syncer =
  sy_interval :: duration
  sy_startupRetry :: duration
  sy_syncOnStartup :: bool
  sy_defaultCredentialID :: string
  sy_status :: Status
  sy_lastComponentETag :: string
  sy_lastInterfaceETag :: string
  sy_ready :: bool

definition defaultSyncInterval :: duration where "defaultSyncInterval = 5 * minute"
definition defaultStartupRetryInterval :: duration where
  "defaultStartupRetryInterval = 1 * second"

definition no_counts :: MappingApplyCounts where
  "no_counts = \<lparr>EndpointsUpserted = 0, EndpointsDeleted = 0, LinksUpserted = 0, LinksDeleted = 0\<rparr>"

definition zero_status :: Status where
  "zero_status = \<lparr>st_Ready = False, st_InProgress = False, st_LastAttemptAt = None,
     st_LastSyncAt = None, st_LastComponentETag = [], st_LastInterfaceETag = [], st_LastError = [],
     st_NotModified = False, st_LastCounts = no_counts, st_SuccessfulRuns = 0, st_FailedRuns = 0\<rparr>"

definition sync_New :: "SyncConfig \<Rightarrow> Syncer" where
  "sync_New cfg =
     \<lparr>sy_interval = (if sc_Interval cfg \<le> 0 then defaultSyncInterval else sc_Interval cfg),
      sy_startupRetry = (if sc_StartupRetryInterval cfg \<le> 0 then defaultStartupRetryInterval
                         else sc_StartupRetryInterval cfg),
      sy_syncOnStartup = sc_SyncOnStartup cfg,
      sy_defaultCredentialID = trim_space (sc_DefaultCredentialID cfg),
      sy_status = zero_status, sy_lastComponentETag = [], sy_lastInterfaceETag = [],
      sy_ready = False\<rparr>"

section \<open>Endpoints from interface addresses\<close>

definition isNodeType :: "string \<Rightarrow> bool" where
  "isNodeType componentType = equal_fold (trim_space componentType) ''Node''"

definition isBMCType :: "string \<Rightarrow> bool" where
  "isBMCType componentType = equal_fold (trim_space componentType) ''BMC''"

definition parseIPAddrs :: "json option \<Rightarrow> string list" where
  "parseIPAddrs raw =
     (case raw of
        None \<Rightarrow> []
      | Some v \<Rightarrow>
          (case unmarshal_strings v of
             Some addresses \<Rightarrow> addresses
           | None \<Rightarrow>
               (case unmarshal_any_list v of
                  None \<Rightarrow> []
                | Some generic \<Rightarrow> List.map_filter as_string generic)))"

text \<open>\<open>url_parse s\<close> is the scheme and the host of \<open>url.Parse(s)\<close>, \<open>None\<close> its error.\<close>

definition normalizeEndpoint :: "(string \<Rightarrow> (string \<times> string) option) \<Rightarrow> string \<Rightarrow> string" where
  "normalizeEndpoint url_parse raw =
     (let trimmed = trim_space raw in
      if trimmed = [] then []
      else
        (let normalized = (if str_contains trimmed ''://'' then trimmed else ''https://'' @ trimmed)
         in case url_parse normalized of
              None \<Rightarrow> []
            | Some (scheme, host) \<Rightarrow>
                if host = [] then []
                else if scheme \<noteq> ''http'' \<and> scheme \<noteq> ''https'' then []
                else scheme @ ''://'' @ host))"

fun first_endpoint :: "(string \<Rightarrow> (string \<times> string) option) \<Rightarrow> string list \<Rightarrow> string" where
  "first_endpoint url_parse [] = []"
| "first_endpoint url_parse (address # addresses) =
     (let endpoint = normalizeEndpoint url_parse address in
      if endpoint \<noteq> [] then endpoint else first_endpoint url_parse addresses)"

definition endpointFromIPAddrs ::
    "(string \<Rightarrow> (string \<times> string) option) \<Rightarrow> json option \<Rightarrow> string" where
  "endpointFromIPAddrs url_parse ipAddrs = first_endpoint url_parse (parseIPAddrs ipAddrs)"

section \<open>The desired mappings\<close>

definition component_step ::
    "Component \<Rightarrow> string list \<times> (string \<times> string) list \<Rightarrow> string list \<times> (string \<times> string) list" where
  "component_step item acc =
     (case acc of (bmcIDs, nodeToBMC) \<Rightarrow>
        (let componentID = trim_space (cp_ID item) in
         if componentID = [] then (bmcIDs, nodeToBMC)
         else
           (let parentID = (case cp_ParentID item of None \<Rightarrow> [] | Some p \<Rightarrow> trim_space p);
                componentType = trim_space (cp_Type item);
                bmcIDs = (if isBMCType componentType then List.insert componentID bmcIDs else bmcIDs)
            in if isNodeType componentType \<and> parentID \<noteq> []
               then (List.insert parentID bmcIDs, AList.update componentID parentID nodeToBMC)
               else (bmcIDs, nodeToBMC))))"

definition interface_step ::
    "(string \<Rightarrow> (string \<times> string) option) \<Rightarrow> string list \<Rightarrow> EthernetInterface
     \<Rightarrow> (string \<times> string) list \<Rightarrow> (string \<times> string) list" where
  "interface_step url_parse bmcIDs item found =
     (let componentID = trim_space (ei_ComponentID item) in
      if componentID = [] then found
      else if componentID \<notin> set bmcIDs then found
      else if map_of found componentID \<noteq> None then found
      else
        (let endpoint = endpointFromIPAddrs url_parse (ei_IPAddrs item) in
         if endpoint \<noteq> [] then AList.update componentID endpoint found else found))"

definition zero_endpoint :: BMCEndpoint where
  "zero_endpoint = \<lparr>be_BMCID = [], be_Endpoint = [], be_CredentialID = [], be_Source = [],
     be_InsecureSkipVerify = False, be_LastSyncedAt = 0, be_CreatedAt = 0, be_UpdatedAt = 0\<rparr>"

definition map_get :: "'a \<Rightarrow> (string \<times> 'a) list \<Rightarrow> string \<Rightarrow> 'a" where
  "map_get z m k = (case map_of m k of None \<Rightarrow> z | Some v \<Rightarrow> v)"

definition desired_endpoint ::
    "(string \<times> string) list \<Rightarrow> (string \<times> BMCEndpoint) list \<Rightarrow> string \<Rightarrow> string \<Rightarrow> BMCEndpoint" where
  "desired_endpoint fromSMD existingByBMC defaultCredentialID bmcID =
     (let existing = map_get zero_endpoint existingByBMC bmcID;
          endpoint = trim_space (map_get [] fromSMD bmcID);
          endpoint = (if endpoint = [] then trim_space (be_Endpoint existing) else endpoint);
          credentialID = trim_space (be_CredentialID existing);
          credentialID = (if credentialID = [] then trim_space defaultCredentialID
                          else credentialID)
      in zero_endpoint\<lparr>be_BMCID := bmcID, be_Endpoint := endpoint, be_CredentialID := credentialID,
           be_InsecureSkipVerify := be_InsecureSkipVerify existing, be_Source := ''smd''\<rparr>)"

definition desired_link :: "(string \<times> string) list \<Rightarrow> string \<Rightarrow> NodeBMCLink" where
  "desired_link nodeToBMC nodeID =
     \<lparr>nl_NodeID = nodeID, nl_BMCID = map_get [] nodeToBMC nodeID, nl_Source = ''smd'',
      nl_LastSyncedAt = 0, nl_CreatedAt = 0, nl_UpdatedAt = 0\<rparr>"

definition buildDesiredMappings ::
    "(string \<Rightarrow> (string \<times> string) option) \<Rightarrow> Component ResourceList
     \<Rightarrow> EthernetInterface ResourceList \<Rightarrow> BMCEndpoint list \<Rightarrow> string
     \<Rightarrow> BMCEndpoint list \<times> NodeBMCLink list" where
  "buildDesiredMappings url_parse components interfaces existingEndpoints defaultCredentialID =
     (let (bmcIDs, nodeToBMC) = fold component_step (rl_Items components) ([], []);
          fromSMD = fold (interface_step url_parse bmcIDs) (rl_Items interfaces) [];
          existingByBMC = map_from (\<lambda>e. Some (trim_space (be_BMCID e), e)) existingEndpoints
      in (map (desired_endpoint fromSMD existingByBMC defaultCredentialID) (sort bmcIDs),
          map (desired_link nodeToBMC) (sorted_keys nodeToBMC)))"

section \<open>One cycle\<close>

text \<open>\<open>W/"%x"\<close> of the first eight bytes of the hash.\<close>

definition computeResourceListETag ::
    "('a ResourceList \<Rightarrow> go_error + string) \<Rightarrow> (string \<Rightarrow> nat list) \<Rightarrow> 'a ResourceList option
     \<Rightarrow> go_error + string" where
  "computeResourceListETag marshal sha256 l =
     (case l of
        None \<Rightarrow> Inl (ErrText ''resource list is nil'')
      | Some r \<Rightarrow>
          (case marshal r of
             Inl e \<Rightarrow> Inl (Wrap ''marshaling resource list: '' e [])
           | Inr encoded \<Rightarrow>
               Inr (''W/'' @ [CHR 0x22] @
                    concat (map (\<lambda>b. [hex_digit (b div 16), hex_digit (b mod 16)])
                      (take 8 (sha256 (encoded @ [CHR 0x0A])))) @ [CHR 0x22])))"

definition markFailure :: "go_error \<Rightarrow> Syncer \<Rightarrow> Syncer" where
  "markFailure err s =
     s\<lparr>sy_status := (sy_status s)\<lparr>st_FailedRuns := st_FailedRuns (sy_status s) + 1,
        st_LastError := err_msg err, st_NotModified := False, st_LastCounts := no_counts\<rparr>\<rparr>"

definition begin_sync :: "time \<Rightarrow> Syncer \<Rightarrow> Syncer" where
  "begin_sync startedAt s =
     s\<lparr>sy_status := (sy_status s)\<lparr>st_InProgress := True, st_LastAttemptAt := Some startedAt,
        st_LastError := [], st_NotModified := False\<rparr>\<rparr>"

definition end_sync :: "Syncer \<Rightarrow> Syncer" where
  "end_sync s = s\<lparr>sy_status := (sy_status s)\<lparr>st_InProgress := False\<rparr>\<rparr>"

text \<open>
  What a cycle meets: the answers of SMD (the first one may depend on the ETag that is sent, nil
  is "not modified"), the encodings, and the readings of the clock.
\<close>

record sync_env =
  se_components :: "string \<Rightarrow> go_error + Component ResourceList option"
  se_interfaces :: "go_error + EthernetInterface ResourceList option"
  se_refresh :: "go_error + Component ResourceList option"
  se_marshal_components :: "Component ResourceList \<Rightarrow> go_error + string"
  se_marshal_interfaces :: "EthernetInterface ResourceList \<Rightarrow> go_error + string"
  se_sha256 :: "string \<Rightarrow> nat list"
  se_url_parse :: "string \<Rightarrow> (string \<times> string) option"
  se_startedAt :: time
  se_syncedAt :: time
  se_completedAt :: time

type_synonym 'd list_endpoints = "'d \<Rightarrow> go_error + BMCEndpoint list"
type_synonym 'd replace_topology =
  "BMCEndpoint list \<Rightarrow> NodeBMCLink list \<Rightarrow> time \<Rightarrow> (MappingApplyCounts, 'd) tx"

definition sync_fail ::
    "string \<Rightarrow> go_error \<Rightarrow> Syncer \<Rightarrow> 'd \<Rightarrow> go_error option \<times> Syncer \<times> 'd" where
  "sync_fail msg err s d = (Some (Wrap msg err []), markFailure err s, d)"

definition sync_not_modified :: "time \<Rightarrow> Syncer \<Rightarrow> Syncer" where
  "sync_not_modified completedAt s =
     s\<lparr>sy_status := (sy_status s)\<lparr>st_LastSyncAt := Some completedAt, st_NotModified := True,
        st_LastCounts := no_counts, st_SuccessfulRuns := st_SuccessfulRuns (sy_status s) + 1\<rparr>\<rparr>"

definition sync_applied ::
    "time \<Rightarrow> string \<Rightarrow> string \<Rightarrow> MappingApplyCounts \<Rightarrow> Syncer \<Rightarrow> Syncer" where
  "sync_applied completedAt componentETag interfaceETag counts s =
     s\<lparr>sy_lastComponentETag := componentETag, sy_lastInterfaceETag := interfaceETag, sy_ready := True,
       sy_status := (sy_status s)\<lparr>st_LastSyncAt := Some completedAt,
         st_LastComponentETag := componentETag, st_LastInterfaceETag := interfaceETag,
         st_LastCounts := counts, st_NotModified := False,
         st_SuccessfulRuns := st_SuccessfulRuns (sy_status s) + 1, st_LastError := []\<rparr>\<rparr>"

text \<open>From the components on: hashing, building, replacing.\<close>

definition sync_reconcile ::
    "'d list_endpoints \<Rightarrow> 'd replace_topology \<Rightarrow> sync_env \<Rightarrow> Component ResourceList
     \<Rightarrow> EthernetInterface ResourceList \<Rightarrow> string \<Rightarrow> Syncer \<Rightarrow> 'd
     \<Rightarrow> go_error option \<times> Syncer \<times> 'd" where
  "sync_reconcile listEndpoints replace env components interfaces interfaceETag s d =
     (case computeResourceListETag (se_marshal_components env) (se_sha256 env) (Some components) of
        Inl e \<Rightarrow> sync_fail ''computing component etag: '' e s d
      | Inr componentETag \<Rightarrow>
     (case listEndpoints d of
        Inl e \<Rightarrow> sync_fail ''listing existing BMC endpoint mappings: '' e s d
      | Inr existingEndpoints \<Rightarrow>
          (let (desiredEndpoints, desiredLinks) =
                 buildDesiredMappings (se_url_parse env) components interfaces existingEndpoints
                   (sy_defaultCredentialID s)
           in case replace desiredEndpoints desiredLinks (se_syncedAt env) d of
                (Inl e, d') \<Rightarrow> sync_fail ''reconciling topology mappings: '' e s d'
              | (Inr counts, d') \<Rightarrow>
                  (None, sync_applied (se_completedAt env) componentETag interfaceETag counts s,
                   d'))))"

text \<open>Between the opening and the deferred status update.\<close>

definition sync_body ::
    "'d list_endpoints \<Rightarrow> 'd replace_topology \<Rightarrow> sync_env \<Rightarrow> Syncer \<Rightarrow> 'd
     \<Rightarrow> go_error option \<times> Syncer \<times> 'd" where
  "sync_body listEndpoints replace env s d =
     (case se_components env (sy_lastComponentETag s) of
        Inl e \<Rightarrow> sync_fail ''listing components from SMD: '' e s d
      | Inr components \<Rightarrow>
     (case se_interfaces env of
        Inl e \<Rightarrow> sync_fail ''listing ethernet interfaces from SMD: '' e s d
      | Inr interfaces \<Rightarrow>
     (case computeResourceListETag (se_marshal_interfaces env) (se_sha256 env) interfaces of
        Inl e \<Rightarrow> sync_fail ''computing interface etag: '' e s d
      | Inr interfaceETag \<Rightarrow>
          if components = None \<and> interfaceETag = sy_lastInterfaceETag s
          then (None, sync_not_modified (se_completedAt env) s, d)
          else
            (case components of
               Some cs \<Rightarrow>
                 sync_reconcile listEndpoints replace env cs (the interfaces) interfaceETag s d
             | None \<Rightarrow>
            (case se_refresh env of
               Inl e \<Rightarrow> sync_fail ''refreshing components from SMD: '' e s d
             | Inr None \<Rightarrow>
                 (Some (ErrText ''refreshing components from SMD: empty response''),
                  markFailure (ErrText ''component refresh unexpectedly returned nil'') s, d)
             | Inr (Some cs) \<Rightarrow>
                 sync_reconcile listEndpoints replace env cs (the interfaces) interfaceETag s d)))))"

definition SyncOnce ::
    "'d list_endpoints \<Rightarrow> 'd replace_topology \<Rightarrow> sync_env \<Rightarrow> Syncer \<Rightarrow> 'd
     \<Rightarrow> go_error option \<times> Syncer \<times> 'd" where
  "SyncOnce listEndpoints replace env s d =
     (case sync_body listEndpoints replace env (begin_sync (se_startedAt env) s) d of
        (r, s', d') \<Rightarrow> (r, end_sync s', d'))"

definition Syncer_Status :: "Syncer \<Rightarrow> Status" where
  "Syncer_Status s = (sy_status s)\<lparr>st_Ready := sy_ready s\<rparr>"

section \<open>The loop\<close>

definition adjustTickerInterval :: "Syncer \<Rightarrow> duration \<Rightarrow> duration" where
  "adjustTickerInterval s currentInterval =
     (let desiredInterval = (if sy_syncOnStartup s \<and> \<not> sy_ready s then sy_startupRetry s
                             else sy_interval s)
      in if desiredInterval \<noteq> currentInterval then desiredInterval else currentInterval)"

text \<open>
  \<open>Run\<close> as the sequence of the cycles its \<open>select\<close> starts, each by the ticker or by a \<open>Trigger\<close>:
  the results (a trigger receives its cycle's), the syncer, the store, the ticker's interval.
\<close>

fun sync_loop ::
    "'d list_endpoints \<Rightarrow> 'd replace_topology \<Rightarrow> sync_env list \<Rightarrow> Syncer \<times> 'd \<times> duration
     \<Rightarrow> go_error option list \<times> Syncer \<times> 'd \<times> duration" where
  "sync_loop l r [] (s, d, iv) = ([], s, d, iv)"
| "sync_loop l r (env # envs) (s, d, iv) =
     (case SyncOnce l r env s d of
        (e, s', d') \<Rightarrow>
          (case sync_loop l r envs (s', d', adjustTickerInterval s' iv) of
             (es, rest) \<Rightarrow> (e # es, rest)))"

definition sync_Run ::
    "'d list_endpoints \<Rightarrow> 'd replace_topology \<Rightarrow> sync_env \<Rightarrow> sync_env list \<Rightarrow> Syncer \<Rightarrow> 'd
     \<Rightarrow> go_error option list \<times> Syncer \<times> 'd \<times> duration" where
  "sync_Run l r env0 envs s d =
     (if sy_syncOnStartup s then
        (case SyncOnce l r env0 s d of
           (e, s', d') \<Rightarrow>
             (case sync_loop l r envs
                     (s', d', if \<not> sy_ready s' then sy_startupRetry s' else sy_interval s') of
                (es, rest) \<Rightarrow> (e # es, rest)))
      else sync_loop l r envs (s, d, sy_interval s))"

text \<open>
  \<open>Trigger\<close> hands the loop a channel and waits for the result of the cycle.  Its context may end
  before the loop takes the channel, or while the cycle runs; the cycle is then run all the same.
\<close>

datatype trigger_run = Untaken go_error | Taken sync_env | Left go_error sync_env

definition Trigger ::
    "'d list_endpoints \<Rightarrow> 'd replace_topology \<Rightarrow> trigger_run \<Rightarrow> Syncer \<Rightarrow> 'd
     \<Rightarrow> go_error option \<times> Syncer \<times> 'd" where
  "Trigger l r run s d =
     (case run of
        Untaken ctxErr \<Rightarrow> (Some ctxErr, s, d)
      | Taken env \<Rightarrow> SyncOnce l r env s d
      | Left ctxErr env \<Rightarrow> (case SyncOnce l r env s d of (_, s', d') \<Rightarrow> (Some ctxErr, s', d')))"


section \<open>What the mappings are\<close>

definition component_bmcs :: "Component \<Rightarrow> string set" where
  "component_bmcs c =
     (let i = trim_space (cp_ID c);
          p = (case cp_ParentID c of None \<Rightarrow> [] | Some p \<Rightarrow> trim_space p)
      in if i = [] then {}
         else (if isBMCType (cp_Type c) then {i} else {}) \<union>
              (if isNodeType (cp_Type c) \<and> p \<noteq> [] then {p} else {}))"

definition node_parent :: "Component \<Rightarrow> (string \<times> string) option" where
  "node_parent c =
     (let i = trim_space (cp_ID c);
          p = (case cp_ParentID c of None \<Rightarrow> [] | Some p \<Rightarrow> trim_space p)
      in if i \<noteq> [] \<and> isNodeType (cp_Type c) \<and> p \<noteq> [] then Some (i, p) else None)"

text \<open>The BMCs SMD knows, and the parent of a node: that of its last listed component.\<close>

definition smd_bmcs :: "Component list \<Rightarrow> string set" where
  "smd_bmcs cs = \<Union> (component_bmcs ` set cs)"

definition smd_parent :: "Component list \<Rightarrow> string \<Rightarrow> string option" where
  "smd_parent cs = map_of (map_from node_parent cs)"

lemma trimmed_type [simp]: "isBMCType (trim_space t) = isBMCType t" "isNodeType (trim_space t) = isNodeType t"
  by (simp_all add: isBMCType_def isNodeType_def)

lemma component_step_eq:
  "component_step c (b, m) =
   (fst (component_step c (b, m)),
    case node_parent c of None \<Rightarrow> m | Some (k, v) \<Rightarrow> AList.update k v m)"
  by (simp add: component_step_def node_parent_def Let_def)

lemma component_step_bmcs:
  "set (fst (component_step c (b, m))) = set b \<union> component_bmcs c"
  by (auto simp: component_step_def component_bmcs_def Let_def)

lemma component_step_distinct: "distinct b \<Longrightarrow> distinct (fst (component_step c (b, m)))"
  by (simp add: component_step_def Let_def)

lemma components_fold:
  "snd (fold component_step cs (b, m)) =
     fold (\<lambda>c m. case node_parent c of None \<Rightarrow> m | Some (k, v) \<Rightarrow> AList.update k v m) cs m \<and>
   set (fst (fold component_step cs (b, m))) = set b \<union> smd_bmcs cs \<and>
   (distinct b \<longrightarrow> distinct (fst (fold component_step cs (b, m))))"
proof (induction cs arbitrary: b m)
  case (Cons c cs)
  have eq: "fold component_step (c # cs) (b, m) =
      fold component_step cs (fst (component_step c (b, m)),
        case node_parent c of None \<Rightarrow> m | Some (k, v) \<Rightarrow> AList.update k v m)"
    by (subst (1) component_step_eq [symmetric]) simp
  show ?case
    unfolding eq using Cons.IH [of "fst (component_step c (b, m))"
        "case node_parent c of None \<Rightarrow> m | Some (k, v) \<Rightarrow> AList.update k v m"]
    by (auto simp: component_step_bmcs component_step_distinct smd_bmcs_def)
qed (simp add: smd_bmcs_def)

lemma components_result:
  assumes "fold component_step cs ([], []) = (bmcIDs, nodeToBMC)"
  shows "nodeToBMC = map_from node_parent cs" "set bmcIDs = smd_bmcs cs" "distinct bmcIDs"
  using components_fold [of cs "[]" "[]"] assms by (simp_all add: map_from_def)

lemma smd_bmcs_nonblank: "b \<in> smd_bmcs cs \<Longrightarrow> b \<noteq> [] \<and> trim_space b = b"
  by (auto simp: smd_bmcs_def component_bmcs_def Let_def split: if_splits option.splits)

lemma node_parent_nonblank:
  "node_parent c = Some (n, b) \<Longrightarrow>
   n \<noteq> [] \<and> trim_space n = n \<and> b \<noteq> [] \<and> trim_space b = b \<and> b \<in> component_bmcs c"
  by (auto simp: node_parent_def component_bmcs_def Let_def split: if_splits option.splits)

lemma smd_parent_SomeD:
  "smd_parent cs n = Some b \<Longrightarrow>
   n \<noteq> [] \<and> trim_space n = n \<and> b \<noteq> [] \<and> trim_space b = b \<and> b \<in> smd_bmcs cs"
  unfolding smd_parent_def smd_bmcs_def
  by (drule map_of_map_from_SomeD) (use node_parent_nonblank in blast)

text \<open>The address of a BMC: the first usable one of the first interface that has one.\<close>

definition smd_address ::
    "(string \<Rightarrow> (string \<times> string) option) \<Rightarrow> EthernetInterface list \<Rightarrow> string \<Rightarrow> string option" where
  "smd_address u ifs b =
     map_option (\<lambda>i. endpointFromIPAddrs u (ei_IPAddrs i))
       (find (\<lambda>i. trim_space (ei_ComponentID i) = b \<and> endpointFromIPAddrs u (ei_IPAddrs i) \<noteq> []) ifs)"

lemma interfaces_fold:
  "map_of (fold (interface_step u bs) ifs m) b =
   (case map_of m b of
      Some v \<Rightarrow> Some v
    | None \<Rightarrow> if b \<in> set bs \<and> b \<noteq> [] then smd_address u ifs b else None)"
proof (induction ifs arbitrary: m)
  case (Cons i ifs)
  have "map_of (interface_step u bs i m) b =
      (case map_of m b of
         Some v \<Rightarrow> Some v
       | None \<Rightarrow> if trim_space (ei_ComponentID i) = b \<and> b \<in> set bs \<and> b \<noteq> [] \<and>
                   endpointFromIPAddrs u (ei_IPAddrs i) \<noteq> []
                 then Some (endpointFromIPAddrs u (ei_IPAddrs i)) else None)"
    by (auto simp: interface_step_def Let_def update_conv' split: option.split)
  with Cons.IH [of "interface_step u bs i m"] show ?case
    by (auto simp: smd_address_def split: option.split)
qed (simp add: smd_address_def split: option.split)

definition is_endpoint :: "string \<Rightarrow> bool" where
  "is_endpoint a \<longleftrightarrow>
     (\<exists>scheme host. scheme \<in> {''http'', ''https''} \<and> host \<noteq> [] \<and> a = scheme @ ''://'' @ host)"

lemma normalizeEndpoint_shape: "normalizeEndpoint u s = [] \<or> is_endpoint (normalizeEndpoint u s)"
proof -
  let ?n = "if str_contains (trim_space s) ''://'' then trim_space s else ''https://'' @ trim_space s"
  show ?thesis
  proof (cases "u ?n")
    case None
    then show ?thesis unfolding normalizeEndpoint_def Let_def by (simp only: option.case if_cancel) simp
  next
    case (Some r)
    obtain scheme host where r: "r = (scheme, host)" by (cases r)
    have "normalizeEndpoint u s =
        (if trim_space s = [] \<or> host = [] \<or> scheme \<noteq> ''http'' \<and> scheme \<noteq> ''https'' then []
         else scheme @ ''://'' @ host)"
      unfolding normalizeEndpoint_def Let_def by (simp only: Some r option.case prod.case) simp
    then show ?thesis by (metis insertCI is_endpoint_def)
  qed
qed

lemma first_endpoint_shape: "first_endpoint u as = [] \<or> is_endpoint (first_endpoint u as)"
proof (induction as)
  case (Cons x as)
  with normalizeEndpoint_shape [of u x] show ?case
    by (simp only: first_endpoint.simps Let_def) (cases "normalizeEndpoint u x = []"; simp)
qed simp

lemma smd_address_shape: "smd_address u ifs b = Some a \<Longrightarrow> is_endpoint a"
  using first_endpoint_shape
  by (auto simp: smd_address_def endpointFromIPAddrs_def find_Some_iff)

text \<open>The existing row of a BMC, by its trimmed identifier; the last one counts.\<close>

definition existing_row :: "BMCEndpoint list \<Rightarrow> string \<Rightarrow> BMCEndpoint option" where
  "existing_row es b = map_of (map_from (\<lambda>e. Some (trim_space (be_BMCID e), e)) es) b"

text \<open>
  What a reconciliation wants for a BMC: SMD's address, else the one on record; the credential on
  record, else the default; the verification flag on record.
\<close>

definition wanted_endpoint ::
    "(string \<Rightarrow> (string \<times> string) option) \<Rightarrow> EthernetInterface list \<Rightarrow> BMCEndpoint option \<Rightarrow> string
     \<Rightarrow> string \<Rightarrow> string \<times> string \<times> bool" where
  "wanted_endpoint u ifs old dflt b =
     (case smd_address u ifs b of
        Some a \<Rightarrow> trim_space a
      | None \<Rightarrow> (case old of None \<Rightarrow> [] | Some e \<Rightarrow> trim_space (be_Endpoint e)),
      case old of
        None \<Rightarrow> trim_space dflt
      | Some e \<Rightarrow> if trim_space (be_CredentialID e) = [] then trim_space dflt
                  else trim_space (be_CredentialID e),
      case old of None \<Rightarrow> False | Some e \<Rightarrow> be_InsecureSkipVerify e)"

abbreviation endpoint_view where
  "endpoint_view e \<equiv> (be_Endpoint e, be_CredentialID e, be_InsecureSkipVerify e)"

lemma trim_address: "smd_address u ifs b = Some a \<Longrightarrow> trim_space a \<noteq> []"
proof -
  assume a: "smd_address u ifs b = Some a"
  then have "CHR ''h'' \<in> set a" using smd_address_shape [OF a] by (auto simp: is_endpoint_def)
  then have "CHR ''h'' \<in> set (trim_space a)" by (rule trim_space_keeps) (simp add: plain_char_def)
  then show "trim_space a \<noteq> []" by auto
qed

lemma build_unfold:
  assumes "buildDesiredMappings u cs ifs old dflt = (es, ls)"
  obtains bmcIDs where "set bmcIDs = smd_bmcs (rl_Items cs)" "distinct bmcIDs"
    "es = map (desired_endpoint (fold (interface_step u bmcIDs) (rl_Items ifs) [])
        (map_from (\<lambda>e. Some (trim_space (be_BMCID e), e)) old) dflt) (sort bmcIDs)"
    "ls = map (desired_link (map_from node_parent (rl_Items cs)))
        (sorted_keys (map_from node_parent (rl_Items cs)))"
proof -
  obtain bmcIDs nodeToBMC where f: "fold component_step (rl_Items cs) ([], []) = (bmcIDs, nodeToBMC)"
    by fastforce
  with components_result [OF f] assms show ?thesis
    by (intro that [of bmcIDs]) (auto simp: buildDesiredMappings_def Let_def)
qed

lemma desired_endpoint_simps [simp]:
  "be_BMCID (desired_endpoint f ex dflt b) = b" "be_Source (desired_endpoint f ex dflt b) = ''smd''"
  by (simp_all add: desired_endpoint_def Let_def)

lemma desired_endpoint_view:
  assumes "b \<in> set bs" "b \<noteq> []"
  shows "endpoint_view (desired_endpoint (fold (interface_step u bs) ifs [])
      (map_from (\<lambda>e. Some (trim_space (be_BMCID e), e)) old) dflt b) =
    wanted_endpoint u ifs (existing_row old b) dflt b"
proof -
  have "map_of (fold (interface_step u bs) ifs []) b = smd_address u ifs b"
    using assms by (simp add: interfaces_fold)
  then show ?thesis
    using trim_address [of u ifs b]
    by (auto simp: desired_endpoint_def Let_def map_get_def wanted_endpoint_def existing_row_def
        zero_endpoint_def split: option.split)
qed

text \<open>
  The desired endpoints are one per BMC that SMD knows, in order, the desired links one per node
  with a parent; every link leads to a desired endpoint, and what a BMC gets is
  \<open>wanted_endpoint\<close>.
\<close>

lemma buildDesiredMappings_result:
  assumes "buildDesiredMappings u cs ifs old dflt = (es, ls)"
  shows "set (map be_BMCID es) = smd_bmcs (rl_Items cs)" "sorted (map be_BMCID es)"
    "distinct (map be_BMCID es)" "sorted (map nl_NodeID ls)" "distinct (map nl_NodeID ls)"
    "set (map (\<lambda>l. (nl_NodeID l, nl_BMCID l)) ls) =
       {(n, b). smd_parent (rl_Items cs) n = Some b}"
    "\<And>e. e \<in> set es \<Longrightarrow> be_Source e = ''smd'' \<and> endpoint_view e =
       wanted_endpoint u (rl_Items ifs) (existing_row old (be_BMCID e)) dflt (be_BMCID e)"
    "\<And>l. l \<in> set ls \<Longrightarrow> nl_Source l = ''smd''"
proof -
  from build_unfold [OF assms] obtain bmcIDs where b: "set bmcIDs = smd_bmcs (rl_Items cs)"
    "distinct bmcIDs"
    "es = map (desired_endpoint (fold (interface_step u bmcIDs) (rl_Items ifs) [])
        (map_from (\<lambda>e. Some (trim_space (be_BMCID e), e)) old) dflt) (sort bmcIDs)"
    "ls = map (desired_link (map_from node_parent (rl_Items cs)))
        (sorted_keys (map_from node_parent (rl_Items cs)))" .
  let ?m = "map_from node_parent (rl_Items cs)"
  have e: "map be_BMCID es = sort bmcIDs" by (simp add: b comp_def)
  then show "set (map be_BMCID es) = smd_bmcs (rl_Items cs)" "sorted (map be_BMCID es)"
    "distinct (map be_BMCID es)" using b by simp_all
  have l: "map nl_NodeID ls = sorted_keys ?m" by (simp add: b desired_link_def comp_def)
  then show "sorted (map nl_NodeID ls)" "distinct (map nl_NodeID ls)"
    by (simp_all add: distinct_sorted_keys)
  have "set (map (\<lambda>l. (nl_NodeID l, nl_BMCID l)) ls) =
      (\<lambda>n. (n, map_get [] ?m n)) ` fst ` set ?m"
    by (simp add: b desired_link_def comp_def image_image)
  also have "\<dots> = {(n, b). smd_parent (rl_Items cs) n = Some b}"
    unfolding smd_parent_def dom_map_of_conv_image_fst [symmetric]
    by (auto simp: map_get_def dom_def)
  finally show "set (map (\<lambda>l. (nl_NodeID l, nl_BMCID l)) ls) =
      {(n, b). smd_parent (rl_Items cs) n = Some b}" .
  show "be_Source x = ''smd'' \<and> endpoint_view x =
      wanted_endpoint u (rl_Items ifs) (existing_row old (be_BMCID x)) dflt (be_BMCID x)"
    if "x \<in> set es" for x
  proof -
    from that b(3) obtain k where k: "k \<in> set bmcIDs"
      "x = desired_endpoint (fold (interface_step u bmcIDs) (rl_Items ifs) [])
        (map_from (\<lambda>e. Some (trim_space (be_BMCID e), e)) old) dflt k" by auto
    then have "k \<noteq> []" using smd_bmcs_nonblank b(1) by blast
    with k desired_endpoint_view [of k bmcIDs] show ?thesis by simp
  qed
  show "nl_Source x = ''smd''" if "x \<in> set ls" for x
    using that b(4) by (auto simp: desired_link_def)
qed

section \<open>The store a syncer needs\<close>

definition canonical :: "BMCEndpoint list \<Rightarrow> NodeBMCLink list \<Rightarrow> bool" where
  "canonical es ls \<longleftrightarrow>
     normalizeEndpoints es = es \<and> normalizeLinks ls = ls \<and>
     nl_BMCID ` set ls \<subseteq> be_BMCID ` set es"

lemma buildDesiredMappings_canonical:
  assumes "buildDesiredMappings u cs ifs old dflt = (es, ls)"
  shows "canonical es ls"
proof -
  note r = buildDesiredMappings_result [OF assms]
  have e: "clean_endpoint e = Some (be_BMCID e, e)" if "e \<in> set es" for e
  proof -
    have "be_BMCID e \<in> smd_bmcs (rl_Items cs)" using r(1) that by auto
    then have "be_BMCID e \<noteq> []" "trim_space (be_BMCID e) = be_BMCID e" using smd_bmcs_nonblank by blast+
    moreover have "trim_space (be_Endpoint e) = be_Endpoint e"
      "trim_space (be_CredentialID e) = be_CredentialID e" "trim_space (be_Source e) = ''smd''"
      using r(7) [OF that] by (auto simp: wanted_endpoint_def trim_space_plain plain_ends_def
          plain_char_def split: option.splits)
    moreover have "be_Source e = ''smd''" using r(7) [OF that] by simp
    ultimately show ?thesis by (simp add: clean_endpoint_def Let_def)
  qed
  have p: "(nl_NodeID l, nl_BMCID l) \<in> {(n, b). smd_parent (rl_Items cs) n = Some b}"
    if "l \<in> set ls" for l using r(6) that by auto
  have l: "clean_link l = Some (nl_NodeID l, l)" if "l \<in> set ls" for l
    using smd_parent_SomeD [of "rl_Items cs" "nl_NodeID l" "nl_BMCID l"] p [OF that] r(8) [OF that]
    by (simp add: clean_link_def Let_def trim_space_plain plain_ends_def plain_char_def)
  have "nl_BMCID ` set ls \<subseteq> smd_bmcs (rl_Items cs)"
    using p smd_parent_SomeD by fastforce
  moreover have "normalizeEndpoints es = es"
    unfolding normalizeEndpoints_def by (rule sorted_values_fixed [OF e r(3,2)])
  moreover have "normalizeLinks ls = ls"
    unfolding normalizeLinks_def by (rule sorted_values_fixed [OF l r(5,4)])
  ultimately show ?thesis using r(1) by (simp add: canonical_def)
qed

lemma buildDesiredMappings_rows:
  assumes "buildDesiredMappings u cs ifs old dflt = (es, ls)"
  shows "map_option endpoint_view (row_of be_BMCID es b) =
      (if b \<in> smd_bmcs (rl_Items cs)
       then Some (wanted_endpoint u (rl_Items ifs) (existing_row old b) dflt b) else None)"
    and "map_option nl_BMCID (row_of nl_NodeID ls n) = smd_parent (rl_Items cs) n"
proof -
  note r = buildDesiredMappings_result [OF assms]
  show "map_option endpoint_view (row_of be_BMCID es b) =
      (if b \<in> smd_bmcs (rl_Items cs)
       then Some (wanted_endpoint u (rl_Items ifs) (existing_row old b) dflt b) else None)"
  proof (cases "row_of be_BMCID es b")
    case None
    with r(1) show ?thesis by (auto simp: row_of_None)
  next
    case (Some e)
    then have "e \<in> set es" "be_BMCID e = b" by (blast dest: row_of_SomeD)+
    with r(1) r(7) [of e] Some show ?thesis by auto
  qed
  show "map_option nl_BMCID (row_of nl_NodeID ls n) = smd_parent (rl_Items cs) n"
  proof (cases "row_of nl_NodeID ls n")
    case None
    then have "n \<notin> nl_NodeID ` set ls" by (simp add: row_of_None)
    then have "(n, b) \<notin> set (map (\<lambda>l. (nl_NodeID l, nl_BMCID l)) ls)" for b by auto
    then have "smd_parent (rl_Items cs) n \<noteq> Some b" for b unfolding r(6) by simp
    with None show ?thesis by (metis not_Some_eq option.map(1))
  next
    case (Some l)
    then have "l \<in> set ls" "nl_NodeID l = n" by (blast dest: row_of_SomeD)+
    then have "(n, nl_BMCID l) \<in> set (map (\<lambda>l. (nl_NodeID l, nl_BMCID l)) ls)" by auto
    then have "smd_parent (rl_Items cs) n = Some (nl_BMCID l)" unfolding r(6) by simp
    with Some show ?thesis by simp
  qed
qed

text \<open>What a reconciliation leaves of an old topology, given what SMD answered.\<close>

definition synced ::
    "sync_env \<Rightarrow> Component list \<Rightarrow> EthernetInterface list \<Rightarrow> string
     \<Rightarrow> (string \<Rightarrow> BMCEndpoint option) \<Rightarrow> (string \<Rightarrow> BMCEndpoint option)
     \<Rightarrow> (string \<Rightarrow> NodeBMCLink option) \<Rightarrow> bool" where
  "synced env cs ifs dflt old new_endpoints new_links \<longleftrightarrow>
     (\<forall>b. map_option endpoint_view (new_endpoints b) =
        (if b \<in> smd_bmcs cs then Some (wanted_endpoint (se_url_parse env) ifs (old b) dflt b)
         else None)) \<and>
     (\<forall>n. map_option nl_BMCID (new_links n) = smd_parent cs n)"

text \<open>What SMD answered in a cycle that goes on to reconcile.\<close>

definition smd_answers ::
    "sync_env \<Rightarrow> string \<Rightarrow> Component ResourceList \<Rightarrow> EthernetInterface ResourceList \<Rightarrow> bool" where
  "smd_answers env etag cs ifs \<longleftrightarrow>
     (se_components env etag = Inr (Some cs) \<or>
      se_components env etag = Inr None \<and> se_refresh env = Inr (Some cs)) \<and>
     se_interfaces env = Inr (Some ifs)"

lemma computeResourceListETag_Inr:
  "computeResourceListETag m h l = Inr t \<Longrightarrow> t \<noteq> [] \<and> (\<exists>r. l = Some r)"
  by (auto simp: computeResourceListETag_def split: option.splits sum.splits)

text \<open>The ways through a cycle.\<close>

lemma sync_body_cases:
  assumes "sync_body l rp env s d = (r, s', d')"
  obtains (fail) "r \<noteq> None" "d' = d" "\<exists>e. s' = markFailure e s"
  | (same) "r = None" "d' = d" "s' = sync_not_modified (se_completedAt env) s"
      "sy_lastInterfaceETag s \<noteq> []"
  | (go) cs ifs itag where "smd_answers env (sy_lastComponentETag s) cs ifs" "itag \<noteq> []"
      "sync_reconcile l rp env cs ifs itag s d = (r, s', d')"
proof (cases "se_components env (sy_lastComponentETag s)")
  case (Inl e)
  then show thesis using assms by (intro fail) (auto simp: sync_body_def sync_fail_def)
next
  case c: (Inr components)
  show thesis
  proof (cases "se_interfaces env")
    case (Inl e)
    then show thesis using assms c by (intro fail) (auto simp: sync_body_def sync_fail_def)
  next
    case i: (Inr interfaces)
    show thesis
    proof (cases "computeResourceListETag (se_marshal_interfaces env) (se_sha256 env) interfaces")
      case (Inl e)
      then show thesis using assms c i by (intro fail) (auto simp: sync_body_def sync_fail_def)
    next
      case t: (Inr itag)
      then obtain ifs where ifs: "interfaces = Some ifs" "itag \<noteq> []"
        using computeResourceListETag_Inr by blast
      note run = assms [unfolded sync_body_def c i t sum.case]
      show thesis
      proof (cases components)
        case (Some cs)
        then show thesis using run c i ifs by (intro go [of cs ifs itag]) (simp_all add: smd_answers_def)
      next
        case None
        show thesis
        proof (cases "itag = sy_lastInterfaceETag s")
          case True
          then show thesis using run None ifs by (intro same) simp_all
        next
          case False
          then have run: "(case se_refresh env of
               Inl e \<Rightarrow> sync_fail ''refreshing components from SMD: '' e s d
             | Inr None \<Rightarrow> (Some (ErrText ''refreshing components from SMD: empty response''),
                  markFailure (ErrText ''component refresh unexpectedly returned nil'') s, d)
             | Inr (Some cs) \<Rightarrow> sync_reconcile l rp env cs (the interfaces) itag s d) = (r, s', d')"
            using run None by (simp split: sum.split option.split)
          show thesis
          proof (cases "se_refresh env")
            case (Inl e)
            then show thesis using run by (intro fail) (auto simp: sync_fail_def)
          next
            case f: (Inr fresh)
            show thesis
            proof (cases fresh)
              case None
              then show thesis using run f by (intro fail) auto
            next
              case (Some cs)
              then show thesis using run f c \<open>components = None\<close> i ifs
                by (intro go [of cs ifs itag]) (simp_all add: smd_answers_def)
            qed
          qed
        qed
      qed
    qed
  qed
qed

locale topology_store =
  fixes listEndpoints :: "'d list_endpoints"
    and replace :: "'d replace_topology"
    and ok :: "'d \<Rightarrow> bool"
    and endpoint_of :: "'d \<Rightarrow> string \<Rightarrow> BMCEndpoint option"
    and link_of :: "'d \<Rightarrow> string \<Rightarrow> NodeBMCLink option"
  assumes list_rows: "ok d \<Longrightarrow> listEndpoints d = Inr es \<Longrightarrow> existing_row es b = endpoint_of d b"
    and replace_error: "replace es ls t d = (Inl e, d') \<Longrightarrow> d' = d"
    and replace_ok: "ok d \<Longrightarrow> canonical es ls \<Longrightarrow> replace es ls t d = (Inr c, d') \<Longrightarrow> ok d'"
    and replace_endpoints: "ok d \<Longrightarrow> canonical es ls \<Longrightarrow> replace es ls t d = (Inr c, d') \<Longrightarrow>
      map_option endpoint_view (endpoint_of d' b) = map_option endpoint_view (row_of be_BMCID es b)"
    and replace_links: "ok d \<Longrightarrow> canonical es ls \<Longrightarrow> replace es ls t d = (Inr c, d') \<Longrightarrow>
      map_option nl_BMCID (link_of d' n) = map_option nl_BMCID (row_of nl_NodeID ls n)"
begin

lemma reconcile_result:
  assumes ok: "ok d"
    and run: "sync_reconcile listEndpoints replace env cs ifs itag s d = (r, s', d')"
  shows "case r of
      Some e \<Rightarrow> d' = d \<and> (\<exists>e. s' = markFailure e s)
    | None \<Rightarrow> ok d' \<and>
        (\<exists>ctag c. s' = sync_applied (se_completedAt env) ctag itag c s) \<and>
        synced env (rl_Items cs) (rl_Items ifs) (sy_defaultCredentialID s)
          (endpoint_of d) (endpoint_of d') (link_of d')"
proof (cases r)
  case (Some e)
  with run show ?thesis
    by (auto simp: sync_reconcile_def sync_fail_def split: sum.splits prod.splits
        dest: replace_error)
next
  case None
  with run obtain ctag old es ls c where
    l: "listEndpoints d = Inr old" and
    b: "buildDesiredMappings (se_url_parse env) cs ifs old (sy_defaultCredentialID s) = (es, ls)" and
    p: "replace es ls (se_syncedAt env) d = (Inr c, d')" and
    s: "s' = sync_applied (se_completedAt env) ctag itag c s"
    by (auto simp: sync_reconcile_def sync_fail_def split: sum.splits prod.splits)
  note can = buildDesiredMappings_canonical [OF b]
  have "existing_row old k = endpoint_of d k" for k by (rule list_rows [OF ok l])
  then have "synced env (rl_Items cs) (rl_Items ifs) (sy_defaultCredentialID s)
      (endpoint_of d) (endpoint_of d') (link_of d')"
    unfolding synced_def
    by (simp add: replace_endpoints [OF ok can p] replace_links [OF ok can p]
        buildDesiredMappings_rows [OF b])
  with None s replace_ok [OF ok can p] show ?thesis by auto
qed

lemma body_result:
  assumes ok: "ok d" and run: "sync_body listEndpoints replace env s d = (r, s', d')"
  shows "case r of
      Some e \<Rightarrow> d' = d \<and> (\<exists>e. s' = markFailure e s)
    | None \<Rightarrow> ok d' \<and>
        (d' = d \<and> sy_lastInterfaceETag s \<noteq> [] \<and> s' = sync_not_modified (se_completedAt env) s \<or>
         (\<exists>ctag itag c cs ifs. s' = sync_applied (se_completedAt env) ctag itag c s \<and> itag \<noteq> [] \<and>
           smd_answers env (sy_lastComponentETag s) cs ifs \<and>
           synced env (rl_Items cs) (rl_Items ifs) (sy_defaultCredentialID s)
             (endpoint_of d) (endpoint_of d') (link_of d')))"
  using run
proof (cases rule: sync_body_cases)
  case fail
  then show ?thesis by (cases r) auto
next
  case (go cs ifs itag)
  with reconcile_result [OF ok go(3)] show ?thesis by (cases r) auto
qed (use ok in auto)

end

section \<open>The status of the syncer\<close>

lemma reconcile_outcome:
  "sync_reconcile l rp env cs ifs itag s d = (r, s', d') \<Longrightarrow>
   (r \<noteq> None \<and> (\<exists>e. s' = markFailure e s)) \<or>
   (r = None \<and> (\<exists>ctag c. s' = sync_applied (se_completedAt env) ctag itag c s))"
  by (auto simp: sync_reconcile_def sync_fail_def split: sum.splits prod.splits)

text \<open>
  Between two cycles: ready exactly after a success, no ETag to send before, the status shows
  the ETags that will be sent.
\<close>

definition syncer_ok :: "Syncer \<Rightarrow> bool" where
  "syncer_ok s \<longleftrightarrow>
     \<not> st_InProgress (sy_status s) \<and> 0 \<le> st_SuccessfulRuns (sy_status s) \<and>
     (sy_ready s \<longleftrightarrow> 0 < st_SuccessfulRuns (sy_status s)) \<and>
     (\<not> sy_ready s \<longrightarrow> sy_lastComponentETag s = [] \<and> sy_lastInterfaceETag s = []) \<and>
     st_LastComponentETag (sy_status s) = sy_lastComponentETag s \<and>
     st_LastInterfaceETag (sy_status s) = sy_lastInterfaceETag s \<and>
     0 < sy_interval s \<and> 0 < sy_startupRetry s"

lemmas sync_update_defs = begin_sync_def end_sync_def markFailure_def sync_not_modified_def
  sync_applied_def

lemma SyncOnce_status:
  assumes "SyncOnce l rp env s d = (r, s', d')" "syncer_ok s"
  shows "syncer_ok s' \<and> sy_syncOnStartup s' = sy_syncOnStartup s \<and>
    st_SuccessfulRuns (sy_status s') =
      st_SuccessfulRuns (sy_status s) + (if r = None then 1 else 0) \<and>
    st_FailedRuns (sy_status s') = st_FailedRuns (sy_status s) + (if r = None then 0 else 1)"
proof -
  let ?b = "begin_sync (se_startedAt env) s"
  obtain t where body: "sync_body l rp env ?b d = (r, t, d')" and s': "s' = end_sync t"
    using assms(1) by (auto simp: SyncOnce_def split: prod.splits)
  have fail: ?thesis if "r \<noteq> None" "t = markFailure e ?b" for e
    using that s' assms(2) by (simp add: sync_update_defs syncer_ok_def)
  have app: ?thesis if "r = None" "t = sync_applied n ctag itag c ?b" for n ctag itag c
    using that s' assms(2) by (simp add: sync_update_defs syncer_ok_def)
  from body show ?thesis
  proof (cases rule: sync_body_cases)
    case same
    with s' assms(2) show ?thesis by (auto simp: sync_update_defs syncer_ok_def)
  next
    case (go cs ifs itag)
    from reconcile_outcome [OF go(3)] fail app show ?thesis by blast
  qed (use fail in blast)
qed

definition ticker_interval :: "Syncer \<Rightarrow> duration" where
  "ticker_interval s =
     (if sy_syncOnStartup s \<and> \<not> sy_ready s then sy_startupRetry s else sy_interval s)"

lemma adjustTickerInterval_eq: "adjustTickerInterval s iv = ticker_interval s"
  by (simp add: adjustTickerInterval_def ticker_interval_def Let_def)

lemma sync_loop_status:
  assumes "sync_loop l rp envs (s, d, iv) = (rs, s', d', iv')" "syncer_ok s" "iv = ticker_interval s"
  shows "syncer_ok s' \<and> iv' = ticker_interval s' \<and> length rs = length envs \<and>
    st_SuccessfulRuns (sy_status s') =
      st_SuccessfulRuns (sy_status s) + int (length (filter (\<lambda>r. r = None) rs)) \<and>
    st_FailedRuns (sy_status s') =
      st_FailedRuns (sy_status s) + int (length (filter (\<lambda>r. r \<noteq> None) rs))"
  using assms
proof (induction envs arbitrary: s d iv rs)
  case (Cons env envs)
  obtain e s1 d1 where one: "SyncOnce l rp env s d = (e, s1, d1)" by (metis prod_cases3)
  obtain es where rest: "sync_loop l rp envs (s1, d1, ticker_interval s1) = (es, s', d', iv')"
    and rs: "rs = e # es"
    using Cons.prems(1) one by (auto simp: adjustTickerInterval_eq split: prod.splits)
  note st = SyncOnce_status [OF one Cons.prems(2)]
  from Cons.IH [OF rest _ refl] st rs show ?case by simp
qed simp

lemma sync_New_ok: "syncer_ok (sync_New cfg)"
  by (simp add: syncer_ok_def sync_New_def zero_status_def defaultSyncInterval_def
      defaultStartupRetryInterval_def go_defs)

section \<open>The PostgreSQL store\<close>

definition topo_ok :: "map_tables \<Rightarrow> bool" where
  "topo_ok t \<longleftrightarrow>
     map_tables_ok t \<and> (\<forall>e \<in> set (t_endpoints t). trim_space (be_BMCID e) = be_BMCID e)"

lemma existing_row_table:
  assumes "topo_ok t"
  shows "existing_row (sort_key be_BMCID (t_endpoints t)) b = fst (topology t) b"
proof -
  let ?f = "\<lambda>e. Some (trim_space (be_BMCID e), e)" and ?es = "sort_key be_BMCID (t_endpoints t)"
  have u: "unique_keys be_BMCID (t_endpoints t)"
    using assms by (simp add: topo_ok_def map_tables_ok_def)
  show ?thesis
  proof (cases "map_of (map_from ?f ?es) b")
    case None
    then have "e \<in> set (t_endpoints t) \<Longrightarrow> be_BMCID e \<noteq> b" for e
      using map_of_map_from_NoneD [OF None, of e e] assms by (auto simp: topo_ok_def)
    then have "row_of be_BMCID (t_endpoints t) b = None" by (auto simp: row_of_None)
    then show ?thesis using None by (simp add: existing_row_def topology_def)
  next
    case (Some e)
    from map_of_map_from_SomeD [OF this] have "e \<in> set (t_endpoints t)" "be_BMCID e = b"
      using assms by (auto simp: topo_ok_def)
    then have "row_of be_BMCID (t_endpoints t) b = Some e" using row_of_iff [OF u] by simp
    with Some show ?thesis by (simp only: existing_row_def topology_def fst_conv)
  qed
qed

lemma clean_endpoint_trimmed: "clean_endpoint y = Some (k, x) \<Longrightarrow> trim_space (be_BMCID x) = be_BMCID x"
  by (auto simp: clean_endpoint_def Let_def split: if_splits)

interpretation pg_topology: topology_store "ListBMCEndpoints p" "ReplaceTopologyMappings q" topo_ok
  "\<lambda>t. fst (topology t)" "\<lambda>t. snd (topology t)"
proof
  fix d es b
  assume ok: "topo_ok d" and run: "ListBMCEndpoints p d = Inr es"
  then have "es = sort_key be_BMCID (t_endpoints d)"
    by (auto simp: ListBMCEndpoints_def split: option.splits dest: read_rows_Inr)
  with ok show "existing_row es b = fst (topology d) b" by (simp add: existing_row_table)
next
  fix es ls t d e d'
  assume "ReplaceTopologyMappings q es ls t d = (Inl e, d')"
  then show "d' = d" using with_tx_Inl by (fastforce simp: ReplaceTopologyMappings_def Let_def)
next
  fix d es ls t c d'
  assume ok: "topo_ok d" and can: "canonical es ls"
    and run: "ReplaceTopologyMappings q es ls t d = (Inr c, d')"
  have ok': "map_tables_ok d" using ok by (simp add: topo_ok_def)
  have n: "normalizeEndpoints es = es" "normalizeLinks ls = ls" using can by (simp_all add: canonical_def)
  note top = ReplaceTopologyMappings_topology [OF ok' run, unfolded n]
  show "map_option endpoint_view (fst (topology d') b) =
      map_option endpoint_view (row_of be_BMCID es b)" for b
    by (auto simp: top replaced_topology_def endpoint_row_def endpoint_conflict_def
        split: option.split)
  have fk: "row_of be_BMCID es (nl_BMCID l) \<noteq> None" if "row_of nl_NodeID ls k = Some l" for k l
    using that can by (auto simp: row_of_None canonical_def dest: row_of_SomeD)
  show "map_option nl_BMCID (snd (topology d') k) = map_option nl_BMCID (row_of nl_NodeID ls k)" for k
    using fk [of k] by (auto simp: top replaced_topology_def link_row_def link_conflict_def
        split: option.split)
  have "trim_space (be_BMCID e) = be_BMCID e" if e: "e \<in> set (t_endpoints d')" for e
  proof -
    have "be_BMCID e \<in> be_BMCID ` set es"
      using e ReplaceTopologyMappings_tables [OF run] n by auto
    then obtain x where x: "x \<in> set es" "be_BMCID x = be_BMCID e" by auto
    then have "x \<in> set (normalizeEndpoints es)" using n by simp
    then obtain k y where "clean_endpoint y = Some (k, x)"
      unfolding normalizeEndpoints_def set_sorted_values using map_of_map_from_SomeD by fastforce
    then show ?thesis using x clean_endpoint_trimmed by metis
  qed
  with ReplaceTopologyMappings_ok [OF ok' run] show "topo_ok d'" by (simp add: topo_ok_def)
qed

section \<open>Properties\<close>

lemma SyncOnce_pg:
  assumes "topo_ok t"
    and "SyncOnce (ListBMCEndpoints p) (ReplaceTopologyMappings q) env s t = (r, s', t')"
  shows "case r of
      Some e \<Rightarrow> t' = t \<and> sy_ready s' = sy_ready s \<and>
        sy_lastComponentETag s' = sy_lastComponentETag s \<and>
        sy_lastInterfaceETag s' = sy_lastInterfaceETag s
    | None \<Rightarrow> topo_ok t' \<and>
        (if st_NotModified (sy_status s') then t' = t \<and> sy_lastInterfaceETag s \<noteq> []
         else sy_ready s' \<and> (\<exists>cs ifs. smd_answers env (sy_lastComponentETag s) cs ifs \<and>
           synced env (rl_Items cs) (rl_Items ifs) (sy_defaultCredentialID s)
             (fst (topology t)) (fst (topology t')) (snd (topology t'))))"
proof -
  let ?b = "begin_sync (se_startedAt env) s"
  obtain u where body: "sync_body (ListBMCEndpoints p) (ReplaceTopologyMappings q) env ?b t = (r, u, t')"
    and s': "s' = end_sync u"
    using assms(2) by (auto simp: SyncOnce_def split: prod.splits)
  have b: "sy_lastComponentETag ?b = sy_lastComponentETag s" "sy_lastInterfaceETag ?b = sy_lastInterfaceETag s"
    "sy_defaultCredentialID ?b = sy_defaultCredentialID s" "sy_ready ?b = sy_ready s"
    by (simp_all add: begin_sync_def)
  note res = pg_topology.body_result [OF assms(1) body, unfolded b]
  show ?thesis
  proof (cases r)
    case (Some e)
    with res s' show ?thesis by (auto simp: end_sync_def markFailure_def begin_sync_def)
  next
    case None
    have end_simps: "st_NotModified (sy_status (end_sync (sync_not_modified n x)))"
      "\<not> st_NotModified (sy_status (end_sync (sync_applied n ct it c x)))"
      "sy_ready (end_sync (sync_applied n ct it c x))" for n x ct it c
      by (simp_all add: end_sync_def sync_not_modified_def sync_applied_def)
    from None res have "topo_ok t'" by simp
    moreover from None res consider
        "t' = t" "sy_lastInterfaceETag s \<noteq> []" "u = sync_not_modified (se_completedAt env) ?b"
      | ctag itag c cs ifs where "u = sync_applied (se_completedAt env) ctag itag c ?b"
        "smd_answers env (sy_lastComponentETag s) cs ifs"
        "synced env (rl_Items cs) (rl_Items ifs) (sy_defaultCredentialID s)
             (fst (topology t)) (fst (topology t')) (snd (topology t'))" by auto
    then have "if st_NotModified (sy_status s') then t' = t \<and> sy_lastInterfaceETag s \<noteq> []
         else sy_ready s' \<and> (\<exists>cs ifs. smd_answers env (sy_lastComponentETag s) cs ifs \<and>
           synced env (rl_Items cs) (rl_Items ifs) (sy_defaultCredentialID s)
             (fst (topology t)) (fst (topology t')) (snd (topology t')))"
      by cases (use s' end_simps in auto)
    ultimately show ?thesis using None by simp
  qed
qed

text \<open>
  SMD says that nothing has changed: it answers the components with "not modified" to the tag on
  record, and the hash of its interfaces is the one on record.
\<close>

definition smd_unchanged :: "sync_env \<Rightarrow> Syncer \<Rightarrow> bool" where
  "smd_unchanged env s \<longleftrightarrow>
     se_components env (sy_lastComponentETag s) = Inr None \<and>
     (\<exists>ifs. se_interfaces env = Inr (Some ifs) \<and>
        computeResourceListETag (se_marshal_interfaces env) (se_sha256 env) (Some ifs) =
          Inr (sy_lastInterfaceETag s))"

lemma begin_sync_simps [simp]:
  "sy_lastComponentETag (begin_sync n s) = sy_lastComponentETag s"
  "sy_lastInterfaceETag (begin_sync n s) = sy_lastInterfaceETag s"
  by (simp_all add: begin_sync_def)

lemma SyncOnce_unchanged:
  "smd_unchanged env s \<Longrightarrow> SyncOnce l rp env s d =
     (None, end_sync (sync_not_modified (se_completedAt env) (begin_sync (se_startedAt env) s)), d)"
  by (auto simp: smd_unchanged_def SyncOnce_def sync_body_def)

text \<open>A cycle that applied the answers has recorded their hashes.\<close>

lemma reconcile_tags:
  "sync_reconcile l rp env cs ifs itag s d = (None, s', d') \<Longrightarrow>
   \<not> st_NotModified (sy_status (end_sync s')) \<and> sy_lastInterfaceETag (end_sync s') = itag \<and>
   computeResourceListETag (se_marshal_components env) (se_sha256 env) (Some cs) =
     Inr (sy_lastComponentETag (end_sync s'))"
  by (auto simp: sync_reconcile_def sync_fail_def sync_applied_def end_sync_def
      split: sum.splits prod.splits)

lemma SyncOnce_changed:
  assumes "\<not> smd_unchanged env s" "SyncOnce l rp env s d = (None, s', d')"
  shows "\<not> st_NotModified (sy_status s') \<and>
    (\<forall>cs ifs. smd_answers env (sy_lastComponentETag s) cs ifs \<longrightarrow>
       computeResourceListETag (se_marshal_components env) (se_sha256 env) (Some cs) =
         Inr (sy_lastComponentETag s') \<and>
       computeResourceListETag (se_marshal_interfaces env) (se_sha256 env) (Some ifs) =
         Inr (sy_lastInterfaceETag s'))"
proof -
  let ?b = "begin_sync (se_startedAt env) s"
  obtain u where body: "sync_body l rp env ?b d = (None, u, d')" and s': "s' = end_sync u"
    using assms(2) by (auto simp: SyncOnce_def split: prod.splits)
  obtain comps ifs0 itag where
    c: "se_components env (sy_lastComponentETag s) = Inr comps" and
    i: "se_interfaces env = Inr ifs0" and
    t: "computeResourceListETag (se_marshal_interfaces env) (se_sha256 env) ifs0 = Inr itag"
    using body by (auto simp: sync_body_def sync_fail_def split: sum.splits)
  from computeResourceListETag_Inr [OF t] obtain ifs where ifs: "ifs0 = Some ifs" by blast
  with assms(1) c i t have "\<not> (comps = None \<and> itag = sy_lastInterfaceETag s)"
    by (auto simp: smd_unchanged_def)
  then obtain cs where cs: "comps = Some cs \<or> comps = None \<and> se_refresh env = Inr (Some cs)"
    and run: "sync_reconcile l rp env cs ifs itag ?b d = (None, u, d')"
    using body c i t ifs
    by (auto simp: sync_body_def sync_fail_def split: if_splits option.splits sum.splits)
  have "cs' = cs \<and> ifs' = ifs" if "smd_answers env (sy_lastComponentETag s) cs' ifs'" for cs' ifs'
    using that c i ifs cs by (auto simp: smd_answers_def)
  with reconcile_tags [OF run] t ifs show ?thesis by (auto simp: s')
qed

text \<open>
  C15. A cycle refines its specification on the PostgreSQL store.  After an error the topology, the
  ETags and the readiness are as before.  When SMD says that nothing has changed since the tags on
  record, and only then, the cycle succeeds without touching the topology.  In every other success
  the endpoints are exactly those of SMD's BMCs with the wanted values (credentials and addresses on
  record kept where SMD has none), the links exactly those of SMD's nodes, and the tags now on
  record are the hashes of exactly the answers that were applied.
\<close>

theorem SyncOnce_refines:
  assumes "topo_ok t"
  shows "case SyncOnce (ListBMCEndpoints p) (ReplaceTopologyMappings q) env s t of
      (Some e, s', t') \<Rightarrow> \<not> smd_unchanged env s \<and> t' = t \<and> sy_ready s' = sy_ready s \<and>
        sy_lastComponentETag s' = sy_lastComponentETag s \<and>
        sy_lastInterfaceETag s' = sy_lastInterfaceETag s
    | (None, s', t') \<Rightarrow> topo_ok t' \<and>
        (if smd_unchanged env s
         then st_NotModified (sy_status s') \<and> t' = t \<and> sy_lastInterfaceETag s \<noteq> []
         else \<not> st_NotModified (sy_status s') \<and> sy_ready s' \<and>
           (\<exists>cs ifs. smd_answers env (sy_lastComponentETag s) cs ifs \<and>
             synced env (rl_Items cs) (rl_Items ifs) (sy_defaultCredentialID s)
               (fst (topology t)) (fst (topology t')) (snd (topology t')) \<and>
             computeResourceListETag (se_marshal_components env) (se_sha256 env) (Some cs) =
               Inr (sy_lastComponentETag s') \<and>
             computeResourceListETag (se_marshal_interfaces env) (se_sha256 env) (Some ifs) =
               Inr (sy_lastInterfaceETag s')))"
proof -
  obtain r s' t' where run:
    "SyncOnce (ListBMCEndpoints p) (ReplaceTopologyMappings q) env s t = (r, s', t')"
    by (metis prod_cases3)
  note spec = SyncOnce_pg [OF assms run]
  show ?thesis
  proof (cases "smd_unchanged env s")
    case True
    from run [unfolded SyncOnce_unchanged [OF True]]
    have r: "r = None" and s': "st_NotModified (sy_status s')"
      by (auto simp: end_sync_def sync_not_modified_def)
    from spec have "topo_ok t'" "t' = t" "sy_lastInterfaceETag s \<noteq> []"
      unfolding r option.case if_P [OF s'] by blast+
    then show ?thesis
      unfolding run prod.case r option.case if_P [OF True] using s' by (intro conjI)
  next
    case False
    show ?thesis
    proof (cases r)
      case (Some e)
      with spec False show ?thesis unfolding run prod.case by simp
    next
      case None
      with spec SyncOnce_changed [OF False run [unfolded None]] False
      show ?thesis unfolding run prod.case by auto
    qed
  qed
qed

text \<open>
  C16. After a cycle that applied SMD's answers a node resolves exactly when SMD gives it a parent,
  to that BMC with the wanted endpoint, credential and verification flag: what
  \<open>StartTransition\<close> will act on is what SMD said.
\<close>

theorem synced_routes:
  assumes "topo_ok t"
    and "SyncOnce (ListBMCEndpoints p) (ReplaceTopologyMappings q) env s t = (None, s', t')"
    and "\<not> st_NotModified (sy_status s')"
  shows "\<exists>cs ifs. smd_answers env (sy_lastComponentETag s) cs ifs \<and>
    (\<forall>n. node_route t' n =
      map_option (\<lambda>b. case wanted_endpoint (se_url_parse env) (rl_Items ifs)
            (fst (topology t) b) (sy_defaultCredentialID s) b of
          (endpoint, credential, insecure) \<Rightarrow>
            \<lparr>pm_NodeID = n, pm_BMCID = b, pm_Endpoint = endpoint, pm_CredentialID = credential,
             pm_InsecureSkipVerify = insecure\<rparr>)
        (smd_parent (rl_Items cs) n))"
proof -
  from SyncOnce_pg [OF assms(1,2)] assms(3) obtain cs ifs where
    ans: "smd_answers env (sy_lastComponentETag s) cs ifs" and
    syn: "synced env (rl_Items cs) (rl_Items ifs) (sy_defaultCredentialID s)
      (fst (topology t)) (fst (topology t')) (snd (topology t'))" by auto
  have "node_route t' n =
      map_option (\<lambda>b. case wanted_endpoint (se_url_parse env) (rl_Items ifs)
            (fst (topology t) b) (sy_defaultCredentialID s) b of
          (endpoint, credential, insecure) \<Rightarrow>
            \<lparr>pm_NodeID = n, pm_BMCID = b, pm_Endpoint = endpoint, pm_CredentialID = credential,
             pm_InsecureSkipVerify = insecure\<rparr>)
        (smd_parent (rl_Items cs) n)" for n
  proof (cases "snd (topology t') n")
    case None
    then have "smd_parent (rl_Items cs) n = None" using syn unfolding synced_def by (metis option.map(1))
    with None show ?thesis by (simp add: node_route_def)
  next
    case (Some l)
    then have p: "smd_parent (rl_Items cs) n = Some (nl_BMCID l)"
      using syn unfolding synced_def by (metis option.map(2))
    then have "nl_BMCID l \<in> smd_bmcs (rl_Items cs)" using smd_parent_SomeD by blast
    then have "map_option endpoint_view (fst (topology t') (nl_BMCID l)) =
        Some (wanted_endpoint (se_url_parse env) (rl_Items ifs)
          (fst (topology t) (nl_BMCID l)) (sy_defaultCredentialID s) (nl_BMCID l))"
      using syn by (simp add: synced_def)
    then obtain e where e: "fst (topology t') (nl_BMCID l) = Some e"
      and w: "wanted_endpoint (se_url_parse env) (rl_Items ifs) (fst (topology t) (nl_BMCID l))
        (sy_defaultCredentialID s) (nl_BMCID l) = endpoint_view e" by auto
    show ?thesis by (simp add: node_route_def Some e p w)
  qed
  with ans show ?thesis by blast
qed

text \<open>
  C17. The status tells the truth after any sequence of cycles of a new syncer: successful and
  failed runs count the cycles that returned without and with an error, the syncer is ready
  exactly after a success, the ETags shown are those the next cycle sends, and the ticker runs
  at the retry interval exactly while a startup sync is still wanted.
\<close>

theorem sync_Run_status:
  "case sync_Run l rp env0 envs (sync_New cfg) d of
     (rs, s, d', iv) \<Rightarrow>
       st_SuccessfulRuns (Syncer_Status s) = int (length (filter (\<lambda>r. r = None) rs)) \<and>
       st_FailedRuns (Syncer_Status s) = int (length (filter (\<lambda>r. r \<noteq> None) rs)) \<and>
       (st_Ready (Syncer_Status s) \<longleftrightarrow> None \<in> set rs) \<and>
       \<not> st_InProgress (Syncer_Status s) \<and>
       st_LastComponentETag (Syncer_Status s) = sy_lastComponentETag s \<and>
       st_LastInterfaceETag (Syncer_Status s) = sy_lastInterfaceETag s \<and>
       iv = ticker_interval s \<and> 0 < iv"
proof -
  have goal: "st_SuccessfulRuns (Syncer_Status s) = int (length (filter (\<lambda>r. r = None) rs)) \<and>
       st_FailedRuns (Syncer_Status s) = int (length (filter (\<lambda>r. r \<noteq> None) rs)) \<and>
       (st_Ready (Syncer_Status s) \<longleftrightarrow> None \<in> set rs) \<and>
       \<not> st_InProgress (Syncer_Status s) \<and>
       st_LastComponentETag (Syncer_Status s) = sy_lastComponentETag s \<and>
       st_LastInterfaceETag (Syncer_Status s) = sy_lastInterfaceETag s \<and>
       iv = ticker_interval s \<and> 0 < iv"
    if "syncer_ok s" "iv = ticker_interval s"
      "st_SuccessfulRuns (sy_status s) = int (length (filter (\<lambda>r. r = None) rs))"
      "st_FailedRuns (sy_status s) = int (length (filter (\<lambda>r. r \<noteq> None) rs))" for s rs iv
    using that by (auto simp: syncer_ok_def Syncer_Status_def ticker_interval_def filter_empty_conv)
  have zero: "st_SuccessfulRuns (sy_status (sync_New cfg)) = 0" "st_FailedRuns (sy_status (sync_New cfg)) = 0"
    by (simp_all add: sync_New_def zero_status_def)
  show ?thesis
  proof (cases "sy_syncOnStartup (sync_New cfg)")
    case True
    obtain e s1 d1 where one: "SyncOnce l rp env0 (sync_New cfg) d = (e, s1, d1)" by (metis prod_cases3)
    obtain es s d' iv where rest: "sync_loop l rp envs (s1, d1, ticker_interval s1) = (es, s, d', iv)"
      by (metis prod_cases4)
    note st = SyncOnce_status [OF one sync_New_ok]
    with True have "(if \<not> sy_ready s1 then sy_startupRetry s1 else sy_interval s1) = ticker_interval s1"
      by (simp add: ticker_interval_def)
    with True one rest have "sync_Run l rp env0 envs (sync_New cfg) d = (e # es, s, d', iv)"
      by (simp add: sync_Run_def)
    moreover from sync_loop_status [OF rest _ refl] st zero
    have "syncer_ok s" "iv = ticker_interval s"
      "st_SuccessfulRuns (sy_status s) = int (length (filter (\<lambda>r. r = None) (e # es)))"
      "st_FailedRuns (sy_status s) = int (length (filter (\<lambda>r. r \<noteq> None) (e # es)))" by auto
    ultimately show ?thesis using goal [of s iv "e # es"] by simp
  next
    case False
    obtain es s d' iv where rest:
      "sync_loop l rp envs (sync_New cfg, d, ticker_interval (sync_New cfg)) = (es, s, d', iv)"
      by (metis prod_cases4)
    with False have "sync_Run l rp env0 envs (sync_New cfg) d = (es, s, d', iv)"
      by (simp add: sync_Run_def ticker_interval_def)
    with goal [of s iv es] sync_loop_status [OF rest sync_New_ok refl] zero show ?thesis by simp
  qed
qed

section \<open>Witnesses\<close>

definition sample_sync :: sync_env where
  "sample_sync =
     \<lparr>se_components = (\<lambda>_. Inr (Some \<lparr>rl_Items =
        [\<lparr>cp_ID = ''b1'', cp_Type = ''BMC'', cp_ParentID = None\<rparr>,
         \<lparr>cp_ID = ''n2'', cp_Type = ''node'', cp_ParentID = Some ''b1''\<rparr>], rl_Rest = []\<rparr>)),
      se_interfaces = Inr (Some \<lparr>rl_Items =
        [\<lparr>ei_ComponentID = ''b1'', ei_IPAddrs = Some (JArray [JNull, JString ''10.0.0.9''])\<rparr>],
        rl_Rest = []\<rparr>),
      se_refresh = Inr None, se_marshal_components = (\<lambda>_. Inr ''c''),
      se_marshal_interfaces = (\<lambda>_. Inr ''i''), se_sha256 = (\<lambda>_. replicate 32 17),
      se_url_parse = (\<lambda>s. Some (''https'', drop 8 s)),
      se_startedAt = 100, se_syncedAt = 110, se_completedAt = 120\<rparr>"

definition sample_syncer :: Syncer where
  "sample_syncer = sync_New \<lparr>sc_Interval = 0, sc_StartupRetryInterval = 0, sc_SyncOnStartup = True,
     sc_DefaultCredentialID = ''dflt''\<rparr>"

definition sample_cycle :: "go_error option \<times> Syncer \<times> map_tables" where
  "sample_cycle = SyncOnce (ListBMCEndpoints no_faults) (ReplaceTopologyMappings no_faults)
     sample_sync sample_syncer sample_tables"

lemmas sync_plain = trim_space_plain plain_ends_def plain_char_def

lemma sample_types:
  "isBMCType ''BMC''" "\<not> isNodeType ''BMC''" "isNodeType ''node''" "\<not> isBMCType ''node''"
  by code_simp+

lemma sample_contains: "\<not> str_contains ''10.0.0.9'' ''://''"
  by code_simp

lemma sample_endpoint:
  "endpointFromIPAddrs (\<lambda>s. Some (''https'', drop 8 s)) (Some (JArray [JNull, JString ''10.0.0.9''])) =
   ''https://10.0.0.9''"
  by (simp add: endpointFromIPAddrs_def parseIPAddrs_def normalizeEndpoint_def sample_contains sync_plain)

abbreviation sample_desired_endpoint where "sample_desired_endpoint \<equiv>
  \<lparr>be_BMCID = ''b1'', be_Endpoint = ''https://10.0.0.9'', be_CredentialID = ''c1'',
   be_Source = ''smd'', be_InsecureSkipVerify = True, be_LastSyncedAt = 0, be_CreatedAt = 0,
   be_UpdatedAt = 0\<rparr>"

abbreviation sample_desired_link where
  "sample_desired_link \<equiv> \<lparr>nl_NodeID = ''n2'', nl_BMCID = ''b1'', nl_Source = ''smd'',
   nl_LastSyncedAt = 0, nl_CreatedAt = 0, nl_UpdatedAt = 0\<rparr>"

lemma sample_build:
  "buildDesiredMappings (\<lambda>s. Some (''https'', drop 8 s))
     \<lparr>rl_Items =
        [\<lparr>cp_ID = ''b1'', cp_Type = ''BMC'', cp_ParentID = None\<rparr>,
         \<lparr>cp_ID = ''n2'', cp_Type = ''node'', cp_ParentID = Some ''b1''\<rparr>], rl_Rest = []\<rparr>
     \<lparr>rl_Items = [\<lparr>ei_ComponentID = ''b1'', ei_IPAddrs = Some (JArray [JNull, JString ''10.0.0.9''])\<rparr>],
        rl_Rest = []\<rparr> (t_endpoints sample_tables) ''dflt'' =
   ([sample_desired_endpoint], [sample_desired_link])"
  by (simp add: buildDesiredMappings_def component_step_def interface_step_def sample_types
      sample_endpoint sync_plain map_from_def desired_endpoint_def desired_link_def map_get_def
      zero_endpoint_def sorted_keys_def sample_tables_def List.insert_def Let_def)

lemma sample_replace:
  "\<exists>c t'. ReplaceTopologyMappings no_faults [sample_desired_endpoint] [sample_desired_link] 110
     sample_tables = (Inr c, t')"
  by (simp add: ReplaceTopologyMappings_def Let_def normalizeEndpoints_def normalizeLinks_def
      map_from_def clean_endpoint_def clean_link_def sync_plain sorted_values_def sorted_keys_def
      with_tx_def tx_bind_def tx_return_def tx_modify_def db_try_def upsert_endpoint_def
      upsert_link_def upsert_def row_of_def endpoint_row_def link_row_def deleteStaleLinks_def
      deleteStaleEndpoints_def rowsAffectedAsInt_def sample_tables_def endpoint_conflict_def)

lemma sample_cycle_ok:
  "\<exists>s' t'. sample_cycle = (None, s', t') \<and> \<not> st_NotModified (sy_status s')"
proof -
  from sample_replace obtain c t' where r: "ReplaceTopologyMappings no_faults
      [sample_desired_endpoint] [sample_desired_link] 110 sample_tables = (Inr c, t')" by blast
  have d: "sy_defaultCredentialID (begin_sync 100 sample_syncer) = ''dflt''"
    by (simp add: begin_sync_def sample_syncer_def sync_New_def sync_plain)
  have l: "ListBMCEndpoints no_faults sample_tables = Inr (t_endpoints sample_tables)"
    by (simp add: ListBMCEndpoints_def sample_tables_def)
  show ?thesis
    by (simp add: sample_cycle_def SyncOnce_def sync_body_def sync_reconcile_def sample_sync_def
        computeResourceListETag_def l d sample_build r)
      (simp add: end_sync_def sync_applied_def)
qed

lemma sample_topo_ok: "topo_ok sample_tables"
  using sample_tables_ok by (simp add: topo_ok_def) (simp add: sample_tables_def sync_plain)

theorem SyncOnce_refines_witness:
  "\<exists>s' t'. sample_cycle = (None, s', t') \<and> topo_ok t' \<and> sy_ready s' \<and> \<not> smd_unchanged sample_sync sample_syncer"
proof -
  from sample_cycle_ok obtain s' t' where c: "sample_cycle = (None, s', t')"
    and n: "\<not> st_NotModified (sy_status s')" by blast
  from SyncOnce_refines [OF sample_topo_ok, where p = no_faults and q = no_faults
      and env = sample_sync and s = sample_syncer, folded sample_cycle_def, unfolded c prod.case option.case]
  show ?thesis using c n by (auto split: if_splits)
qed

theorem synced_routes_witness:
  "\<exists>s' t'. sample_cycle = (None, s', t') \<and> node_route t' ''n1'' = None \<and>
     node_route t' ''n2'' = Some \<lparr>pm_NodeID = ''n2'', pm_BMCID = ''b1'',
       pm_Endpoint = ''https://10.0.0.9'', pm_CredentialID = ''c1'', pm_InsecureSkipVerify = True\<rparr>"
proof -
  from sample_cycle_ok obtain s' t' where c: "sample_cycle = (None, s', t')"
    and n: "\<not> st_NotModified (sy_status s')" by blast
  from synced_routes [OF sample_topo_ok c [unfolded sample_cycle_def] n] obtain cs ifs where
    a: "smd_answers sample_sync (sy_lastComponentETag sample_syncer) cs ifs" and
    r: "\<And>n. node_route t' n = map_option (\<lambda>b. case wanted_endpoint (se_url_parse sample_sync)
          (rl_Items ifs) (fst (topology sample_tables) b) (sy_defaultCredentialID sample_syncer) b of
          (endpoint, credential, insecure) \<Rightarrow>
            \<lparr>pm_NodeID = n, pm_BMCID = b, pm_Endpoint = endpoint, pm_CredentialID = credential,
             pm_InsecureSkipVerify = insecure\<rparr>) (smd_parent (rl_Items cs) n)" by blast
  have p: "smd_parent (rl_Items cs) ''n2'' = Some ''b1''" "smd_parent (rl_Items cs) ''n1'' = None"
    using a by (auto simp: smd_answers_def sample_sync_def smd_parent_def map_from_def node_parent_def
        sample_types sync_plain)
  have w: "wanted_endpoint (se_url_parse sample_sync) (rl_Items ifs) (fst (topology sample_tables) ''b1'')
      (sy_defaultCredentialID sample_syncer) ''b1'' = (''https://10.0.0.9'', ''c1'', True)"
    using a by (auto simp: smd_answers_def sample_sync_def wanted_endpoint_def smd_address_def
        sample_endpoint sync_plain topology_def sample_tables_def row_of_Cons)
  show ?thesis using c by (intro exI [of _ s'] exI [of _ t']) (simp add: r p w)
qed

end
