(* ===== verification/Power_SMD_Update.thy ===== *)
theory Power_SMD_Update
  imports Power_Runner
begin

text \<open>
  The SMD updater, \<open>internal/smd/update.go\<close>: a verified power state becomes the state of the
  node's SMD component.  The patch call of the SMD client is a parameter over a state of its own.
\<close>

type_synonym 'u patch_component = "string \<Rightarrow> string \<Rightarrow> 'u \<Rightarrow> go_error option \<times> 'u"

definition componentStateForPowerState :: "string \<Rightarrow> go_error + string" where
  "componentStateForPowerState powerState =
     (let s = to_lower (trim_space powerState) in
      if s = ''on'' then Inr ''Ready''
      else if s = ''off'' then Inr ''Off''
      else Inl (Wrap [] (Sentinel ErrUnsupportedPowerState)
             ('': '' @ go_quote (trim_space powerState))))"

text \<open>\<open>None\<close> is an updater that is nil or has no client.\<close>

definition UpdateNodePowerState ::
    "'u patch_component option \<Rightarrow> string \<Rightarrow> string \<Rightarrow> 'u \<Rightarrow> go_error option \<times> 'u" where
  "UpdateNodePowerState client nodeID powerState u =
     (case client of
        None \<Rightarrow> (Some (ErrText ''smd updater is not configured''), u)
      | Some patch \<Rightarrow>
          (let componentID = trim_space nodeID in
           if componentID = [] then (Some (ErrText ''node id is required''), u)
           else
             (case componentStateForPowerState powerState of
                Inl err \<Rightarrow> (Some err, u)
              | Inr targetState \<Rightarrow>
                  (case patch componentID targetState u of
                     (Some err, u1) \<Rightarrow>
                       (Some (Wrap (''patching SMD component '' @ go_quote componentID @
                          '' state to '' @ go_quote targetState @ '': '') err []), u1)
                   | (None, u1) \<Rightarrow> (None, u1)))))"

lemma fold_on: "equal_fold s ''On'' \<longleftrightarrow> to_lower s = ''on''"
proof -
  have "to_lower ''On'' = ''on''" by code_simp
  then show ?thesis by (simp add: equal_fold_def)
qed

lemma fold_off: "equal_fold s ''Off'' \<longleftrightarrow> to_lower s = ''off''"
proof -
  have "to_lower ''Off'' = ''off''" by code_simp
  then show ?thesis by (simp add: equal_fold_def)
qed

lemma componentState_verified:
  assumes "expectedFinalPowerState op = Inr expected" "equal_fold s expected" "trim_space s = s"
  shows "componentStateForPowerState s = Inr (if expected = ''On'' then ''Ready'' else ''Off'')"
  using expectedFinalPowerState_InrD [OF assms(1)] assms(2,3)
  by (auto simp: componentStateForPowerState_def fold_on fold_off)

text \<open>
  C34. A verified power state always has an SMD state: when a live task's action was verified, the
  updater patches the node's component to Ready for an operation that turns it on and to Off for
  one that turns it off, and the task succeeds exactly when the patch does.
\<close>

theorem verified_power_reported:
  assumes run: "run_action ov cfg jitter exec read v c req w = Some ((k, fps, None), w')"
    and "\<not> tk_DryRun task" "trim_space (tk_NodeID task) \<noteq> []"
  shows "\<exists>expected target. expectedFinalPowerState (er_Operation req) = Inr expected \<and>
    target = (if expected = ''On'' then ''Ready'' else ''Off'') \<and>
    (let done_task = finished_task now
           (Some (\<lambda>n s. fst (UpdateNodePowerState (Some patch) n s u))) task k fps None
     in case patch (trim_space (tk_NodeID task)) target u of
          (None, _) \<Rightarrow> tk_State done_task = TaskStateSucceeded
        | (Some err, _) \<Rightarrow>
            tk_State done_task = TaskStateFailed \<and>
            tk_ErrorDetail done_task = trim_space (''updating SMD state: patching SMD component '' @
              go_quote (trim_space (tk_NodeID task)) @ '' state to '' @ go_quote target @ '': '' @
              err_msg err))"
proof -
  obtain w1 where "Verify read v c req w1 = Some ((fps, None), w')"
    using run by (auto simp: run_action_def split: prod.splits option.splits)
  from Verify_result [OF this] obtain expected where
    e: "expectedFinalPowerState (er_Operation req) = Inr expected" "equal_fold fps expected"
    and fps: "trim_space fps = fps" by auto
  let ?target = "if expected = ''On'' then ''Ready'' else ''Off''"
  have target: "componentStateForPowerState fps = Inr ?target"
    by (rule componentState_verified [OF e fps])
  show ?thesis
    by (rule exI [of _ expected], rule exI [of _ ?target],
        cases "patch (trim_space (tk_NodeID task)) ?target u")
      (use e(1) target fps assms(2,3) in
        \<open>auto simp: finished_task_def UpdateNodePowerState_def Let_def split: option.splits\<close>)
qed

text \<open>An SMD that counts the patches it gets, and refuses none.\<close>

definition counting_patch :: "nat patch_component" where
  "counting_patch i s n = (None, Suc n)"

theorem verified_power_reported_witness:
  "tk_State (finished_task 5 (Some (\<lambda>n s. fst (UpdateNodePowerState (Some counting_patch) n s 0)))
     sample_task 1 ''Off'' None) = TaskStateSucceeded"
proof -
  have run: "run_action 0 (normalizeConfig zero_config) (\<lambda>_ _. 0) NoopExecutor ExpectedStateReader
     (NewVerifier 0 0) background (sample_request OpForceOff) sample_world =
     Some ((1, ''Off'', None), sample_world)"
    by (simp add: run_action_def executeWithRetry_def retry_loop.simps NoopExecutor_def
        normalizeConfig_def zero_config_def Let_def go_defs Verify_def sample_request_def
        verify_loop.simps ExpectedStateReader_def trim_space_plain plain_ends_def plain_char_def)
  have task: "\<not> tk_DryRun sample_task" "trim_space (tk_NodeID sample_task) \<noteq> []"
    by (simp_all add: sample_task_def)
  from verified_power_reported [OF run task, where now = 5 and patch = counting_patch and u = 0]
  show ?thesis by (simp add: counting_patch_def Let_def)
qed

end
