(* ===== verification/Go_Format.thy ===== *)
theory Go_Format
  imports Go_Base
begin

text \<open>
  The formatting half of the Go standard library the HTTP layers use: \<open>strconv.Atoi\<close>, the
  layout \<open>time.RFC3339Nano\<close> of a UTC instant, and the query strings of \<open>net/url\<close>
  (\<open>QueryEscape\<close>, \<open>Values.Encode\<close>, \<open>ParseQuery\<close>).  Two round trips: a number of a 64-bit
  \<open>int\<close> is read back from its decimal text, and a query from its encoding.
\<close>

section \<open>strconv.Atoi\<close>

definition is_digit :: "char \<Rightarrow> bool" where
  "is_digit c \<longleftrightarrow> (let n = (of_char c :: nat) in 48 \<le> n \<and> n \<le> 57)"

fun digits_val :: "nat \<Rightarrow> string \<Rightarrow> nat option" where
  "digits_val n [] = Some n"
| "digits_val n (c # cs) =
     (if is_digit c then digits_val (10 * n + (of_char c - 48)) cs else None)"

definition go_int :: "int \<Rightarrow> bool" where
  "go_int i \<longleftrightarrow> - (2 ^ 63) \<le> i \<and> i < 2 ^ 63"

definition atoi :: "string \<Rightarrow> int option" where
  "atoi s =
     (let neg = (case s of [] \<Rightarrow> False | c # _ \<Rightarrow> c = CHR ''-'');
          ds = (case s of [] \<Rightarrow> [] | c # cs \<Rightarrow> if c = CHR ''-'' \<or> c = CHR ''+'' then cs else s)
      in if ds = [] then None
         else
           (case digits_val 0 ds of
              None \<Rightarrow> None
            | Some n \<Rightarrow>
                (let i = (if neg then - int n else int n) in if go_int i then Some i else None)))"

lemma of_char_digit: "d < 10 \<Longrightarrow> of_char (digit_char d) = (48 + d :: nat)"
  unfolding digit_char_def of_char_of by (simp add: take_bit_eq_mod)

lemma is_digit_digit_char: "d < 10 \<Longrightarrow> is_digit (digit_char d)"
  by (simp add: is_digit_def of_char_digit)

lemma digits_val_append:
  "digits_val n (xs @ ys) =
   (case digits_val n xs of None \<Rightarrow> None | Some m \<Rightarrow> digits_val m ys)"
  by (induction n xs rule: digits_val.induct) auto

lemma digits_val_nat_digits: "digits_val 0 (nat_digits n) = Some n"
proof (induction n rule: nat_digits.induct)
  case (1 n)
  show ?case
  proof (cases "n < 10")
    case True
    then show ?thesis by (subst nat_digits.simps) (simp add: is_digit_digit_char of_char_digit)
  next
    case False
    then have "digits_val 0 (nat_digits (n div 10)) = Some (n div 10)" by (rule "1.IH")
    with False show ?thesis
      by (subst nat_digits.simps) (simp add: digits_val_append is_digit_digit_char of_char_digit)
  qed
qed

lemma nat_digits_head: "\<exists>d cs. nat_digits n = d # cs \<and> is_digit d"
proof (induction n rule: nat_digits.induct)
  case (1 n)
  show ?case
  proof (cases "n < 10")
    case True
    then show ?thesis by (subst nat_digits.simps) (simp add: is_digit_digit_char)
  next
    case False
    with "1.IH" show ?thesis by (subst nat_digits.simps) auto
  qed
qed

lemma no_sign_digit: "is_digit d \<Longrightarrow> d \<noteq> CHR ''-'' \<and> d \<noteq> CHR ''+''"
  by (auto simp: is_digit_def)

lemma atoi_itoa: "go_int i \<Longrightarrow> atoi (itoa i) = Some i"
proof -
  assume i: "go_int i"
  have pos: "atoi (nat_digits (nat i)) = Some i" if "0 \<le> i"
  proof -
    obtain d cs where d: "nat_digits (nat i) = d # cs" "is_digit d" using nat_digits_head by blast
    with no_sign_digit [OF d(2)] digits_val_nat_digits [of "nat i"] that i show ?thesis
      by (auto simp: atoi_def Let_def simp del: digits_val.simps)
  qed
  have neg: "atoi (CHR ''-'' # nat_digits (nat (- i))) = Some i" if "i < 0"
  proof -
    obtain d cs where "nat_digits (nat (- i)) = d # cs" using nat_digits_head by blast
    with digits_val_nat_digits [of "nat (- i)"] that i show ?thesis
      by (simp add: atoi_def Let_def)
  qed
  from pos neg show ?thesis by (simp add: itoa_def)
qed

section \<open>time.RFC3339Nano\<close>

fun find_month :: "int list \<Rightarrow> int \<Rightarrow> int \<Rightarrow> int \<times> int" where
  "find_month [] m d = (m, d + 1)"
| "find_month (l # ls) m d = (if d < l then (m, d + 1) else find_month ls (m + 1) (d - l))"

text \<open>Year, month and day of a number of days since the first of January of year 1.\<close>

definition civil :: "int \<Rightarrow> int \<times> int \<times> int" where
  "civil days =
     (let n400 = days div 146097; r = days mod 146097;
          n100 = min 3 (r div 36524); r = r - 36524 * n100;
          n4 = r div 1461; r = r mod 1461;
          n1 = min 3 (r div 365); r = r - 365 * n1;
          year = 400 * n400 + 100 * n100 + 4 * n4 + n1 + 1;
          leap = (year mod 4 = 0 \<and> (year mod 100 \<noteq> 0 \<or> year mod 400 = 0));
          (month, day) =
            find_month [31, if leap then 29 else 28, 31, 30, 31, 30, 31, 31, 30, 31, 30, 31] 1 r
      in (year, month, day))"

definition pad :: "nat \<Rightarrow> int \<Rightarrow> string" where
  "pad w n =
     (let ds = nat_digits (nat \<bar>n\<bar>); s = replicate (w - length ds) (CHR ''0'') @ ds
      in if n < 0 then CHR ''-'' # s else s)"

definition frac_seconds :: "int \<Rightarrow> string" where
  "frac_seconds ns =
     (if ns = 0 then []
      else CHR ''.'' # rev (dropWhile (\<lambda>c. c = CHR ''0'') (rev (pad 9 ns))))"

definition rfc3339_nano :: "time \<Rightarrow> string" where
  "rfc3339_nano t =
     (let secs = t div 1000000000; sod = secs mod 86400;
          (year, month, day) = civil (secs div 86400)
      in pad 4 year @ ''-'' @ pad 2 month @ ''-'' @ pad 2 day @ ''T'' @
         pad 2 (sod div 3600) @ '':'' @ pad 2 (sod div 60 mod 60) @ '':'' @ pad 2 (sod mod 60) @
         frac_seconds (t mod 1000000000) @ ''Z'')"

lemma rfc3339_nano_zero: "rfc3339_nano 0 = ''0001-01-01T00:00:00Z''"
  by code_simp

section \<open>Query strings (net/url)\<close>

type_synonym url_values = "(string \<times> string) list"

definition values_add :: "string \<Rightarrow> string \<Rightarrow> url_values \<Rightarrow> url_values" where
  "values_add k v p = p @ [(k, v)]"

definition values_set :: "string \<Rightarrow> string \<Rightarrow> url_values \<Rightarrow> url_values" where
  "values_set k v p = filter (\<lambda>(k', _). k' \<noteq> k) p @ [(k, v)]"

definition values_of :: "url_values \<Rightarrow> string \<Rightarrow> string list" where
  "values_of p k = map snd (filter (\<lambda>(k', _). k' = k) p)"

definition values_get :: "url_values \<Rightarrow> string \<Rightarrow> string" where
  "values_get p k = (case values_of p k of [] \<Rightarrow> [] | v # _ \<Rightarrow> v)"

definition unreserved :: "char \<Rightarrow> bool" where
  "unreserved c \<longleftrightarrow>
     (let n = (of_char c :: nat) in
      48 \<le> n \<and> n \<le> 57 \<or> 65 \<le> n \<and> n \<le> 90 \<or> 97 \<le> n \<and> n \<le> 122 \<or>
      c = CHR ''-'' \<or> c = CHR ''_'' \<or> c = CHR ''.'' \<or> c = CHR ''~'')"

definition upper_hex :: "nat \<Rightarrow> char" where
  "upper_hex d = (if d < 10 then char_of (48 + d) else char_of (55 + d))"

definition unhex :: "char \<Rightarrow> nat option" where
  "unhex c =
     (let n = (of_char c :: nat) in
      if 48 \<le> n \<and> n \<le> 57 then Some (n - 48)
      else if 97 \<le> n \<and> n \<le> 102 then Some (n - 87)
      else if 65 \<le> n \<and> n \<le> 70 then Some (n - 55)
      else None)"

definition escape_char :: "char \<Rightarrow> string" where
  "escape_char c =
     (if unreserved c then [c]
      else if c = CHR '' '' then [CHR ''+'']
      else [CHR ''%'', upper_hex (of_char c div 16), upper_hex (of_char c mod 16)])"

definition query_escape :: "string \<Rightarrow> string" where
  "query_escape s = concat (map escape_char s)"

fun query_unescape :: "string \<Rightarrow> string option" where
  "query_unescape [] = Some []"
| "query_unescape (c # cs) =
     (if c = CHR ''%'' then
        (case cs of
           a # b # rest \<Rightarrow>
             (case (unhex a, unhex b) of
                (Some x, Some y) \<Rightarrow> map_option ((#) (char_of (16 * x + y))) (query_unescape rest)
              | _ \<Rightarrow> None)
         | _ \<Rightarrow> None)
      else map_option ((#) (if c = CHR ''+'' then CHR '' '' else c)) (query_unescape cs))"

definition encode_values :: "url_values \<Rightarrow> string" where
  "encode_values p =
     join ''&'' (map (\<lambda>(k, v). query_escape k @ ''='' @ query_escape v) (sort_key fst p))"

definition cut :: "char \<Rightarrow> string \<Rightarrow> string \<times> string" where
  "cut c s = (takeWhile (\<lambda>x. x \<noteq> c) s, drop 1 (dropWhile (\<lambda>x. x \<noteq> c) s))"

definition parse_pair :: "string \<Rightarrow> (string \<times> string) option" where
  "parse_pair part =
     (if part = [] \<or> CHR '';'' \<in> set part then None
      else
        (case cut (CHR ''='') part of
           (k, v) \<Rightarrow>
             (case (query_unescape k, query_unescape v) of
                (Some k', Some v') \<Rightarrow> Some (k', v')
              | _ \<Rightarrow> None)))"

text \<open>\<open>URL.Query()\<close>: the pairs that parse, in order; the errors are discarded.\<close>

definition parse_query :: "string \<Rightarrow> url_values" where
  "parse_query s = List.map_filter parse_pair (split_on (CHR ''&'') s)"

text \<open>Decoding undoes encoding, up to the order of the keys.\<close>

lemma of_char_upper_hex:
  "d < 16 \<Longrightarrow> of_char (upper_hex d) = (if d < 10 then 48 + d else 55 + d :: nat)"
  unfolding upper_hex_def by (simp add: of_char_of take_bit_eq_mod)

lemma unhex_upper_hex: "d < 16 \<Longrightarrow> unhex (upper_hex d) = Some d"
  by (simp add: unhex_def of_char_upper_hex)

definition query_sep :: "char \<Rightarrow> bool" where
  "query_sep c \<longleftrightarrow> c \<in> {CHR ''&'', CHR ''='', CHR '';''}"

lemma upper_hex_no_sep: "d < 16 \<Longrightarrow> \<not> query_sep (upper_hex d)"
proof -
  assume "d < 16"
  moreover have "\<forall>d \<in> set [0..<16]. \<not> query_sep (upper_hex d)" by code_simp
  ultimately show ?thesis by simp
qed

lemma unreserved_plain: "unreserved c \<Longrightarrow> \<not> query_sep c \<and> c \<noteq> CHR ''%'' \<and> c \<noteq> CHR ''+''"
  by (auto simp: unreserved_def query_sep_def)

lemma of_char_hex: "of_char c div 16 < (16 :: nat)" "of_char c mod 16 < (16 :: nat)"
proof -
  have "(of_char c :: nat) < 256" by (rule nat_of_char_less_256)
  then show "of_char c div 16 < (16 :: nat)" by (intro less_mult_imp_div_less) simp
qed simp

lemma sep_chars: "\<not> query_sep (CHR ''%'')" "\<not> query_sep (CHR ''+'')"
  by (simp_all add: query_sep_def)

lemma escape_char_no_sep: "x \<in> set (escape_char c) \<Longrightarrow> \<not> query_sep x"
  using unreserved_plain [of c] upper_hex_no_sep [OF of_char_hex(1) [of c]]
    upper_hex_no_sep [OF of_char_hex(2) [of c]] sep_chars
  by (auto simp only: escape_char_def list.set insert_iff empty_iff split: if_splits)

lemma escape_no_sep: "x \<in> set (query_escape s) \<Longrightarrow> \<not> query_sep x"
  unfolding query_escape_def by (auto dest: escape_char_no_sep)

lemma unhex_pair:
  "unhex (upper_hex (of_char c div 16)) = Some (of_char c div 16)"
  "unhex (upper_hex (of_char c mod 16)) = Some (of_char c mod 16)"
  "char_of (16 * (of_char c div 16) + of_char c mod 16 :: nat) = c"
proof -
  have "(16 * (of_char c div 16) + of_char c mod 16 :: nat) = of_char c" by simp
  then show "char_of (16 * (of_char c div 16) + of_char c mod 16 :: nat) = c"
    by (simp only: char_of_char)
qed (simp_all only: unhex_upper_hex of_char_hex)

lemma unescape_escape_char:
  "query_unescape (escape_char c @ rest) = map_option ((#) c) (query_unescape rest)"
proof (cases "unreserved c \<or> c = CHR '' ''")
  case True
  have blank: "escape_char (CHR '' '') = ''+''" by code_simp
  from True show ?thesis
  proof
    assume u: "unreserved c"
    then have "escape_char c = [c]" by (simp add: escape_char_def)
    with unreserved_plain [OF u] show ?thesis by simp
  next
    assume "c = CHR '' ''"
    with blank show ?thesis by simp
  qed
next
  case False
  then have "escape_char c =
      [CHR ''%'', upper_hex (of_char c div 16), upper_hex (of_char c mod 16)]"
    by (simp add: escape_char_def)
  then show ?thesis by (simp add: unhex_pair)
qed

lemma unescape_escape: "query_unescape (query_escape s) = Some s"
  by (induction s) (simp_all add: query_escape_def unescape_escape_char)

lemma split_on_append:
  "c \<notin> set p \<Longrightarrow> split_on c (p @ c # rest) = p # split_on c rest"
  by (induction p) auto

lemma split_on_single: "c \<notin> set p \<Longrightarrow> split_on c p = [p]"
  by (induction p) auto

lemma split_on_join:
  "\<forall>p \<in> set ps. c \<notin> set p \<Longrightarrow> ps \<noteq> [] \<Longrightarrow> split_on c (join [c] ps) = ps"
  by (induction "[c]" ps rule: join.induct) (auto simp: split_on_single split_on_append)

lemma cut_append: "c \<notin> set k \<Longrightarrow> cut c (k @ c # v) = (k, v)"
  by (auto simp: cut_def takeWhile_append)

lemma parse_pair_encoded: "parse_pair (query_escape k @ ''='' @ query_escape v) = Some (k, v)"
proof -
  have k: "CHR ''='' \<notin> set (query_escape k)" "CHR '';'' \<notin> set (query_escape k @ ''='' @ query_escape v)"
    using escape_no_sep [of _ k] escape_no_sep [of _ v] by (auto simp: query_sep_def)
  from cut_append [OF k(1)] k(2) show ?thesis
    by (simp add: parse_pair_def unescape_escape)
qed

lemma parse_query_encode: "parse_query (encode_values p) = sort_key fst p"
proof (cases "sort_key fst p")
  case Nil
  then show ?thesis by (simp add: encode_values_def parse_query_def parse_pair_def)
next
  case (Cons x xs)
  let ?f = "\<lambda>(k, v). query_escape k @ ''='' @ query_escape v"
  have "CHR ''&'' \<notin> set (query_escape v)" for v
    using escape_no_sep [of "CHR ''&''" v] by (auto simp: query_sep_def)
  then have "CHR ''&'' \<notin> set (?f y)" for y
    by (auto split: prod.splits)
  then have "split_on (CHR ''&'') (encode_values p) = map ?f (sort_key fst p)"
    unfolding encode_values_def by (intro split_on_join) (auto simp: Cons)
  moreover have "List.map_filter parse_pair (map ?f ys) = ys" for ys
    by (induction ys) (auto simp: map_filter_simps parse_pair_encoded [simplified])
  ultimately show ?thesis by (simp add: parse_query_def)
qed

lemma values_of_sort: "values_of (sort_key fst p) k = values_of p k"
proof -
  have eq: "(\<lambda>(k', _). k' = k) = (\<lambda>x :: string \<times> string. fst x = k)" by auto
  show ?thesis unfolding values_of_def eq sort_key_stable ..
qed

lemma query_roundtrip: "values_of (parse_query (encode_values p)) k = values_of p k"
  by (simp add: parse_query_encode values_of_sort)

section \<open>Path segments (net/url)\<close>

text \<open>\<open>url.PathEscape\<close>.\<close>

definition path_escape_char :: "char \<Rightarrow> string" where
  "path_escape_char c =
     (if unreserved c \<or> c \<in> set ''$&+=:@'' then [c]
      else [CHR ''%'', upper_hex (of_char c div 16), upper_hex (of_char c mod 16)])"

definition path_escape :: "string \<Rightarrow> string" where
  "path_escape s = concat (map path_escape_char s)"

text \<open>\<open>url.PathUnescape\<close>.\<close>

fun path_unescape :: "string \<Rightarrow> string option" where
  "path_unescape [] = Some []"
| "path_unescape (c # cs) =
     (if c = CHR ''%'' then
        (case cs of
           a # b # rest \<Rightarrow>
             (case (unhex a, unhex b) of
                (Some x, Some y) \<Rightarrow> map_option ((#) (char_of (16 * x + y))) (path_unescape rest)
              | _ \<Rightarrow> None)
         | _ \<Rightarrow> None)
      else map_option ((#) c) (path_unescape cs))"

lemma path_unescape_escape_char:
  "path_unescape (path_escape_char c @ rest) = map_option ((#) c) (path_unescape rest)"
proof (cases "unreserved c \<or> c \<in> set ''$&+=:@''")
  case True
  with unreserved_plain [of c] have "c \<noteq> CHR ''%''" by auto
  with True show ?thesis by (simp add: path_escape_char_def)
next
  case False
  then have "path_escape_char c =
      [CHR ''%'', upper_hex (of_char c div 16), upper_hex (of_char c mod 16)]"
    by (simp add: path_escape_char_def)
  then show ?thesis by (simp add: unhex_pair)
qed

lemma path_roundtrip: "path_unescape (path_escape s) = Some s"
  by (induction s) (simp_all add: path_escape_def path_unescape_escape_char)

text \<open>
  \<open>escape\<close> of a whole path, and \<open>setPath\<close>: the decoded \<open>Path\<close> of a URL, with the \<open>RawPath\<close> kept beside
  it when it is not the usual encoding of \<open>Path\<close>, and empty otherwise.
\<close>

definition encode_path_char :: "char \<Rightarrow> string" where
  "encode_path_char c =
     (if unreserved c \<or> c \<in> set ''$&+,/:;=@'' then [c]
      else [CHR ''%'', upper_hex (of_char c div 16), upper_hex (of_char c mod 16)])"

definition encode_path :: "string \<Rightarrow> string" where
  "encode_path s = concat (map encode_path_char s)"

definition set_path :: "string \<Rightarrow> (string \<times> string) option" where
  "set_path p = map_option (\<lambda>path. (path, if encode_path path = p then [] else p)) (path_unescape p)"

text \<open>The characters of a segment that an encoded path leaves as they are.\<close>

definition segment_special :: "char \<Rightarrow> bool" where
  "segment_special c \<longleftrightarrow> c \<in> {CHR ''/'', CHR '';'', CHR '',''}"

lemma encode_path_char_eq:
  "\<not> segment_special c \<Longrightarrow> encode_path_char c = path_escape_char c"
  by (auto simp: encode_path_char_def path_escape_char_def segment_special_def)

lemma encode_path_char_length:
  "length (encode_path_char c) \<le> length (path_escape_char c)"
  "segment_special c \<Longrightarrow> length (encode_path_char c) < length (path_escape_char c)"
proof -
  show special: "length (encode_path_char c) < length (path_escape_char c)" if "segment_special c"
    using that by (auto simp: encode_path_char_def path_escape_char_def segment_special_def unreserved_def)
  show "length (encode_path_char c) \<le> length (path_escape_char c)"
    using special encode_path_char_eq [of c] by (cases "segment_special c") auto
qed

lemma encode_path_length: "length (encode_path s) \<le> length (path_escape s)"
  by (induction s) (simp_all add: encode_path_def path_escape_def add_mono encode_path_char_length)

lemma encode_path_segment:
  "encode_path s = path_escape s \<longleftrightarrow> (\<forall>c \<in> set s. \<not> segment_special c)"
proof (induction s)
  case (Cons c s)
  show ?case
  proof (cases "segment_special c")
    case True
    then have "length (encode_path (c # s)) < length (path_escape (c # s))"
      using encode_path_char_length(2) [OF True] encode_path_length [of s]
      by (simp add: encode_path_def path_escape_def)
    then show ?thesis using True by auto
  next
    case False
    with Cons.IH encode_path_char_eq [OF False] show ?thesis
      by (simp add: encode_path_def path_escape_def)
  qed
qed (simp add: encode_path_def path_escape_def)

text \<open>A path with an escaped segment behind a prefix that needs no encoding.\<close>

lemma set_path_segment:
  assumes "\<forall>c \<in> set p. unreserved c \<or> c = CHR ''/''"
  shows "set_path (p @ path_escape s) =
    Some (p @ s, if \<exists>c \<in> set s. segment_special c then p @ path_escape s else [])"
proof -
  have "path_unescape (p @ x) = map_option ((@) p) (path_unescape x)" for x
    using assms
  proof (induction p)
    case Nil
    show ?case by (cases "path_unescape x") simp_all
  next
    case (Cons c p)
    then have "c \<noteq> CHR ''%''" by (auto simp: unreserved_def)
    with Cons show ?case by (cases "path_unescape x") simp_all
  qed
  moreover have "encode_path (p @ x) = p @ encode_path x" for x
    using assms by (induction p) (auto simp: encode_path_def encode_path_char_def)
  ultimately show ?thesis using encode_path_segment [of s] by (auto simp: set_path_def path_roundtrip)
qed

text \<open>What ends a segment, a path or an encoded query.\<close>

definition path_sep :: "char \<Rightarrow> bool" where
  "path_sep c \<longleftrightarrow> c \<in> {CHR ''/'', CHR ''?'', CHR ''#''}"

lemma upper_hex_no_path_sep: "d < 16 \<Longrightarrow> \<not> path_sep (upper_hex d)"
proof -
  assume "d < 16"
  moreover have "\<forall>d \<in> set [0..<16]. \<not> path_sep (upper_hex d)" by code_simp
  ultimately show ?thesis by simp
qed

lemma path_escape_char_no_sep: "x \<in> set (path_escape_char c) \<Longrightarrow> \<not> path_sep x"
proof -
  have "unreserved c \<or> c \<in> set ''$&+=:@'' \<Longrightarrow> \<not> path_sep c"
    by (auto simp: unreserved_def path_sep_def)
  moreover have "\<not> path_sep (CHR ''%'')" by (simp add: path_sep_def)
  ultimately show "x \<in> set (path_escape_char c) \<Longrightarrow> \<not> path_sep x"
    using upper_hex_no_path_sep [OF of_char_hex(1) [of c]]
      upper_hex_no_path_sep [OF of_char_hex(2) [of c]]
    by (auto simp only: path_escape_char_def list.set insert_iff empty_iff split: if_splits)
qed

lemma path_escape_no_sep: "x \<in> set (path_escape s) \<Longrightarrow> \<not> path_sep x"
  unfolding path_escape_def by (auto dest: path_escape_char_no_sep)

lemma values_of_simps [simp]:
  "values_of [] k = []"
  "values_of (values_add k v p) k' = values_of p k' @ (if k = k' then [v] else [])"
  "values_of (values_set k v p) k' = (if k = k' then [v] else values_of p k')"
  by (auto simp: values_of_def values_add_def values_set_def filter_filter intro!: arg_cong [of _ _ "map snd"]
      filter_cong split: prod.splits)

end
