(* ===== verification/Power_Server.thy ===== *)
theory Power_Server
  imports Power_Runner Go_Format
begin

text \<open>
  The HTTP API of the power service, \<open>internal/server\<close>: target resolution, starting, listing,
  reading and aborting transitions, the power status of nodes, the mapping sync trigger, the
  readiness probe and the scope checks of the routes.  The store, the runner and the syncer are
  records of the methods the server calls, over a state of their own; the JSON decoding of a body
  (its result is an argument), the token middleware (the claims of a request), the router's path
  parameter and the Redfish library's operation names are parameters.
\<close>

section \<open>Requests, replies and the server (server.go)\<close>

record Claims =
  cl_Subject :: string
  cl_HasScope :: "string \<Rightarrow> bool"

record HttpReq =
  hq_Query :: url_values
  hq_XRequestID :: string
  hq_Authorization :: string
  hq_Claims :: "Claims option"
  hq_ID :: string

record transitionTaskSpec =
  xs_NodeID :: string
  xs_BMCID :: string
  xs_Endpoint :: string
  xs_Operation :: string
  xs_State :: string
  xs_DryRun :: bool
  xs_AttemptCount :: int
  xs_FinalPowerState :: string
  xs_ErrorDetail :: string
  xs_QueuedAt :: string
  xs_StartedAt :: "string option"
  xs_CompletedAt :: "string option"

record transitionSpec =
  xp_RequestID :: string
  xp_Operation :: string
  xp_State :: string
  xp_RequestedBy :: string
  xp_DryRun :: bool
  xp_TargetCount :: int
  xp_SuccessCount :: int
  xp_FailureCount :: int
  xp_QueuedAt :: string
  xp_StartedAt :: "string option"
  xp_CompletedAt :: "string option"
  xp_Tasks :: "transitionTaskSpec list"

record transition_resource =
  xr_ID :: string
  xr_CreatedAt :: time
  xr_UpdatedAt :: time
  xr_Spec :: transitionSpec

record powerNodeStatus =
  ns_NodeID :: string
  ns_BMCID :: string
  ns_TransitionID :: string
  ns_Operation :: string
  ns_State :: string
  ns_PowerState :: string
  ns_ErrorDetail :: string
  ns_LastUpdatedAt :: "string option"
  ns_LastCompletedAt :: "string option"

datatype power_body =
    TransitionList "transition_resource list" int int int
  | TransitionBody transition_resource
  | PowerStatus "powerNodeStatus list" int
  | MappingSyncTrigger string

text \<open>
  \<open>RespondJSON status location body\<close>; \<open>NoReply\<close> is a handler still waiting for room in the queue,
  \<open>HandlerPanic\<close> one that panicked.
\<close>

datatype power_reply =
    RespondProblem int string | RespondJSON int "string option" power_body | NoReply | HandlerPanic

record 'w mappingSyncer =
  my_Trigger :: "duration \<Rightarrow> 'w \<Rightarrow> go_error option \<times> 'w"
  my_IsReady :: "'w \<Rightarrow> bool"

record 'w transitionRunner =
  rn_StartTransition :: "StartRequest \<Rightarrow> 'w \<Rightarrow> start_result \<times> 'w"
  rn_AbortTransition :: "string \<Rightarrow> 'w \<Rightarrow> go_error option \<times> 'w"

record 'w transitionStore =
  ts_ListTransitions :: "int \<Rightarrow> int \<Rightarrow> 'w \<Rightarrow> go_error + (Transition list \<times> int)"
  ts_GetTransition :: "string \<Rightarrow> 'w \<Rightarrow> go_error + Transition"
  ts_ListTransitionTasks :: "string \<Rightarrow> 'w \<Rightarrow> go_error + Task list"
  ts_ListLatestTransitionTasksByNode :: "string list \<Rightarrow> 'w \<Rightarrow> go_error + Task list"

text \<open>
  \<open>sv_parse_op\<close> is \<open>redfish.ParseResetOperation\<close>, \<open>sv_op_string\<close> the text of an operation;
  \<open>sv_resolveGroupMembers\<close> asks SMD for the members of a group.
\<close>

record 'w Server =
  sv_Ping :: "'w \<Rightarrow> go_error option"
  sv_ResolveNodeMappings :: "'w \<Rightarrow> string list
    \<Rightarrow> go_error + (NodePowerMapping list \<times> NodeMappingError list)"
  sv_transitionStore :: "'w transitionStore option"
  sv_transitionRunner :: "'w transitionRunner option"
  sv_resolveGroupMembers :: "(string \<Rightarrow> go_error + string list) option"
  sv_mappingSync :: "'w mappingSyncer option"
  sv_BulkMaxNodes :: int
  sv_parse_op :: "string \<Rightarrow> go_error + reset_op"
  sv_op_string :: "reset_op \<Rightarrow> string"

definition power_readiness :: "'w Server \<Rightarrow> 'w \<Rightarrow> go_error option" where
  "power_readiness sv w =
     (case sv_Ping sv w of
        Some err \<Rightarrow> Some err
      | None \<Rightarrow>
          (case sv_mappingSync sv of
             None \<Rightarrow> None
           | Some sync \<Rightarrow>
               if my_IsReady sync w then None else Some (Sentinel ErrInitialMappingSyncPending)))"

section \<open>Targets and pagination (handlers_transitions.go)\<close>

record transitionRequest =
  tq_RequestID :: string
  tq_Operation :: string
  tq_Nodes :: "string list"
  tq_Groups :: "string list"
  tq_DryRun :: bool

abbreviation defaultTransitionListLimit where "defaultTransitionListLimit \<equiv> 100 :: int"
abbreviation maxTransitionListLimit where "maxTransitionListLimit \<equiv> 1000 :: int"

definition parseTargetList :: "string list \<Rightarrow> string list" where
  "parseTargetList items =
     concat (map (\<lambda>raw. filter (\<lambda>p. p \<noteq> []) (map trim_space (split_on (CHR '','') raw))) items)"

definition add_targets :: "string list \<Rightarrow> string list \<Rightarrow> string list" where
  "add_targets new resolved =
     fold (\<lambda>n acc. if n \<in> set acc then acc else acc @ [n]) new resolved"

fun add_groups ::
    "(string \<Rightarrow> go_error + string list) \<Rightarrow> string list \<Rightarrow> string list \<Rightarrow> go_error + string list" where
  "add_groups resolve [] resolved = Inr resolved"
| "add_groups resolve (g # gs) resolved =
     (case resolve g of
        Inl err \<Rightarrow> Inl (Wrap (''resolving group '' @ go_quote g @ '': '') err [])
      | Inr members \<Rightarrow> add_groups resolve gs (add_targets (parseTargetList members) resolved))"

definition resolveTargets ::
    "(string \<Rightarrow> go_error + string list) option \<Rightarrow> string list \<Rightarrow> string list
     \<Rightarrow> go_error + string list" where
  "resolveTargets resolveGroupMembers nodes groups =
     (let resolved = add_targets (parseTargetList nodes) [];
          groupNames = parseTargetList groups;
          finish = (\<lambda>resolved. if resolved = [] then Inl (Sentinel ErrNoTargetNodes)
                               else Inr (sort resolved))
      in if groupNames = [] then finish resolved
         else
           (case resolveGroupMembers of
              None \<Rightarrow> Inl (Sentinel ErrGroupResolverUnavailable)
            | Some resolve \<Rightarrow>
                (case add_groups resolve groupNames resolved of
                   Inl err \<Rightarrow> Inl err
                 | Inr resolved \<Rightarrow> finish resolved)))"

definition parseListPagination :: "HttpReq \<Rightarrow> go_error + (int \<times> int)" where
  "parseListPagination r =
     (let limit_text = trim_space (values_get (hq_Query r) ''limit'');
          offset_text = trim_space (values_get (hq_Query r) ''offset'');
          limit = (if limit_text = [] then Inr defaultTransitionListLimit
                   else
                     (case atoi limit_text of
                        None \<Rightarrow> Inl (ErrText (''invalid limit value '' @ go_quote limit_text))
                      | Some parsed \<Rightarrow>
                          if parsed \<le> 0
                          then Inl (ErrText (''invalid limit value '' @ go_quote limit_text))
                          else if maxTransitionListLimit < parsed then Inr maxTransitionListLimit
                          else Inr parsed))
      in case limit of
           Inl err \<Rightarrow> Inl err
         | Inr limit \<Rightarrow>
             if offset_text = [] then Inr (limit, 0)
             else
               (case atoi offset_text of
                  None \<Rightarrow> Inl (ErrText (''invalid offset value '' @ go_quote offset_text))
                | Some parsed \<Rightarrow>
                    if parsed < 0
                    then Inl (ErrText (''invalid offset value '' @ go_quote offset_text))
                    else Inr (limit, parsed)))"

definition requestedByFromContext :: "HttpReq \<Rightarrow> string" where
  "requestedByFromContext r =
     (case hq_Claims r of
        None \<Rightarrow> ''unknown''
      | Some claims \<Rightarrow>
          (let subject = trim_space (cl_Subject claims) in
           if subject = [] then ''unknown'' else subject))"

definition resolvedRequestID :: "HttpReq \<Rightarrow> string \<Rightarrow> string" where
  "resolvedRequestID r requested =
     (if trim_space requested \<noteq> [] then trim_space requested else trim_space (hq_XRequestID r))"

definition newTimeRFC3339 :: "time \<Rightarrow> string" where
  "newTimeRFC3339 v = rfc3339_nano v"

definition toTimeRFC3339Ptr :: "time option \<Rightarrow> string option" where
  "toTimeRFC3339Ptr v = map_option newTimeRFC3339 v"

definition task_spec :: "Task \<Rightarrow> transitionTaskSpec" where
  "task_spec task =
     \<lparr>xs_NodeID = trim_space (tk_NodeID task), xs_BMCID = trim_space (tk_BMCID task),
      xs_Endpoint = trim_space (tk_BMCEndpoint task), xs_Operation = trim_space (tk_Operation task),
      xs_State = trim_space (tk_State task), xs_DryRun = tk_DryRun task,
      xs_AttemptCount = tk_AttemptCount task,
      xs_FinalPowerState = trim_space (tk_FinalPowerState task),
      xs_ErrorDetail = trim_space (tk_ErrorDetail task),
      xs_QueuedAt = newTimeRFC3339 (tk_QueuedAt task),
      xs_StartedAt = toTimeRFC3339Ptr (tk_StartedAt task),
      xs_CompletedAt = toTimeRFC3339Ptr (tk_CompletedAt task)\<rparr>"

definition toTransitionResource :: "Transition \<Rightarrow> Task list \<Rightarrow> transition_resource" where
  "toTransitionResource transition tasks =
     \<lparr>xr_ID = trim_space (tr_ID transition), xr_CreatedAt = tr_CreatedAt transition,
      xr_UpdatedAt = tr_UpdatedAt transition,
      xr_Spec =
        \<lparr>xp_RequestID = trim_space (tr_RequestID transition),
         xp_Operation = trim_space (tr_Operation transition),
         xp_State = trim_space (tr_State transition),
         xp_RequestedBy = trim_space (tr_RequestedBy transition),
         xp_DryRun = tr_DryRun transition, xp_TargetCount = tr_TargetCount transition,
         xp_SuccessCount = tr_SuccessCount transition,
         xp_FailureCount = tr_FailureCount transition,
         xp_QueuedAt = newTimeRFC3339 (tr_QueuedAt transition),
         xp_StartedAt = toTimeRFC3339Ptr (tr_StartedAt transition),
         xp_CompletedAt = toTimeRFC3339Ptr (tr_CompletedAt transition),
         xp_Tasks = map task_spec tasks\<rparr>\<rparr>"

section \<open>Error replies\<close>

definition transition_unavailable :: power_reply where
  "transition_unavailable =
     RespondProblem 503 (sentinel_text ErrTransitionSubsystemUnavailable)"

definition respondTargetResolutionError :: "go_error \<Rightarrow> power_reply" where
  "respondTargetResolutionError err =
     (if errors_is err ErrNoTargetNodes then RespondProblem 400 (sentinel_text ErrNoTargetNodes)
      else if errors_is err ErrGroupResolverUnavailable
      then RespondProblem 503 (sentinel_text ErrGroupResolverUnavailable)
      else if errors_is err ErrGroupNotFound then RespondProblem 404 (err_msg err)
      else RespondProblem 502 (''failed resolving targets: '' @ err_msg err))"

definition respondStartTransitionError :: "go_error \<Rightarrow> power_reply" where
  "respondStartTransitionError err =
     (if errors_is err ErrRunnerNotStarted
      then RespondProblem 503 (sentinel_text ErrRunnerNotStarted)
      else if errors_is err ErrNoTargetNodes
      then RespondProblem 400 (sentinel_text ErrNoTargetNodes)
      else RespondProblem 500 (''failed to create transition: '' @ err_msg err))"

definition too_many_targets :: "string list \<Rightarrow> int \<Rightarrow> power_reply" where
  "too_many_targets targets limit =
     RespondProblem 400 (''too many target nodes: got '' @ itoa (int (length targets)) @
       '', max '' @ itoa limit)"

definition invalid_body :: "go_error \<Rightarrow> power_reply" where
  "invalid_body err = RespondProblem 400 (''invalid request body: '' @ err_msg err)"

section \<open>Transition handlers (handlers_transitions.go, handlers_actions.go)\<close>

definition handleListTransitions :: "'w Server \<Rightarrow> HttpReq \<Rightarrow> 'w \<Rightarrow> power_reply" where
  "handleListTransitions sv r w =
     (case sv_transitionStore sv of
        None \<Rightarrow> transition_unavailable
      | Some st \<Rightarrow>
          (case parseListPagination r of
             Inl err \<Rightarrow> RespondProblem 400 (err_msg err)
           | Inr (limit, offset) \<Rightarrow>
               (case ts_ListTransitions st limit offset w of
                  Inl err \<Rightarrow> RespondProblem 500 ''failed to list transitions''
                | Inr (items, totalCount) \<Rightarrow>
                    RespondJSON 200 None
                      (TransitionList (map (\<lambda>item. toTransitionResource item []) items)
                         totalCount limit offset))))"

definition loadTransition ::
    "'w transitionStore \<Rightarrow> string \<Rightarrow> 'w \<Rightarrow> go_error + (Transition \<times> Task list)" where
  "loadTransition st i w =
     (case ts_GetTransition st i w of
        Inl err \<Rightarrow> Inl err
      | Inr transition \<Rightarrow>
          (case ts_ListTransitionTasks st i w of
             Inl err \<Rightarrow> Inl err
           | Inr tasks \<Rightarrow> Inr (transition, tasks)))"

definition respond_loaded ::
    "int \<Rightarrow> string \<Rightarrow> go_error + (Transition \<times> Task list) \<Rightarrow> power_reply" where
  "respond_loaded status i loaded =
     (case loaded of
        Inl err \<Rightarrow>
          if errors_is err ErrNotFound
          then RespondProblem 404 (''transition '' @ go_quote i @ '' not found'')
          else RespondProblem 500 ''failed to load transition''
      | Inr (transition, tasks) \<Rightarrow>
          RespondJSON status None (TransitionBody (toTransitionResource transition tasks)))"

definition handleGetTransition :: "'w Server \<Rightarrow> HttpReq \<Rightarrow> 'w \<Rightarrow> power_reply" where
  "handleGetTransition sv r w =
     (case sv_transitionStore sv of
        None \<Rightarrow> transition_unavailable
      | Some st \<Rightarrow>
          (let i = trim_space (hq_ID r) in
           if i = [] then RespondProblem 400 ''transition id is required''
           else respond_loaded 200 i (loadTransition st i w)))"

definition handleDeleteTransition :: "'w Server \<Rightarrow> HttpReq \<Rightarrow> 'w \<Rightarrow> power_reply \<times> 'w" where
  "handleDeleteTransition sv r w =
     (case (sv_transitionRunner sv, sv_transitionStore sv) of
        (Some runner, Some st) \<Rightarrow>
          (let i = trim_space (hq_ID r) in
           if i = [] then (RespondProblem 400 ''transition id is required'', w)
           else
             (case rn_AbortTransition runner i w of
                (abortErr, w1) \<Rightarrow>
                  (case abortErr of
                     Some err \<Rightarrow>
                       if \<not> errors_is err ErrTransitionNotFound
                       then (RespondProblem 500 ''failed to abort transition'', w1)
                       else (respond_loaded 202 i (loadTransition st i w1), w1)
                   | None \<Rightarrow> (respond_loaded 202 i (loadTransition st i w1), w1))))
      | _ \<Rightarrow> (transition_unavailable, w))"

definition startTransition ::
    "'w Server \<Rightarrow> HttpReq \<Rightarrow> transitionRequest \<Rightarrow> 'w \<Rightarrow> power_reply \<times> 'w" where
  "startTransition sv r req w =
     (case sv_transitionRunner sv of
        None \<Rightarrow> (transition_unavailable, w)
      | Some runner \<Rightarrow>
     (case sv_parse_op sv (tq_Operation req) of
        Inl err \<Rightarrow> (RespondProblem 400 (''invalid operation '' @ go_quote (tq_Operation req)), w)
      | Inr operation \<Rightarrow>
     (case resolveTargets (sv_resolveGroupMembers sv) (tq_Nodes req) (tq_Groups req) of
        Inl err \<Rightarrow> (respondTargetResolutionError err, w)
      | Inr nodeIDs \<Rightarrow>
          if sv_BulkMaxNodes sv < int (length nodeIDs)
          then (too_many_targets nodeIDs (sv_BulkMaxNodes sv), w)
          else
            (let startReq = \<lparr>sr_RequestID = resolvedRequestID r (tq_RequestID req),
                   sr_RequestedBy = requestedByFromContext r, sr_Operation = sv_op_string sv operation,
                   sr_NodeIDs = nodeIDs, sr_DryRun = tq_DryRun req\<rparr>
             in case rn_StartTransition runner startReq w of
                  (StartErr err, w1) \<Rightarrow> (respondStartTransitionError err, w1)
                | (StartWaiting _ _, w1) \<Rightarrow> (NoReply, w1)
                | (StartPanic, w1) \<Rightarrow> (HandlerPanic, w1)
                | (StartOk transition, w1) \<Rightarrow>
                    (let accepted = (\<lambda>tasks.
                           RespondJSON 202 (Some (''/power/v1/transitions/'' @ tr_ID transition))
                             (TransitionBody (toTransitionResource transition tasks)))
                     in case sv_transitionStore sv of
                          None \<Rightarrow> (accepted [], w1)
                        | Some st \<Rightarrow>
                            (case ts_ListTransitionTasks st (tr_ID transition) w1 of
                               Inl err \<Rightarrow>
                                 (RespondProblem 500 ''failed to load transition tasks'', w1)
                             | Inr tasks \<Rightarrow> (accepted tasks, w1)))))))"

record actionRequest =
  ar_RequestID :: string
  ar_Nodes :: "string list"
  ar_Groups :: "string list"
  ar_DryRun :: bool

record resetActionRequest = actionRequest +
  ar_Operation :: string

definition action_request :: "string \<Rightarrow> 'x actionRequest_scheme \<Rightarrow> transitionRequest" where
  "action_request operation req =
     \<lparr>tq_RequestID = trim_space (ar_RequestID req), tq_Operation = operation,
      tq_Nodes = ar_Nodes req, tq_Groups = ar_Groups req, tq_DryRun = ar_DryRun req\<rparr>"

definition handleActionOn ::
    "'w Server \<Rightarrow> HttpReq \<Rightarrow> go_error + actionRequest \<Rightarrow> 'w \<Rightarrow> power_reply \<times> 'w" where
  "handleActionOn sv r body w =
     (case body of
        Inl err \<Rightarrow> (invalid_body err, w)
      | Inr req \<Rightarrow> startTransition sv r (action_request ''On'' req) w)"

definition handleActionOff ::
    "'w Server \<Rightarrow> HttpReq \<Rightarrow> go_error + actionRequest \<Rightarrow> 'w \<Rightarrow> power_reply \<times> 'w" where
  "handleActionOff sv r body w =
     (case body of
        Inl err \<Rightarrow> (invalid_body err, w)
      | Inr req \<Rightarrow> startTransition sv r (action_request ''ForceOff'' req) w)"

definition handleActionReboot ::
    "'w Server \<Rightarrow> HttpReq \<Rightarrow> go_error + actionRequest \<Rightarrow> 'w \<Rightarrow> power_reply \<times> 'w" where
  "handleActionReboot sv r body w =
     (case body of
        Inl err \<Rightarrow> (invalid_body err, w)
      | Inr req \<Rightarrow> startTransition sv r (action_request ''ForceRestart'' req) w)"

definition handleActionReset ::
    "'w Server \<Rightarrow> HttpReq \<Rightarrow> go_error + resetActionRequest \<Rightarrow> 'w \<Rightarrow> power_reply \<times> 'w" where
  "handleActionReset sv r body w =
     (case body of
        Inl err \<Rightarrow> (invalid_body err, w)
      | Inr req \<Rightarrow> startTransition sv r (action_request (trim_space (ar_Operation req)) req) w)"

text \<open>The body of \<open>POST /transitions\<close> has the fields of a reset action.\<close>

definition handleCreateTransition ::
    "'w Server \<Rightarrow> HttpReq \<Rightarrow> go_error + resetActionRequest \<Rightarrow> 'w \<Rightarrow> power_reply \<times> 'w" where
  "handleCreateTransition sv r body w =
     (case body of
        Inl err \<Rightarrow> (invalid_body err, w)
      | Inr req \<Rightarrow> startTransition sv r (action_request (trim_space (ar_Operation req)) req) w)"

section \<open>Power status and mapping sync (handlers_status.go, handlers_mapping_sync.go)\<close>

definition parseQueryTargets :: "HttpReq \<Rightarrow> string list \<Rightarrow> string list" where
  "parseQueryTargets r keys = parseTargetList (concat (map (values_of (hq_Query r)) keys))"

definition inferredPowerState :: "(string \<Rightarrow> go_error + reset_op) \<Rightarrow> string \<Rightarrow> string" where
  "inferredPowerState parse_op operation =
     (case parse_op operation of
        Inl err \<Rightarrow> []
      | Inr parsed \<Rightarrow>
          if parsed \<in> {OpOn, OpGracefulRestart, OpForceRestart, OpNMI} then ''On''
          else if parsed \<in> {OpForceOff, OpGracefulShutdown} then ''Off''
          else [])"

definition no_status :: "string \<Rightarrow> powerNodeStatus" where
  "no_status nodeID =
     \<lparr>ns_NodeID = nodeID, ns_BMCID = [], ns_TransitionID = [], ns_Operation = [], ns_State = [],
      ns_PowerState = [], ns_ErrorDetail = [], ns_LastUpdatedAt = None, ns_LastCompletedAt = None\<rparr>"

text \<open>
  The loop body.  \<open>toTimeRFC3339Ptr(&task.UpdatedAt)\<close> is never nil, so the clock it would fall
  back on is never read.
\<close>

definition node_status ::
    "(string \<Rightarrow> go_error + reset_op) \<Rightarrow> (string \<times> string) list \<Rightarrow> (string \<times> Task) list \<Rightarrow> string
     \<Rightarrow> powerNodeStatus" where
  "node_status parse_op missingDetails taskByNode nodeID =
     (let status = no_status nodeID in
      case map_of missingDetails nodeID of
        Some detail \<Rightarrow> status\<lparr>ns_State := ''unresolved'', ns_ErrorDetail := detail\<rparr>
      | None \<Rightarrow>
          (case map_of taskByNode nodeID of
             None \<Rightarrow>
               status\<lparr>ns_State := ''unknown'', ns_ErrorDetail := ''no transition history for node''\<rparr>
           | Some task \<Rightarrow>
               (let powerState = trim_space (tk_FinalPowerState task) in
                status\<lparr>ns_BMCID := trim_space (tk_BMCID task),
                  ns_TransitionID := trim_space (tk_TransitionID task),
                  ns_Operation := trim_space (tk_Operation task),
                  ns_State := trim_space (tk_State task),
                  ns_PowerState := (if powerState = [] then inferredPowerState parse_op (tk_Operation task)
                                    else powerState),
                  ns_LastCompletedAt := toTimeRFC3339Ptr (tk_CompletedAt task),
                  ns_LastUpdatedAt := toTimeRFC3339Ptr (Some (tk_UpdatedAt task)),
                  ns_ErrorDetail := trim_space (tk_ErrorDetail task)\<rparr>)))"

definition missing_details :: "NodeMappingError list \<Rightarrow> (string \<times> string) list" where
  "missing_details missing =
     map_from (\<lambda>item. Some (trim_space (me_NodeID item), trim_space (me_Detail item))) missing"

definition tasks_by_node :: "Task list \<Rightarrow> (string \<times> Task) list" where
  "tasks_by_node tasks =
     map_from (\<lambda>task. if trim_space (tk_NodeID task) = [] then None
                      else Some (trim_space (tk_NodeID task), task)) tasks"

definition handleGetPowerStatus :: "'w Server \<Rightarrow> HttpReq \<Rightarrow> 'w \<Rightarrow> power_reply" where
  "handleGetPowerStatus sv r w =
     (case sv_transitionStore sv of
        None \<Rightarrow> transition_unavailable
      | Some st \<Rightarrow>
     (case resolveTargets (sv_resolveGroupMembers sv) (parseQueryTargets r [''nodes'', ''node''])
             (parseQueryTargets r [''groups'', ''group'']) of
        Inl err \<Rightarrow> respondTargetResolutionError err
      | Inr targetNodes \<Rightarrow>
          if sv_BulkMaxNodes sv < int (length targetNodes)
          then too_many_targets targetNodes (sv_BulkMaxNodes sv)
          else
            (case ts_ListLatestTransitionTasksByNode st targetNodes w of
               Inl err \<Rightarrow> RespondProblem 500 ''failed to resolve power status''
             | Inr latestTasks \<Rightarrow>
            (case sv_ResolveNodeMappings sv w targetNodes of
               Inl err \<Rightarrow> RespondProblem 500 ''failed to resolve topology mapping''
             | Inr (_, missingMappings) \<Rightarrow>
                 (let statuses = map (node_status (sv_parse_op sv) (missing_details missingMappings)
                                        (tasks_by_node latestTasks)) targetNodes
                  in RespondJSON 200 None (PowerStatus statuses (int (length statuses))))))))"

definition handleAdminSyncMappings :: "'w Server \<Rightarrow> 'w \<Rightarrow> power_reply \<times> 'w" where
  "handleAdminSyncMappings sv w =
     (case sv_mappingSync sv of
        None \<Rightarrow> (RespondProblem 503 ''mapping sync subsystem is not configured'', w)
      | Some sync \<Rightarrow>
          (case my_Trigger sync (60 * second) w of
             (Some err, w1) \<Rightarrow> (RespondProblem 500 ''failed to trigger mapping sync'', w1)
           | (None, w1) \<Rightarrow> (RespondJSON 202 None (MappingSyncTrigger ''accepted''), w1)))"

section \<open>Scopes and routes (server.go)\<close>

definition requireAnyScope ::
    "string list \<Rightarrow> HttpReq \<Rightarrow> ('w \<Rightarrow> power_reply \<times> 'w) \<Rightarrow> 'w \<Rightarrow> power_reply \<times> 'w" where
  "requireAnyScope scopes r handler w =
     (case hq_Claims r of
        None \<Rightarrow> (RespondProblem 403 ''no claims in context'', w)
      | Some claims \<Rightarrow>
          if list_ex (cl_HasScope claims) scopes then handler w
          else (RespondProblem 403 (''missing required scope: '' @ hd scopes), w))"

datatype power_call =
    ListCall | CreateCall "go_error + resetActionRequest" | GetCall | DeleteCall | StatusCall
  | OnCall "go_error + actionRequest" | OffCall "go_error + actionRequest"
  | RebootCall "go_error + actionRequest" | ResetCall "go_error + resetActionRequest" | SyncCall

abbreviation read_scopes where "read_scopes \<equiv> [''read:power'', ''admin'']"
abbreviation write_scopes where "write_scopes \<equiv> [''write:power'', ''admin'']"
abbreviation sync_scopes where "sync_scopes \<equiv> [''admin:power'', ''admin'']"

fun power_routes :: "'w Server \<Rightarrow> HttpReq \<Rightarrow> power_call \<Rightarrow> 'w \<Rightarrow> power_reply \<times> 'w" where
  "power_routes sv r ListCall w =
     requireAnyScope read_scopes r (\<lambda>w. (handleListTransitions sv r w, w)) w"
| "power_routes sv r (CreateCall body) w =
     requireAnyScope write_scopes r (handleCreateTransition sv r body) w"
| "power_routes sv r GetCall w =
     requireAnyScope read_scopes r (\<lambda>w. (handleGetTransition sv r w, w)) w"
| "power_routes sv r DeleteCall w =
     requireAnyScope write_scopes r (handleDeleteTransition sv r) w"
| "power_routes sv r StatusCall w =
     requireAnyScope read_scopes r (\<lambda>w. (handleGetPowerStatus sv r w, w)) w"
| "power_routes sv r (OnCall body) w =
     requireAnyScope write_scopes r (handleActionOn sv r body) w"
| "power_routes sv r (OffCall body) w =
     requireAnyScope write_scopes r (handleActionOff sv r body) w"
| "power_routes sv r (RebootCall body) w =
     requireAnyScope write_scopes r (handleActionReboot sv r body) w"
| "power_routes sv r (ResetCall body) w =
     requireAnyScope write_scopes r (handleActionReset sv r body) w"
| "power_routes sv r SyncCall w =
     requireAnyScope sync_scopes r (handleAdminSyncMappings sv) w"

section \<open>Target resolution\<close>

lemma parseTargetList_trim_list:
  "parseTargetList items = trim_list (concat (map (split_on (CHR '','')) items))"
  by (induction items) (simp_all add: parseTargetList_def trim_list_def)

lemma parseTargetList_trimmed: "t \<in> set (parseTargetList items) \<Longrightarrow> t \<noteq> [] \<and> trim_space t = t"
  unfolding parseTargetList_trim_list set_trim_list by (rule nonblank_trimmed)

lemma set_add_targets [simp]: "set (add_targets new resolved) = set new \<union> set resolved"
  unfolding add_targets_def by (induction new arbitrary: resolved) auto

lemma distinct_add_targets: "distinct resolved \<Longrightarrow> distinct (add_targets new resolved)"
  unfolding add_targets_def by (induction new arbitrary: resolved) auto

text \<open>The nodes a request names, itself or through its groups.\<close>

definition group_members :: "(string \<Rightarrow> go_error + string list) option \<Rightarrow> string \<Rightarrow> string set" where
  "group_members resolver g =
     (case resolver of
        None \<Rightarrow> {}
      | Some resolve \<Rightarrow>
          (case resolve g of Inl err \<Rightarrow> {} | Inr members \<Rightarrow> set (parseTargetList members)))"

definition requested_nodes ::
    "(string \<Rightarrow> go_error + string list) option \<Rightarrow> string list \<Rightarrow> string list \<Rightarrow> string set" where
  "requested_nodes resolver nodes groups =
     set (parseTargetList nodes) \<union> (\<Union>g \<in> set (parseTargetList groups). group_members resolver g)"

lemma add_groups_set:
  "add_groups resolve gs resolved = Inr out \<Longrightarrow>
   set out = set resolved \<union> (\<Union>g \<in> set gs. group_members (Some resolve) g) \<and>
   (distinct resolved \<longrightarrow> distinct out)"
  by (induction resolve gs resolved rule: add_groups.induct)
    (auto simp: group_members_def distinct_add_targets split: sum.splits)

lemma resolveTargets_Inr:
  assumes "resolveTargets resolver nodes groups = Inr ts"
  shows "sorted ts \<and> distinct ts \<and> ts \<noteq> [] \<and> set ts = requested_nodes resolver nodes groups"
proof (cases "parseTargetList groups = []")
  case True
  define out where "out = add_targets (parseTargetList nodes) []"
  with assms True have ts: "out \<noteq> []" "ts = sort out"
    by (auto simp: resolveTargets_def Let_def split: if_splits)
  have "set out = requested_nodes resolver nodes groups \<and> distinct out"
    by (simp add: out_def requested_nodes_def True distinct_add_targets)
  moreover have "sort out \<noteq> []" using ts(1) by (metis set_empty set_sort)
  ultimately show ?thesis by (simp add: ts(2))
next
  case False
  with assms obtain resolve where r: "resolver = Some resolve"
    by (auto simp: resolveTargets_def Let_def split: option.splits)
  with assms False obtain out where
    out: "add_groups resolve (parseTargetList groups) (add_targets (parseTargetList nodes) []) = Inr out"
    and ts: "out \<noteq> []" "ts = sort out"
    by (auto simp: resolveTargets_def Let_def split: sum.splits if_splits)
  from add_groups_set [OF out] have "set out = requested_nodes resolver nodes groups \<and> distinct out"
    by (auto simp: requested_nodes_def r distinct_add_targets)
  moreover have "sort out \<noteq> []" using ts(1) by (metis set_empty set_sort)
  ultimately show ?thesis by (simp add: ts(2))
qed

lemma group_members_trimmed: "n \<in> group_members resolver g \<Longrightarrow> n \<noteq> [] \<and> trim_space n = n"
  unfolding group_members_def
  by (cases resolver; cases "the resolver g") (auto dest: parseTargetList_trimmed)

lemma requested_nodes_trimmed:
  "n \<in> requested_nodes resolver nodes groups \<Longrightarrow> n \<noteq> [] \<and> trim_space n = n"
  unfolding requested_nodes_def using group_members_trimmed parseTargetList_trimmed by blast

lemma nonblank_requested:
  "set ts = requested_nodes resolver nodes groups \<Longrightarrow> nonblank ts = set ts"
  using requested_nodes_trimmed [of _ resolver nodes groups] by (force simp: nonblank_def image_iff)

section \<open>Properties\<close>

text \<open>The scope a call needs, besides \<open>admin\<close>, and the calls that may change the state.\<close>

fun call_scope :: "power_call \<Rightarrow> string" where
  "call_scope ListCall = ''read:power''"
| "call_scope GetCall = ''read:power''"
| "call_scope StatusCall = ''read:power''"
| "call_scope SyncCall = ''admin:power''"
| "call_scope _ = ''write:power''"

definition call_permitted :: "HttpReq \<Rightarrow> power_call \<Rightarrow> bool" where
  "call_permitted r call \<longleftrightarrow>
     (case hq_Claims r of
        None \<Rightarrow> False
      | Some c \<Rightarrow> cl_HasScope c (call_scope call) \<or> cl_HasScope c ''admin'')"

lemma requireAnyScope_simp:
  "requireAnyScope [s, ''admin''] r handler w =
   (if case hq_Claims r of None \<Rightarrow> False | Some c \<Rightarrow> cl_HasScope c s \<or> cl_HasScope c ''admin''
    then handler w
    else (RespondProblem 403 (case hq_Claims r of None \<Rightarrow> ''no claims in context''
            | Some c \<Rightarrow> ''missing required scope: '' @ s), w))"
  by (simp add: requireAnyScope_def split: option.splits)

text \<open>A call without its scope, or a reading one, changes nothing.\<close>

lemma power_routes_kept:
  "\<not> call_permitted r call \<or> call_scope call = ''read:power'' \<Longrightarrow> snd (power_routes sv r call w) = w"
  by (cases call) (auto simp: requireAnyScope_simp call_permitted_def split: option.split)

text \<open>
  The routes are gated: a call without its scope is answered 403 and changes nothing, and a
  reading call never changes the state, whoever makes it.
\<close>

lemma power_routes_gated:
  "(\<not> call_permitted r call \<longrightarrow>
     (\<exists>detail. power_routes sv r call w = (RespondProblem 403 detail, w))) \<and>
   (call_scope call = ''read:power'' \<longrightarrow> snd (power_routes sv r call w) = w)"
  by (cases call) (simp_all add: requireAnyScope_simp call_permitted_def split: option.split)

definition no_claims :: HttpReq where
  "no_claims = \<lparr>hq_Query = [], hq_XRequestID = [], hq_Authorization = [], hq_Claims = None, hq_ID = []\<rparr>"

text \<open>
  C32. A start request is either refused without reaching the runner, or reaches it exactly once,
  with the requested nodes sorted and without repetition, at least one and at most the configured
  maximum; the answer 202 is given for a started transition, with its location.
\<close>

theorem start_handler_contract:
  "(\<exists>status detail. startTransition sv r req w = (RespondProblem status detail, w) \<and>
      status \<in> {400, 404, 502, 503}) \<or>
   (\<exists>runner operation nodeIDs res reply w'. startTransition sv r req w = (reply, w') \<and>
      sv_transitionRunner sv = Some runner \<and> sv_parse_op sv (tq_Operation req) = Inr operation \<and>
      sorted nodeIDs \<and> distinct nodeIDs \<and>
      set nodeIDs = requested_nodes (sv_resolveGroupMembers sv) (tq_Nodes req) (tq_Groups req) \<and>
      nodeIDs \<noteq> [] \<and> int (length nodeIDs) \<le> sv_BulkMaxNodes sv \<and>
      rn_StartTransition runner
        \<lparr>sr_RequestID = resolvedRequestID r (tq_RequestID req),
         sr_RequestedBy = requestedByFromContext r, sr_Operation = sv_op_string sv operation,
         sr_NodeIDs = nodeIDs, sr_DryRun = tq_DryRun req\<rparr> w = (res, w') \<and>
      (case reply of
         RespondJSON status location body \<Rightarrow>
           \<exists>tr tasks. res = StartOk tr \<and> status = 202 \<and>
             location = Some (''/power/v1/transitions/'' @ tr_ID tr) \<and>
             body = TransitionBody (toTransitionResource tr tasks)
       | RespondProblem status detail \<Rightarrow>
           status \<in> {400, 500, 503} \<and> (\<forall>tr tasks. res \<noteq> StartWaiting tr tasks) \<and> res \<noteq> StartPanic
       | NoReply \<Rightarrow> (\<exists>tr rest. res = StartWaiting tr rest)
       | HandlerPanic \<Rightarrow> res = StartPanic))"
proof (cases "sv_transitionRunner sv")
  case None
  then show ?thesis by (simp add: startTransition_def transition_unavailable_def)
next
  case runner: (Some runner)
  show ?thesis
  proof (cases "sv_parse_op sv (tq_Operation req)")
    case (Inl e)
    with runner show ?thesis by (simp add: startTransition_def)
  next
    case op: (Inr operation)
    show ?thesis
    proof (cases "resolveTargets (sv_resolveGroupMembers sv) (tq_Nodes req) (tq_Groups req)")
      case (Inl e)
      with runner op show ?thesis
        by (simp add: startTransition_def respondTargetResolutionError_def)
    next
      case ts: (Inr nodeIDs)
      show ?thesis
      proof (cases "sv_BulkMaxNodes sv < int (length nodeIDs)")
        case True
        with runner op ts show ?thesis by (simp add: startTransition_def too_many_targets_def)
      next
        case False
        obtain reply w' where out: "startTransition sv r req w = (reply, w')" by fastforce
        let ?req = "\<lparr>sr_RequestID = resolvedRequestID r (tq_RequestID req),
          sr_RequestedBy = requestedByFromContext r, sr_Operation = sv_op_string sv operation,
          sr_NodeIDs = nodeIDs, sr_DryRun = tq_DryRun req\<rparr>"
        obtain res w1 where start: "rn_StartTransition runner ?req w = (res, w1)" by fastforce
        note ctx = runner op ts False start out resolveTargets_Inr [OF ts]
        show ?thesis
          by (rule disjI2, rule exI [of _ runner], rule exI [of _ operation], rule exI [of _ nodeIDs],
              rule exI [of _ res], rule exI [of _ reply], rule exI [of _ w'], cases res)
            (use ctx in \<open>auto simp: startTransition_def respondStartTransitionError_def
              split: option.splits sum.splits\<close>)
      qed
    qed
  qed
qed

text \<open>The server on the PostgreSQL store (\<open>New\<close>): one store serves both interfaces.\<close>

definition pg_transition_store :: "pg \<Rightarrow> (pg_tables, 'x) runner_state_scheme transitionStore" where
  "pg_transition_store pg =
     \<lparr>ts_ListTransitions = (\<lambda>limit offset s. ListTransitions pg (pt_tr (rs_db s)) limit offset),
      ts_GetTransition = (\<lambda>i s. GetTransition pg (pt_tr (rs_db s)) i),
      ts_ListTransitionTasks = (\<lambda>i s. ListTransitionTasks pg (pt_tr (rs_db s)) i),
      ts_ListLatestTransitionTasksByNode =
        (\<lambda>nodeIDs s. ListLatestTransitionTasksByNode pg (pt_tr (rs_db s)) nodeIDs)\<rparr>"

definition server_New ::
    "((pg_tables, 'x) runner_state_scheme \<Rightarrow> go_error option) \<Rightarrow> pg \<Rightarrow> pg
     \<Rightarrow> (pg_tables, 'x) runner_state_scheme transitionRunner option
     \<Rightarrow> (string \<Rightarrow> go_error + string list) option
     \<Rightarrow> (pg_tables, 'x) runner_state_scheme mappingSyncer option \<Rightarrow> int
     \<Rightarrow> (string \<Rightarrow> go_error + reset_op) \<Rightarrow> (reset_op \<Rightarrow> string)
     \<Rightarrow> (pg_tables, 'x) runner_state_scheme Server" where
  "server_New ping pgm pgt runner resolver sync bulkMax parse_op op_string =
     \<lparr>sv_Ping = ping,
      sv_ResolveNodeMappings = (\<lambda>s. ResolveNodeMappings pgm (pt_map (rs_db s))),
      sv_transitionStore = Some (pg_transition_store pgt), sv_transitionRunner = runner,
      sv_resolveGroupMembers = resolver, sv_mappingSync = sync, sv_BulkMaxNodes = bulkMax,
      sv_parse_op = parse_op, sv_op_string = op_string\<rparr>"

text \<open>
  What a status has to say of its node: the first missing part of its route; that it has no
  history; or the newest of its tasks.
\<close>

definition status_tells ::
    "(string \<Rightarrow> go_error + reset_op) \<Rightarrow> map_tables \<Rightarrow> Task list \<Rightarrow> powerNodeStatus \<Rightarrow> bool" where
  "status_tells parse_op m tasks st \<longleftrightarrow>
     (case route_error (ns_NodeID st) (node_route m (ns_NodeID st)) of
        Some e \<Rightarrow> ns_State st = ''unresolved'' \<and> ns_ErrorDetail st = trim_space (me_Detail e)
      | None \<Rightarrow>
          if ns_NodeID st \<notin> tk_NodeID ` set tasks then ns_State st = ''unknown''
          else
            (\<exists>q \<in> set tasks. tk_NodeID q = ns_NodeID st \<and>
               (\<forall>q' \<in> set tasks. tk_NodeID q' = ns_NodeID st \<longrightarrow>
                  (tk_UpdatedAt q', tk_CreatedAt q') \<le> (tk_UpdatedAt q, tk_CreatedAt q)) \<and>
               ns_State st = trim_space (tk_State q) \<and>
               ns_TransitionID st = trim_space (tk_TransitionID q) \<and>
               ns_ErrorDetail st = trim_space (tk_ErrorDetail q) \<and>
               ns_LastUpdatedAt st = Some (newTimeRFC3339 (tk_UpdatedAt q)) \<and>
               ns_PowerState st =
                 (if trim_space (tk_FinalPowerState q) = []
                  then inferredPowerState parse_op (tk_Operation q)
                  else trim_space (tk_FinalPowerState q))))"

lemma route_error_node: "route_error n rt = Some e \<Longrightarrow> me_NodeID e = trim_space n"
  by (auto simp: route_error_def split: option.splits if_splits)

lemma missing_details_routes:
  assumes trimmed: "\<forall>n \<in> set ts. trim_space n = n" and n: "n \<in> set ts"
  shows "map_of (missing_details (List.map_filter (\<lambda>n. route_error n (node_route m n)) ts)) n =
    map_option (\<lambda>e. trim_space (me_Detail e)) (route_error n (node_route m n))"
proof -
  define es where "es = List.map_filter (\<lambda>n. route_error n (node_route m n)) ts"
  have mem: "e \<in> set es \<longleftrightarrow> (\<exists>n' \<in> set ts. route_error n' (node_route m n') = Some e)" for e
    unfolding es_def by (force simp: List.map_filter_def image_iff)
  have own: "route_error n (node_route m n) = Some e'"
    if e': "e' \<in> set es" "trim_space (me_NodeID e') = n" for e'
  proof -
    from e'(1) mem obtain n' where n': "n' \<in> set ts" "route_error n' (node_route m n') = Some e'"
      by blast
    with route_error_node [OF n'(2)] trimmed e'(2) have "n' = n" by simp
    with n'(2) show ?thesis by simp
  qed
  show ?thesis
  proof (cases "map_of (missing_details es) n")
    case None
    have "route_error n (node_route m n) = None"
    proof (rule ccontr)
      assume "route_error n (node_route m n) \<noteq> None"
      then obtain e where e: "route_error n (node_route m n) = Some e" by blast
      with n mem have "e \<in> set es" by blast
      moreover have "trim_space (me_NodeID e) = n" using route_error_node [OF e] trimmed n by simp
      ultimately show False
        using map_of_map_from_NoneD [OF None [unfolded missing_details_def]] by blast
    qed
    with None show ?thesis by (simp add: es_def)
  next
    case (Some d)
    then obtain e' where e': "e' \<in> set es" "trim_space (me_NodeID e') = n" "d = trim_space (me_Detail e')"
      using map_of_map_from_SomeD [of _ es n d] unfolding missing_details_def by blast
    with own [OF e'(1,2)] Some show ?thesis by (simp add: es_def)
  qed
qed

lemma tasks_by_node_rows:
  assumes "\<forall>k \<in> set rows. trim_space (tk_NodeID k) = tk_NodeID k \<and> tk_NodeID k \<noteq> []"
  shows "case map_of (tasks_by_node rows) n of
      None \<Rightarrow> n \<notin> tk_NodeID ` set rows
    | Some k \<Rightarrow> k \<in> set rows \<and> tk_NodeID k = n"
proof (cases "map_of (tasks_by_node rows) n")
  case None
  have "k \<in> set rows \<Longrightarrow> tk_NodeID k \<noteq> n" for k
    using map_of_map_from_NoneD [OF None [unfolded tasks_by_node_def], of k k] assms by fastforce
  with None show ?thesis by auto
next
  case (Some k)
  then have "\<exists>x \<in> set rows. (if trim_space (tk_NodeID x) = [] then None
      else Some (trim_space (tk_NodeID x), x)) = Some (n, k)"
    unfolding tasks_by_node_def by (rule map_of_map_from_SomeD)
  with assms Some show ?thesis by (auto split: if_splits)
qed

lemma node_status_simps:
  "ns_NodeID (node_status parse_op missing tasks n) = n"
  by (simp add: node_status_def no_status_def Let_def split: option.split)

lemma node_status_tells:
  assumes trimmed: "\<forall>n \<in> set ts. trim_space n = n" and n: "n \<in> set ts" "n \<noteq> []"
    and latest: "ListLatestTransitionTasksByNode pg t ts = Inr rows"
  shows "status_tells parse_op m (t_tasks t) (node_status parse_op
      (missing_details (List.map_filter (\<lambda>n. route_error n (node_route m n)) ts))
      (tasks_by_node rows) n)"
proof -
  note spec = ListLatest_spec [OF latest]
  have nodes: "nonblank ts \<inter> tk_NodeID ` set (t_tasks t) = tk_NodeID ` set rows" using spec by simp
  have rows: "\<forall>k \<in> set rows. trim_space (tk_NodeID k) = tk_NodeID k \<and> tk_NodeID k \<noteq> []"
    using nodes nonblank_trimmed by blast
  have in_ts: "n \<in> nonblank ts" using n trimmed by (force simp: nonblank_def image_iff)
  note missing = missing_details_routes [OF trimmed n(1), of m]
  show ?thesis
  proof (cases "route_error n (node_route m n)")
    case (Some e)
    with missing show ?thesis
      by (simp add: status_tells_def node_status_simps) (simp add: node_status_def no_status_def)
  next
    case None
    show ?thesis
    proof (cases "map_of (tasks_by_node rows) n")
      case none: None
      with tasks_by_node_rows [OF rows, of n] nodes in_ts have "n \<notin> tk_NodeID ` set (t_tasks t)"
        by auto
      with None none missing show ?thesis
        by (simp add: status_tells_def node_status_simps) (simp add: node_status_def no_status_def)
    next
      case (Some k)
      with tasks_by_node_rows [OF rows, of n] have k: "k \<in> set rows" "tk_NodeID k = n" by simp_all
      with spec obtain q where q: "q \<in> set (t_tasks t)" "k = task_row q" by blast
      have row: "tk_NodeID q = n" "tk_UpdatedAt q = tk_UpdatedAt k" "tk_CreatedAt q = tk_CreatedAt k"
        using q k(2) by (simp_all add: task_row_def)
      have newest: "\<forall>q' \<in> set (t_tasks t). tk_NodeID q' = n \<longrightarrow>
          (tk_UpdatedAt q', tk_CreatedAt q') \<le> (tk_UpdatedAt q, tk_CreatedAt q)"
        using spec k row by simp
      have "n \<in> tk_NodeID ` set (t_tasks t)" using q(1) row(1) by blast
      let ?st = "node_status parse_op
        (missing_details (List.map_filter (\<lambda>n. route_error n (node_route m n)) ts))
        (tasks_by_node rows) n"
      have fields: "ns_State ?st = trim_space (tk_State q)"
          "ns_TransitionID ?st = trim_space (tk_TransitionID q)"
          "ns_ErrorDetail ?st = trim_space (tk_ErrorDetail q)"
          "ns_LastUpdatedAt ?st = Some (newTimeRFC3339 (tk_UpdatedAt q))"
          "ns_PowerState ?st =
             (if trim_space (tk_FinalPowerState q) = []
              then inferredPowerState parse_op (tk_Operation q)
              else trim_space (tk_FinalPowerState q))"
        using None Some missing q(2)
        by (simp_all add: node_status_def no_status_def toTimeRFC3339Ptr_def task_row_def Let_def)
      have Q: "Q" if "Q = (\<exists>q \<in> set (t_tasks t). tk_NodeID q = n \<and>
               (\<forall>q' \<in> set (t_tasks t). tk_NodeID q' = n \<longrightarrow>
                  (tk_UpdatedAt q', tk_CreatedAt q') \<le> (tk_UpdatedAt q, tk_CreatedAt q)) \<and>
               ns_State ?st = trim_space (tk_State q) \<and>
               ns_TransitionID ?st = trim_space (tk_TransitionID q) \<and>
               ns_ErrorDetail ?st = trim_space (tk_ErrorDetail q) \<and>
               ns_LastUpdatedAt ?st = Some (newTimeRFC3339 (tk_UpdatedAt q)) \<and>
               ns_PowerState ?st =
                 (if trim_space (tk_FinalPowerState q) = []
                  then inferredPowerState parse_op (tk_Operation q)
                  else trim_space (tk_FinalPowerState q)))" for Q
        unfolding that by (intro bexI [of _ q] conjI q(1) row(1) newest fields)
      with \<open>n \<in> tk_NodeID ` set (t_tasks t)\<close> None show ?thesis
        unfolding status_tells_def node_status_simps by simp
    qed
  qed
qed

text \<open>
  C33. A power status answers every requested node exactly once, in sorted order, and what it says
  of a node is what the tables hold: the first missing part of its route, no history, or the
  state of the newest task of the node.
\<close>

theorem power_status_answers:
  assumes "handleGetPowerStatus
      (server_New ping pgm pgt runner resolver sync bulkMax parse_op op_string) r s =
      RespondJSON status location (PowerStatus statuses n)"
    and "map_tables_ok (pt_map (rs_db s))"
  shows "status = 200 \<and> n = int (length statuses) \<and> n \<le> bulkMax \<and>
    sorted (map ns_NodeID statuses) \<and> distinct (map ns_NodeID statuses) \<and>
    ns_NodeID ` set statuses = requested_nodes resolver
      (parseQueryTargets r [''nodes'', ''node'']) (parseQueryTargets r [''groups'', ''group'']) \<and>
    (\<forall>st \<in> set statuses.
       status_tells parse_op (pt_map (rs_db s)) (t_tasks (pt_tr (rs_db s))) st)"
proof -
  let ?nodes = "parseQueryTargets r [''nodes'', ''node'']"
  let ?groups = "parseQueryTargets r [''groups'', ''group'']"
  from assms(1) obtain ts rows ms es where
    ts: "resolveTargets resolver ?nodes ?groups = Inr ts" and max: "int (length ts) \<le> bulkMax"
    and latest: "ListLatestTransitionTasksByNode pgt (pt_tr (rs_db s)) ts = Inr rows"
    and res: "ResolveNodeMappings pgm (pt_map (rs_db s)) ts = Inr (ms, es)"
    and out: "statuses = map (node_status parse_op (missing_details es) (tasks_by_node rows)) ts"
      "n = int (length ts)" "status = 200"
    by (auto simp: handleGetPowerStatus_def server_New_def pg_transition_store_def
        transition_unavailable_def too_many_targets_def respondTargetResolutionError_def
        split: sum.splits if_splits)
  note spec = resolveTargets_Inr [OF ts]
  have trimmed: "\<forall>k \<in> set ts. trim_space k = k" and ne: "k \<in> set ts \<Longrightarrow> k \<noteq> []" for k
    using spec requested_nodes_trimmed by blast+
  have "trim_list ts = ts"
    using trimmed ne by (auto simp: trim_list_def filter_id_conv map_idI)
  then have es: "es = List.map_filter (\<lambda>n. route_error n (node_route (pt_map (rs_db s)) n)) ts"
    using ResolveNodeMappings_routes [OF assms(2) res] by simp
  have ids: "map ns_NodeID statuses = ts"
    unfolding out by (simp add: comp_def node_status_simps)
  have "status_tells parse_op (pt_map (rs_db s)) (t_tasks (pt_tr (rs_db s))) st"
    if "st \<in> set statuses" for st
    using that node_status_tells [OF trimmed _ ne latest] unfolding out es by auto
  moreover have "ns_NodeID ` set statuses = set ts" using arg_cong [OF ids, of set] by simp
  ultimately show ?thesis using spec ids out max by simp
qed

section \<open>Witness of the status\<close>

definition status_request :: HttpReq where
  "status_request = no_claims\<lparr>hq_Query := [(''nodes'', ''n9, n1'')]\<rparr>"

definition status_state :: "pg_tables runner_state" where
  "status_state = (start_state 1)\<lparr>rs_db := \<lparr>pt_map = sample_tables, pt_tr = sample_tr_tables\<rparr>\<rparr>"

abbreviation status_server where "status_server \<equiv>
  server_New (\<lambda>_. None) no_faults no_faults None None None 5 (\<lambda>_. Inr OpOn) (\<lambda>_. ''On'')"

lemma status_targets:
  "parseQueryTargets status_request [''nodes'', ''node''] = [''n9'', ''n1'']"
  "parseQueryTargets status_request [''groups'', ''group''] = []"
  by code_simp+

lemma status_run:
  "\<exists>statuses n. handleGetPowerStatus status_server status_request status_state =
    RespondJSON 200 None (PowerStatus statuses n)"
proof -
  have split: "parseTargetList [''n9'', ''n1''] = [''n9'', ''n1'']" "parseTargetList [] = []"
    by code_simp+
  have targets: "resolveTargets None [''n9'', ''n1''] [] = Inr [''n1'', ''n9'']"
    by (simp add: resolveTargets_def split add_targets_def)
  have latest: "\<exists>rows. ListLatestTransitionTasksByNode no_faults sample_tr_tables [''n1'', ''n9''] = Inr rows"
    by (simp add: ListLatestTransitionTasksByNode_def Let_def)
  have res: "\<exists>ms es. ResolveNodeMappings no_faults sample_tables [''n1'', ''n9''] = Inr (ms, es)"
    by (simp add: ResolveNodeMappings_def store_normalizeNodeIDs_def Let_def)
  from targets latest res show ?thesis
    by (auto simp: handleGetPowerStatus_def server_New_def pg_transition_store_def status_targets
        status_state_def)
qed

theorem power_status_answers_witness:
  "\<exists>statuses n. handleGetPowerStatus status_server status_request status_state =
      RespondJSON 200 None (PowerStatus statuses n) \<and>
    n = int (length statuses) \<and> ns_NodeID ` set statuses = {''n1'', ''n9''}"
proof -
  obtain statuses n where run: "handleGetPowerStatus status_server status_request status_state =
      RespondJSON 200 None (PowerStatus statuses n)"
    using status_run by blast
  have ok: "map_tables_ok (pt_map (rs_db status_state))"
    by (simp add: status_state_def sample_tables_ok)
  have split: "parseTargetList [''n9'', ''n1''] = [''n9'', ''n1'']" "parseTargetList [] = []"
    by code_simp+
  from power_status_answers [OF run ok] run show ?thesis
    by (auto simp: status_targets requested_nodes_def split)
qed

lemma power_routes_gated_witness:
  "\<exists>detail. power_routes status_server no_claims SyncCall status_state =
     (RespondProblem 403 detail, status_state)"
  using power_routes_gated [of no_claims SyncCall status_server status_state]
  by (simp add: call_permitted_def no_claims_def)

end
