(* ===== verification/Power_Client.thy ===== *)
theory Power_Client
  imports Power_Server
begin

text \<open>
  The client SDK of the power service, \<open>pkg/client/client.go\<close>: the paths and query strings it
  builds, the errors it wraps, the polling of \<open>WaitTransition\<close>.  The HTTP client of the shared
  library is a parameter: \<open>get\<close>, \<open>post\<close> and \<open>delete\<close> answer a path with an error or a decoded
  body and may let time pass.
\<close>

section \<open>Configuration\<close>

abbreviation defaultTimeout where "defaultTimeout \<equiv> 30 * second"
abbreviation defaultMaxRetries where "defaultMaxRetries \<equiv> 3 :: int"
abbreviation defaultWaitPollInterval where "defaultWaitPollInterval \<equiv> 2 * second"
abbreviation transitionPathPrefix where "transitionPathPrefix \<equiv> ''/power/v1/transitions''"
abbreviation powerStatusPath where "powerStatusPath \<equiv> ''/power/v1/power-status''"
abbreviation actionOnPath where "actionOnPath \<equiv> ''/power/v1/actions/on''"
abbreviation actionOffPath where "actionOffPath \<equiv> ''/power/v1/actions/off''"
abbreviation actionRebootPath where "actionRebootPath \<equiv> ''/power/v1/actions/reboot''"
abbreviation actionResetPath where "actionResetPath \<equiv> ''/power/v1/actions/reset''"
abbreviation adminMappingSyncPath where "adminMappingSyncPath \<equiv> ''/power/v1/admin/mappings/sync''"

record ClientConfig =
  cc_BaseURL :: string
  cc_Token :: string
  cc_Timeout :: duration
  cc_MaxRetries :: int

definition client_New :: "ClientConfig \<Rightarrow> go_error + ClientConfig" where
  "client_New cfg =
     (let baseURL = trim_space (cc_BaseURL cfg) in
      if baseURL = [] then Inl (ErrText ''client: BaseURL is required'')
      else
        Inr (cfg\<lparr>cc_BaseURL := rev (dropWhile (\<lambda>c. c = CHR ''/'') (rev baseURL)),
          cc_Timeout := (if cc_Timeout cfg = 0 then defaultTimeout else cc_Timeout cfg),
          cc_MaxRetries := (if cc_MaxRetries cfg = 0 then defaultMaxRetries
                            else cc_MaxRetries cfg)\<rparr>))"

section \<open>Paths\<close>

record ListTransitionsOptions =
  lo_Limit :: int
  lo_Offset :: int

record PowerStatusOptions =
  po_Nodes :: "string list"
  po_Groups :: "string list"

definition with_query :: "string \<Rightarrow> url_values \<Rightarrow> string" where
  "with_query path params =
     (let encoded = encode_values params in
      if encoded \<noteq> [] then path @ ''?'' @ encoded else path)"

definition buildListTransitionsPath :: "ListTransitionsOptions \<Rightarrow> string" where
  "buildListTransitionsPath opts =
     (let params = [];
          params = (if 0 < lo_Limit opts then values_set ''limit'' (itoa (lo_Limit opts)) params
                    else params);
          params = (if 0 < lo_Offset opts then values_set ''offset'' (itoa (lo_Offset opts)) params
                    else params)
      in with_query transitionPathPrefix params)"

definition appendQueryValues :: "string \<Rightarrow> string list \<Rightarrow> url_values \<Rightarrow> url_values" where
  "appendQueryValues key values params =
     fold (\<lambda>value params.
        if trim_space value = [] then params else values_add key (trim_space value) params)
       values params"

definition buildPowerStatusPath :: "PowerStatusOptions \<Rightarrow> string" where
  "buildPowerStatusPath opts =
     with_query powerStatusPath
       (appendQueryValues ''groups'' (po_Groups opts)
          (appendQueryValues ''nodes'' (po_Nodes opts) []))"

section \<open>Calls\<close>

type_synonym ('x, 'a) http_get =
  "ctx \<Rightarrow> string \<Rightarrow> 'x world_scheme \<Rightarrow> (go_error + 'a) \<times> 'x world_scheme"
type_synonym ('x, 'b, 'a) http_post =
  "ctx \<Rightarrow> string \<Rightarrow> 'b \<Rightarrow> 'x world_scheme \<Rightarrow> (go_error + 'a) \<times> 'x world_scheme"
type_synonym 'x http_delete =
  "ctx \<Rightarrow> string \<Rightarrow> 'x world_scheme \<Rightarrow> go_error option \<times> 'x world_scheme"

definition wrap_result :: "string \<Rightarrow> (go_error + 'a) \<times> 'w \<Rightarrow> (go_error + 'a) \<times> 'w" where
  "wrap_result msg r =
     (case r of (Inl e, w) \<Rightarrow> (Inl (Wrap msg e []), w) | (Inr x, w) \<Rightarrow> (Inr x, w))"

definition client_ListTransitions ::
    "('x, 'a) http_get \<Rightarrow> ctx \<Rightarrow> ListTransitionsOptions \<Rightarrow> 'x world_scheme
     \<Rightarrow> (go_error + 'a) \<times> 'x world_scheme" where
  "client_ListTransitions get c opts w =
     wrap_result ''listing transitions: '' (get c (buildListTransitionsPath opts) w)"

definition client_CreateTransition ::
    "('x, 'b, 'a) http_post \<Rightarrow> ctx \<Rightarrow> 'b \<Rightarrow> 'x world_scheme \<Rightarrow> (go_error + 'a) \<times> 'x world_scheme" where
  "client_CreateTransition post c req w =
     wrap_result ''creating transition: '' (post c transitionPathPrefix req w)"

definition client_StartTransition ::
    "('x, 'b, 'a) http_post \<Rightarrow> ctx \<Rightarrow> 'b \<Rightarrow> 'x world_scheme \<Rightarrow> (go_error + 'a) \<times> 'x world_scheme" where
  "client_StartTransition = client_CreateTransition"

definition client_GetTransition ::
    "('x, 'a) http_get \<Rightarrow> ctx \<Rightarrow> string \<Rightarrow> 'x world_scheme \<Rightarrow> (go_error + 'a) \<times> 'x world_scheme" where
  "client_GetTransition get c i w =
     (let transitionID = trim_space i in
      if transitionID = [] then (Inl (ErrText ''transition id is required''), w)
      else wrap_result (''getting transition '' @ go_quote transitionID @ '': '')
             (get c (transitionPathPrefix @ ''/'' @ path_escape transitionID) w))"

definition client_AbortTransition ::
    "'x http_delete \<Rightarrow> ('x, 'a) http_get \<Rightarrow> ctx \<Rightarrow> string \<Rightarrow> 'x world_scheme
     \<Rightarrow> (go_error + 'a) \<times> 'x world_scheme" where
  "client_AbortTransition delete get c i w =
     (let transitionID = trim_space i in
      if transitionID = [] then (Inl (ErrText ''transition id is required''), w)
      else
        (case delete c (transitionPathPrefix @ ''/'' @ path_escape transitionID) w of
           (Some e, w1) \<Rightarrow>
             (Inl (Wrap (''aborting transition '' @ go_quote transitionID @ '': '') e []), w1)
         | (None, w1) \<Rightarrow>
             wrap_result (''loading transition '' @ go_quote transitionID @ '' after abort: '')
               (client_GetTransition get c transitionID w1)))"

definition IsTransitionTerminalState :: "string \<Rightarrow> bool" where
  "IsTransitionTerminalState state \<longleftrightarrow>
     to_lower (trim_space state) \<in>
       {TransitionStateCompleted, TransitionStateFailed, TransitionStatePartial,
        TransitionStateCanceled}"

partial_function (option) wait_loop ::
    "('x, 'a) http_get \<Rightarrow> ('a \<Rightarrow> string) \<Rightarrow> ctx \<Rightarrow> string \<Rightarrow> duration \<Rightarrow> 'x world_scheme
     \<Rightarrow> ((go_error + 'a) \<times> 'x world_scheme) option" where
  "wait_loop get state_of c transitionID interval w =
     (case client_GetTransition get c transitionID w of
        (Inl e, w1) \<Rightarrow>
          Some (Inl (Wrap (''waiting transition '' @ go_quote transitionID @ '': '') e []), w1)
      | (Inr transition, w1) \<Rightarrow>
          if IsTransitionTerminalState (state_of transition) then Some (Inr transition, w1)
          else
            (case select_timer c interval w1 of
               (Some e, w2) \<Rightarrow>
                 Some (Inl (Wrap (''waiting transition '' @ go_quote transitionID @ '': '') e []), w2)
             | (None, w2) \<Rightarrow> wait_loop get state_of c transitionID interval w2))"

definition client_WaitTransition ::
    "('x, 'a) http_get \<Rightarrow> ('a \<Rightarrow> string) \<Rightarrow> ctx \<Rightarrow> string \<Rightarrow> duration \<Rightarrow> 'x world_scheme
     \<Rightarrow> ((go_error + 'a) \<times> 'x world_scheme) option" where
  "client_WaitTransition get state_of c i optInterval w =
     (let transitionID = trim_space i in
      if transitionID = [] then Some (Inl (ErrText ''transition id is required''), w)
      else
        wait_loop get state_of c transitionID
          (if optInterval \<le> 0 then defaultWaitPollInterval else optInterval) w)"

definition client_GetPowerStatus ::
    "('x, 'a) http_get \<Rightarrow> ctx \<Rightarrow> PowerStatusOptions \<Rightarrow> 'x world_scheme
     \<Rightarrow> (go_error + 'a) \<times> 'x world_scheme" where
  "client_GetPowerStatus get c opts w =
     wrap_result ''getting power status: '' (get c (buildPowerStatusPath opts) w)"

definition startTransitionAction ::
    "('x, 'b, 'a) http_post \<Rightarrow> ctx \<Rightarrow> string \<Rightarrow> 'b \<Rightarrow> string \<Rightarrow> 'x world_scheme
     \<Rightarrow> (go_error + 'a) \<times> 'x world_scheme" where
  "startTransitionAction post c path payload label w =
     wrap_result (''starting '' @ label @ '' action: '') (post c path payload w)"

definition client_ActionOn ::
    "('x, 'b, 'a) http_post \<Rightarrow> ctx \<Rightarrow> 'b \<Rightarrow> 'x world_scheme \<Rightarrow> (go_error + 'a) \<times> 'x world_scheme" where
  "client_ActionOn post c req w = startTransitionAction post c actionOnPath req ''on'' w"

definition client_ActionOff ::
    "('x, 'b, 'a) http_post \<Rightarrow> ctx \<Rightarrow> 'b \<Rightarrow> 'x world_scheme \<Rightarrow> (go_error + 'a) \<times> 'x world_scheme" where
  "client_ActionOff post c req w = startTransitionAction post c actionOffPath req ''off'' w"

definition client_ActionReboot ::
    "('x, 'b, 'a) http_post \<Rightarrow> ctx \<Rightarrow> 'b \<Rightarrow> 'x world_scheme \<Rightarrow> (go_error + 'a) \<times> 'x world_scheme" where
  "client_ActionReboot post c req w = startTransitionAction post c actionRebootPath req ''reboot'' w"

definition client_ActionReset ::
    "('x, 'b, 'a) http_post \<Rightarrow> ctx \<Rightarrow> 'b \<Rightarrow> 'x world_scheme \<Rightarrow> (go_error + 'a) \<times> 'x world_scheme" where
  "client_ActionReset post c req w = startTransitionAction post c actionResetPath req ''reset'' w"

definition client_TriggerMappingSync ::
    "('x, unit, 'a) http_post \<Rightarrow> ctx \<Rightarrow> 'x world_scheme \<Rightarrow> (go_error + 'a) \<times> 'x world_scheme" where
  "client_TriggerMappingSync post c w =
     wrap_result ''triggering mapping sync: '' (post c adminMappingSyncPath () w)"

section \<open>Waiting\<close>

lemma client_GetTransition_clock:
  assumes "\<And>c p w r w'. get c p w = (r, w') \<Longrightarrow> clock w \<le> clock w'"
    and "client_GetTransition get c i w = (r, w')"
  shows "clock w \<le> clock w'"
  using assms(2) assms(1) [of c "transitionPathPrefix @ ''/'' @ path_escape (trim_space i)" w]
  by (auto simp: client_GetTransition_def wrap_result_def Let_def split: if_splits prod.splits sum.splits)

text \<open>
  Every round of the loop lets at least the interval pass, so the loop ends when the context is
  canceled, when a read fails or when the reads are terminal from some instant \<open>T\<close> on.
\<close>

lemma wait_loop_returns:
  fixes get :: "('x, 'a) http_get"
  assumes mono: "\<And>c p w r w'. get c p w = (r, w') \<Longrightarrow> clock w \<le> clock w'" and "0 < interval"
    and stop: "(\<exists>d. ctx_done_at c = Some d \<and> d \<le> T) \<or>
      (\<forall>w t w'. T \<le> clock w \<longrightarrow> client_GetTransition get c i w = (Inr t, w') \<longrightarrow>
         IsTransitionTerminalState (state_of t))"
  shows "\<exists>r w'. wait_loop get state_of c i interval w = Some (r, w') \<and>
    (\<forall>t. r = Inr t \<longrightarrow> IsTransitionTerminalState (state_of t))"
proof (induction "nat (T + 1 - clock w)" arbitrary: w rule: less_induct)
  case (less w)
  obtain res w1 where rd: "client_GetTransition get c i w = (res, w1)" by fastforce
  have w1: "clock w \<le> clock w1"
    by (rule client_GetTransition_clock [where get = get, rotated, OF rd]) (rule mono)
  show ?case
  proof (cases res)
    case (Inl e)
    with rd show ?thesis by (subst wait_loop.simps) simp
  next
    case (Inr t)
    obtain se w2 where sel: "select_timer c interval w1 = (se, w2)" by fastforce
    show ?thesis
    proof (cases "IsTransitionTerminalState (state_of t) \<or> se \<noteq> None")
      case True
      with Inr rd sel show ?thesis by (subst wait_loop.simps) auto
    next
      case False
      with sel select_timer_fired [of c interval w1 w2] \<open>0 < interval\<close>
      have fired: "clock w2 = clock w1 + interval"
        "\<forall>e. ctx_done_at c = Some e \<longrightarrow> clock w2 \<le> max (clock w1) e" by auto
      have "clock w < T + 1"
      proof -
        have "clock w \<le> T" if "ctx_done_at c = Some d" "d \<le> T" for d
          using that fired w1 \<open>0 < interval\<close> by auto
        moreover have "clock w < T" if "\<forall>w t w'. T \<le> clock w \<longrightarrow>
            client_GetTransition get c i w = (Inr t, w') \<longrightarrow> IsTransitionTerminalState (state_of t)"
          using that rd Inr False by (meson not_le_imp_less)
        ultimately show ?thesis using stop by fastforce
      qed
      then have "nat (T + 1 - clock w2) < nat (T + 1 - clock w)"
        using fired(1) w1 \<open>0 < interval\<close> by auto
      from less [OF this] False Inr rd sel show ?thesis by (subst wait_loop.simps) auto
    qed
  qed
qed

text \<open>
  C35. Waiting for a transition comes to an end: when the context has a deadline, or when the
  transition is terminal from some instant on, \<open>WaitTransition\<close> returns, and a transition it
  returns is terminal.
\<close>

theorem WaitTransition_returns:
  fixes get :: "('x, 'a) http_get"
  assumes "\<And>c p w r w'. get c p w = (r, w') \<Longrightarrow> clock w \<le> clock w'"
    and "(\<exists>d. ctx_done_at c = Some d \<and> d \<le> T) \<or>
      (\<forall>w t w'. T \<le> clock w \<longrightarrow> client_GetTransition get c (trim_space i) w = (Inr t, w') \<longrightarrow>
         IsTransitionTerminalState (state_of t))"
  shows "\<exists>r w'. client_WaitTransition get state_of c i interval w = Some (r, w') \<and>
    (\<forall>t. r = Inr t \<longrightarrow> IsTransitionTerminalState (state_of t))"
proof (cases "trim_space i = []")
  case True
  then show ?thesis by (simp add: client_WaitTransition_def)
next
  case False
  have "0 < (if interval \<le> 0 then defaultWaitPollInterval else interval)"
    by (simp add: second_def millisecond_def)
  from wait_loop_returns [OF assms(1) this assms(2)] False show ?thesis
    by (simp add: client_WaitTransition_def Let_def)
qed

text \<open>A read that always answers \<open>planned\<close> at once.\<close>

definition planned_get :: "(unit, string) http_get" where
  "planned_get c path w = (Inr TransitionStatePlanned, w)"

theorem WaitTransition_returns_witness:
  "\<exists>r w'. client_WaitTransition planned_get id \<lparr>ctx_done_at = Some 9, ctx_done_err = Canceled\<rparr>
     ''t-1'' 0 \<lparr>clock = 0, done_first = (\<lambda>_. True)\<rparr> = Some (r, w') \<and>
   (\<forall>t. r = Inr t \<longrightarrow> IsTransitionTerminalState (id t))"
  by (rule WaitTransition_returns [where T = 9]) (auto simp: planned_get_def)

text \<open>
  The loop never returns when every read answers a state that is not terminal and the context
  cannot be canceled: whatever a run of the loop returned, it would have returned later.
\<close>

lemma planned_not_terminal: "\<not> IsTransitionTerminalState TransitionStatePlanned"
  by (simp add: IsTransitionTerminalState_def) code_simp

lemma wait_loop_diverges:
  fixes get :: "('x, 'a) http_get"
  assumes stuck: "\<And>w. \<exists>t w'. client_GetTransition get c i w = (Inr t, w') \<and>
      \<not> IsTransitionTerminalState (state_of t)" and "ctx_done_at c = None"
  shows "wait_loop get state_of c i interval w \<noteq> Some r"
proof
  assume "wait_loop get state_of c i interval w = Some r"
  then show False
  proof (rule wait_loop.raw_induct [where
      P = "\<lambda>get' state_of' c' i' interval' w r.
        get' = get \<and> state_of' = state_of \<and> c' = c \<and> i' = i \<longrightarrow> False",
      THEN mp, rotated], simp)
    fix loop get' state_of' c' i' interval' w r
    assume IH: "\<And>get' state_of' c' i' interval' w r.
        loop get' state_of' c' i' interval' w = Some r \<Longrightarrow>
        get' = get \<and> state_of' = state_of \<and> c' = c \<and> i' = i \<longrightarrow> False"
      and eq: "(case client_GetTransition get' c' i' w of
        (Inl e, w1) \<Rightarrow>
          Some (Inl (Wrap (''waiting transition '' @ go_quote i' @ '': '') e []), w1)
      | (Inr transition, w1) \<Rightarrow>
          if IsTransitionTerminalState (state_of' transition) then Some (Inr transition, w1)
          else
            (case select_timer c' interval' w1 of
               (None, w2) \<Rightarrow> loop get' state_of' c' i' interval' w2
             | (Some e, w2) \<Rightarrow>
                 Some (Inl (Wrap (''waiting transition '' @ go_quote i' @ '': '') e []), w2)))
        = Some r"
    show "get' = get \<and> state_of' = state_of \<and> c' = c \<and> i' = i \<longrightarrow> False"
    proof (intro impI, elim conjE)
      assume same: "get' = get" "state_of' = state_of" "c' = c" "i' = i"
      from stuck obtain t w1 where t: "client_GetTransition get c i w = (Inr t, w1)"
        "\<not> IsTransitionTerminalState (state_of t)" by blast
      have "select_timer c interval' w1 = (None, w1\<lparr>clock := clock w1 + max 0 interval'\<rparr>)"
        using assms(2) by (simp add: select_timer_def Let_def)
      with eq t same have "loop get state_of c i interval' (w1\<lparr>clock := clock w1 + max 0 interval'\<rparr>) = Some r"
        by simp
      from IH [OF this] show False by simp
    qed
  qed
qed

text \<open>
  C36. Waiting for a dry run never comes to an end: the runner leaves a dry run in the state
  \<open>planned\<close>, which the client does not take for terminal, so without a deadline
  \<open>WaitTransition\<close> polls forever.
\<close>

theorem WaitTransition_dry_run_diverges:
  fixes get :: "('x, 'a) http_get"
  assumes "sr_DryRun req" "ctx_done_at c = None" "trim_space i \<noteq> []"
    and "\<And>path w. \<exists>t w'. get c path w = (Inr t, w') \<and>
      state_of t = tr_State (plan_transition now operation req tasks)"
  shows "client_WaitTransition get state_of c i interval w = None"
proof -
  have "tr_State (plan_transition now operation req tasks) = TransitionStatePlanned"
    using assms(1) by (simp add: plan_transition_def Let_def)
  then have not_terminal: "\<not> IsTransitionTerminalState (tr_State (plan_transition now operation req tasks))"
    using planned_not_terminal by simp
  have stuck: "\<exists>t w'. client_GetTransition get c (trim_space i) w = (Inr t, w') \<and>
      \<not> IsTransitionTerminalState (state_of t)" for w
  proof -
    obtain t w' where "get c (transitionPathPrefix @ ''/'' @ path_escape (trim_space i)) w = (Inr t, w')"
      "state_of t = tr_State (plan_transition now operation req tasks)"
      using assms(4) by blast
    with assms(3) not_terminal show ?thesis
      by (simp add: client_GetTransition_def wrap_result_def)
  qed
  have "wait_loop get state_of c (trim_space i) iv w \<noteq> Some r" for iv r
    by (rule wait_loop_diverges [where state_of = state_of, OF stuck assms(2)])
  then have "wait_loop get state_of c (trim_space i) iv w = None" for iv by (meson not_Some_eq)
  then show ?thesis
    using assms(3) by (simp add: client_WaitTransition_def Let_def)
qed

theorem WaitTransition_dry_run_diverges_witness:
  "client_WaitTransition planned_get id background ''t-1'' 0
     \<lparr>clock = 0, done_first = (\<lambda>_. True)\<rparr> = None"
  by (rule WaitTransition_dry_run_diverges [where now = 0 and operation = "''On''" and tasks = "[]"
        and req = "(sample_start [''n1''])\<lparr>sr_DryRun := True\<rparr>"])
    (simp_all add: planned_get_def background_def plan_transition_def Let_def)

section \<open>Queries\<close>

text \<open>The pairs of the query of a path, as the server parses them.\<close>

definition url_query :: "string \<Rightarrow> url_values" where
  "url_query path = parse_query (snd (cut (CHR ''?'') path))"

lemma url_query_with_query:
  assumes "CHR ''?'' \<notin> set path"
  shows "values_of (url_query (with_query path params)) k = values_of params k"
proof (cases "encode_values params = []")
  case True
  then have "values_of params k = values_of (parse_query []) k"
    using query_roundtrip [of params k] by simp
  moreover have "dropWhile (\<lambda>x. x \<noteq> CHR ''?'') path = []"
    using assms by (auto simp: dropWhile_eq_Nil_conv)
  then have "snd (cut (CHR ''?'') path) = []" unfolding cut_def by (simp only: snd_conv drop_Nil)
  ultimately show ?thesis using True by (simp add: url_query_def with_query_def)
next
  case False
  then show ?thesis
    using cut_append [OF assms, of "encode_values params"]
    by (simp add: url_query_def with_query_def query_roundtrip)
qed

lemma digit_plain: "is_digit c \<Longrightarrow> plain_char c"
  by (auto simp: is_digit_def plain_char_def Let_def)

lemma nat_digits_digit: "c \<in> set (nat_digits n) \<Longrightarrow> is_digit c"
proof (induction n rule: nat_digits.induct)
  case (1 n)
  show ?case
  proof (cases "n < 10")
    case True
    with 1 show ?thesis by (subst (asm) nat_digits.simps) (simp add: is_digit_digit_char)
  next
    case False
    with 1 show ?thesis
      by (subst (asm) (2) nat_digits.simps) (auto simp: is_digit_digit_char)
  qed
qed

lemma nat_digits_nonempty [simp]: "nat_digits n \<noteq> []"
  using nat_digits_head [of n] by auto

lemma trim_itoa: "0 < i \<Longrightarrow> trim_space (itoa i) = itoa i \<and> itoa i \<noteq> []"
  using nat_digits_digit [of "hd (nat_digits (nat i))" "nat i"]
    nat_digits_digit [of "last (nat_digits (nat i))" "nat i"]
  by (auto simp: itoa_def plain_ends_def digit_plain intro!: trim_space_plain)

lemma values_of_append:
  "values_of (appendQueryValues key vs params) k =
   values_of params k @ (if key = k then trim_list vs else [])"
proof (induction vs arbitrary: params)
  case Nil
  then show ?case by (simp add: appendQueryValues_def trim_list_def)
next
  case (Cons v vs)
  then show ?case by (simp add: appendQueryValues_def trim_list_def)
qed

text \<open>
  C37. The server reads the queries of the client back: the page it serves is the page asked for,
  with the default for no limit and the server's maximum, and the targets of a power status are
  those the client was given, split at commas.
\<close>

theorem client_queries_read_back:
  assumes "go_int (lo_Limit page)" "go_int (lo_Offset page)"
  shows "parseListPagination (r\<lparr>hq_Query := url_query (buildListTransitionsPath page)\<rparr>) =
      Inr (if lo_Limit page \<le> 0 then 100 else min 1000 (lo_Limit page), max 0 (lo_Offset page)) \<and>
    parseQueryTargets (r\<lparr>hq_Query := url_query (buildPowerStatusPath opts)\<rparr>) [''nodes'', ''node''] =
      parseTargetList (trim_list (po_Nodes opts)) \<and>
    parseQueryTargets (r\<lparr>hq_Query := url_query (buildPowerStatusPath opts)\<rparr>) [''groups'', ''group''] =
      parseTargetList (trim_list (po_Groups opts))"
proof -
  have p: "CHR ''?'' \<notin> set transitionPathPrefix" "CHR ''?'' \<notin> set powerStatusPath" by simp_all
  have limit: "values_get (url_query (buildListTransitionsPath page)) ''limit'' =
      (if 0 < lo_Limit page then itoa (lo_Limit page) else [])"
    "values_get (url_query (buildListTransitionsPath page)) ''offset'' =
      (if 0 < lo_Offset page then itoa (lo_Offset page) else [])"
    by (simp_all add: values_get_def buildListTransitionsPath_def Let_def
        url_query_with_query [OF p(1)])
  have page: "parseListPagination (r\<lparr>hq_Query := url_query (buildListTransitionsPath page)\<rparr>) =
      Inr (if lo_Limit page \<le> 0 then 100 else min 1000 (lo_Limit page), max 0 (lo_Offset page))"
    using trim_itoa [of "lo_Limit page"] trim_itoa [of "lo_Offset page"]
      atoi_itoa [OF assms(1)] atoi_itoa [OF assms(2)]
    by (auto simp: parseListPagination_def limit)
  show ?thesis
    by (simp only: page)
      (simp add: parseQueryTargets_def buildPowerStatusPath_def url_query_with_query [OF p(2)]
        values_of_append)
qed

theorem client_queries_read_back_witness:
  "parseListPagination (no_claims\<lparr>hq_Query := url_query (buildListTransitionsPath
     \<lparr>lo_Limit = 5000, lo_Offset = 7\<rparr>)\<rparr>) = Inr (1000, 7)"
  using client_queries_read_back [of "\<lparr>lo_Limit = 5000, lo_Offset = 7\<rparr>" no_claims]
  by (simp add: go_int_def)

end
