(* ===== verification/MCP_Policy.thy ===== *)
theory MCP_Policy
  imports Go_Errors Go_JSON
begin

text \<open>
  \<open>services/chamicore-mcp/internal/policy\<close>: the mode guard (\<open>mode.go\<close>), the confirmation rule for
  destructive tools (\<open>confirm.go\<close>), the scope check (\<open>scopes.go\<close>), and the interface
  \<open>ToolAuthorizer\<close> of \<open>internal/server/policy.go\<close> as a locale.  Tool arguments, a
  \<open>map[string]any\<close> decoded from JSON, are an association list of keys and values.
\<close>

type_synonym json_map = "(string \<times> json) list"

section \<open>The mode guard (mode.go)\<close>

abbreviation ModeReadOnly where "ModeReadOnly \<equiv> ''read-only''"
abbreviation ModeReadWrite where "ModeReadWrite \<equiv> ''read-write''"

record Guard =
  gd_mode :: string

definition NewGuard :: "string \<Rightarrow> bool \<Rightarrow> go_error + Guard" where
  "NewGuard mode enableWrite =
     (let normalized = to_lower (trim_space mode);
          normalized = (if normalized = [] then ModeReadOnly else normalized)
      in if normalized = ModeReadOnly then Inr \<lparr>gd_mode = normalized\<rparr>
         else if normalized = ModeReadWrite then
           (if \<not> enableWrite
            then Inl (ErrText ''read-write mode requires CHAMICORE_MCP_ENABLE_WRITE=true'')
            else Inr \<lparr>gd_mode = normalized\<rparr>)
         else Inl (ErrText (''invalid mode '' @ go_quote normalized @ '' (allowed: '' @
                ModeReadOnly @ ''|'' @ ModeReadWrite @ '')'')))"

text \<open>A nil guard is \<open>None\<close>.\<close>

definition Guard_Mode :: "Guard option \<Rightarrow> string" where
  "Guard_Mode g = (case g of None \<Rightarrow> ModeReadOnly | Some g \<Rightarrow> gd_mode g)"

definition AuthorizeTool :: "Guard option \<Rightarrow> string \<Rightarrow> string \<Rightarrow> go_error option" where
  "AuthorizeTool g name capability =
     (let mode = Guard_Mode g;
          toolName = (if trim_space name = [] then ''unknown'' else trim_space name);
          normalized = to_lower (trim_space capability)
      in if normalized = ''read'' then None
         else if normalized = ''write'' then
           (if mode = ModeReadWrite then None
            else Some (ErrText (''tool '' @ toolName @ '' requires read-write mode'')))
         else Some (ErrText (''tool '' @ toolName @ '' has unknown capability '' @
                go_quote (trim_space capability))))"

section \<open>Confirmation (confirm.go)\<close>

definition destructivePowerOperations :: "string list" where
  "destructivePowerOperations =
     [''forceoff'', ''gracefulshutdown'', ''gracefulrestart'', ''forcerestart'', ''nmi'']"

definition hasConfirmTrue :: "json_map \<Rightarrow> bool" where
  "hasConfirmTrue args =
     (case map_of args ''confirm'' of Some (JBool b) \<Rightarrow> b | _ \<Rightarrow> False)"

definition confirmationRequirement :: "string \<Rightarrow> bool \<Rightarrow> json_map \<Rightarrow> bool \<times> string" where
  "confirmationRequirement toolName confirmationRequired args =
     (if confirmationRequired \<or> suffix ''.delete'' toolName then (True, ''for delete operations'')
      else if toolName = ''power.transitions.abort'' then (True, ''for abort operations'')
      else if toolName \<noteq> ''power.transitions.create'' then (False, [])
      else
        (case map_of args ''operation'' of
           Some (JString operation) \<Rightarrow>
             if to_lower (trim_space operation) \<notin> set destructivePowerOperations then (False, [])
             else (True, ''when operation='' @ trim_space operation)
         | _ \<Rightarrow> (False, [])))"

definition RequireConfirmation :: "string \<Rightarrow> bool \<Rightarrow> json_map \<Rightarrow> go_error option" where
  "RequireConfirmation toolName confirmationRequired args =
     (let name = trim_space toolName in
      if name = [] then None
      else
        (let (required, reason) = confirmationRequirement name confirmationRequired args in
         if \<not> required then None
         else if hasConfirmTrue args then None
         else Some (ErrText (''tool '' @ name @ '' requires confirm=true '' @ reason))))"

section \<open>Scopes (scopes.go)\<close>

definition normalizeScopeList :: "string list \<Rightarrow> string list" where
  "normalizeScopeList scopes = uniq_trim [] scopes"

definition RequireScopes :: "string \<Rightarrow> string list \<Rightarrow> string list \<Rightarrow> go_error option" where
  "RequireScopes toolName required granted =
     (let requiredScopes = normalizeScopeList required in
      if requiredScopes = [] then None
      else
        (let grantedScopes = normalizeScopeList granted in
         if ''admin'' \<in> set grantedScopes then None
         else
           (let missing = filter (\<lambda>s. s \<notin> set grantedScopes) requiredScopes in
            if missing = [] then None
            else
              (let tool = (if trim_space toolName = [] then ''unknown'' else trim_space toolName);
                   grantedSummary = (if grantedScopes \<noteq> [] then join '', '' grantedScopes
                                     else ''none'')
               in Some (ErrText (''tool '' @ tool @ '' missing required scope(s): '' @
                    join '', '' missing @ '' (granted: '' @ grantedSummary @ '')''))))))"

section \<open>What the rules allow\<close>

definition needs_confirmation :: "string \<Rightarrow> bool \<Rightarrow> json_map \<Rightarrow> bool" where
  "needs_confirmation name required args \<longleftrightarrow>
     required \<or> suffix ''.delete'' name \<or> name = ''power.transitions.abort'' \<or>
     name = ''power.transitions.create'' \<and>
       (\<exists>operation. map_of args ''operation'' = Some (JString operation) \<and>
          to_lower (trim_space operation) \<in> set destructivePowerOperations)"

definition scopes_suffice :: "string list \<Rightarrow> string list \<Rightarrow> bool" where
  "scopes_suffice required granted \<longleftrightarrow>
     ''admin'' \<in> nonblank granted \<or> nonblank required \<subseteq> nonblank granted"

definition capability_is :: "string \<Rightarrow> string \<Rightarrow> bool" where
  "capability_is c capability \<longleftrightarrow> to_lower (trim_space capability) = c"

lemma NewGuard_Inr:
  "NewGuard mode enableWrite = Inr g \<Longrightarrow>
   gd_mode g \<in> {ModeReadOnly, ModeReadWrite} \<and> (gd_mode g = ModeReadWrite \<longrightarrow> enableWrite)"
  by (auto simp: NewGuard_def Let_def split: if_splits)

lemma AuthorizeTool_None:
  "AuthorizeTool g name capability = None \<longleftrightarrow>
   capability_is ''read'' capability \<or>
   capability_is ''write'' capability \<and> Guard_Mode g = ModeReadWrite"
  by (auto simp: AuthorizeTool_def Let_def capability_is_def)

lemma RequireConfirmation_None:
  "RequireConfirmation name required args = None \<longleftrightarrow>
   trim_space name = [] \<or> \<not> needs_confirmation (trim_space name) required args \<or>
   hasConfirmTrue args"
  by (auto simp: RequireConfirmation_def confirmationRequirement_def needs_confirmation_def Let_def
      split: option.splits json.splits if_splits)

lemma RequireScopes_None:
  "RequireScopes name required granted = None \<longleftrightarrow> scopes_suffice required granted"
proof -
  have "normalizeScopeList required = [] \<longleftrightarrow> nonblank required = {}"
    unfolding normalizeScopeList_def by (metis set_empty set_uniq_trim_Nil)
  moreover have "set (normalizeScopeList xs) = nonblank xs" for xs
    by (simp add: normalizeScopeList_def)
  ultimately show ?thesis
    by (auto simp: RequireScopes_def Let_def scopes_suffice_def filter_empty_conv)
qed

section \<open>The authorizer interface (internal/server/policy.go)\<close>

text \<open>A value of the Go interface is its methods; a nil one is \<open>None\<close>.\<close>

record ToolAuthorizer =
  au_Mode :: string
  au_AuthorizeTool :: "string \<Rightarrow> string \<Rightarrow> go_error option"

definition guard_authorizer :: "Guard \<Rightarrow> ToolAuthorizer" where
  "guard_authorizer g =
     \<lparr>au_Mode = Guard_Mode (Some g), au_AuthorizeTool = AuthorizeTool (Some g)\<rparr>"

definition authorizeToolCall :: "ToolAuthorizer option \<Rightarrow> string \<Rightarrow> string \<Rightarrow> go_error option" where
  "authorizeToolCall authorizer name capability =
     (case authorizer of
        None \<Rightarrow> None
      | Some a \<Rightarrow>
          (case au_AuthorizeTool a name capability of
             None \<Rightarrow> None
           | Some e \<Rightarrow> Some (Wrap ''tool authorization denied: '' e [])))"

definition resolvedMode :: "ToolAuthorizer option \<Rightarrow> string" where
  "resolvedMode authorizer = (case authorizer of None \<Rightarrow> ''read-only'' | Some a \<Rightarrow> au_Mode a)"

text \<open>
  What a transport relies on: a permitted tool either reads, or writes and the mode says
  read-write.
\<close>

locale tool_authorizer =
  fixes a :: ToolAuthorizer
  assumes permitted: "au_AuthorizeTool a name capability = None \<Longrightarrow>
      capability_is ''read'' capability \<or>
      capability_is ''write'' capability \<and> au_Mode a = ModeReadWrite"
begin

lemma call_permitted:
  "authorizeToolCall (Some a) name capability = None \<Longrightarrow>
   capability_is ''read'' capability \<or>
   capability_is ''write'' capability \<and> resolvedMode (Some a) = ModeReadWrite"
  using permitted by (auto simp: authorizeToolCall_def resolvedMode_def split: option.splits)

end

interpretation guard: tool_authorizer "guard_authorizer g"
  by unfold_locales (simp add: AuthorizeTool_None guard_authorizer_def)

end
