(* ===== verification/Go_Env.thy ===== *)
theory Go_Env
  imports Go_Format
begin

text \<open>
  What the two configuration packages (\<open>internal/config/config.go\<close> of both services) read from
  the environment: \<open>os.Getenv\<close> is a function from names to values, empty when unset;
  \<open>strconv.ParseBool\<close>, \<open>time.ParseDuration\<close>, and the four helpers \<open>envOrDefault\<close>, \<open>envBool\<close>,
  \<open>envPositiveInt\<close>, \<open>envPositiveDuration\<close>.
\<close>

type_synonym environment = "string \<Rightarrow> string"

section \<open>Parsers\<close>

definition parse_bool :: "string \<Rightarrow> bool option" where
  "parse_bool s =
     (if s \<in> {''1'', ''t'', ''T'', ''true'', ''TRUE'', ''True''} then Some True
      else if s \<in> {''0'', ''f'', ''F'', ''false'', ''FALSE'', ''False''} then Some False
      else None)"

text \<open>\<open>leadingInt\<close>: the digits at the front and the rest; the value may be \<open>2 ^ 63\<close> at most.\<close>

definition leading_int :: "string \<Rightarrow> (nat \<times> string) option" where
  "leading_int s =
     (case digits_val 0 (takeWhile is_digit s) of
        Some n \<Rightarrow> if n \<le> 2 ^ 63 then Some (n, dropWhile is_digit s) else None
      | None \<Rightarrow> None)"

text \<open>
  \<open>leadingFraction\<close>: digits that no longer fit are dropped.  The two numbers are the fraction
  and its scale.
\<close>

fun leading_fraction :: "nat \<Rightarrow> nat \<Rightarrow> string \<Rightarrow> nat \<times> nat" where
  "leading_fraction f scale [] = (f, scale)"
| "leading_fraction f scale (c # cs) =
     (if f > (2 ^ 63 - 1) div 10 \<or> 10 * f + (of_char c - 48) > 2 ^ 63 then (f, scale)
      else leading_fraction (10 * f + (of_char c - 48)) (10 * scale) cs)"

definition duration_unit :: "string \<Rightarrow> nat option" where
  "duration_unit u = map_of
     [(''ns'', 1), (''us'', 1000), ([CHR 0xC2, CHR 0xB5, CHR ''s''], 1000),
      ([CHR 0xCE, CHR 0xBC, CHR ''s''], 1000), (''ms'', 1000000), (''s'', 1000000000),
      (''m'', 60000000000), (''h'', 3600000000000)] u"

definition unit_char :: "char \<Rightarrow> bool" where
  "unit_char c \<longleftrightarrow> c \<noteq> CHR ''.'' \<and> \<not> is_digit c"

text \<open>
  The terms of a duration, added to \<open>d\<close>.  A fraction is a floating-point product in the code; it
  is the exact product rounded down here, which is the same up to one nanosecond.
\<close>

lemma dropWhile_shorter: "length (dropWhile P xs) \<le> length xs"
  by (rule length_dropWhile_le)

function duration_terms :: "nat \<Rightarrow> string \<Rightarrow> nat option" where
  "duration_terms d s =
     (if s = [] then Some d
      else if \<not> (hd s = CHR ''.'' \<or> is_digit (hd s)) then None
      else
        (case leading_int s of
           None \<Rightarrow> None
         | Some (v, s1) \<Rightarrow>
             (let dot = (s1 \<noteq> [] \<and> hd s1 = CHR ''.'');
                  frac = (if dot then takeWhile is_digit (tl s1) else []);
                  s2 = (if dot then dropWhile is_digit (tl s1) else s1);
                  (f, scale) = leading_fraction 0 1 frac;
                  u = takeWhile unit_char s2;
                  s3 = dropWhile unit_char s2
              in if takeWhile is_digit s = [] \<and> frac = [] then None
                 else if u = [] then None
                 else
                   (case duration_unit u of
                      None \<Rightarrow> None
                    | Some unit \<Rightarrow>
                        (let w = v * unit + f * unit div scale in
                         if v > 2 ^ 63 div unit \<or> w > 2 ^ 63 \<or> d + w > 2 ^ 63 then None
                         else duration_terms (d + w) s3)))))"
  by pat_completeness auto
termination
proof (relation "measure (\<lambda>(d, s). length s)", goal_cases)
  case (2 d s p v s1 dot frac s2 q f scale u s3 unit w)
  have "length s1 \<le> length s"
    using 2(3,4) by (auto simp: leading_int_def length_dropWhile_le split: option.splits if_splits)
  moreover have "length s2 \<le> length s1"
    using 2(7) dropWhile_shorter [of is_digit "tl s1"] by auto
  moreover have "length s3 < length s2"
  proof -
    have "length s2 = length u + length s3"
      unfolding 2(10,11) by (metis length_append takeWhile_dropWhile_id)
    with 2(13) show ?thesis by auto
  qed
  ultimately show ?case by simp
qed simp

declare duration_terms.simps [simp del]

definition parse_duration :: "string \<Rightarrow> duration option" where
  "parse_duration orig =
     (let neg = (orig \<noteq> [] \<and> hd orig = CHR ''-'');
          s = (if orig \<noteq> [] \<and> hd orig \<in> {CHR ''-'', CHR ''+''} then tl orig else orig)
      in if s = ''0'' then Some 0
         else if s = [] then None
         else
           (case duration_terms 0 s of
              None \<Rightarrow> None
            | Some d \<Rightarrow>
                if neg then Some (- int d)
                else if d > 2 ^ 63 - 1 then None else Some (int d)))"

section \<open>Helpers\<close>

definition envOrDefault :: "environment \<Rightarrow> string \<Rightarrow> string \<Rightarrow> string" where
  "envOrDefault env key defaultVal = (if env key \<noteq> [] then env key else defaultVal)"

definition envBool :: "environment \<Rightarrow> string \<Rightarrow> bool \<Rightarrow> bool" where
  "envBool env key defaultVal =
     (let v = trim_space (env key) in
      if v = [] then defaultVal
      else
        (case parse_bool v of
           Some b \<Rightarrow> b
         | None \<Rightarrow>
             if to_lower v \<in> {''yes'', ''on''} then True
             else if to_lower v \<in> {''no'', ''off''} then False
             else defaultVal))"

definition envPositiveInt :: "environment \<Rightarrow> string \<Rightarrow> int \<Rightarrow> int" where
  "envPositiveInt env key defaultVal =
     (let v = trim_space (env key) in
      if v = [] then defaultVal
      else (case atoi v of None \<Rightarrow> defaultVal | Some n \<Rightarrow> if n \<le> 0 then defaultVal else n))"

definition envPositiveDuration :: "environment \<Rightarrow> string \<Rightarrow> duration \<Rightarrow> duration" where
  "envPositiveDuration env key defaultVal =
     (let v = trim_space (env key) in
      if v = [] then defaultVal
      else
        (case parse_duration v of
           None \<Rightarrow> defaultVal | Some d \<Rightarrow> if d \<le> 0 then defaultVal else d))"

lemma envOrDefault_nonempty: "d \<noteq> [] \<Longrightarrow> envOrDefault env key d \<noteq> []"
  by (simp add: envOrDefault_def)

lemma atoi_go_int: "atoi s = Some i \<Longrightarrow> go_int i"
  by (auto simp: atoi_def Let_def split: if_splits option.splits)

lemma envPositiveInt_range:
  "0 < d \<Longrightarrow> d < 2 ^ 63 \<Longrightarrow> 0 < envPositiveInt env key d \<and> envPositiveInt env key d < 2 ^ 63"
  using atoi_go_int [of "trim_space (env key)"]
  by (auto simp: envPositiveInt_def Let_def go_int_def split: option.splits)

lemma parse_duration_range: "parse_duration s = Some d \<Longrightarrow> d < 2 ^ 63"
  by (auto simp: parse_duration_def Let_def split: if_splits option.splits)

lemma envPositiveDuration_range:
  "0 < d \<Longrightarrow> d < 2 ^ 63 \<Longrightarrow>
   0 < envPositiveDuration env key d \<and> envPositiveDuration env key d < 2 ^ 63"
  using parse_duration_range [of "trim_space (env key)"]
  by (auto simp: envPositiveDuration_def Let_def split: option.splits)

lemma envBool_default: "trim_space (env key) = [] \<Longrightarrow> envBool env key d = d"
  by (simp add: envBool_def)

text \<open>\<open>1h15m30.918s\<close>, the example of Go's documentation, and two refused texts.\<close>

lemma parse_duration_examples:
  "parse_duration ''1h15m30.918s'' = Some 4530918000000"
  "parse_duration ''-1.5h'' = Some (- 5400000000000)"
  "parse_duration ''3'' = None" "parse_duration ''.s'' = None"
  by (simp_all add: parse_duration_def duration_terms.simps leading_int_def is_digit_def
      duration_unit_def unit_char_def)

end
