(* ===== verification/MCP_Config.thy ===== *)
theory MCP_Config
  imports MCP_Policy Go_Env
begin

text \<open>
  The configuration of the MCP service, \<open>internal/config/config.go\<close>, and the source of its
  upstream token, \<open>internal/auth/token_source.go\<close>, with \<open>filepath.Clean\<close> and \<open>Join\<close> on a Unix
  path.  The environment is an argument, and so are the file system and the YAML decoder.
\<close>

section \<open>The configuration (config.go)\<close>

abbreviation TransportStdio where "TransportStdio \<equiv> ''stdio''"
abbreviation TransportHTTP where "TransportHTTP \<equiv> ''http''"
abbreviation mcp_defaultListenAddr where "mcp_defaultListenAddr \<equiv> '':27774''"
abbreviation mcp_defaultAuthURL where "mcp_defaultAuthURL \<equiv> ''http://localhost:3333''"
abbreviation mcp_defaultSMDURL where "mcp_defaultSMDURL \<equiv> ''http://localhost:27779''"
abbreviation mcp_defaultBSSURL where "mcp_defaultBSSURL \<equiv> ''http://localhost:27778''"
abbreviation mcp_defaultCloudURL where "mcp_defaultCloudURL \<equiv> ''http://localhost:27777''"
abbreviation mcp_defaultDiscURL where "mcp_defaultDiscURL \<equiv> ''http://localhost:27776''"
abbreviation mcp_defaultPowerURL where "mcp_defaultPowerURL \<equiv> ''http://localhost:27775''"
abbreviation mcp_defaultCLIPath where "mcp_defaultCLIPath \<equiv> ''~/.chamicore/config.yaml''"

record McpConfig =
  mc_ListenAddr :: string
  mc_LogLevel :: string
  mc_Transport :: string
  mc_Mode :: string
  mc_EnableWrite :: bool
  mc_AllowCLIConfigToken :: bool
  mc_CLIConfigPath :: string
  mc_AuthURL :: string
  mc_SMDURL :: string
  mc_BSSURL :: string
  mc_CloudInitURL :: string
  mc_DiscoveryURL :: string
  mc_PowerURL :: string
  mc_MetricsEnabled :: bool
  mc_TracesEnabled :: bool
  mc_DevMode :: bool

text \<open>This package has its own copies of the two helpers.\<close>

abbreviation mcp_envOrDefault where "mcp_envOrDefault \<equiv> envOrDefault"
abbreviation mcp_envBool where "mcp_envBool \<equiv> envBool"

definition mcp_env :: "environment \<Rightarrow> McpConfig" where
  "mcp_env env =
     \<lparr>mc_ListenAddr = mcp_envOrDefault env ''CHAMICORE_MCP_LISTEN_ADDR'' mcp_defaultListenAddr,
      mc_LogLevel = to_lower (trim_space (mcp_envOrDefault env ''CHAMICORE_MCP_LOG_LEVEL'' ''info'')),
      mc_Transport =
        to_lower (trim_space (mcp_envOrDefault env ''CHAMICORE_MCP_TRANSPORT'' TransportStdio)),
      mc_Mode = to_lower (trim_space (mcp_envOrDefault env ''CHAMICORE_MCP_MODE'' ModeReadOnly)),
      mc_EnableWrite = mcp_envBool env ''CHAMICORE_MCP_ENABLE_WRITE'' False,
      mc_AllowCLIConfigToken = mcp_envBool env ''CHAMICORE_MCP_ALLOW_CLI_CONFIG_TOKEN'' False,
      mc_CLIConfigPath =
        trim_space (mcp_envOrDefault env ''CHAMICORE_MCP_CLI_CONFIG_PATH'' mcp_defaultCLIPath),
      mc_AuthURL = trim_space (mcp_envOrDefault env ''CHAMICORE_MCP_AUTH_URL'' mcp_defaultAuthURL),
      mc_SMDURL = trim_space (mcp_envOrDefault env ''CHAMICORE_MCP_SMD_URL'' mcp_defaultSMDURL),
      mc_BSSURL = trim_space (mcp_envOrDefault env ''CHAMICORE_MCP_BSS_URL'' mcp_defaultBSSURL),
      mc_CloudInitURL =
        trim_space (mcp_envOrDefault env ''CHAMICORE_MCP_CLOUD_INIT_URL'' mcp_defaultCloudURL),
      mc_DiscoveryURL =
        trim_space (mcp_envOrDefault env ''CHAMICORE_MCP_DISCOVERY_URL'' mcp_defaultDiscURL),
      mc_PowerURL = trim_space (mcp_envOrDefault env ''CHAMICORE_MCP_POWER_URL'' mcp_defaultPowerURL),
      mc_MetricsEnabled = mcp_envBool env ''CHAMICORE_MCP_METRICS_ENABLED'' True,
      mc_TracesEnabled = mcp_envBool env ''CHAMICORE_MCP_TRACES_ENABLED'' False,
      mc_DevMode = mcp_envBool env ''CHAMICORE_MCP_DEV_MODE'' False\<rparr>"

text \<open>\<open>if strings.TrimSpace(v) == "" \{ v = def \}\<close>.\<close>

definition or_default :: "string \<Rightarrow> string \<Rightarrow> string" where
  "or_default v d = (if trim_space v = [] then d else v)"

definition mcp_Load :: "environment \<Rightarrow> go_error + McpConfig" where
  "mcp_Load env =
     (let cfg = mcp_env env in
      if mc_Transport cfg \<notin> {TransportStdio, TransportHTTP}
      then Inl (ErrText (''invalid CHAMICORE_MCP_TRANSPORT '' @ go_quote (mc_Transport cfg) @
             '' (allowed: '' @ TransportStdio @ ''|'' @ TransportHTTP @ '')''))
      else if mc_Mode cfg \<notin> {ModeReadOnly, ModeReadWrite}
      then Inl (ErrText (''invalid CHAMICORE_MCP_MODE '' @ go_quote (mc_Mode cfg) @
             '' (allowed: '' @ ModeReadOnly @ ''|'' @ ModeReadWrite @ '')''))
      else
        Inr (cfg\<lparr>mc_ListenAddr := or_default (mc_ListenAddr cfg) mcp_defaultListenAddr,
          mc_LogLevel := or_default (mc_LogLevel cfg) ''info'',
          mc_CLIConfigPath := or_default (mc_CLIConfigPath cfg) mcp_defaultCLIPath,
          mc_AuthURL := or_default (mc_AuthURL cfg) mcp_defaultAuthURL,
          mc_SMDURL := or_default (mc_SMDURL cfg) mcp_defaultSMDURL,
          mc_BSSURL := or_default (mc_BSSURL cfg) mcp_defaultBSSURL,
          mc_CloudInitURL := or_default (mc_CloudInitURL cfg) mcp_defaultCloudURL,
          mc_DiscoveryURL := or_default (mc_DiscoveryURL cfg) mcp_defaultDiscURL,
          mc_PowerURL := or_default (mc_PowerURL cfg) mcp_defaultPowerURL\<rparr>))"

section \<open>Paths\<close>

text \<open>
  \<open>filepath.Clean\<close> on Unix: the components of the result, in reverse; \<open>..\<close> takes the last one
  off, and stays in front of a path that is not rooted.
\<close>

fun clean_components :: "bool \<Rightarrow> string list \<Rightarrow> string list \<Rightarrow> string list" where
  "clean_components rooted out [] = out"
| "clean_components rooted out (c # cs) =
     (if c = [] \<or> c = ''.'' then clean_components rooted out cs
      else if c = ''..'' then
        (case out of
           [] \<Rightarrow> clean_components rooted (if rooted then [] else [''..'']) cs
         | o1 # os \<Rightarrow>
             if o1 = ''..'' then clean_components rooted (''..'' # out) cs
             else clean_components rooted os cs)
      else clean_components rooted (c # out) cs)"

definition path_clean :: "string \<Rightarrow> string" where
  "path_clean p =
     (let rooted = (p \<noteq> [] \<and> hd p = CHR ''/'');
          out = join ''/'' (rev (clean_components rooted [] (split_on (CHR ''/'') p)))
      in if rooted then CHR ''/'' # out else if out = [] then ''.'' else out)"

definition path_join :: "string \<Rightarrow> string \<Rightarrow> string" where
  "path_join a b =
     (if a \<noteq> [] then path_clean (a @ ''/'' @ b) else if b \<noteq> [] then path_clean b else [])"

section \<open>The token source (token_source.go)\<close>

abbreviation TokenSourceMCPEnv where "TokenSourceMCPEnv \<equiv> ''chamicore_mcp_token''"
abbreviation TokenSourceSharedEnv where "TokenSourceSharedEnv \<equiv> ''chamicore_token''"
abbreviation TokenSourceCLIConfig where "TokenSourceCLIConfig \<equiv> ''cli_config''"

record TokenResolution =
  tr_Token :: string
  tr_Source :: string

definition no_token :: TokenResolution where
  "no_token = \<lparr>tr_Token = [], tr_Source = []\<rparr>"

record TokenSourceOptions =
  to_AllowCLIConfigToken :: bool
  to_CLIConfigPath :: string

text \<open>\<open>os.UserHomeDir\<close> is the variable \<open>HOME\<close>, an error when it is empty.\<close>

definition expandPath :: "environment \<Rightarrow> string \<Rightarrow> string" where
  "expandPath env path =
     (if path = ''~'' \<or> prefix ''~/'' path then
        (let home = env ''HOME'' in
         if home = [] then path
         else if path = ''~'' then home
         else path_join home (drop 2 path))
      else path_clean path)"

text \<open>
  \<open>read_file\<close> answers an error, or the contents, \<open>None\<close> when the file does not exist;
  \<open>decode_cli\<close> is the token a YAML document holds under \<open>auth.token\<close>.
\<close>

definition defaultIfEmpty :: "string \<Rightarrow> string \<Rightarrow> string" where
  "defaultIfEmpty value fallback = (if value = [] then fallback else value)"

definition ResolveToken ::
    "(string \<Rightarrow> go_error + string option) \<Rightarrow> (string \<Rightarrow> go_error + string) \<Rightarrow> environment
     \<Rightarrow> TokenSourceOptions \<Rightarrow> go_error + TokenResolution" where
  "ResolveToken read_file decode_cli env opts =
     (let mcp = trim_space (env ''CHAMICORE_MCP_TOKEN'');
          shared = trim_space (env ''CHAMICORE_TOKEN'')
      in if mcp \<noteq> [] then Inr \<lparr>tr_Token = mcp, tr_Source = TokenSourceMCPEnv\<rparr>
         else if shared \<noteq> [] then Inr \<lparr>tr_Token = shared, tr_Source = TokenSourceSharedEnv\<rparr>
         else if \<not> to_AllowCLIConfigToken opts then Inr no_token
         else
           (let configPath = expandPath env
                  (defaultIfEmpty (trim_space (to_CLIConfigPath opts)) mcp_defaultCLIPath)
            in case read_file configPath of
                 Inl err \<Rightarrow> Inl (Wrap ''reading CLI config token source: '' err [])
               | Inr None \<Rightarrow> Inr no_token
               | Inr (Some data) \<Rightarrow>
                   (case decode_cli data of
                      Inl err \<Rightarrow> Inl (Wrap ''decoding CLI config token source: '' err [])
                    | Inr token \<Rightarrow>
                        if trim_space token = [] then Inr no_token
                        else Inr \<lparr>tr_Token = trim_space token,
                               tr_Source = TokenSourceCLIConfig\<rparr>)))"

end
