(* ===== verification/MCP_Session.thy ===== *)
theory MCP_Session
  imports MCP_Policy
begin

text \<open>
  \<open>internal/server/contract.go\<close> and \<open>internal/server/http_auth.go\<close>: the tool registry and the
  authentication of a session by its token.  YAML decoding, base64 and the JSON decoding of a
  token's payload are parameters.
\<close>

section \<open>The tool contract (contract.go)\<close>

abbreviation defaultProtocolVersion where "defaultProtocolVersion \<equiv> ''2024-11-05''"
abbreviation defaultServerName where "defaultServerName \<equiv> ''chamicore-mcp''"

record ToolSpec =
  ts_Name :: string
  ts_Capability :: string
  ts_Description :: string
  ts_RequiredScopes :: "string list"
  ts_ConfirmationRequired :: bool
  ts_InputSchema :: json_map
  ts_OutputSchema :: json_map

record ToolRegistry =
  rg_Tools :: "ToolSpec list"
  rg_byName :: "(string \<times> ToolSpec) list"

fun index_tools ::
    "ToolSpec list \<Rightarrow> (string \<times> ToolSpec) list \<Rightarrow> go_error + (string \<times> ToolSpec) list" where
  "index_tools [] byName = Inr byName"
| "index_tools (tool # tools) byName =
     (let name = trim_space (ts_Name tool) in
      if name = [] then Inl (ErrText ''tool contract contains empty tool name'')
      else if map_of byName name \<noteq> None
      then Inl (ErrText (''tool contract contains duplicate tool '' @ go_quote name))
      else
        (let tool = tool\<lparr>ts_Name := name, ts_Capability := trim_space (ts_Capability tool)\<rparr> in
         if ts_Capability tool = []
         then Inl (ErrText (''tool '' @ go_quote name @ '' has empty capability''))
         else index_tools tools (AList.update name tool byName)))"

text \<open>\<open>parsed\<close> is the result of \<open>yaml.Unmarshal\<close>: the tools of the contract.\<close>

definition NewToolRegistry :: "go_error + ToolSpec list \<Rightarrow> go_error + ToolRegistry" where
  "NewToolRegistry parsed =
     (case parsed of
        Inl e \<Rightarrow> Inl (Wrap ''decoding tool contract: '' e [])
      | Inr tools \<Rightarrow>
          if tools = [] then Inl (ErrText ''tool contract has no tools'')
          else
            (case index_tools tools [] of
               Inl e \<Rightarrow> Inl e
             | Inr byName \<Rightarrow> Inr \<lparr>rg_Tools = tools, rg_byName = byName\<rparr>))"

definition registry_List :: "ToolRegistry \<Rightarrow> ToolSpec list" where
  "registry_List r = rg_Tools r"

definition Lookup :: "ToolRegistry \<Rightarrow> string \<Rightarrow> ToolSpec option" where
  "Lookup r name = map_of (rg_byName r) (trim_space name)"

definition clean_tool :: "ToolSpec \<Rightarrow> ToolSpec" where
  "clean_tool t = t\<lparr>ts_Name := trim_space (ts_Name t), ts_Capability := trim_space (ts_Capability t)\<rparr>"

lemma index_tools_Inr:
  "index_tools tools m = Inr m' \<Longrightarrow>
   distinct (map (\<lambda>t. trim_space (ts_Name t)) tools) \<and>
   (\<forall>t \<in> set tools. trim_space (ts_Name t) \<noteq> [] \<and> trim_space (ts_Capability t) \<noteq> [] \<and>
      map_of m (trim_space (ts_Name t)) = None) \<and>
   map_of m' = map_of m ++ map_of (map (\<lambda>t. (trim_space (ts_Name t), clean_tool t)) tools)"
proof (induction tools m rule: index_tools.induct)
  case (2 tool tools m)
  let ?n = "trim_space (ts_Name tool)"
  let ?m = "AList.update ?n (clean_tool tool) m"
  from "2.prems" have c: "?n \<noteq> []" "map_of m ?n = None" "trim_space (ts_Capability tool) \<noteq> []"
    and r: "index_tools tools ?m = Inr m'"
    by (auto simp: Let_def clean_tool_def split: if_splits)
  from "2.IH" [OF refl _ _ refl] c r have IH:
    "distinct (map (\<lambda>t. trim_space (ts_Name t)) tools)"
    "\<forall>t \<in> set tools. trim_space (ts_Name t) \<noteq> [] \<and> trim_space (ts_Capability t) \<noteq> [] \<and>
      map_of ?m (trim_space (ts_Name t)) = None"
    "map_of m' = map_of ?m ++ map_of (map (\<lambda>t. (trim_space (ts_Name t), clean_tool t)) tools)"
    by (auto simp: clean_tool_def)
  have upd: "map_of ?m = (map_of m)(?n \<mapsto> clean_tool tool)" by (rule ext) (simp add: update_conv')
  have other: "trim_space (ts_Name t) \<noteq> ?n" if "t \<in> set tools" for t
    using IH(2) that by (auto simp: upd)
  have fresh: "?n \<notin> (\<lambda>t. trim_space (ts_Name t)) ` set tools" using other by (metis imageE)
  then have "map_of (map (\<lambda>t. (trim_space (ts_Name t), clean_tool t)) tools) ?n = None"
    by (simp add: map_of_eq_None_iff image_image)
  then have eq: "map_of m' = map_of m ++
      map_of (map (\<lambda>t. (trim_space (ts_Name t), clean_tool t)) (tool # tools))"
    unfolding IH(3) upd by (auto simp: map_add_def fun_eq_iff split: option.split)
  have old: "map_of m (trim_space (ts_Name t)) = None" if "t \<in> set tools" for t
    using IH(2) [rule_format, OF that] other [OF that] by (simp add: upd)
  show ?case
  proof (intro conjI)
    show "distinct (map (\<lambda>t. trim_space (ts_Name t)) (tool # tools))" using IH(1) fresh by simp
    show "\<forall>t \<in> set (tool # tools). trim_space (ts_Name t) \<noteq> [] \<and>
        trim_space (ts_Capability t) \<noteq> [] \<and> map_of m (trim_space (ts_Name t)) = None"
      using IH(2) c old by simp
  qed (rule eq)
qed simp

lemma index_tools_ok:
  "distinct (map (\<lambda>t. trim_space (ts_Name t)) tools) \<Longrightarrow>
   (\<forall>t \<in> set tools. trim_space (ts_Name t) \<noteq> [] \<and> trim_space (ts_Capability t) \<noteq> [] \<and>
      map_of m (trim_space (ts_Name t)) = None) \<Longrightarrow> \<exists>m'. index_tools tools m = Inr m'"
proof (induction tools arbitrary: m)
  case (Cons tool tools)
  let ?n = "trim_space (ts_Name tool)"
  let ?m = "AList.update ?n (clean_tool tool) m"
  have "map_of ?m (trim_space (ts_Name t)) = None" if "t \<in> set tools" for t
  proof -
    from that Cons.prems(1) have "trim_space (ts_Name t) \<noteq> ?n" by (auto simp: image_iff)
    with Cons.prems(2) that show ?thesis by (simp add: update_conv')
  qed
  with Cons.prems have "\<exists>m'. index_tools tools ?m = Inr m'" by (intro Cons.IH) auto
  with Cons.prems(2) show ?case by (simp add: Let_def clean_tool_def)
qed simp

section \<open>Session authentication (http_auth.go)\<close>

record SessionPrincipal =
  sp_Subject :: string
  sp_Scopes :: "string list"

definition no_principal :: SessionPrincipal where
  "no_principal = \<lparr>sp_Subject = [], sp_Scopes = []\<rparr>"

record TokenSessionAuthenticator =
  ta_token :: string
  ta_principal :: SessionPrincipal

text \<open>\<open>strings.Fields\<close>.\<close>

fun take_field :: "string \<Rightarrow> string" where
  "take_field [] = []"
| "take_field (c # cs) = (if starts_with_any space_runes (c # cs) then [] else c # take_field cs)"

fun fields_from :: "nat \<Rightarrow> string \<Rightarrow> string list" where
  "fields_from 0 s = []"
| "fields_from (Suc n) s =
     (let t = trim_left s in
      if t = [] then []
      else take_field t # fields_from n (drop (length (take_field t)) t))"

definition fields :: "string \<Rightarrow> string list" where
  "fields s = fields_from (length s) s"

definition parseScopeClaims :: "json option \<Rightarrow> string list" where
  "parseScopeClaims value =
     (case value of
        Some (JString s) \<Rightarrow> fields s
      | Some (JArray vs) \<Rightarrow> trim_list (List.map_filter as_string vs)
      | _ \<Rightarrow> [])"

text \<open>\<open>decode\<close> is base64 followed by \<open>json.Unmarshal\<close> into a map.\<close>

definition parseJWTPrincipal ::
    "(string \<Rightarrow> json_map option) \<Rightarrow> string \<Rightarrow> (string \<times> string list) option" where
  "parseJWTPrincipal decode token =
     (let parts = split_on (CHR ''.'') (trim_space token) in
      if length parts \<noteq> 3 then None
      else
        (case decode (parts ! 1) of
           None \<Rightarrow> None
         | Some payload \<Rightarrow>
             (let subject = (case map_of payload ''sub'' of Some (JString s) \<Rightarrow> s | _ \<Rightarrow> []);
                  scopes = parseScopeClaims (map_of payload ''scope'');
                  scopes = (if scopes = [] then parseScopeClaims (map_of payload ''scopes'') else scopes);
                  scopes = (if scopes = [] then parseScopeClaims (map_of payload ''scp'') else scopes);
                  scopes = (if ''admin'' \<in> set (parseScopeClaims (map_of payload ''roles''))
                            then scopes @ [''admin''] else scopes)
              in Some (trim_space subject, uniq_trim [] scopes))))"

definition deriveSessionPrincipal :: "(string \<Rightarrow> json_map option) \<Rightarrow> string \<Rightarrow> SessionPrincipal" where
  "deriveSessionPrincipal decode token =
     (case parseJWTPrincipal decode token of
        None \<Rightarrow> \<lparr>sp_Subject = ''mcp-session'', sp_Scopes = [''admin'']\<rparr>
      | Some (parsedSubject, parsedScopes) \<Rightarrow>
          \<lparr>sp_Subject = (if parsedSubject \<noteq> [] then parsedSubject else ''mcp-session''),
           sp_Scopes = parsedScopes\<rparr>)"

definition NewTokenSessionAuthenticator ::
    "(string \<Rightarrow> json_map option) \<Rightarrow> string \<Rightarrow> TokenSessionAuthenticator" where
  "NewTokenSessionAuthenticator decode token =
     \<lparr>ta_token = trim_space token, ta_principal = deriveSessionPrincipal decode (trim_space token)\<rparr>"

text \<open>\<open>strings.SplitN(s, " ", 2)\<close>: the part before the first blank and the one after it.\<close>

definition split_blank :: "string \<Rightarrow> (string \<times> string) option" where
  "split_blank s =
     (if CHR '' '' \<in> set s
      then Some (takeWhile (\<lambda>c. c \<noteq> CHR '' '') s, tl (dropWhile (\<lambda>c. c \<noteq> CHR '' '') s))
      else None)"

definition parseBearerToken :: "string \<Rightarrow> string" where
  "parseBearerToken header =
     (case split_blank (trim_space header) of
        None \<Rightarrow> []
      | Some (scheme, rest) \<Rightarrow>
          if \<not> equal_fold scheme ''Bearer'' then [] else trim_space rest)"

definition AuthenticateHTTP ::
    "TokenSessionAuthenticator \<Rightarrow> string \<Rightarrow> go_error + SessionPrincipal" where
  "AuthenticateHTTP a authorization =
     (if trim_space (ta_token a) = []
      then Inl (Wrap [] (Sentinel ErrSessionTokenMissing) ''; set CHAMICORE_MCP_TOKEN or CHAMICORE_TOKEN'')
      else
        (let presented = parseBearerToken authorization in
         if presented = [] then Inl (Sentinel ErrBearerTokenMissing)
         else if presented \<noteq> ta_token a then Inl (Sentinel ErrBearerTokenInvalid)
         else Inr (ta_principal a)))"

definition AuthenticateStdio :: "TokenSessionAuthenticator \<Rightarrow> go_error + SessionPrincipal" where
  "AuthenticateStdio a =
     (if trim_space (ta_token a) = []
      then Inl (Wrap [] (Sentinel ErrSessionTokenMissing)
        ''; set CHAMICORE_MCP_TOKEN or CHAMICORE_TOKEN, or enable CHAMICORE_MCP_ALLOW_CLI_CONFIG_TOKEN'')
      else Inr (ta_principal a))"

definition requireToolScopes :: "ToolSpec \<Rightarrow> SessionPrincipal \<Rightarrow> go_error option" where
  "requireToolScopes tool who =
     RequireScopes (ts_Name tool) (ts_RequiredScopes tool) (sp_Scopes who)"

section \<open>The authenticator interface\<close>

record SessionAuthenticator =
  sa_AuthenticateHTTP :: "string \<Rightarrow> go_error + SessionPrincipal"
  sa_AuthenticateStdio :: "go_error + SessionPrincipal"

definition token_authenticator :: "TokenSessionAuthenticator \<Rightarrow> SessionAuthenticator" where
  "token_authenticator a =
     \<lparr>sa_AuthenticateHTTP = AuthenticateHTTP a, sa_AuthenticateStdio = AuthenticateStdio a\<rparr>"

text \<open>
  What a transport relies on: there is one session token and one principal; HTTP yields the
  principal only to a caller that presents the token, stdio only when a token is configured.
\<close>

locale session_authenticator =
  fixes a :: SessionAuthenticator
    and token :: string
    and who :: SessionPrincipal
  assumes http: "sa_AuthenticateHTTP a header = Inr p \<longleftrightarrow>
      token \<noteq> [] \<and> parseBearerToken header = token \<and> p = who"
    and stdio: "sa_AuthenticateStdio a = Inr p \<longleftrightarrow> token \<noteq> [] \<and> p = who"
begin

lemma http_stdio: "sa_AuthenticateHTTP a header = Inr p \<Longrightarrow> sa_AuthenticateStdio a = Inr p"
  by (simp add: http stdio)

lemma http_token: "sa_AuthenticateHTTP a header = Inr p \<Longrightarrow> parseBearerToken header = token"
  by (simp add: http)

end

interpretation token_session: session_authenticator
  "token_authenticator (NewTokenSessionAuthenticator decode tok)"
  "trim_space tok" "deriveSessionPrincipal decode (trim_space tok)"
  by unfold_locales
    (auto simp: token_authenticator_def AuthenticateHTTP_def AuthenticateStdio_def
      NewTokenSessionAuthenticator_def Let_def)

end
