(* ===== verification/MCP_Server.thy ===== *)
theory MCP_Server
  imports MCP_Session
begin

text \<open>
  The transports of \<open>internal/server\<close>: results and errors of a tool call (\<open>caller.go\<close>), the HTTP
  and the server-sent-events handlers (\<open>http_sse.go\<close>) and the JSON-RPC loop on standard input
  (\<open>stdio.go\<close>).  The tool runner behind \<open>ToolCaller\<close> is a parameter that transforms a world;
  decoding a request, writing a response and the formatting of a JSON-RPC identifier are
  parameters too.  Audit events are results of the handlers, without their duration.
\<close>

section \<open>Results of a call (caller.go)\<close>

record callToolParams =
  pa_Name :: string
  pa_Arguments :: "json_map option"

record callToolResult =
  cr_Text :: string
  cr_IsError :: bool
  cr_StructuredContent :: json_map

type_synonym 'w tool_caller = "string \<Rightarrow> json_map option \<Rightarrow> 'w \<Rightarrow> (go_error + json_map) \<times> 'w"

definition args_of :: "callToolParams \<Rightarrow> json_map" where
  "args_of p = (case pa_Arguments p of None \<Rightarrow> [] | Some m \<Rightarrow> m)"

definition no_params :: callToolParams where
  "no_params = \<lparr>pa_Name = [], pa_Arguments = None\<rparr>"

text \<open>\<open>ToolError\<close> of \<open>internal/tools\<close> is the one error with a \<open>StatusCode\<close> method.\<close>

fun status_code :: "go_error \<Rightarrow> int option" where
  "status_code (ToolErr n _) = Some (if n = 0 then 500 else n)"
| "status_code _ = None"

definition toolErrorStatus :: "go_error \<Rightarrow> int" where
  "toolErrorStatus err =
     (case List.map_filter status_code (err_chain err) of
        [] \<Rightarrow> 500
      | status # _ \<Rightarrow> if 400 \<le> status \<and> status \<le> 599 then status else 500)"

definition toolErrorMessage :: "go_error \<Rightarrow> string" where
  "toolErrorMessage err =
     (let message = trim_space (err_msg err) in
      if message = [] then ''unknown tool execution error'' else message)"

definition toolCallResultFromExecution :: "string \<Rightarrow> string \<Rightarrow> json_map \<Rightarrow> callToolResult" where
  "toolCallResultFromExecution name mode payload =
     \<lparr>cr_Text = ''tool '' @ trim_space name @ '' executed'', cr_IsError = False,
      cr_StructuredContent =
        [(''tool'', JString (trim_space name)), (''mode'', JString (trim_space mode)),
         (''status'', JString ''ok''), (''result'', JObject payload)]\<rparr>"

definition toolCallResultFromError :: "string \<Rightarrow> string \<Rightarrow> go_error \<Rightarrow> callToolResult" where
  "toolCallResultFromError name mode err =
     \<lparr>cr_Text = toolErrorMessage err, cr_IsError = True,
      cr_StructuredContent =
        [(''tool'', JString (trim_space name)), (''mode'', JString (trim_space mode)),
         (''status'', JString ''error''),
         (''error'', JObject [(''status'', JNumber (itoa (toolErrorStatus err))),
                              (''message'', JString (toolErrorMessage err))])]\<rparr>"

section \<open>Audit events\<close>

record ToolCallCompletion =
  tc_RequestID :: string
  tc_SessionID :: string
  tc_Transport :: string
  tc_ToolName :: string
  tc_Mode :: string
  tc_CallerSub :: string
  tc_Arguments :: "json_map option"
  tc_Result :: string
  tc_ErrorDetail :: string
  tc_ResponseCode :: int

section \<open>Parsing and gating an HTTP call (http_sse.go)\<close>

text \<open>
  \<open>hr_Decode\<close> is the result of the decoder with unknown fields disallowed, \<open>hr_More\<close> its \<open>More()\<close>.
\<close>

record HttpRequest =
  hr_Authorization :: string
  hr_Decode :: "go_error + callToolParams"
  hr_More :: bool
  hr_RequestID :: string
  hr_MCPSessionID :: string
  hr_XSessionID :: string

definition decodeJSONStrict :: "HttpRequest \<Rightarrow> go_error + callToolParams" where
  "decodeJSONStrict r =
     (case hr_Decode r of
        Inl e \<Rightarrow> Inl e
      | Inr p \<Rightarrow> if hr_More r then Inl (ErrText ''request must contain exactly one JSON object'')
                 else Inr p)"

definition sessionIDFromHTTPRequest :: "HttpRequest \<Rightarrow> string" where
  "sessionIDFromHTTPRequest r =
     (if trim_space (hr_MCPSessionID r) \<noteq> [] then trim_space (hr_MCPSessionID r)
      else if trim_space (hr_XSessionID r) \<noteq> [] then trim_space (hr_XSessionID r)
      else trim_space (hr_RequestID r))"

definition session_missing :: go_error where
  "session_missing =
     Wrap [] (Sentinel ErrSessionTokenMissing) ''; set CHAMICORE_MCP_TOKEN or CHAMICORE_TOKEN''"

definition authenticateHTTPToolCall ::
    "HttpRequest \<Rightarrow> SessionAuthenticator option \<Rightarrow> go_error + SessionPrincipal" where
  "authenticateHTTPToolCall r authn =
     (case authn of
        None \<Rightarrow> Inl session_missing
      | Some a \<Rightarrow> sa_AuthenticateHTTP a (hr_Authorization r))"

definition authFailureResponse :: "go_error \<Rightarrow> int \<times> string" where
  "authFailureResponse err =
     (if errors_is err ErrSessionTokenMissing
      then (401, ''MCP session token is not configured; set CHAMICORE_MCP_TOKEN or CHAMICORE_TOKEN'')
      else if errors_is err ErrBearerTokenMissing
      then (401, ''missing or malformed Authorization header; expected Bearer <token>'')
      else if errors_is err ErrBearerTokenInvalid
      then (401, ''invalid bearer token for MCP session'')
      else (401, err_msg err))"

definition no_tool :: ToolSpec where
  "no_tool = \<lparr>ts_Name = [], ts_Capability = [], ts_Description = [], ts_RequiredScopes = [],
     ts_ConfirmationRequired = False, ts_InputSchema = [], ts_OutputSchema = []\<rparr>"

text \<open>
  The first component is the rejection: the status and detail of the problem that has been sent;
  the detail is also what the function returns for the audit.
\<close>

definition parseCallToolRequest ::
    "ToolRegistry \<Rightarrow> ToolAuthorizer option \<Rightarrow> SessionAuthenticator option \<Rightarrow> HttpRequest
     \<Rightarrow> (int \<times> string) option \<times> callToolParams \<times> ToolSpec \<times> SessionPrincipal" where
  "parseCallToolRequest registry authorizer sessionAuth r =
     (case authenticateHTTPToolCall r sessionAuth of
        Inl err \<Rightarrow> (Some (authFailureResponse err), no_params, no_tool, no_principal)
      | Inr who \<Rightarrow>
     (case decodeJSONStrict r of
        Inl err \<Rightarrow> (Some (400, ''invalid request body: '' @ err_msg err), no_params, no_tool, who)
      | Inr params \<Rightarrow>
          (let name = trim_space (pa_Name params) in
           if name = [] then (Some (400, ''tool name is required''), params, no_tool, who)
           else
             (case Lookup registry name of
                None \<Rightarrow> (Some (404, ''unknown tool: '' @ name), params, no_tool, who)
              | Some tool \<Rightarrow>
             (case authorizeToolCall authorizer (ts_Name tool) (ts_Capability tool) of
                Some err \<Rightarrow> (Some (403, err_msg err), params, tool, who)
              | None \<Rightarrow>
             (case RequireConfirmation (ts_Name tool) (ts_ConfirmationRequired tool) (args_of params) of
                Some err \<Rightarrow> (Some (400, err_msg err), params, tool, who)
              | None \<Rightarrow>
             (case requireToolScopes tool who of
                Some err \<Rightarrow> (Some (403, err_msg err), params, tool, who)
              | None \<Rightarrow> (None, params, tool, who))))))))"

section \<open>The HTTP handler\<close>

datatype http_reply = Problem int string | ReplyCall int callToolResult

definition http_audit ::
    "string \<Rightarrow> HttpRequest \<Rightarrow> ToolAuthorizer option \<Rightarrow> callToolParams \<Rightarrow> SessionPrincipal
     \<Rightarrow> ToolCallCompletion" where
  "http_audit transport r authorizer params who =
     \<lparr>tc_RequestID = hr_RequestID r, tc_SessionID = sessionIDFromHTTPRequest r,
      tc_Transport = transport, tc_ToolName = trim_space (pa_Name params),
      tc_Mode = resolvedMode authorizer, tc_CallerSub = sp_Subject who,
      tc_Arguments = pa_Arguments params, tc_Result = ''error'', tc_ErrorDetail = [],
      tc_ResponseCode = 0\<rparr>"

definition handleCallToolHTTP ::
    "ToolRegistry \<Rightarrow> ToolAuthorizer option \<Rightarrow> SessionAuthenticator option \<Rightarrow> 'w tool_caller option
     \<Rightarrow> HttpRequest \<Rightarrow> 'w \<Rightarrow> http_reply \<times> ToolCallCompletion \<times> 'w" where
  "handleCallToolHTTP registry authorizer sessionAuth caller r w =
     (case parseCallToolRequest registry authorizer sessionAuth r of
        (rejection, params, tool, who) \<Rightarrow>
          (let audit = http_audit ''http'' r authorizer params who in
           case rejection of
             Some (status, detail) \<Rightarrow> (Problem status detail, audit\<lparr>tc_ErrorDetail := detail\<rparr>, w)
           | None \<Rightarrow>
               (let audit = audit\<lparr>tc_ToolName := ts_Name tool\<rparr>;
                    succeeded = audit\<lparr>tc_Result := ''success'', tc_ResponseCode := 200\<rparr>
                in case caller of
                     None \<Rightarrow>
                       (ReplyCall 200 (toolCallResultFromExecution (ts_Name tool)
                          (resolvedMode authorizer) []), succeeded, w)
                   | Some call \<Rightarrow>
                       (case call (ts_Name tool) (pa_Arguments params) w of
                          (Inl err, w') \<Rightarrow>
                            (Problem (toolErrorStatus err) (toolErrorMessage err),
                             audit\<lparr>tc_ErrorDetail := toolErrorMessage err,
                                   tc_ResponseCode := toolErrorStatus err\<rparr>, w')
                        | (Inr payload, w') \<Rightarrow>
                            (ReplyCall 200 (toolCallResultFromExecution (ts_Name tool)
                               (resolvedMode authorizer) payload), succeeded, w')))))"

section \<open>The server-sent-events handler\<close>

datatype sse_event = SseAccepted string | SseResult callToolResult | SseDone
datatype sse_reply = SseProblem int string | SseStream "sse_event list"

text \<open>\<open>wr k\<close> is the error of the \<open>k\<close>-th \<open>writeSSEEvent\<close>; the last write's error is ignored.\<close>

definition sse_done :: "(nat \<Rightarrow> go_error option) \<Rightarrow> nat \<Rightarrow> sse_event list" where
  "sse_done wr k = (case wr k of None \<Rightarrow> [SseDone] | Some _ \<Rightarrow> [])"

text \<open>
  Writing the result event and, after it, the done event: the events, and the audit event, which
  is \<open>finished\<close> unless the result cannot be written.
\<close>

definition sse_finish ::
    "(nat \<Rightarrow> go_error option) \<Rightarrow> string \<Rightarrow> callToolResult \<Rightarrow> ToolCallCompletion
     \<Rightarrow> ToolCallCompletion \<Rightarrow> sse_reply \<times> ToolCallCompletion" where
  "sse_finish wr tool res audit finished =
     (case wr 1 of
        Some err \<Rightarrow>
          (SseStream [SseAccepted tool],
           audit\<lparr>tc_ErrorDetail := err_msg err, tc_ResponseCode := 500\<rparr>)
      | None \<Rightarrow> (SseStream (SseAccepted tool # SseResult res # sse_done wr 2), finished))"

definition handleCallToolSSE ::
    "ToolRegistry \<Rightarrow> ToolAuthorizer option \<Rightarrow> SessionAuthenticator option \<Rightarrow> 'w tool_caller option
     \<Rightarrow> (nat \<Rightarrow> go_error option) \<Rightarrow> HttpRequest \<Rightarrow> 'w \<Rightarrow> sse_reply \<times> ToolCallCompletion \<times> 'w" where
  "handleCallToolSSE registry authorizer sessionAuth caller wr r w =
     (case parseCallToolRequest registry authorizer sessionAuth r of
        (rejection, params, tool, who) \<Rightarrow>
          (let audit = http_audit ''http-sse'' r authorizer params who in
           case rejection of
             Some (status, detail) \<Rightarrow> (SseProblem status detail, audit\<lparr>tc_ErrorDetail := detail\<rparr>, w)
           | None \<Rightarrow>
               (let audit = audit\<lparr>tc_ToolName := ts_Name tool\<rparr>;
                    succeeded = audit\<lparr>tc_Result := ''success'', tc_ResponseCode := 200\<rparr>
                in case wr 0 of
                     Some err \<Rightarrow>
                       (SseStream [], audit\<lparr>tc_ErrorDetail := err_msg err, tc_ResponseCode := 500\<rparr>, w)
                   | None \<Rightarrow>
                  (case caller of
                     None \<Rightarrow>
                       (case sse_finish wr (ts_Name tool) (toolCallResultFromExecution (ts_Name tool)
                               (resolvedMode authorizer) []) audit succeeded of
                          (reply, audit) \<Rightarrow> (reply, audit, w))
                   | Some call \<Rightarrow>
                       (case call (ts_Name tool) (pa_Arguments params) w of
                          (Inl err, w') \<Rightarrow>
                            (case sse_finish wr (ts_Name tool) (toolCallResultFromError (ts_Name tool)
                                    (resolvedMode authorizer) err) audit
                                    (audit\<lparr>tc_ErrorDetail := toolErrorMessage err,
                                           tc_ResponseCode := toolErrorStatus err\<rparr>) of
                               (reply, audit) \<Rightarrow> (reply, audit, w'))
                        | (Inr payload, w') \<Rightarrow>
                            (case sse_finish wr (ts_Name tool) (toolCallResultFromExecution
                                    (ts_Name tool) (resolvedMode authorizer) payload) audit
                                    succeeded of
                               (reply, audit) \<Rightarrow> (reply, audit, w')))))))"

section \<open>JSON-RPC on standard input (stdio.go)\<close>

abbreviation rpcCodeInvalidRequest where "rpcCodeInvalidRequest \<equiv> - 32600 :: int"
abbreviation rpcCodeMethodNotFound where "rpcCodeMethodNotFound \<equiv> - 32601 :: int"
abbreviation rpcCodeInvalidParams where "rpcCodeInvalidParams \<equiv> - 32602 :: int"

text \<open>\<open>rq_Params\<close>: \<open>None\<close> when no parameters came, else the result of decoding them.\<close>

record rpcRequest =
  rq_JSONRPC :: string
  rq_ID :: "json option"
  rq_Method :: string
  rq_Params :: "(go_error + callToolParams) option"

record toolDescriptor =
  td_Name :: string
  td_Description :: string
  td_InputSchema :: json_map

datatype rpc_result =
    RpcInitialize string string string | RpcTools "toolDescriptor list" | RpcCall callToolResult

record rpcResponse =
  rp_ID :: "json option"
  rp_Result :: "rpc_result option"
  rp_Error :: "(int \<times> string) option"

definition tool_descriptors :: "ToolRegistry \<Rightarrow> toolDescriptor list" where
  "tool_descriptors registry =
     map (\<lambda>t. \<lparr>td_Name = ts_Name t, td_Description = ts_Description t,
               td_InputSchema = ts_InputSchema t\<rparr>) (registry_List registry)"

text \<open>\<open>show\<close> is the formatting of a number or of a structured identifier.\<close>

definition rpcIDAsString :: "(json \<Rightarrow> string) \<Rightarrow> json option \<Rightarrow> string" where
  "rpcIDAsString show_any i =
     (case i of
        None \<Rightarrow> []
      | Some JNull \<Rightarrow> []
      | Some (JString s) \<Rightarrow> trim_space s
      | Some (JNumber n) \<Rightarrow> show_any (JNumber n)
      | Some v \<Rightarrow> trim_space (show_any v))"

definition authenticateStdioToolCall ::
    "SessionAuthenticator option \<Rightarrow> go_error + SessionPrincipal" where
  "authenticateStdioToolCall authn =
     (case authn of None \<Rightarrow> Inl session_missing | Some a \<Rightarrow> sa_AuthenticateStdio a)"

text \<open>The response, the audit event of a tool call, the world.\<close>

definition handleToolCallRPC ::
    "ToolRegistry \<Rightarrow> ToolAuthorizer option \<Rightarrow> SessionAuthenticator option \<Rightarrow> 'w tool_caller option
     \<Rightarrow> (json \<Rightarrow> string) \<Rightarrow> rpcRequest \<Rightarrow> 'w \<Rightarrow> rpcResponse \<times> ToolCallCompletion \<times> 'w" where
  "handleToolCallRPC registry authorizer sessionAuth caller show_any req w =
     (let response = \<lparr>rp_ID = rq_ID req, rp_Result = None, rp_Error = None\<rparr>;
          audit = \<lparr>tc_RequestID = rpcIDAsString show_any (rq_ID req), tc_SessionID = ''stdio'',
                   tc_Transport = ''stdio'', tc_ToolName = [], tc_Mode = resolvedMode authorizer,
                   tc_CallerSub = [], tc_Arguments = Some [], tc_Result = ''error'',
                   tc_ErrorDetail = [], tc_ResponseCode = 0\<rparr>;
          reject = (\<lambda>audit detail. (response\<lparr>rp_Error := Some (rpcCodeInvalidParams, detail)\<rparr>,
                                    audit\<lparr>tc_ErrorDetail := detail\<rparr>, w))
      in case rq_Params req of
           None \<Rightarrow> reject audit ''missing params''
         | Some (Inl err) \<Rightarrow> reject audit (''invalid tools/call params: '' @ err_msg err)
         | Some (Inr params) \<Rightarrow>
             (let name = trim_space (pa_Name params);
                  audit = audit\<lparr>tc_ToolName := name, tc_Arguments := Some (args_of params)\<rparr>
              in case Lookup registry name of
                   None \<Rightarrow> reject audit (''unknown tool: '' @ name)
                 | Some tool \<Rightarrow>
                     (let audit = audit\<lparr>tc_ToolName := ts_Name tool\<rparr> in
                      case authorizeToolCall authorizer (ts_Name tool) (ts_Capability tool) of
                        Some err \<Rightarrow> reject audit (err_msg err)
                      | None \<Rightarrow>
                     (case authenticateStdioToolCall sessionAuth of
                        Inl err \<Rightarrow> reject audit (err_msg err)
                      | Inr who \<Rightarrow>
                          (let audit = audit\<lparr>tc_CallerSub := sp_Subject who\<rparr> in
                           case RequireConfirmation (ts_Name tool) (ts_ConfirmationRequired tool)
                                  (args_of params) of
                             Some err \<Rightarrow> reject audit (err_msg err)
                           | None \<Rightarrow>
                          (case requireToolScopes tool who of
                             Some err \<Rightarrow> reject audit (err_msg err)
                           | None \<Rightarrow>
                               (let succeeded = audit\<lparr>tc_Result := ''success'', tc_ResponseCode := 200\<rparr>
                                in case caller of
                                     None \<Rightarrow>
                                       (response\<lparr>rp_Result := Some (RpcCall
                                          \<lparr>cr_Text = ''tool '' @ ts_Name tool @
                                             '' accepted (no caller configured)'',
                                           cr_IsError = False,
                                           cr_StructuredContent =
                                             [(''tool'', JString (ts_Name tool)),
                                              (''status'', JString ''accepted''),
                                              (''mode'', JString (resolvedMode authorizer))]\<rparr>)\<rparr>,
                                        succeeded, w)
                                   | Some call \<Rightarrow>
                                       (case call (ts_Name tool) (pa_Arguments params) w of
                                          (Inl err, w') \<Rightarrow>
                                            (response\<lparr>rp_Result := Some (RpcCall
                                               (toolCallResultFromError (ts_Name tool)
                                                  (resolvedMode authorizer) err))\<rparr>,
                                             audit\<lparr>tc_ErrorDetail := toolErrorMessage err,
                                                   tc_ResponseCode := toolErrorStatus err\<rparr>, w')
                                        | (Inr payload, w') \<Rightarrow>
                                            (response\<lparr>rp_Result := Some (RpcCall
                                               (toolCallResultFromExecution (ts_Name tool)
                                                  (resolvedMode authorizer) payload))\<rparr>,
                                             succeeded, w')))))))))"

definition handleRPCRequest ::
    "ToolRegistry \<Rightarrow> ToolAuthorizer option \<Rightarrow> SessionAuthenticator option \<Rightarrow> 'w tool_caller option
     \<Rightarrow> string \<Rightarrow> (json \<Rightarrow> string) \<Rightarrow> rpcRequest \<Rightarrow> 'w
     \<Rightarrow> rpcResponse \<times> ToolCallCompletion option \<times> 'w" where
  "handleRPCRequest registry authorizer sessionAuth caller version show_any req w =
     (let response = \<lparr>rp_ID = rq_ID req, rp_Result = None, rp_Error = None\<rparr>;
          method = trim_space (rq_Method req)
      in if trim_space (rq_JSONRPC req) \<noteq> ''2.0''
         then (response\<lparr>rp_Error := Some (rpcCodeInvalidRequest, ''jsonrpc must be 2.0'')\<rparr>, None, w)
         else if method = ''initialize''
         then (response\<lparr>rp_Result := Some (RpcInitialize defaultProtocolVersion defaultServerName
                 (trim_space version))\<rparr>, None, w)
         else if method = ''tools/list''
         then (response\<lparr>rp_Result := Some (RpcTools (tool_descriptors registry))\<rparr>, None, w)
         else if method = ''tools/call''
         then (case handleToolCallRPC registry authorizer sessionAuth caller show_any req w of
                 (resp, audit, w') \<Rightarrow> (resp, Some audit, w'))
         else (response\<lparr>rp_Error := Some (rpcCodeMethodNotFound, ''unknown method: '' @ method)\<rparr>,
               None, w))"

text \<open>
  What the loop meets at its \<open>k\<close>-th line: the error of the context, the decoded line, the error of
  writing the response; and the scanner's error at the end.
\<close>

record stdio_env =
  io_ctx :: "nat \<Rightarrow> go_error option"
  io_decode :: "string \<Rightarrow> go_error + rpcRequest"
  io_write :: "nat \<Rightarrow> go_error option"
  io_scan_err :: "go_error option"

fun RunStdio ::
    "stdio_env \<Rightarrow> (rpcRequest \<Rightarrow> 'w \<Rightarrow> rpcResponse \<times> ToolCallCompletion option \<times> 'w) \<Rightarrow> nat
     \<Rightarrow> string list \<Rightarrow> 'w \<Rightarrow> go_error option \<times> rpcResponse list \<times> ToolCallCompletion list \<times> 'w" where
  "RunStdio io handle k [] w =
     (case io_scan_err io of
        None \<Rightarrow> None | Some e \<Rightarrow> Some (Wrap ''reading stdio request: '' e []), [], [], w)"
| "RunStdio io handle k (raw # lines) w =
     (case io_ctx io k of
        Some e \<Rightarrow> (Some e, [], [], w)
      | None \<Rightarrow>
          (let line = trim_space raw in
           if line = [] then RunStdio io handle (Suc k) lines w
           else
             (case (case io_decode io line of
                      Inl err \<Rightarrow>
                        (\<lparr>rp_ID = None, rp_Result = None, rp_Error = Some (rpcCodeInvalidRequest,
                           ''invalid json-rpc payload: '' @ err_msg err)\<rparr>, None, w)
                    | Inr req \<Rightarrow> handle req w) of
                (resp, audit, w1) \<Rightarrow>
                  (let audits = (case audit of None \<Rightarrow> [] | Some a \<Rightarrow> [a]) in
                   case io_write io k of
                     Some e \<Rightarrow> (Some e, [], audits, w1)
                   | None \<Rightarrow>
                       (case RunStdio io handle (Suc k) lines w1 of
                          (e, resps, audits', w2) \<Rightarrow> (e, resp # resps, audits @ audits', w2))))))"

section \<open>The gate\<close>

text \<open>The tool a call may run, if any: the checks the three transports share.\<close>

definition tool_gate ::
    "ToolRegistry \<Rightarrow> ToolAuthorizer option \<Rightarrow> SessionPrincipal \<Rightarrow> callToolParams \<Rightarrow> ToolSpec option" where
  "tool_gate registry authorizer who params =
     (case Lookup registry (pa_Name params) of
        None \<Rightarrow> None
      | Some tool \<Rightarrow>
          if authorizeToolCall authorizer (ts_Name tool) (ts_Capability tool) = None \<and>
             RequireConfirmation (ts_Name tool) (ts_ConfirmationRequired tool) (args_of params) = None \<and>
             requireToolScopes tool who = None
          then Some tool else None)"

lemma Lookup_trim [simp]: "Lookup registry (trim_space n) = Lookup registry n"
  by (simp add: Lookup_def)

lemma parseCallToolRequest_accepts:
  "parseCallToolRequest registry authorizer sessionAuth r = (None, params, tool, who) \<longleftrightarrow>
   authenticateHTTPToolCall r sessionAuth = Inr who \<and> decodeJSONStrict r = Inr params \<and>
   trim_space (pa_Name params) \<noteq> [] \<and> tool_gate registry authorizer who params = Some tool"
  by (auto simp: parseCallToolRequest_def tool_gate_def Let_def
      split: sum.splits option.splits if_splits)

text \<open>The one call a handler may make.\<close>

definition ran :: "'w tool_caller option \<Rightarrow> callToolParams \<Rightarrow> ToolSpec \<Rightarrow> 'w \<Rightarrow> 'w" where
  "ran caller params tool w =
     (case caller of None \<Rightarrow> w | Some call \<Rightarrow> snd (call (ts_Name tool) (pa_Arguments params) w))"

lemma http_world:
  "snd (snd (handleCallToolHTTP registry authorizer sessionAuth caller r w)) =
   (case parseCallToolRequest registry authorizer sessionAuth r of
      (None, params, tool, who) \<Rightarrow> ran caller params tool w | _ \<Rightarrow> w)"
  by (auto simp: handleCallToolHTTP_def ran_def Let_def split: prod.split option.split sum.split)

lemma sse_world:
  "snd (snd (handleCallToolSSE registry authorizer sessionAuth caller wr r w)) =
   (case parseCallToolRequest registry authorizer sessionAuth r of
      (None, params, tool, who) \<Rightarrow> if wr 0 = None then ran caller params tool w else w
    | _ \<Rightarrow> w)"
  by (auto simp: handleCallToolSSE_def ran_def Let_def split: prod.split option.split sum.split)

text \<open>The parameters of a JSON-RPC call that passes every check.\<close>

definition rpc_accepts ::
    "ToolRegistry \<Rightarrow> ToolAuthorizer option \<Rightarrow> SessionAuthenticator option \<Rightarrow> rpcRequest
     \<Rightarrow> (callToolParams \<times> ToolSpec) option" where
  "rpc_accepts registry authorizer sessionAuth req =
     (case rq_Params req of
        Some (Inr params) \<Rightarrow>
          (case authenticateStdioToolCall sessionAuth of
             Inl _ \<Rightarrow> None
           | Inr who \<Rightarrow> map_option (\<lambda>tool. (params, tool)) (tool_gate registry authorizer who params))
      | _ \<Rightarrow> None)"

lemma rpc_call_world:
  "snd (snd (handleToolCallRPC registry authorizer sessionAuth caller show_any req w)) =
   (case rpc_accepts registry authorizer sessionAuth req of
      Some (params, tool) \<Rightarrow> ran caller params tool w | None \<Rightarrow> w)"
  by (auto simp: handleToolCallRPC_def rpc_accepts_def tool_gate_def ran_def Let_def
      split: prod.split option.split sum.split)

lemma rpc_world:
  "snd (snd (handleRPCRequest registry authorizer sessionAuth caller version show_any req w)) =
   (if trim_space (rq_JSONRPC req) = ''2.0'' \<and> trim_space (rq_Method req) = ''tools/call''
    then (case rpc_accepts registry authorizer sessionAuth req of
      Some (params, tool) \<Rightarrow> ran caller params tool w | None \<Rightarrow> w)
    else w)"
  using rpc_call_world [of registry authorizer sessionAuth caller show_any req w]
  by (simp add: handleRPCRequest_def Let_def split: prod.split) (metis snd_conv)

section \<open>The gate of a configured server\<close>

text \<open>
  What the configuration permits: the tool is in the contract under the requested name, it
  reads or the server was explicitly opened for writing, a destructive call is confirmed, and
  the session has the scopes.
\<close>

definition permitted_call ::
    "ToolSpec list \<Rightarrow> string \<Rightarrow> bool \<Rightarrow> string list \<Rightarrow> callToolParams \<Rightarrow> ToolSpec \<Rightarrow> bool" where
  "permitted_call tools mode enableWrite scopes params tool \<longleftrightarrow>
     tool \<in> clean_tool ` set tools \<and> ts_Name tool = trim_space (pa_Name params) \<and>
     ts_Name tool \<noteq> [] \<and>
     (capability_is ''read'' (ts_Capability tool) \<or>
      capability_is ''write'' (ts_Capability tool) \<and>
        to_lower (trim_space mode) = ModeReadWrite \<and> enableWrite) \<and>
     (needs_confirmation (ts_Name tool) (ts_ConfirmationRequired tool) (args_of params) \<longrightarrow>
        hasConfirmTrue (args_of params)) \<and>
     scopes_suffice (ts_RequiredScopes tool) scopes"

lemma NewToolRegistry_Lookup:
  assumes "NewToolRegistry parsed = Inr registry" "Lookup registry n = Some tool"
  shows "\<exists>tools. parsed = Inr tools \<and> tool \<in> clean_tool ` set tools \<and>
    ts_Name tool = trim_space n \<and> ts_Name tool \<noteq> []"
proof -
  from assms(1) obtain tools where t: "parsed = Inr tools" "index_tools tools [] = Inr (rg_byName registry)"
    by (auto simp: NewToolRegistry_def split: sum.splits if_splits)
  note ix = index_tools_Inr [OF t(2)]
  then have "map_of (map (\<lambda>t. (trim_space (ts_Name t), clean_tool t)) tools) (trim_space n) = Some tool"
    using assms(2) by (simp add: Lookup_def)
  then obtain t0 where "t0 \<in> set tools" "trim_space n = trim_space (ts_Name t0)" "tool = clean_tool t0"
    by (auto dest!: map_of_SomeD)
  with ix t(1) show ?thesis by (auto simp: clean_tool_def)
qed

lemma NewGuard_write:
  "NewGuard mode enableWrite = Inr g \<Longrightarrow> gd_mode g = ModeReadWrite \<Longrightarrow>
   to_lower (trim_space mode) = ModeReadWrite \<and> enableWrite"
  by (auto simp: NewGuard_def Let_def split: if_splits)

lemma tool_gate_permitted:
  assumes "NewToolRegistry (Inr tools) = Inr registry" "NewGuard mode enableWrite = Inr g"
    and gate: "tool_gate registry (Some (guard_authorizer g)) who params = Some tool"
  shows "permitted_call tools mode enableWrite (sp_Scopes who) params tool"
proof -
  from gate have l: "Lookup registry (pa_Name params) = Some tool"
    and a: "authorizeToolCall (Some (guard_authorizer g)) (ts_Name tool) (ts_Capability tool) = None"
    and c: "RequireConfirmation (ts_Name tool) (ts_ConfirmationRequired tool) (args_of params) = None"
    and s: "requireToolScopes tool who = None"
    by (auto simp: tool_gate_def split: option.splits if_splits)
  note reg = NewToolRegistry_Lookup [OF assms(1) l]
  from guard.call_permitted [OF a] NewGuard_write [OF assms(2)]
  have "capability_is ''read'' (ts_Capability tool) \<or> capability_is ''write'' (ts_Capability tool) \<and>
      to_lower (trim_space mode) = ModeReadWrite \<and> enableWrite"
    by (auto simp: resolvedMode_def guard_authorizer_def Guard_Mode_def)
  with reg c s show ?thesis
    by (auto simp: permitted_call_def RequireConfirmation_None requireToolScopes_def RequireScopes_None)
qed

section \<open>Properties\<close>

abbreviation token_auth where
  "token_auth decode tok \<equiv> token_authenticator (NewTokenSessionAuthenticator decode tok)"

lemma token_http:
  "authenticateHTTPToolCall r (Some (token_auth decode tok)) = Inr who \<longleftrightarrow>
   trim_space tok \<noteq> [] \<and> parseBearerToken (hr_Authorization r) = trim_space tok \<and>
   who = deriveSessionPrincipal decode (trim_space tok)"
  by (simp add: authenticateHTTPToolCall_def token_session.http)

lemma token_stdio:
  "authenticateStdioToolCall (Some (token_auth decode tok)) = Inr who \<longleftrightarrow>
   trim_space tok \<noteq> [] \<and> who = deriveSessionPrincipal decode (trim_space tok)"
  by (simp add: authenticateStdioToolCall_def token_session.stdio)

definition session_scopes :: "(string \<Rightarrow> json_map option) \<Rightarrow> string \<Rightarrow> string list" where
  "session_scopes decode tok = sp_Scopes (deriveSessionPrincipal decode (trim_space tok))"

text \<open>
  The effect of a request: none, or that of one permitted call with the request's parameters.
\<close>

definition only_permitted ::
    "ToolSpec list \<Rightarrow> string \<Rightarrow> bool \<Rightarrow> string list \<Rightarrow> 'w tool_caller option
     \<Rightarrow> (go_error + callToolParams) option \<Rightarrow> 'w \<Rightarrow> 'w \<Rightarrow> bool" where
  "only_permitted tools mode enableWrite scopes caller requested w w' \<longleftrightarrow>
     w' = w \<or>
     (\<exists>params tool. requested = Some (Inr params) \<and>
        permitted_call tools mode enableWrite scopes params tool \<and> w' = ran caller params tool w)"

lemma tool_calls_only:
  assumes "NewToolRegistry (Inr tools) = Inr registry" "NewGuard mode enableWrite = Inr g"
  shows "snd (snd (handleCallToolHTTP registry (Some (guard_authorizer g))
        (Some (token_auth decode tok)) caller r w)) = w \<or>
      (\<exists>params tool. hr_Decode r = Inr params \<and>
        parseBearerToken (hr_Authorization r) = trim_space tok \<and> trim_space tok \<noteq> [] \<and>
        permitted_call tools mode enableWrite (session_scopes decode tok) params tool \<and>
        snd (snd (handleCallToolHTTP registry (Some (guard_authorizer g))
          (Some (token_auth decode tok)) caller r w)) = ran caller params tool w)"
    and "snd (snd (handleCallToolSSE registry (Some (guard_authorizer g))
        (Some (token_auth decode tok)) caller wr r w)) = w \<or>
      (\<exists>params tool. hr_Decode r = Inr params \<and>
        parseBearerToken (hr_Authorization r) = trim_space tok \<and> trim_space tok \<noteq> [] \<and>
        permitted_call tools mode enableWrite (session_scopes decode tok) params tool \<and>
        snd (snd (handleCallToolSSE registry (Some (guard_authorizer g))
          (Some (token_auth decode tok)) caller wr r w)) = ran caller params tool w)"
    and "snd (snd (handleRPCRequest registry (Some (guard_authorizer g))
        (Some (token_auth decode tok)) caller version show_any req w)) = w \<or>
      (\<exists>params tool. rq_Params req = Some (Inr params) \<and> trim_space tok \<noteq> [] \<and>
        permitted_call tools mode enableWrite (session_scopes decode tok) params tool \<and>
        snd (snd (handleRPCRequest registry (Some (guard_authorizer g))
          (Some (token_auth decode tok)) caller version show_any req w)) = ran caller params tool w)"
proof -
  note perm = tool_gate_permitted [OF assms]
  have parse: "hr_Decode r = Inr params \<and> parseBearerToken (hr_Authorization r) = trim_space tok \<and>
      trim_space tok \<noteq> [] \<and>
      permitted_call tools mode enableWrite (session_scopes decode tok) params tool"
    if "parseCallToolRequest registry (Some (guard_authorizer g)) (Some (token_auth decode tok)) r =
        (None, params, tool, who)" for params tool who
    using that perm [of who params tool]
    by (auto simp: parseCallToolRequest_accepts token_http decodeJSONStrict_def session_scopes_def
        split: sum.splits if_splits)
  show "snd (snd (handleCallToolHTTP registry (Some (guard_authorizer g))
        (Some (token_auth decode tok)) caller r w)) = w \<or>
      (\<exists>params tool. hr_Decode r = Inr params \<and>
        parseBearerToken (hr_Authorization r) = trim_space tok \<and> trim_space tok \<noteq> [] \<and>
        permitted_call tools mode enableWrite (session_scopes decode tok) params tool \<and>
        snd (snd (handleCallToolHTTP registry (Some (guard_authorizer g))
          (Some (token_auth decode tok)) caller r w)) = ran caller params tool w)"
    unfolding http_world using parse by (auto split: prod.split option.split)
  show "snd (snd (handleCallToolSSE registry (Some (guard_authorizer g))
        (Some (token_auth decode tok)) caller wr r w)) = w \<or>
      (\<exists>params tool. hr_Decode r = Inr params \<and>
        parseBearerToken (hr_Authorization r) = trim_space tok \<and> trim_space tok \<noteq> [] \<and>
        permitted_call tools mode enableWrite (session_scopes decode tok) params tool \<and>
        snd (snd (handleCallToolSSE registry (Some (guard_authorizer g))
          (Some (token_auth decode tok)) caller wr r w)) = ran caller params tool w)"
    unfolding sse_world using parse by (auto split: prod.split option.split)
  have rpc: "rq_Params req = Some (Inr params) \<and> trim_space tok \<noteq> [] \<and>
      permitted_call tools mode enableWrite (session_scopes decode tok) params tool"
    if "rpc_accepts registry (Some (guard_authorizer g)) (Some (token_auth decode tok)) req =
        Some (params, tool)" for params tool
    using that perm
    by (auto simp: rpc_accepts_def token_stdio session_scopes_def split: option.splits sum.splits)
  show "snd (snd (handleRPCRequest registry (Some (guard_authorizer g))
        (Some (token_auth decode tok)) caller version show_any req w)) = w \<or>
      (\<exists>params tool. rq_Params req = Some (Inr params) \<and> trim_space tok \<noteq> [] \<and>
        permitted_call tools mode enableWrite (session_scopes decode tok) params tool \<and>
        snd (snd (handleRPCRequest registry (Some (guard_authorizer g))
          (Some (token_auth decode tok)) caller version show_any req w)) = ran caller params tool w)"
    unfolding rpc_world using rpc by (auto split: prod.split option.split)
qed

text \<open>
  C19. No transport runs a tool that the configuration does not permit: over HTTP, over SSE and on
  standard input the world changes at most by the one call of a tool of the contract, on behalf
  of a caller that holds the session token, in a permitted mode, confirmed where that is required
  and with sufficient scopes.
\<close>

theorem tool_calls_gated:
  assumes "NewToolRegistry (Inr tools) = Inr registry" "NewGuard mode enableWrite = Inr g"
  shows "only_permitted tools mode enableWrite (session_scopes decode tok) caller (Some (hr_Decode r)) w
      (snd (snd (handleCallToolHTTP registry (Some (guard_authorizer g))
        (Some (token_auth decode tok)) caller r w))) \<and>
    only_permitted tools mode enableWrite (session_scopes decode tok) caller (Some (hr_Decode r)) w
      (snd (snd (handleCallToolSSE registry (Some (guard_authorizer g))
        (Some (token_auth decode tok)) caller wr r w))) \<and>
    only_permitted tools mode enableWrite (session_scopes decode tok) caller (rq_Params req) w
      (snd (snd (handleRPCRequest registry (Some (guard_authorizer g))
        (Some (token_auth decode tok)) caller version show_any req w))) \<and>
    (parseBearerToken (hr_Authorization r) = trim_space tok \<and> trim_space tok \<noteq> [] \<or>
     snd (snd (handleCallToolHTTP registry (Some (guard_authorizer g))
        (Some (token_auth decode tok)) caller r w)) = w \<and>
     snd (snd (handleCallToolSSE registry (Some (guard_authorizer g))
        (Some (token_auth decode tok)) caller wr r w)) = w) \<and>
    (trim_space tok \<noteq> [] \<or>
     snd (snd (handleRPCRequest registry (Some (guard_authorizer g))
        (Some (token_auth decode tok)) caller version show_any req w)) = w)"
  using tool_calls_only(1) [OF assms, where decode = decode and tok = tok and caller = caller and r = r and w = w]
    tool_calls_only(2) [OF assms, where decode = decode and tok = tok and caller = caller and r = r and w = w
      and wr = wr]
    tool_calls_only(3) [OF assms, where decode = decode and tok = tok and caller = caller and w = w
      and version = version and show_any = show_any and req = req]
  unfolding only_permitted_def by blast

text \<open>
  C20. HTTP and standard input are equivalent for an authenticated call of a configured runner: the
  same requests reach the runner with the same arguments, the same world results, and HTTP
  answers 200 with exactly the results that JSON-RPC returns without the error flag.
\<close>

theorem transports_agree:
  assumes "NewToolRegistry parsed = Inr registry"
    and "parseBearerToken (hr_Authorization r) = trim_space tok" "trim_space tok \<noteq> []"
    and "decodeJSONStrict r = Inr params" "rq_Params req = Some (Inr params)"
    and "trim_space (rq_JSONRPC req) = ''2.0''" "trim_space (rq_Method req) = ''tools/call''"
  shows "(case (handleCallToolHTTP registry authorizer (Some (token_auth decode tok)) (Some call) r w,
        handleRPCRequest registry authorizer (Some (token_auth decode tok)) (Some call) version
          show_any req w) of
      ((reply, audit, w1), (resp, audit', w2)) \<Rightarrow>
        w1 = w2 \<and>
        (\<forall>res. reply = ReplyCall 200 res \<longleftrightarrow> rp_Result resp = Some (RpcCall res) \<and> \<not> cr_IsError res))"
proof -
  let ?who = "deriveSessionPrincipal decode (trim_space tok)"
  have h: "authenticateHTTPToolCall r (Some (token_auth decode tok)) = Inr ?who"
    "authenticateStdioToolCall (Some (token_auth decode tok)) = Inr ?who"
    using assms(2,3) by (simp_all add: token_http token_stdio)
  have empty: "Lookup registry (pa_Name params) = None" if "trim_space (pa_Name params) = []"
    using NewToolRegistry_Lookup [OF assms(1), of "pa_Name params"] that
    by (cases "Lookup registry (pa_Name params)") auto
  show ?thesis
    using empty
    by (auto simp: handleCallToolHTTP_def parseCallToolRequest_def handleRPCRequest_def
        handleToolCallRPC_def h assms Let_def toolCallResultFromExecution_def
        toolCallResultFromError_def split: option.split sum.split prod.split)
qed

section \<open>Witnesses\<close>

definition sample_contract :: "ToolSpec list" where
  "sample_contract =
     [no_tool\<lparr>ts_Name := ''power.transitions.list'', ts_Capability := ''read''\<rparr>,
      no_tool\<lparr>ts_Name := ''power.transitions.create'', ts_Capability := ''write'',
        ts_RequiredScopes := [''admin'']\<rparr>]"

definition sample_registry :: ToolRegistry where
  "sample_registry = \<lparr>rg_Tools = sample_contract,
     rg_byName = map (\<lambda>t. (ts_Name t, t)) sample_contract\<rparr>"

lemmas mcp_plain = trim_space_plain plain_ends_def plain_char_def

lemma sample_registry_new: "NewToolRegistry (Inr sample_contract) = Inr sample_registry"
  by (simp add: NewToolRegistry_def sample_registry_def sample_contract_def no_tool_def mcp_plain Let_def)

lemma sample_guard: "NewGuard ''read-write'' True = Inr \<lparr>gd_mode = ''read-write''\<rparr>"
proof -
  have "to_lower ''read-write'' = ''read-write''" by code_simp
  then show ?thesis by (simp add: NewGuard_def mcp_plain)
qed

definition sample_call :: callToolParams where
  "sample_call = \<lparr>pa_Name = ''power.transitions.create'', pa_Arguments =
     Some [(''operation'', JString ''ForceOff''), (''confirm'', JBool True)]\<rparr>"

definition sample_http :: HttpRequest where
  "sample_http = \<lparr>hr_Authorization = ''bearer t'', hr_Decode = Inr sample_call, hr_More = False,
     hr_RequestID = ''r'', hr_MCPSessionID = [], hr_XSessionID = []\<rparr>"

definition sample_rpc :: rpcRequest where
  "sample_rpc = \<lparr>rq_JSONRPC = ''2.0'', rq_ID = Some (JNumber ''1''), rq_Method = ''tools/call'',
     rq_Params = Some (Inr sample_call)\<rparr>"

text \<open>A runner that counts its calls.\<close>

definition counting_caller :: "nat tool_caller" where
  "counting_caller name args n = (Inr [], Suc n)"

lemma sample_bearer: "parseBearerToken ''bearer t'' = ''t''"
proof -
  have "equal_fold ''bearer'' ''Bearer''" by code_simp
  then show ?thesis by (simp add: parseBearerToken_def split_blank_def mcp_plain)
qed

lemma sample_principal:
  "deriveSessionPrincipal (\<lambda>_. None) ''t'' = \<lparr>sp_Subject = ''mcp-session'', sp_Scopes = [''admin'']\<rparr>"
  by (simp add: deriveSessionPrincipal_def parseJWTPrincipal_def mcp_plain)

lemma sample_write: "capability_is ''write'' ''write''"
  by code_simp

lemma sample_http_world:
  "snd (snd (handleCallToolHTTP sample_registry (Some (guard_authorizer \<lparr>gd_mode = ''read-write''\<rparr>))
      (Some (token_auth (\<lambda>_. None) ''t'')) (Some counting_caller) sample_http 0)) = 1"
proof -
  let ?who = "\<lparr>sp_Subject = ''mcp-session'', sp_Scopes = [''admin'']\<rparr>"
  let ?tool = "no_tool\<lparr>ts_Name := ''power.transitions.create'', ts_Capability := ''write'',
      ts_RequiredScopes := [''admin'']\<rparr>"
  have l: "Lookup sample_registry ''power.transitions.create'' = Some ?tool"
    by (simp add: Lookup_def sample_registry_def sample_contract_def mcp_plain no_tool_def)
  have a: "authorizeToolCall (Some (guard_authorizer \<lparr>gd_mode = ''read-write''\<rparr>)) n ''write'' = None" for n
  proof -
    have "AuthorizeTool (Some \<lparr>gd_mode = ''read-write''\<rparr>) n ''write'' = None"
      using sample_write by (simp add: AuthorizeTool_None Guard_Mode_def)
    then show ?thesis by (simp add: authorizeToolCall_def guard_authorizer_def)
  qed
  have "parseCallToolRequest sample_registry (Some (guard_authorizer \<lparr>gd_mode = ''read-write''\<rparr>))
      (Some (token_auth (\<lambda>_. None) ''t'')) sample_http = (None, sample_call, ?tool, ?who)"
    unfolding parseCallToolRequest_accepts
    by (simp add: token_http sample_http_def sample_bearer sample_principal decodeJSONStrict_def
        sample_call_def tool_gate_def l a RequireConfirmation_None hasConfirmTrue_def args_of_def
        requireToolScopes_def RequireScopes_None scopes_suffice_def mcp_plain)
  then show ?thesis by (simp add: http_world ran_def counting_caller_def)
qed

theorem tool_calls_gated_witness:
  "\<exists>tool. permitted_call sample_contract ''read-write'' True (session_scopes (\<lambda>_. None) ''t'')
      sample_call tool \<and>
    snd (snd (handleCallToolHTTP sample_registry (Some (guard_authorizer \<lparr>gd_mode = ''read-write''\<rparr>))
      (Some (token_auth (\<lambda>_. None) ''t'')) (Some counting_caller) sample_http 0)) = 1"
proof -
  have d: "hr_Decode sample_http = Inr sample_call" by (simp add: sample_http_def)
  have "only_permitted sample_contract ''read-write'' True (session_scopes (\<lambda>_. None) ''t'')
      (Some counting_caller) (Some (hr_Decode sample_http)) (0 :: nat) 1"
    using tool_calls_gated [OF sample_registry_new sample_guard, where decode = "\<lambda>_. None" and tok = "''t''"
        and caller = "Some counting_caller" and r = sample_http and w = 0, THEN conjunct1]
    unfolding sample_http_world .
  then show ?thesis
    unfolding only_permitted_def d sample_http_world by auto
qed

theorem transports_agree_witness:
  "snd (snd (handleRPCRequest sample_registry (Some (guard_authorizer \<lparr>gd_mode = ''read-write''\<rparr>))
      (Some (token_auth (\<lambda>_. None) ''t'')) (Some counting_caller) ''v'' (\<lambda>_. []) sample_rpc 0)) = 1"
proof -
  have c: "parseBearerToken (hr_Authorization sample_http) = trim_space ''t''" "trim_space ''t'' \<noteq> []"
    "decodeJSONStrict sample_http = Inr sample_call" "rq_Params sample_rpc = Some (Inr sample_call)"
    "trim_space (rq_JSONRPC sample_rpc) = ''2.0''" "trim_space (rq_Method sample_rpc) = ''tools/call''"
    by (simp_all add: sample_http_def sample_bearer mcp_plain decodeJSONStrict_def sample_rpc_def)
  from transports_agree [OF sample_registry_new c, where call = counting_caller and w = 0
      and authorizer = "Some (guard_authorizer \<lparr>gd_mode = ''read-write''\<rparr>)" and version = "''v''"
      and decode = "\<lambda>_. None" and show_any = "\<lambda>_. []"]
    sample_http_world
  show ?thesis by (auto split: prod.splits)
qed

end
