(* ===== verification/MCP_Args.thy ===== *)
theory MCP_Args
  imports MCP_Session Power_Retry Go_Format
begin

text \<open>
  What the tools of \<open>internal/tools\<close> share (\<open>registry.go\<close>): tool errors and the mapping of client
  errors to them, and the strict decoding of tool arguments into a struct.  \<open>encoding/json\<close> visits
  the keys of the encoded arguments in sorted order, matches a key with a field up to case,
  leaves a field alone on null (a pointer becomes nil), and lets a later key overwrite an earlier
  one; an unknown key or a value of the wrong type is an error, whose text for a key is a
  parameter.  A number carries the text \<open>json.Marshal\<close> prints for it.
\<close>

section \<open>Tool errors\<close>

definition validationError :: "string \<Rightarrow> go_error" where
  "validationError message = ToolErr 400 message"

definition notFoundError :: "string \<Rightarrow> go_error" where
  "notFoundError message = ToolErr 404 message"

fun is_tool_error :: "go_error \<Rightarrow> bool" where
  "is_tool_error (ToolErr _ _) = True"
| "is_tool_error _ = False"

definition mapExecutionError :: "go_error \<Rightarrow> string \<Rightarrow> go_error" where
  "mapExecutionError err fallback =
     (case find is_tool_error (err_chain err) of
        Some toolErr \<Rightarrow> toolErr
      | None \<Rightarrow>
     (case as_api err of
        Some (status, detail0, title) \<Rightarrow>
          (let detail = trim_space detail0;
               detail = (if detail = [] then trim_space title else detail);
               detail = (if detail = [] then fallback else detail)
           in ToolErr status detail)
      | None \<Rightarrow>
          if errors_is err DeadlineExceeded then ToolErr 504 (fallback @ '': request timed out'')
          else if errors_is err Canceled then ToolErr 408 (fallback @ '': request canceled'')
          else ToolErr 500 (fallback @ '': '' @ err_msg err)))"

lemma mapExecutionError_tool: "is_tool_error (mapExecutionError err fallback)"
proof (cases "find is_tool_error (err_chain err)")
  case None
  then show ?thesis by (simp add: mapExecutionError_def Let_def split: option.split prod.split)
next
  case (Some e)
  then have "is_tool_error e" by (metis find_Some_iff)
  with Some show ?thesis by (simp add: mapExecutionError_def)
qed

section \<open>Strict decoding of arguments\<close>

datatype arg_type = TString | TInt | TBool | TStrings | TRaw

type_synonym arg_schema = "(string \<times> arg_type) list"

fun fits :: "arg_type \<Rightarrow> json \<Rightarrow> bool" where
  "fits TRaw v = True"
| "fits t JNull = True"
| "fits TString (JString s) = True"
| "fits TInt (JNumber n) = (atoi n \<noteq> None)"
| "fits TBool (JBool b) = True"
| "fits TStrings (JArray vs) = (those (map unmarshal_string vs) \<noteq> None)"
| "fits t v = False"

definition field_of :: "arg_schema \<Rightarrow> string \<Rightarrow> (string \<times> arg_type) option" where
  "field_of schema key = find (\<lambda>(name, t). equal_fold key name) schema"

definition arg_rejected :: "arg_schema \<Rightarrow> string \<times> json \<Rightarrow> bool" where
  "arg_rejected schema kv =
     (case field_of schema (fst kv) of None \<Rightarrow> True | Some (name, t) \<Rightarrow> \<not> fits t (snd kv))"

text \<open>The values the decoder stores in the field \<open>name\<close>, in order.\<close>

definition field_values :: "json_map \<Rightarrow> string \<Rightarrow> json list" where
  "field_values args name =
     map snd (filter (\<lambda>(key, v). equal_fold key name) (sort_key fst args))"

type_synonym decoded = "string \<Rightarrow> json list"

definition decodeArgsStrict ::
    "(string \<Rightarrow> string) \<Rightarrow> arg_schema \<Rightarrow> json_map option \<Rightarrow> go_error + decoded" where
  "decodeArgsStrict arg_error schema args =
     (let args = (case args of None \<Rightarrow> [] | Some m \<Rightarrow> m) in
      case find (arg_rejected schema) (sort_key fst args) of
        Some kv \<Rightarrow> Inl (validationError (''invalid tool arguments: '' @ arg_error (fst kv)))
      | None \<Rightarrow> Inr (field_values args))"

text \<open>The struct fields: plain ones keep their zero value, pointers and slices may be nil.\<close>

definition arg_string :: "decoded \<Rightarrow> string \<Rightarrow> string" where
  "arg_string d name =
     fold (\<lambda>v acc. case v of JString s \<Rightarrow> s | _ \<Rightarrow> acc) (d name) []"

definition arg_int :: "decoded \<Rightarrow> string \<Rightarrow> int" where
  "arg_int d name =
     fold (\<lambda>v acc. case v of JNumber n \<Rightarrow> (case atoi n of Some i \<Rightarrow> i | None \<Rightarrow> acc) | _ \<Rightarrow> acc)
       (d name) 0"

definition arg_bool :: "decoded \<Rightarrow> string \<Rightarrow> bool" where
  "arg_bool d name = fold (\<lambda>v acc. case v of JBool b \<Rightarrow> b | _ \<Rightarrow> acc) (d name) False"

definition arg_ptr :: "(json \<Rightarrow> 'a option) \<Rightarrow> decoded \<Rightarrow> string \<Rightarrow> 'a option" where
  "arg_ptr get d name = fold (\<lambda>v acc. get v) (d name) None"

fun get_string :: "json \<Rightarrow> string option" where
  "get_string (JString s) = Some s" | "get_string _ = None"

fun get_int :: "json \<Rightarrow> int option" where
  "get_int (JNumber n) = atoi n" | "get_int _ = None"

fun get_bool :: "json \<Rightarrow> bool option" where
  "get_bool (JBool b) = Some b" | "get_bool _ = None"

fun get_strings :: "json \<Rightarrow> string list option" where
  "get_strings (JArray vs) = those (map unmarshal_string vs)" | "get_strings _ = None"

definition arg_strings :: "decoded \<Rightarrow> string \<Rightarrow> string list" where
  "arg_strings d name = (case arg_ptr get_strings d name of None \<Rightarrow> [] | Some xs \<Rightarrow> xs)"

text \<open>\<open>trimStringList\<close> is \<open>trim_list\<close>.\<close>

abbreviation trimStringList where "trimStringList \<equiv> trim_list"

type_synonym tool_result = "go_error + json_map"

text \<open>A client call's answer, its error mapped, and otherwise \<open>toMap\<close> of the response.\<close>

definition tool_answer :: "string \<Rightarrow> go_error + tool_result \<Rightarrow> tool_result" where
  "tool_answer fallback answer =
     (case answer of Inl err \<Rightarrow> Inl (mapExecutionError err fallback) | Inr r \<Rightarrow> r)"

definition bad_page :: "decoded \<Rightarrow> bool" where
  "bad_page d \<longleftrightarrow> arg_int d ''limit'' < 0 \<or> arg_int d ''offset'' < 0"

abbreviation page_schema where "page_schema \<equiv> [(''limit'', TInt), (''offset'', TInt)]"

definition page_error :: go_error where
  "page_error = validationError ''limit and offset must be >= 0''"

end
