(* ===== verification/MCP_Tools.thy ===== *)
theory MCP_Tools
  imports MCP_Server MCP_Args
begin

text \<open>
  The MCP tool runner, \<open>internal/tools\<close>: one function per tool and the dispatch \<open>Call\<close>.  The typed
  clients of the other services are records of the methods the tools call, over the state of
  those services: a method that only reads (an HTTP GET) answers without changing it.  Of a
  client's response the tools use \<open>toMap\<close> of it and a few fields.
\<close>

section \<open>The clients (registry.go)\<close>

record 'w smdClient =
  sm_ListComponents :: "int \<Rightarrow> int \<Rightarrow> string \<Rightarrow> string \<Rightarrow> string \<Rightarrow> 'w \<Rightarrow> go_error + tool_result"
  sm_GetComponent :: "string \<Rightarrow> 'w \<Rightarrow> go_error + tool_result"
  sm_ListGroups :: "int \<Rightarrow> int \<Rightarrow> 'w \<Rightarrow> go_error + tool_result"
  sm_GetGroup :: "string \<Rightarrow> 'w \<Rightarrow> go_error + tool_result"
  sm_AddGroupMembers :: "string \<Rightarrow> string list \<Rightarrow> 'w \<Rightarrow> go_error option \<times> 'w"
  sm_RemoveGroupMember :: "string \<Rightarrow> string \<Rightarrow> 'w \<Rightarrow> go_error option \<times> 'w"

text \<open>A list response: the metadata IDs and \<open>toMap\<close> of its items, and \<open>toMap\<close> of the whole.\<close>

record list_response =
  lr_Items :: "(string \<times> tool_result) list"
  lr_Map :: tool_result

record CreateBootParamRequest =
  cb_ComponentID :: string
  cb_KernelURI :: string
  cb_InitrdURI :: string
  cb_Role :: string
  cb_Cmdline :: string

record PatchBootParamRequest =
  pb_KernelURI :: "string option"
  pb_InitrdURI :: "string option"
  pb_Role :: "string option"
  pb_Cmdline :: "string option"

text \<open>\<open>List\<close> takes a component ID (empty for all), a limit and an offset.\<close>

record 'w bssClient =
  bs_List :: "string \<Rightarrow> int \<Rightarrow> int \<Rightarrow> 'w \<Rightarrow> go_error + list_response option"
  bs_Create :: "CreateBootParamRequest \<Rightarrow> 'w \<Rightarrow> (go_error + tool_result) \<times> 'w"
  bs_Patch :: "string \<Rightarrow> PatchBootParamRequest \<Rightarrow> 'w \<Rightarrow> (go_error + tool_result) \<times> 'w"
  bs_Delete :: "string \<Rightarrow> 'w \<Rightarrow> go_error option \<times> 'w"

record CreatePayloadRequest =
  cp_ComponentID :: string
  cp_UserData :: string
  cp_MetaData :: "json option"
  cp_Role :: string
  cp_VendorData :: string

record PatchPayloadRequest =
  pp_UserData :: "string option"
  pp_Role :: "string option"
  pp_MetaData :: "json option"
  pp_VendorData :: "string option"

record 'w cloudClient =
  cl_List :: "string \<Rightarrow> int \<Rightarrow> int \<Rightarrow> 'w \<Rightarrow> go_error + list_response option"
  cl_Create :: "CreatePayloadRequest \<Rightarrow> 'w \<Rightarrow> (go_error + tool_result) \<times> 'w"
  cl_Patch :: "string \<Rightarrow> PatchPayloadRequest \<Rightarrow> 'w \<Rightarrow> (go_error + tool_result) \<times> 'w"
  cl_Delete :: "string \<Rightarrow> 'w \<Rightarrow> go_error option \<times> 'w"

record CreateTransitionRequest =
  ct_Operation :: string
  ct_RequestID :: string
  ct_Nodes :: "string list"
  ct_Groups :: "string list"
  ct_DryRun :: bool

text \<open>A power status: the node statuses and \<open>toMap\<close> of the response with given node statuses.\<close>

record status_response =
  sp_NodeStatuses :: "json list"
  sp_Map :: "json list \<Rightarrow> tool_result"

record 'w powerClient =
  pw_GetPowerStatus :: "string list \<Rightarrow> string list \<Rightarrow> 'w \<Rightarrow> go_error + status_response option"
  pw_ListTransitions :: "int \<Rightarrow> int \<Rightarrow> 'w \<Rightarrow> go_error + tool_result"
  pw_GetTransition :: "string \<Rightarrow> 'w \<Rightarrow> go_error + tool_result"
  pw_CreateTransition :: "CreateTransitionRequest \<Rightarrow> 'w \<Rightarrow> (go_error + tool_result) \<times> 'w"
  pw_AbortTransition :: "string \<Rightarrow> 'w \<Rightarrow> (go_error + tool_result) \<times> 'w"
  pw_WaitTransition :: "duration \<Rightarrow> string \<Rightarrow> duration \<Rightarrow> 'w \<Rightarrow> (go_error + tool_result) \<times> 'w"

record CreateTargetRequest =
  dt_Name :: string
  dt_Driver :: string
  dt_Addresses :: "string list"
  dt_CredentialID :: string

record PatchTargetRequest =
  dp_Name :: "string option"
  dp_Driver :: "string option"
  dp_Addresses :: "string list option"
  dp_CredentialID :: "string option"

record StartScanRequest =
  ds_Driver :: string
  ds_CredentialID :: string
  ds_Addresses :: "string list"
  ds_Data :: "json option"

record 'w discoveryToolClient =
  di_ListTargets :: "int \<Rightarrow> int \<Rightarrow> 'w \<Rightarrow> go_error + tool_result"
  di_GetTarget :: "string \<Rightarrow> 'w \<Rightarrow> go_error + tool_result"
  di_ListScans :: "int \<Rightarrow> int \<Rightarrow> 'w \<Rightarrow> go_error + tool_result"
  di_GetScan :: "string \<Rightarrow> 'w \<Rightarrow> go_error + tool_result"
  di_ListDrivers :: "'w \<Rightarrow> go_error + tool_result"
  di_CreateTarget :: "CreateTargetRequest \<Rightarrow> 'w \<Rightarrow> (go_error + tool_result) \<times> 'w"
  di_PatchTarget :: "string \<Rightarrow> PatchTargetRequest \<Rightarrow> 'w \<Rightarrow> (go_error + tool_result) \<times> 'w"
  di_DeleteTarget :: "string \<Rightarrow> 'w \<Rightarrow> go_error option \<times> 'w"
  di_StartTargetScan :: "string \<Rightarrow> 'w \<Rightarrow> (go_error + tool_result) \<times> 'w"
  di_StartScan :: "StartScanRequest \<Rightarrow> 'w \<Rightarrow> (go_error + tool_result) \<times> 'w"
  di_CancelScan :: "string \<Rightarrow> 'w \<Rightarrow> go_error option \<times> 'w"

text \<open>
  \<open>tr_probe\<close> is the health client: an error, or the status code and the body or the error of
  reading it; \<open>tr_decode\<close> decodes a body as a JSON object; \<open>tr_arg_error\<close> is the decoder's text
  for a rejected argument.
\<close>

record 'w ToolRunner =
  tr_probe :: "string \<Rightarrow> 'w \<Rightarrow> go_error + (int \<times> (go_error + string))"
  tr_decode :: "string \<Rightarrow> json_map option"
  tr_healthTarget :: "(string \<times> string) list"
  tr_smd :: "'w smdClient"
  tr_bss :: "'w bssClient"
  tr_cloudInit :: "'w cloudClient"
  tr_discovery :: "'w discoveryToolClient"
  tr_power :: "'w powerClient"
  tr_arg_error :: "string \<Rightarrow> string"

text \<open>Decode the arguments, or answer the validation error.\<close>

definition with_args ::
    "'w ToolRunner \<Rightarrow> arg_schema \<Rightarrow> json_map option \<Rightarrow> (decoded \<Rightarrow> tool_result) \<Rightarrow> tool_result" where
  "with_args r schema args run =
     (case decodeArgsStrict (tr_arg_error r) schema args of Inl err \<Rightarrow> Inl err | Inr d \<Rightarrow> run d)"

definition with_args_in ::
    "'w ToolRunner \<Rightarrow> arg_schema \<Rightarrow> json_map option \<Rightarrow> (decoded \<Rightarrow> 'w \<Rightarrow> tool_result \<times> 'w) \<Rightarrow> 'w
     \<Rightarrow> tool_result \<times> 'w" where
  "with_args_in r schema args run w =
     (case decodeArgsStrict (tr_arg_error r) schema args of
        Inl err \<Rightarrow> (Inl err, w) | Inr d \<Rightarrow> run d w)"

text \<open>A call that changes the services: its answer or its error.\<close>

definition answer_in :: "string \<Rightarrow> (go_error + tool_result) \<times> 'w \<Rightarrow> tool_result \<times> 'w" where
  "answer_in fallback out = (case out of (answer, w) \<Rightarrow> (tool_answer fallback answer, w))"

definition done_in ::
    "string \<Rightarrow> go_error option \<times> 'w \<Rightarrow> ('w \<Rightarrow> tool_result \<times> 'w) \<Rightarrow> tool_result \<times> 'w" where
  "done_in fallback out next =
     (case out of (Some err, w) \<Rightarrow> (Inl (mapExecutionError err fallback), w) | (None, w) \<Rightarrow> next w)"

text \<open>A tool that looks one thing up by a required string.\<close>

definition required :: "string \<Rightarrow> go_error" where
  "required name = validationError (name @ '' is required'')"

definition get_by ::
    "'w ToolRunner \<Rightarrow> string \<Rightarrow> (string \<Rightarrow> tool_result) \<Rightarrow> json_map option \<Rightarrow> tool_result" where
  "get_by r name get args =
     with_args r [(name, TString)] args (\<lambda>d.
       let i = trim_space (arg_string d name) in
       if i = [] then Inl (required name) else get i)"

definition list_page ::
    "'w ToolRunner \<Rightarrow> (int \<Rightarrow> int \<Rightarrow> tool_result) \<Rightarrow> json_map option \<Rightarrow> tool_result" where
  "list_page r pages args =
     with_args r page_schema args (\<lambda>d.
       if bad_page d then Inl page_error
       else pages (arg_int d ''limit'') (arg_int d ''offset''))"

section \<open>Cluster health (cluster_read.go)\<close>

definition probeEndpoint :: "'w ToolRunner \<Rightarrow> string \<Rightarrow> 'w \<Rightarrow> string \<times> string" where
  "probeEndpoint r endpoint w =
     (case tr_probe r endpoint w of
        Inl err \<Rightarrow> (''error'', err_msg err)
      | Inr (code, Inl err) \<Rightarrow> (''error'', ''read response body: '' @ err_msg err)
      | Inr (code, Inr body) \<Rightarrow>
          (let detail = (case tr_decode r body of
                 None \<Rightarrow> trim_space body
               | Some payload \<Rightarrow>
                   (case map_of payload ''status'' of
                      Some (JString status) \<Rightarrow>
                        if trim_space status \<noteq> [] then trim_space status else trim_space body
                    | _ \<Rightarrow> trim_space body))
           in if code = 200 then (''ok'', detail)
              else if code = 503 then (''not-ready'', detail)
              else (''error'', detail)))"

definition trim_slashes :: "string \<Rightarrow> string" where
  "trim_slashes s = rev (dropWhile (\<lambda>c. c = CHR ''/'') (rev s))"

definition service_health :: "'w ToolRunner \<Rightarrow> 'w \<Rightarrow> string \<times> string \<Rightarrow> json" where
  "service_health r w target =
     (case target of (name, url) \<Rightarrow>
       (case (probeEndpoint r (trim_slashes url @ ''/health'') w,
              probeEndpoint r (trim_slashes url @ ''/readiness'') w) of
          ((health, healthDetail), (readiness, readinessDetail)) \<Rightarrow>
            (let detail = (if trim_space healthDetail = [] then readinessDetail else healthDetail)
             in JObject [(''name'', JString name), (''health'', JString health),
                  (''readiness'', JString readiness), (''detail'', JString (trim_space detail))])))"

definition clusterHealthSummary :: "'w ToolRunner \<Rightarrow> json_map option \<Rightarrow> 'w \<Rightarrow> tool_result" where
  "clusterHealthSummary r args w =
     with_args r [] args (\<lambda>d.
       Inr [(''services'', JArray (map (service_health r w) (tr_healthTarget r)))])"

section \<open>SMD tools (smd_read.go, smd_write.go)\<close>

definition smdComponentsList :: "'w ToolRunner \<Rightarrow> json_map option \<Rightarrow> 'w \<Rightarrow> tool_result" where
  "smdComponentsList r args w =
     with_args r [(''limit'', TInt), (''offset'', TInt), (''type'', TString), (''state'', TString),
       (''role'', TString)] args (\<lambda>d.
       if bad_page d then Inl page_error
       else tool_answer ''listing SMD components''
              (sm_ListComponents (tr_smd r) (arg_int d ''limit'') (arg_int d ''offset'')
                 (trim_space (arg_string d ''type'')) (trim_space (arg_string d ''state''))
                 (trim_space (arg_string d ''role'')) w))"

definition smdComponentsGet :: "'w ToolRunner \<Rightarrow> json_map option \<Rightarrow> 'w \<Rightarrow> tool_result" where
  "smdComponentsGet r args w =
     get_by r ''id'' (\<lambda>i. tool_answer ''getting SMD component'' (sm_GetComponent (tr_smd r) i w)) args"

definition smdGroupsList :: "'w ToolRunner \<Rightarrow> json_map option \<Rightarrow> 'w \<Rightarrow> tool_result" where
  "smdGroupsList r args w =
     list_page r (\<lambda>limit offset.
       tool_answer ''listing SMD groups'' (sm_ListGroups (tr_smd r) limit offset w)) args"

definition smdGroupsGet :: "'w ToolRunner \<Rightarrow> json_map option \<Rightarrow> 'w \<Rightarrow> tool_result" where
  "smdGroupsGet r args w =
     get_by r ''label'' (\<lambda>label. tool_answer ''getting SMD group'' (sm_GetGroup (tr_smd r) label w)) args"

abbreviation members_schema where "members_schema \<equiv> [(''label'', TString), (''members'', TStrings)]"

text \<open>Both member tools validate their arguments alike and then load the group again.\<close>

definition with_members ::
    "'w ToolRunner \<Rightarrow> json_map option \<Rightarrow> (string \<Rightarrow> string list \<Rightarrow> 'w \<Rightarrow> tool_result \<times> 'w) \<Rightarrow> 'w
     \<Rightarrow> tool_result \<times> 'w" where
  "with_members r args run w =
     with_args_in r members_schema args (\<lambda>d w.
       let label = trim_space (arg_string d ''label'');
           members = trimStringList (arg_strings d ''members'')
       in if label = [] then (Inl (required ''label''), w)
          else if members = []
          then (Inl (validationError ''members must contain at least one component id''), w)
          else run label members w) w"

definition smdGroupsMembersAdd ::
    "'w ToolRunner \<Rightarrow> json_map option \<Rightarrow> 'w \<Rightarrow> tool_result \<times> 'w" where
  "smdGroupsMembersAdd r args w =
     with_members r args (\<lambda>label members w.
       done_in ''adding SMD group members'' (sm_AddGroupMembers (tr_smd r) label members w) (\<lambda>w.
         (tool_answer ''loading SMD group after member add'' (sm_GetGroup (tr_smd r) label w), w))) w"

fun remove_members ::
    "'w smdClient \<Rightarrow> string \<Rightarrow> string list \<Rightarrow> 'w \<Rightarrow> go_error option \<times> 'w" where
  "remove_members smd label [] w = (None, w)"
| "remove_members smd label (member # rest) w =
     (case sm_RemoveGroupMember smd label member w of
        (Some err, w1) \<Rightarrow> (Some err, w1)
      | (None, w1) \<Rightarrow> remove_members smd label rest w1)"

definition smdGroupsMembersRemove ::
    "'w ToolRunner \<Rightarrow> json_map option \<Rightarrow> 'w \<Rightarrow> tool_result \<times> 'w" where
  "smdGroupsMembersRemove r args w =
     with_members r args (\<lambda>label members w.
       done_in ''removing SMD group member'' (remove_members (tr_smd r) label members w) (\<lambda>w.
         (tool_answer ''loading SMD group after member remove'' (sm_GetGroup (tr_smd r) label w), w))) w"

section \<open>BSS tools (bss_read.go, bss_write.go)\<close>

definition bssBootParamsList :: "'w ToolRunner \<Rightarrow> json_map option \<Rightarrow> 'w \<Rightarrow> tool_result" where
  "bssBootParamsList r args w =
     list_page r (\<lambda>limit offset.
       case bs_List (tr_bss r) [] limit offset w of
         Inl err \<Rightarrow> Inl (mapExecutionError err ''listing BSS bootparams'')
       | Inr None \<Rightarrow> Inr []
       | Inr (Some resp) \<Rightarrow> lr_Map resp) args"

text \<open>The items a lookup by component finds; a nil response has none.\<close>

definition items_of :: "list_response option \<Rightarrow> (string \<times> tool_result) list" where
  "items_of resp = (case resp of None \<Rightarrow> [] | Some l \<Rightarrow> lr_Items l)"

definition bssBootParamsGet :: "'w ToolRunner \<Rightarrow> json_map option \<Rightarrow> 'w \<Rightarrow> tool_result" where
  "bssBootParamsGet r args w =
     get_by r ''component_id'' (\<lambda>componentID.
       case bs_List (tr_bss r) componentID 1 0 w of
         Inl err \<Rightarrow> Inl (mapExecutionError err ''getting BSS bootparams'')
       | Inr resp \<Rightarrow>
           (case items_of resp of
              [] \<Rightarrow> Inl (notFoundError (''bootparams not found for component_id '' @ componentID))
            | (_, item) # _ \<Rightarrow> item)) args"

definition cmdline_of :: "decoded \<Rightarrow> string option" where
  "cmdline_of d =
     map_option (\<lambda>params. join '' '' (trimStringList params)) (arg_ptr get_strings d ''params'')"

definition bssBootParamsUpsert ::
    "'w ToolRunner \<Rightarrow> json_map option \<Rightarrow> 'w \<Rightarrow> tool_result \<times> 'w" where
  "bssBootParamsUpsert r args w =
     with_args_in r [(''component_id'', TString), (''role'', TString), (''kernel'', TString),
       (''initrd'', TString), (''params'', TStrings)] args (\<lambda>d w.
       let componentID = trim_space (arg_string d ''component_id'');
           kernel = trim_space (arg_string d ''kernel'');
           initrd = trim_space (arg_string d ''initrd'');
           role = map_option trim_space (arg_ptr get_string d ''role'')
       in if componentID = [] then (Inl (required ''component_id''), w)
          else if kernel = [] then (Inl (required ''kernel''), w)
          else if initrd = [] then (Inl (required ''initrd''), w)
          else
            (case bs_List (tr_bss r) componentID 1 0 w of
               Inl err \<Rightarrow> (Inl (mapExecutionError err ''loading existing BSS bootparams''), w)
             | Inr existing \<Rightarrow>
                 (case items_of existing of
                    [] \<Rightarrow>
                      answer_in ''creating BSS bootparams''
                        (bs_Create (tr_bss r)
                          \<lparr>cb_ComponentID = componentID, cb_KernelURI = kernel, cb_InitrdURI = initrd,
                           cb_Role = (case role of None \<Rightarrow> [] | Some x \<Rightarrow> x),
                           cb_Cmdline = (case cmdline_of d of None \<Rightarrow> [] | Some c \<Rightarrow> c)\<rparr> w)
                  | (metadataID, _) # _ \<Rightarrow>
                      (let bootParamID = trim_space metadataID in
                       if bootParamID = []
                       then (Inl (validationError (''existing bootparams for component_id '' @
                               componentID @ '' has empty id'')), w)
                       else
                         answer_in ''updating BSS bootparams''
                           (bs_Patch (tr_bss r) bootParamID
                             \<lparr>pb_KernelURI = Some kernel, pb_InitrdURI = Some initrd,
                              pb_Role = role, pb_Cmdline = cmdline_of d\<rparr> w))))) w"

text \<open>The answer to a deletion.\<close>

definition deleted :: "(string \<times> string) list \<Rightarrow> json_map" where
  "deleted fs = (''status'', JString ''deleted'') # map (\<lambda>(k, v). (k, JString v)) fs"

abbreviation confirmed_schema where "confirmed_schema name \<equiv> [(name, TString), (''confirm'', TBool)]"

definition bssBootParamsDelete ::
    "'w ToolRunner \<Rightarrow> json_map option \<Rightarrow> 'w \<Rightarrow> tool_result \<times> 'w" where
  "bssBootParamsDelete r args w =
     with_args_in r (confirmed_schema ''component_id'') args (\<lambda>d w.
       let componentID = trim_space (arg_string d ''component_id'')
       in if componentID = [] then (Inl (required ''component_id''), w)
          else
            (case bs_List (tr_bss r) componentID 1 0 w of
               Inl err \<Rightarrow> (Inl (mapExecutionError err ''loading existing BSS bootparams''), w)
             | Inr existing \<Rightarrow>
                 (case items_of existing of
                    [] \<Rightarrow>
                      (Inl (notFoundError (''bootparams not found for component_id '' @ componentID)), w)
                  | (metadataID, _) # _ \<Rightarrow>
                      (let bootParamID = trim_space metadataID in
                       if bootParamID = []
                       then (Inl (validationError (''existing bootparams for component_id '' @
                               componentID @ '' has empty id'')), w)
                       else
                         done_in ''deleting BSS bootparams'' (bs_Delete (tr_bss r) bootParamID w) (\<lambda>w.
                           (Inr (deleted [(''component_id'', componentID), (''id'', bootParamID)]), w)))))) w"

section \<open>Cloud-Init tools (cloudinit_read.go, cloudinit_write.go)\<close>

definition cloudInitPayloadsList :: "'w ToolRunner \<Rightarrow> json_map option \<Rightarrow> 'w \<Rightarrow> tool_result" where
  "cloudInitPayloadsList r args w =
     list_page r (\<lambda>limit offset.
       case cl_List (tr_cloudInit r) [] limit offset w of
         Inl err \<Rightarrow> Inl (mapExecutionError err ''listing cloud-init payloads'')
       | Inr None \<Rightarrow> Inr []
       | Inr (Some resp) \<Rightarrow> lr_Map resp) args"

definition cloudInitPayloadsGet :: "'w ToolRunner \<Rightarrow> json_map option \<Rightarrow> 'w \<Rightarrow> tool_result" where
  "cloudInitPayloadsGet r args w =
     get_by r ''component_id'' (\<lambda>componentID.
       case cl_List (tr_cloudInit r) componentID 1 0 w of
         Inl err \<Rightarrow> Inl (mapExecutionError err ''getting cloud-init payload'')
       | Inr resp \<Rightarrow>
           (case items_of resp of
              [] \<Rightarrow>
                Inl (notFoundError (''cloud-init payload not found for component_id '' @ componentID))
            | (_, item) # _ \<Rightarrow> item)) args"

definition pickVendorData :: "string option \<Rightarrow> string option \<Rightarrow> string" where
  "pickVendorData networkData vendorData =
     (case networkData of
        Some n \<Rightarrow> trim_space n
      | None \<Rightarrow> (case vendorData of Some v \<Rightarrow> trim_space v | None \<Rightarrow> []))"

definition cloudInitPayloadsUpsert ::
    "'w ToolRunner \<Rightarrow> json_map option \<Rightarrow> 'w \<Rightarrow> tool_result \<times> 'w" where
  "cloudInitPayloadsUpsert r args w =
     with_args_in r [(''component_id'', TString), (''role'', TString), (''user_data'', TString),
       (''meta_data'', TRaw), (''network_data'', TString), (''vendor_data'', TString)] args (\<lambda>d w.
       let componentID = trim_space (arg_string d ''component_id'');
           userData = arg_string d ''user_data'';
           role = map_option trim_space (arg_ptr get_string d ''role'');
           metaData = arg_ptr Some d ''meta_data'';
           networkData = arg_ptr get_string d ''network_data'';
           vendorData = arg_ptr get_string d ''vendor_data''
       in if componentID = [] then (Inl (required ''component_id''), w)
          else if trim_space userData = [] then (Inl (required ''user_data''), w)
          else
            (case cl_List (tr_cloudInit r) componentID 1 0 w of
               Inl err \<Rightarrow> (Inl (mapExecutionError err ''loading existing cloud-init payload''), w)
             | Inr existing \<Rightarrow>
                 (case items_of existing of
                    [] \<Rightarrow>
                      answer_in ''creating cloud-init payload''
                        (cl_Create (tr_cloudInit r)
                          \<lparr>cp_ComponentID = componentID, cp_UserData = userData, cp_MetaData = metaData,
                           cp_Role = (case role of None \<Rightarrow> [] | Some x \<Rightarrow> x),
                           cp_VendorData = pickVendorData networkData vendorData\<rparr> w)
                  | (metadataID, _) # _ \<Rightarrow>
                      (let payloadID = trim_space metadataID in
                       if payloadID = []
                       then (Inl (validationError (''existing cloud-init payload for component_id '' @
                               componentID @ '' has empty id'')), w)
                       else
                         answer_in ''updating cloud-init payload''
                           (cl_Patch (tr_cloudInit r) payloadID
                             \<lparr>pp_UserData = Some userData, pp_Role = role, pp_MetaData = metaData,
                              pp_VendorData =
                                (if networkData \<noteq> None \<or> vendorData \<noteq> None
                                 then Some (pickVendorData networkData vendorData) else None)\<rparr> w))))) w"

definition cloudInitPayloadsDelete ::
    "'w ToolRunner \<Rightarrow> json_map option \<Rightarrow> 'w \<Rightarrow> tool_result \<times> 'w" where
  "cloudInitPayloadsDelete r args w =
     with_args_in r (confirmed_schema ''component_id'') args (\<lambda>d w.
       let componentID = trim_space (arg_string d ''component_id'')
       in if componentID = [] then (Inl (required ''component_id''), w)
          else
            (case cl_List (tr_cloudInit r) componentID 1 0 w of
               Inl err \<Rightarrow> (Inl (mapExecutionError err ''loading existing cloud-init payload''), w)
             | Inr existing \<Rightarrow>
                 (case items_of existing of
                    [] \<Rightarrow>
                      (Inl (notFoundError (''cloud-init payload not found for component_id '' @
                         componentID)), w)
                  | (metadataID, _) # _ \<Rightarrow>
                      (let payloadID = trim_space metadataID in
                       if payloadID = []
                       then (Inl (validationError (''existing cloud-init payload for component_id '' @
                               componentID @ '' has empty id'')), w)
                       else
                         done_in ''deleting cloud-init payload'' (cl_Delete (tr_cloudInit r) payloadID w)
                           (\<lambda>w. (Inr (deleted [(''component_id'', componentID), (''id'', payloadID)]),
                                 w)))))) w"

section \<open>Power tools (power_read.go, power_write.go)\<close>

text \<open>
  The local pagination of the statuses, with the sum of the 64-bit offset and limit as it wraps;
  \<open>None\<close> is the panic of a slice expression whose end lies before its start.
\<close>

definition paginate :: "int \<Rightarrow> int \<Rightarrow> 'a list \<Rightarrow> 'a list option" where
  "paginate offset limit xs =
     (if 0 < offset \<or> 0 < limit then
        (if int (length xs) \<le> offset then Some []
         else
           (let stop = (if 0 < limit \<and> wrap64 (offset + limit) < int (length xs)
                        then wrap64 (offset + limit) else int (length xs))
            in if stop < offset then None
               else Some (take (nat (stop - offset)) (drop (nat offset) xs))))
      else Some xs)"

text \<open>The panic unwinds to the transport's recovery; it is an error value here.\<close>

definition slice_panic :: go_error where
  "slice_panic = ErrText ''runtime error: slice bounds out of range''"

definition powerStatusGet :: "'w ToolRunner \<Rightarrow> json_map option \<Rightarrow> 'w \<Rightarrow> tool_result" where
  "powerStatusGet r args w =
     with_args r [(''nodes'', TStrings), (''groups'', TStrings), (''limit'', TInt), (''offset'', TInt)]
       args (\<lambda>d.
       if bad_page d then Inl page_error
       else
         (case pw_GetPowerStatus (tr_power r) (trimStringList (arg_strings d ''nodes''))
                 (trimStringList (arg_strings d ''groups'')) w of
            Inl err \<Rightarrow> Inl (mapExecutionError err ''getting power status'')
          | Inr None \<Rightarrow> Inr []
          | Inr (Some resp) \<Rightarrow>
              (case paginate (arg_int d ''offset'') (arg_int d ''limit'') (sp_NodeStatuses resp) of
                 None \<Rightarrow> Inl slice_panic
               | Some statuses \<Rightarrow> sp_Map resp statuses)))"

definition powerTransitionsList :: "'w ToolRunner \<Rightarrow> json_map option \<Rightarrow> 'w \<Rightarrow> tool_result" where
  "powerTransitionsList r args w =
     list_page r (\<lambda>limit offset.
       tool_answer ''listing power transitions'' (pw_ListTransitions (tr_power r) limit offset w)) args"

definition powerTransitionsGet :: "'w ToolRunner \<Rightarrow> json_map option \<Rightarrow> 'w \<Rightarrow> tool_result" where
  "powerTransitionsGet r args w =
     get_by r ''id'' (\<lambda>i. tool_answer ''getting power transition'' (pw_GetTransition (tr_power r) i w)) args"

abbreviation create_schema where "create_schema \<equiv>
  [(''operation'', TString), (''nodes'', TStrings), (''groups'', TStrings), (''dry_run'', TBool),
   (''request_id'', TString), (''confirm'', TBool), (''dryRun'', TBool), (''requestID'', TString)]"

definition powerTransitionsCreate ::
    "'w ToolRunner \<Rightarrow> json_map option \<Rightarrow> 'w \<Rightarrow> tool_result \<times> 'w" where
  "powerTransitionsCreate r args w =
     with_args_in r create_schema args (\<lambda>d w.
       let operation = trim_space (arg_string d ''operation'');
           dryRun = (case arg_ptr get_bool d ''dryRun'' of
                       None \<Rightarrow> arg_bool d ''dry_run'' | Some b \<Rightarrow> b);
           requestID = trim_space (arg_string d ''request_id'');
           requestID = (if requestID = [] then trim_space (arg_string d ''requestID'') else requestID)
       in if operation = [] then (Inl (required ''operation''), w)
          else
            answer_in ''creating power transition''
              (pw_CreateTransition (tr_power r)
                \<lparr>ct_Operation = operation, ct_RequestID = requestID,
                 ct_Nodes = trimStringList (arg_strings d ''nodes''),
                 ct_Groups = trimStringList (arg_strings d ''groups''), ct_DryRun = dryRun\<rparr> w)) w"

definition powerTransitionsAbort ::
    "'w ToolRunner \<Rightarrow> json_map option \<Rightarrow> 'w \<Rightarrow> tool_result \<times> 'w" where
  "powerTransitionsAbort r args w =
     with_args_in r (confirmed_schema ''id'') args (\<lambda>d w.
       let transitionID = trim_space (arg_string d ''id'')
       in if transitionID = [] then (Inl (required ''id''), w)
          else answer_in ''aborting power transition''
                 (pw_AbortTransition (tr_power r) transitionID w)) w"

abbreviation defaultPowerWaitTimeout where "defaultPowerWaitTimeout \<equiv> 90 * second"
abbreviation defaultPowerWaitPollInterval where "defaultPowerWaitPollInterval \<equiv> 2 * second"

definition firstOptionalInt :: "int option \<Rightarrow> int option \<Rightarrow> int option" where
  "firstOptionalInt primary fallback = (if primary \<noteq> None then primary else fallback)"

text \<open>\<open>time.Duration(n) * time.Second\<close>, which wraps.\<close>

definition seconds :: "duration \<Rightarrow> int option \<Rightarrow> string \<Rightarrow> go_error + duration" where
  "seconds default_duration n name =
     (case n of
        None \<Rightarrow> Inr default_duration
      | Some n \<Rightarrow>
          if n \<le> 0 then Inl (validationError (name @ '' must be > 0''))
          else Inr (wrap64 (n * second)))"

definition powerTransitionsWait ::
    "'w ToolRunner \<Rightarrow> json_map option \<Rightarrow> 'w \<Rightarrow> tool_result \<times> 'w" where
  "powerTransitionsWait r args w =
     with_args_in r [(''id'', TString), (''timeout_seconds'', TInt), (''poll_interval_seconds'', TInt),
       (''timeoutSeconds'', TInt), (''pollIntervalSeconds'', TInt)] args (\<lambda>d w.
       let transitionID = trim_space (arg_string d ''id'') in
       if transitionID = [] then (Inl (required ''id''), w)
       else
         (case seconds defaultPowerWaitTimeout
                 (firstOptionalInt (arg_ptr get_int d ''timeout_seconds'')
                    (arg_ptr get_int d ''timeoutSeconds'')) ''timeout_seconds'' of
            Inl err \<Rightarrow> (Inl err, w)
          | Inr timeout \<Rightarrow>
         (case seconds defaultPowerWaitPollInterval
                 (firstOptionalInt (arg_ptr get_int d ''poll_interval_seconds'')
                    (arg_ptr get_int d ''pollIntervalSeconds'')) ''poll_interval_seconds'' of
            Inl err \<Rightarrow> (Inl err, w)
          | Inr interval \<Rightarrow>
              answer_in ''waiting for power transition''
                (pw_WaitTransition (tr_power r) timeout transitionID interval w)))) w"

section \<open>Discovery tools (discovery_read.go, discovery_write.go)\<close>

definition discoveryTargetsList :: "'w ToolRunner \<Rightarrow> json_map option \<Rightarrow> 'w \<Rightarrow> tool_result" where
  "discoveryTargetsList r args w =
     list_page r (\<lambda>limit offset.
       tool_answer ''listing discovery targets'' (di_ListTargets (tr_discovery r) limit offset w)) args"

definition discoveryTargetsGet :: "'w ToolRunner \<Rightarrow> json_map option \<Rightarrow> 'w \<Rightarrow> tool_result" where
  "discoveryTargetsGet r args w =
     get_by r ''id'' (\<lambda>i. tool_answer ''getting discovery target'' (di_GetTarget (tr_discovery r) i w)) args"

definition discoveryScansList :: "'w ToolRunner \<Rightarrow> json_map option \<Rightarrow> 'w \<Rightarrow> tool_result" where
  "discoveryScansList r args w =
     list_page r (\<lambda>limit offset.
       tool_answer ''listing discovery scans'' (di_ListScans (tr_discovery r) limit offset w)) args"

definition discoveryScansGet :: "'w ToolRunner \<Rightarrow> json_map option \<Rightarrow> 'w \<Rightarrow> tool_result" where
  "discoveryScansGet r args w =
     get_by r ''id'' (\<lambda>i. tool_answer ''getting discovery scan'' (di_GetScan (tr_discovery r) i w)) args"

definition discoveryDriversList :: "'w ToolRunner \<Rightarrow> json_map option \<Rightarrow> 'w \<Rightarrow> tool_result" where
  "discoveryDriversList r args w =
     with_args r [] args (\<lambda>d.
       tool_answer ''listing discovery drivers'' (di_ListDrivers (tr_discovery r) w))"

definition compat_warning :: json where
  "compat_warning = JString ''insecure_skip_verify is accepted for compatibility but not persisted in discovery target schema''"

text \<open>\<open>result[key] = v\<close> on a successful answer.\<close>

definition with_field :: "(string \<times> json) option \<Rightarrow> tool_result \<times> 'w \<Rightarrow> tool_result \<times> 'w" where
  "with_field field out =
     (case out of
        (Inr result, w) \<Rightarrow>
          (Inr (case field of None \<Rightarrow> result | Some (k, v) \<Rightarrow> AList.update k v result), w)
      | (Inl err, w) \<Rightarrow> (Inl err, w))"

definition skip_warning :: "decoded \<Rightarrow> (string \<times> json) option" where
  "skip_warning d =
     (if arg_ptr get_bool d ''insecure_skip_verify'' = None then None
      else Some (''warning'', compat_warning))"

definition discoveryTargetsCreate ::
    "'w ToolRunner \<Rightarrow> json_map option \<Rightarrow> 'w \<Rightarrow> tool_result \<times> 'w" where
  "discoveryTargetsCreate r args w =
     with_args_in r [(''name'', TString), (''endpoint'', TString), (''driver'', TString),
       (''credential_id'', TString), (''insecure_skip_verify'', TBool)] args (\<lambda>d w.
       let name = trim_space (arg_string d ''name'');
           endpoint = trim_space (arg_string d ''endpoint'');
           driverName = to_lower (trim_space (arg_string d ''driver''))
       in if name = [] then (Inl (required ''name''), w)
          else if endpoint = [] then (Inl (required ''endpoint''), w)
          else if driverName = [] then (Inl (required ''driver''), w)
          else
            with_field (skip_warning d)
              (answer_in ''creating discovery target''
                (di_CreateTarget (tr_discovery r)
                  \<lparr>dt_Name = name, dt_Driver = driverName, dt_Addresses = [endpoint],
                   dt_CredentialID = trim_space (arg_string d ''credential_id'')\<rparr> w))) w"

definition discoveryTargetsUpdate ::
    "'w ToolRunner \<Rightarrow> json_map option \<Rightarrow> 'w \<Rightarrow> tool_result \<times> 'w" where
  "discoveryTargetsUpdate r args w =
     with_args_in r [(''id'', TString), (''name'', TString), (''endpoint'', TString), (''driver'', TString),
       (''credential_id'', TString), (''insecure_skip_verify'', TBool)] args (\<lambda>d w.
       let i = trim_space (arg_string d ''id'');
           field = (\<lambda>name. map_option trim_space (arg_ptr get_string d name));
           patchReq = \<lparr>dp_Name = field ''name'', dp_Driver = map_option to_lower (field ''driver''),
             dp_Addresses = map_option (\<lambda>endpoint. [endpoint]) (field ''endpoint''),
             dp_CredentialID = field ''credential_id''\<rparr>;
           changed = (field ''name'' \<noteq> None \<or> field ''endpoint'' \<noteq> None \<or> field ''driver'' \<noteq> None \<or>
             field ''credential_id'' \<noteq> None \<or> arg_ptr get_bool d ''insecure_skip_verify'' \<noteq> None)
       in if i = [] then (Inl (required ''id''), w)
          else if \<not> changed
          then (Inl (validationError ''at least one mutable field must be provided''), w)
          else if dp_Addresses patchReq = Some [[]]
          then (Inl (validationError ''endpoint cannot be empty''), w)
          else
            with_field (skip_warning d)
              (answer_in ''updating discovery target''
                (di_PatchTarget (tr_discovery r) i patchReq w))) w"

text \<open>The tools that delete one thing by its ID.\<close>

definition delete_by ::
    "'w ToolRunner \<Rightarrow> string \<Rightarrow> (string \<Rightarrow> 'w \<Rightarrow> go_error option \<times> 'w) \<Rightarrow> json_map option \<Rightarrow> 'w
     \<Rightarrow> tool_result \<times> 'w" where
  "delete_by r fallback delete args w =
     with_args_in r (confirmed_schema ''id'') args (\<lambda>d w.
       let i = trim_space (arg_string d ''id'')
       in if i = [] then (Inl (required ''id''), w)
          else done_in fallback (delete i w) (\<lambda>w. (Inr (deleted [(''id'', i)]), w))) w"

definition discoveryTargetsDelete ::
    "'w ToolRunner \<Rightarrow> json_map option \<Rightarrow> 'w \<Rightarrow> tool_result \<times> 'w" where
  "discoveryTargetsDelete r args w =
     delete_by r ''deleting discovery target'' (di_DeleteTarget (tr_discovery r)) args w"

definition discoveryScanDelete ::
    "'w ToolRunner \<Rightarrow> json_map option \<Rightarrow> 'w \<Rightarrow> tool_result \<times> 'w" where
  "discoveryScanDelete r args w =
     delete_by r ''deleting discovery scan'' (di_CancelScan (tr_discovery r)) args w"

definition discoveryTargetScan ::
    "'w ToolRunner \<Rightarrow> json_map option \<Rightarrow> 'w \<Rightarrow> tool_result \<times> 'w" where
  "discoveryTargetScan r args w =
     with_args_in r [(''id'', TString), (''async'', TBool)] args (\<lambda>d w.
       let i = trim_space (arg_string d ''id'')
       in if i = [] then (Inl (required ''id''), w)
          else
            with_field (map_option (\<lambda>b. (''requested_async'', JBool b)) (arg_ptr get_bool d ''async''))
              (answer_in ''starting discovery target scan''
                (di_StartTargetScan (tr_discovery r) i w))) w"

definition discoveryScanTrigger ::
    "'w ToolRunner \<Rightarrow> json_map option \<Rightarrow> 'w \<Rightarrow> tool_result \<times> 'w" where
  "discoveryScanTrigger r args w =
     with_args_in r [(''driver'', TString), (''endpoint'', TString), (''credential_id'', TString),
       (''insecure_skip_verify'', TBool), (''timeout_seconds'', TInt)] args (\<lambda>d w.
       let driverName = to_lower (trim_space (arg_string d ''driver''));
           endpoint = trim_space (arg_string d ''endpoint'');
           timeout = arg_ptr get_int d ''timeout_seconds'';
           skip = arg_ptr get_bool d ''insecure_skip_verify'';
           options =
             (case skip of None \<Rightarrow> [] | Some b \<Rightarrow> [(''insecure_skip_verify'', JBool b)]) @
             (case timeout of None \<Rightarrow> [] | Some n \<Rightarrow> [(''timeout_seconds'', JNumber (itoa n))])
       in if driverName = [] then (Inl (required ''driver''), w)
          else if (case timeout of None \<Rightarrow> False | Some n \<Rightarrow> n \<le> 0)
          then (Inl (validationError ''timeout_seconds must be > 0''), w)
          else
            answer_in ''starting discovery scan''
              (di_StartScan (tr_discovery r)
                \<lparr>ds_Driver = driverName, ds_CredentialID = trim_space (arg_string d ''credential_id''),
                 ds_Addresses = (if endpoint = [] then [] else [endpoint]),
                 ds_Data = (if options = [] then None else Some (JObject options))\<rparr> w)) w"

section \<open>Dispatch (registry.go)\<close>

text \<open>The reading tools; \<open>None\<close> for every other name.\<close>

definition call_read ::
    "'w ToolRunner \<Rightarrow> string \<Rightarrow> (json_map option \<Rightarrow> 'w \<Rightarrow> tool_result) option" where
  "call_read r name = map_of
     [(''cluster.health_summary'', clusterHealthSummary r),
      (''smd.components.list'', smdComponentsList r), (''smd.components.get'', smdComponentsGet r),
      (''smd.groups.list'', smdGroupsList r), (''smd.groups.get'', smdGroupsGet r),
      (''bss.bootparams.list'', bssBootParamsList r), (''bss.bootparams.get'', bssBootParamsGet r),
      (''cloudinit.payloads.list'', cloudInitPayloadsList r),
      (''cloudinit.payloads.get'', cloudInitPayloadsGet r),
      (''power.status.get'', powerStatusGet r),
      (''power.transitions.list'', powerTransitionsList r),
      (''power.transitions.get'', powerTransitionsGet r),
      (''discovery.targets.list'', discoveryTargetsList r),
      (''discovery.targets.get'', discoveryTargetsGet r),
      (''discovery.scans.list'', discoveryScansList r),
      (''discovery.scans.get'', discoveryScansGet r),
      (''discovery.drivers.list'', discoveryDriversList r)] name"

definition call_write ::
    "'w ToolRunner \<Rightarrow> string \<Rightarrow> (json_map option \<Rightarrow> 'w \<Rightarrow> tool_result \<times> 'w) option" where
  "call_write r name = map_of
     [(''smd.groups.members.add'', smdGroupsMembersAdd r),
      (''smd.groups.members.remove'', smdGroupsMembersRemove r),
      (''bss.bootparams.upsert'', bssBootParamsUpsert r),
      (''bss.bootparams.delete'', bssBootParamsDelete r),
      (''cloudinit.payloads.upsert'', cloudInitPayloadsUpsert r),
      (''cloudinit.payloads.delete'', cloudInitPayloadsDelete r),
      (''power.transitions.create'', powerTransitionsCreate r),
      (''power.transitions.abort'', powerTransitionsAbort r),
      (''power.transitions.wait'', powerTransitionsWait r),
      (''discovery.targets.create'', discoveryTargetsCreate r),
      (''discovery.targets.update'', discoveryTargetsUpdate r),
      (''discovery.targets.delete'', discoveryTargetsDelete r),
      (''discovery.target.scan'', discoveryTargetScan r),
      (''discovery.scan.trigger'', discoveryScanTrigger r),
      (''discovery.scan.delete'', discoveryScanDelete r)] name"

definition Runner_Call :: "'w ToolRunner \<Rightarrow> 'w tool_caller" where
  "Runner_Call r name args w =
     (let tool = trim_space name in
      case call_read r tool of
        Some run \<Rightarrow> (run args w, w)
      | None \<Rightarrow>
          (case call_write r tool of
             Some run \<Rightarrow> run args w
           | None \<Rightarrow> (Inl (validationError (''tool '' @ tool @ '' is not implemented'')), w)))"

section \<open>Properties\<close>

text \<open>The names the dispatch knows as reading tools.\<close>

definition read_tools :: "string list" where
  "read_tools =
     [''cluster.health_summary'', ''smd.components.list'', ''smd.components.get'', ''smd.groups.list'',
      ''smd.groups.get'', ''bss.bootparams.list'', ''bss.bootparams.get'', ''cloudinit.payloads.list'',
      ''cloudinit.payloads.get'', ''power.status.get'', ''power.transitions.list'',
      ''power.transitions.get'', ''discovery.targets.list'', ''discovery.targets.get'',
      ''discovery.scans.list'', ''discovery.scans.get'', ''discovery.drivers.list'']"

lemma call_read_known: "call_read r name \<noteq> None \<longleftrightarrow> name \<in> set read_tools"
  by (auto simp: call_read_def read_tools_def)

lemma Runner_Call_read:
  "trim_space name \<in> set read_tools \<Longrightarrow> snd (Runner_Call r name args w) = w"
  using call_read_known [of r "trim_space name"] by (auto simp: Runner_Call_def Let_def)

text \<open>The tools of \<open>api/tools.yaml\<close> with their capabilities.\<close>

definition shipped_capabilities :: "(string \<times> string) list" where
  "shipped_capabilities =
     [(''cluster.health_summary'', ''read''), (''smd.components.list'', ''read''),
      (''smd.components.get'', ''read''), (''smd.groups.list'', ''read''),
      (''smd.groups.get'', ''read''), (''smd.groups.members.add'', ''write''),
      (''smd.groups.members.remove'', ''write''), (''bss.bootparams.list'', ''read''),
      (''bss.bootparams.get'', ''read''), (''bss.bootparams.upsert'', ''write''),
      (''bss.bootparams.delete'', ''write''), (''cloudinit.payloads.list'', ''read''),
      (''cloudinit.payloads.get'', ''read''), (''cloudinit.payloads.upsert'', ''write''),
      (''cloudinit.payloads.delete'', ''write''), (''discovery.targets.list'', ''read''),
      (''discovery.targets.get'', ''read''), (''discovery.drivers.list'', ''read''),
      (''discovery.scans.list'', ''read''), (''discovery.scans.get'', ''read''),
      (''discovery.targets.create'', ''write''), (''discovery.targets.update'', ''write''),
      (''discovery.targets.delete'', ''write''), (''discovery.target.scan'', ''write''),
      (''discovery.scan.trigger'', ''write''), (''discovery.scan.delete'', ''write''),
      (''power.status.get'', ''read''), (''power.transitions.list'', ''read''),
      (''power.transitions.get'', ''read''), (''power.transitions.create'', ''write''),
      (''power.transitions.abort'', ''write''), (''power.transitions.wait'', ''write'')]"

lemma shipped_read: "(n, c) \<in> set shipped_capabilities \<Longrightarrow> c \<noteq> ''write'' \<Longrightarrow> n \<in> set read_tools"
  by (auto simp: shipped_capabilities_def read_tools_def)

lemma read_tools_trimmed: "n \<in> set read_tools \<Longrightarrow> trim_space n = n"
  by (auto simp: read_tools_def mcp_plain)

lemma write_not_read: "\<not> capability_is ''read'' ''write''"
  by code_simp

lemma read_call_harmless:
  assumes "map (\<lambda>t. (ts_Name t, ts_Capability t)) tools = shipped_capabilities"
    and "\<not> (to_lower (trim_space mode) = ModeReadWrite \<and> enableWrite)"
    and "permitted_call tools mode enableWrite scopes params tool"
  shows "ran (Some (Runner_Call r)) params tool w = w"
proof -
  from assms(2,3) have cap: "capability_is ''read'' (ts_Capability tool)"
    by (auto simp: permitted_call_def)
  from assms(3) obtain t where t: "t \<in> set tools" "tool = clean_tool t"
    by (auto simp: permitted_call_def)
  have shipped: "(ts_Name t, ts_Capability t) \<in> set shipped_capabilities"
    using t(1) unfolding assms(1) [symmetric] by auto
  have "ts_Capability t \<noteq> ''write''"
  proof
    assume "ts_Capability t = ''write''"
    then have "ts_Capability tool = ''write''" by (simp add: t(2) clean_tool_def mcp_plain)
    with cap write_not_read show False by simp
  qed
  from shipped_read [OF shipped this] have n: "ts_Name t \<in> set read_tools" .
  then have "trim_space (ts_Name tool) \<in> set read_tools"
    by (simp add: t(2) clean_tool_def read_tools_trimmed)
  from Runner_Call_read [OF this] show ?thesis by (simp add: ran_def)
qed

text \<open>
  Read-only means read-only: with the shipped contract and a server that is not in read-write
  mode with writes enabled, no request on any transport changes the state of the services the
  tool runner talks to.
\<close>

lemma read_only_changes_nothing:
  assumes "map (\<lambda>t. (ts_Name t, ts_Capability t)) tools = shipped_capabilities"
    and "NewToolRegistry (Inr tools) = Inr registry" "NewGuard mode enableWrite = Inr g"
    and "\<not> (to_lower (trim_space mode) = ModeReadWrite \<and> enableWrite)"
  shows "snd (snd (handleCallToolHTTP registry (Some (guard_authorizer g))
        (Some (token_auth decode tok)) (Some (Runner_Call run)) r w)) = w \<and>
    snd (snd (handleCallToolSSE registry (Some (guard_authorizer g))
        (Some (token_auth decode tok)) (Some (Runner_Call run)) wr r w)) = w \<and>
    snd (snd (handleRPCRequest registry (Some (guard_authorizer g))
        (Some (token_auth decode tok)) (Some (Runner_Call run)) version show_any req w)) = w"
  using tool_calls_only(1) [OF assms(2,3), where decode = decode and tok = tok
      and caller = "Some (Runner_Call run)" and r = r and w = w]
    tool_calls_only(2) [OF assms(2,3), where decode = decode and tok = tok
      and caller = "Some (Runner_Call run)" and r = r and w = w and wr = wr]
    tool_calls_only(3) [OF assms(2,3), where decode = decode and tok = tok
      and caller = "Some (Runner_Call run)" and w = w and version = version and show_any = show_any
      and req = req]
    read_call_harmless [OF assms(1,4), where r = run and w = w]
  by metis

text \<open>
  C22. The confirmation of destructive power operations can be evaded: the check looks the
  argument up as \<open>operation\<close>, the decoder takes a key for a field up to case, so a call with the
  key \<open>Operation\<close> passes the check without \<open>confirm\<close> and powers the nodes off.
\<close>

theorem confirmation_case_bypass:
  "RequireConfirmation ''power.transitions.create'' False
     [(''Operation'', JString ''ForceOff''), (''nodes'', JArray [JString ''n1''])] = None \<and>
   \<not> hasConfirmTrue [(''Operation'', JString ''ForceOff''), (''nodes'', JArray [JString ''n1''])] \<and>
   Runner_Call r ''power.transitions.create''
     (Some [(''Operation'', JString ''ForceOff''), (''nodes'', JArray [JString ''n1''])]) w =
   answer_in ''creating power transition''
     (pw_CreateTransition (tr_power r)
       \<lparr>ct_Operation = ''ForceOff'', ct_RequestID = [], ct_Nodes = [''n1''], ct_Groups = [],
        ct_DryRun = False\<rparr> w)"
proof -
  let ?args = "[(''Operation'', JString ''ForceOff''), (''nodes'', JArray [JString ''n1''])]"
  let ?names = "[''operation'', ''nodes'', ''groups'', ''dry_run'', ''request_id'', ''confirm'',
    ''dryRun'', ''requestID'']"
  have none: "RequireConfirmation ''power.transitions.create'' False ?args = None"
    "\<not> hasConfirmTrue ?args"
    by code_simp+
  have sorted: "sort_key fst ?args = ?args" by code_simp
  have bad: "find (arg_rejected create_schema) ?args = None" by code_simp
  have fold: "map (equal_fold ''Operation'') ?names = [True, False, False, False, False, False, False, False]"
    "map (equal_fold ''nodes'') ?names = [False, True, False, False, False, False, False, False]"
    by code_simp+
  have vals: "field_values ?args ''operation'' = [JString ''ForceOff'']"
    "field_values ?args ''nodes'' = [JArray [JString ''n1'']]" "field_values ?args ''groups'' = []"
    "field_values ?args ''dry_run'' = []" "field_values ?args ''request_id'' = []"
    "field_values ?args ''dryRun'' = []" "field_values ?args ''requestID'' = []"
    using fold by (simp_all add: field_values_def sorted)
  have dec: "decodeArgsStrict err create_schema (Some ?args) = Inr (field_values ?args)" for err
    by (simp only: decodeArgsStrict_def Let_def option.case sorted bad)
  have name: "call_read r ''power.transitions.create'' = None"
    "call_write r ''power.transitions.create'' = Some (powerTransitionsCreate r)"
    by (simp_all add: call_read_def call_write_def)
  have "Runner_Call r ''power.transitions.create'' (Some ?args) w = powerTransitionsCreate r (Some ?args) w"
    by (simp add: Runner_Call_def mcp_plain name)
  also have "\<dots> = answer_in ''creating power transition''
     (pw_CreateTransition (tr_power r)
       \<lparr>ct_Operation = ''ForceOff'', ct_RequestID = [], ct_Nodes = [''n1''], ct_Groups = [],
        ct_DryRun = False\<rparr> w)"
    by (simp add: powerTransitionsCreate_def with_args_in_def dec
        arg_string_def arg_bool_def arg_ptr_def arg_strings_def vals mcp_plain trim_list_def)
  finally show ?thesis using none by simp
qed

end
