(* ===== verification/Go_Router.thy ===== *)
theory Go_Router
  imports Go_Base
begin

text \<open>
  The routers of the three services as they are declared: the calls of \<open>chi\<close> in the order of the
  code, with the middleware of \<open>chamicore-lib\<close> by name.  The router library itself, what a
  middleware does, and how a pattern matches a path are parameters; what their documentation says
  of them is stated here as predicates on them.
\<close>

record jwt_config =
  jw_JWKSUrl :: string
  jw_InternalToken :: string
  jw_DevMode :: bool

datatype middleware =
    Tracing | Metrics string | RequestID | RequestLogger | Recoverer | SecureHeaders
  | BodyLimit int | ContentType | APIVersion string | CacheControl | ETag
  | JWT jwt_config | AnyScope "string list" | OneScope string

text \<open>\<open>Use\<close>, \<open>Method\<close> (also \<open>Get\<close>, \<open>Post\<close>, \<dots>), \<open>With\<close> before a method, \<open>Group\<close> and \<open>Route\<close>.\<close>

datatype 'h decl =
    Use middleware
  | Method string string 'h
  | With "middleware list" string string 'h
  | Group "'h decl list"
  | Route string "'h decl list"

record 'h route =
  rt_method :: string
  rt_path :: string
  rt_chain :: "middleware list"
  rt_handler :: 'h

section \<open>What the libraries are relied on for\<close>

text \<open>
  The scoping of \<open>chi\<close>: a middleware applies to what the same group declares after it, a group
  inherits, a route also prefixes the patterns.  \<open>mounted p ms ds\<close> are the routes of the
  declarations \<open>ds\<close> under the prefix \<open>p\<close> and the middleware \<open>ms\<close>.
\<close>

definition chi_scoping :: "(string \<Rightarrow> middleware list \<Rightarrow> 'h decl list \<Rightarrow> 'h route list) \<Rightarrow> bool" where
  "chi_scoping mounted \<longleftrightarrow>
     (\<forall>p ms. mounted p ms [] = []) \<and>
     (\<forall>p ms m ds. mounted p ms (Use m # ds) = mounted p (ms @ [m]) ds) \<and>
     (\<forall>p ms meth q h ds. mounted p ms (Method meth q h # ds) =
        \<lparr>rt_method = meth, rt_path = p @ q, rt_chain = ms, rt_handler = h\<rparr> # mounted p ms ds) \<and>
     (\<forall>p ms xs meth q h ds. mounted p ms (With xs meth q h # ds) =
        \<lparr>rt_method = meth, rt_path = p @ q, rt_chain = ms @ xs, rt_handler = h\<rparr> # mounted p ms ds) \<and>
     (\<forall>p ms gs ds. mounted p ms (Group gs # ds) = mounted p ms gs @ mounted p ms ds) \<and>
     (\<forall>p ms q gs ds. mounted p ms (Route q gs # ds) = mounted (p @ q) ms gs @ mounted p ms ds)"

lemma chi_scoping_simps:
  assumes "chi_scoping mounted"
  shows "mounted p ms [] = []"
    "mounted p ms (Use m # ds) = mounted p (ms @ [m]) ds"
    "mounted p ms (Method meth q h # ds) =
       \<lparr>rt_method = meth, rt_path = p @ q, rt_chain = ms, rt_handler = h\<rparr> # mounted p ms ds"
    "mounted p ms (With xs meth q h # ds) =
       \<lparr>rt_method = meth, rt_path = p @ q, rt_chain = ms @ xs, rt_handler = h\<rparr> # mounted p ms ds"
    "mounted p ms (Group gs # ds) = mounted p ms gs @ mounted p ms ds"
    "mounted p ms (Route q gs # ds) = mounted (p @ q) ms gs @ mounted p ms ds"
  using assms by (simp_all add: chi_scoping_def)

text \<open>
  The patterns of \<open>chi\<close>, as far as the services use them: one without a placeholder or a wildcard
  matches itself; one that ends in a placeholder without a regular expression matches one more
  segment that is not empty.
\<close>

definition plain_pattern :: "string \<Rightarrow> bool" where
  "plain_pattern p \<longleftrightarrow> CHR ''{'' \<notin> set p \<and> CHR ''}'' \<notin> set p \<and> CHR ''*'' \<notin> set p"

definition plain_name :: "string \<Rightarrow> bool" where
  "plain_name name \<longleftrightarrow> plain_pattern name \<and> CHR '':'' \<notin> set name \<and> name \<noteq> []"

definition chi_matching :: "(string \<Rightarrow> string \<Rightarrow> bool) \<Rightarrow> bool" where
  "chi_matching matches \<longleftrightarrow>
     (\<forall>p path. plain_pattern p \<longrightarrow> matches p path = (path = p)) \<and>
     (\<forall>p name path. plain_pattern p \<and> plain_name name \<longrightarrow> matches (p @ ''{'' @ name @ ''}'') path =
        (\<exists>seg. seg \<noteq> [] \<and> CHR ''/'' \<notin> set seg \<and> path = p @ seg))"

text \<open>
  \<open>chi.URLParam\<close>: a request is routed by the \<open>RawPath\<close> of its URL if that is set and by \<open>Path\<close>
  otherwise, and the parameter is the segment found there, which \<open>chi\<close> does not decode.
\<close>

definition chi_params :: "(string \<Rightarrow> string \<Rightarrow> string \<times> string \<Rightarrow> string) \<Rightarrow> bool" where
  "chi_params param \<longleftrightarrow>
     (\<forall>p name path raw seg. plain_pattern p \<and> plain_name name \<and> seg \<noteq> [] \<and> CHR ''/'' \<notin> set seg \<and>
        (if raw = [] then path else raw) = p @ seg \<longrightarrow>
        param (p @ ''{'' @ name @ ''}'') name (path, raw) = seg)"

text \<open>The routes that a request may take.\<close>

definition routed :: "(string \<Rightarrow> string \<Rightarrow> bool) \<Rightarrow> 'h route list \<Rightarrow> string \<Rightarrow> string \<Rightarrow> 'h list" where
  "routed matches routes meth path =
     map rt_handler (filter (\<lambda>r. rt_method r = meth \<and> matches (rt_path r) path) routes)"

type_synonym ('r, 'a, 'w) http_handler = "'r \<Rightarrow> 'w \<Rightarrow> 'a \<times> 'w"

text \<open>The handler of a route behind its middleware, the outermost first.\<close>

definition behind ::
    "(middleware \<Rightarrow> ('r, 'a, 'w) http_handler \<Rightarrow> ('r, 'a, 'w) http_handler) \<Rightarrow> middleware list
     \<Rightarrow> ('r, 'a, 'w) http_handler \<Rightarrow> ('r, 'a, 'w) http_handler" where
  "behind sem chain handler = foldr sem chain handler"

text \<open>
  A middleware answers itself and leaves the state alone, or calls the next handler once, with a
  request it may have completed.
\<close>

definition passes_on ::
    "(('r, 'a, 'w) http_handler \<Rightarrow> ('r, 'a, 'w) http_handler) \<Rightarrow> bool" where
  "passes_on m \<longleftrightarrow>
     (\<forall>handler r w. snd (m handler r w) = w \<or> (\<exists>r'. snd (m handler r w) = snd (handler r' w)))"

text \<open>The same, for a middleware that may complete a request only as the relation \<open>R\<close> says.\<close>

definition completes ::
    "('r \<Rightarrow> 'r \<Rightarrow> bool) \<Rightarrow> (('r, 'a, 'w) http_handler \<Rightarrow> ('r, 'a, 'w) http_handler) \<Rightarrow> bool" where
  "completes R m \<longleftrightarrow>
     (\<forall>handler r w. snd (m handler r w) = w \<or> (\<exists>r'. R r r' \<and> snd (m handler r w) = snd (handler r' w)))"

lemma behind_simps [simp]:
  "behind sem [] handler = handler" "behind sem (m # ms) handler = sem m (behind sem ms handler)"
  "behind sem (ms @ ns) handler = behind sem ms (behind sem ns handler)"
  by (simp_all add: behind_def)

lemma passes_onD: "passes_on m \<Longrightarrow> snd (m handler r w) = w \<or> (\<exists>r'. snd (m handler r w) = snd (handler r' w))"
  by (simp add: passes_on_def)

lemma behind_passes_on:
  "(\<And>m. m \<in> set ms \<Longrightarrow> passes_on (sem m)) \<Longrightarrow>
   snd (behind sem ms handler r w) = w \<or> (\<exists>r'. snd (behind sem ms handler r w) = snd (handler r' w))"
proof (induction ms arbitrary: r)
  case (Cons m ms)
  have "passes_on (sem m)" using Cons.prems by simp
  from passes_onD [OF this, of "behind sem ms handler" r w] Cons.IH Cons.prems
  show ?case by (metis behind_simps(2) list.set_intros(2))
qed auto

lemma completesD:
  "completes R m \<Longrightarrow>
   snd (m handler r w) = w \<or> (\<exists>r'. R r r' \<and> snd (m handler r w) = snd (handler r' w))"
  by (simp add: completes_def)

lemma behind_completes:
  assumes "\<And>m. m \<in> set ms \<Longrightarrow> completes R (sem m)" "reflp R" "transp R"
  shows "snd (behind sem ms handler r w) = w \<or>
    (\<exists>r'. R r r' \<and> snd (behind sem ms handler r w) = snd (handler r' w))"
  using assms(1)
proof (induction ms arbitrary: r)
  case Nil
  show ?case using assms(2) by (auto dest: reflpD)
next
  case (Cons m ms)
  have "completes R (sem m)" using Cons.prems by simp
  from completesD [OF this, of "behind sem ms handler" r w]
  consider "snd (behind sem (m # ms) handler r w) = w"
    | r' where "R r r'" "snd (behind sem (m # ms) handler r w) = snd (behind sem ms handler r' w)"
    by auto
  then show ?case
  proof cases
    case (2 r')
    with Cons.IH [of r'] Cons.prems assms(3) show ?thesis
      unfolding 2 by (metis list.set_intros(2) transpD)
  qed simp
qed

section \<open>A router and a matcher that behave so\<close>

fun mount :: "string \<Rightarrow> middleware list \<Rightarrow> 'h decl list \<Rightarrow> 'h route list" where
  "mount p ms [] = []"
| "mount p ms (Use m # ds) = mount p (ms @ [m]) ds"
| "mount p ms (Method meth q h # ds) =
     \<lparr>rt_method = meth, rt_path = p @ q, rt_chain = ms, rt_handler = h\<rparr> # mount p ms ds"
| "mount p ms (With xs meth q h # ds) =
     \<lparr>rt_method = meth, rt_path = p @ q, rt_chain = ms @ xs, rt_handler = h\<rparr> # mount p ms ds"
| "mount p ms (Group gs # ds) = mount p ms gs @ mount p ms ds"
| "mount p ms (Route q gs # ds) = mount (p @ q) ms gs @ mount p ms ds"

lemma mount_scoping: "chi_scoping mount"
  by (simp add: chi_scoping_def)

definition match_pattern :: "string \<Rightarrow> string \<Rightarrow> bool" where
  "match_pattern pat path =
     (if CHR ''{'' \<notin> set pat then path = pat
      else
        (let p = takeWhile (\<lambda>c. c \<noteq> CHR ''{'') pat; seg = drop (length p) path
         in take (length p) path = p \<and> seg \<noteq> [] \<and> CHR ''/'' \<notin> set seg))"

lemma match_pattern_matching: "chi_matching match_pattern"
proof -
  have "takeWhile (\<lambda>c. c \<noteq> CHR ''{'') (p @ CHR ''{'' # rest) = p" if "CHR ''{'' \<notin> set p" for p rest
    using that by (induction p) auto
  moreover have "take (length p) path = p \<and> drop (length p) path \<noteq> [] \<and> CHR ''/'' \<notin> set (drop (length p) path) \<longleftrightarrow>
      (\<exists>seg. seg \<noteq> [] \<and> CHR ''/'' \<notin> set seg \<and> path = p @ seg)" for p path :: string
    by (metis append_take_drop_id append_eq_conv_conj)
  ultimately show ?thesis
    by (simp add: chi_matching_def match_pattern_def Let_def plain_pattern_def)
qed

definition match_param :: "string \<Rightarrow> string \<Rightarrow> string \<times> string \<Rightarrow> string" where
  "match_param pat name url =
     drop (length (takeWhile (\<lambda>c. c \<noteq> CHR ''{'') pat)) (if snd url = [] then fst url else snd url)"

lemma match_param_params: "chi_params match_param"
proof -
  have "takeWhile (\<lambda>c. c \<noteq> CHR ''{'') (p @ CHR ''{'' # rest) = p" if "CHR ''{'' \<notin> set p" for p rest
    using that by (induction p) auto
  then show ?thesis by (auto simp: chi_params_def match_param_def plain_pattern_def)
qed

end
