(* ===== verification/MCP_Discovery.thy ===== *)
theory MCP_Discovery
  imports MCP_Tools Power_Client Go_Router
begin

text \<open>
  The discovery client of the MCP tools (\<open>internal/tools/discovery_read.go\<close> and
  \<open>discovery_write.go\<close>): the paths it asks the shared HTTP client for, which is a record of its
  four methods; and \<open>NewRunner\<close> of \<open>registry.go\<close>, which builds the clients of all services.  The
  constructors of the other services' clients are parameters.
\<close>

section \<open>The HTTP client\<close>

datatype discovery_body =
    BodyTarget CreateTargetRequest
  | BodyPatch PatchTargetRequest
  | BodyScan StartScanRequest
  | BodyEmpty

record 'w base_client =
  bc_Get :: "string \<Rightarrow> 'w \<Rightarrow> go_error + tool_result"
  bc_Post :: "string \<Rightarrow> discovery_body \<Rightarrow> 'w \<Rightarrow> (go_error + tool_result) \<times> 'w"
  bc_Patch :: "string \<Rightarrow> discovery_body \<Rightarrow> 'w \<Rightarrow> (go_error + tool_result) \<times> 'w"
  bc_Delete :: "string \<Rightarrow> 'w \<Rightarrow> go_error option \<times> 'w"

section \<open>The discovery client\<close>

abbreviation targets_path where "targets_path \<equiv> ''/discovery/v1/targets''"
abbreviation scans_path where "scans_path \<equiv> ''/discovery/v1/scans''"
abbreviation drivers_path where "drivers_path \<equiv> ''/discovery/v1/drivers''"

definition page_path :: "string \<Rightarrow> int \<Rightarrow> int \<Rightarrow> string" where
  "page_path path limit offset =
     (let params = [];
          params = (if 0 < limit then values_set ''limit'' (itoa limit) params else params);
          params = (if 0 < offset then values_set ''offset'' (itoa offset) params else params)
      in with_query path params)"

definition discovery_ListTargets ::
    "'w base_client \<Rightarrow> int \<Rightarrow> int \<Rightarrow> 'w \<Rightarrow> go_error + tool_result" where
  "discovery_ListTargets h limit offset = bc_Get h (page_path targets_path limit offset)"

definition discovery_GetTarget :: "'w base_client \<Rightarrow> string \<Rightarrow> 'w \<Rightarrow> go_error + tool_result" where
  "discovery_GetTarget h i = bc_Get h (targets_path @ ''/'' @ path_escape (trim_space i))"

definition discovery_ListScans ::
    "'w base_client \<Rightarrow> int \<Rightarrow> int \<Rightarrow> 'w \<Rightarrow> go_error + tool_result" where
  "discovery_ListScans h limit offset = bc_Get h (page_path scans_path limit offset)"

definition discovery_GetScan :: "'w base_client \<Rightarrow> string \<Rightarrow> 'w \<Rightarrow> go_error + tool_result" where
  "discovery_GetScan h i = bc_Get h (scans_path @ ''/'' @ path_escape (trim_space i))"

definition discovery_ListDrivers :: "'w base_client \<Rightarrow> 'w \<Rightarrow> go_error + tool_result" where
  "discovery_ListDrivers h = bc_Get h drivers_path"

definition wrap_error :: "string \<Rightarrow> go_error option \<times> 'w \<Rightarrow> go_error option \<times> 'w" where
  "wrap_error msg r = (case r of (err, w) \<Rightarrow> (map_option (\<lambda>e. Wrap msg e []) err, w))"

definition discovery_CreateTarget ::
    "'w base_client \<Rightarrow> CreateTargetRequest \<Rightarrow> 'w \<Rightarrow> (go_error + tool_result) \<times> 'w" where
  "discovery_CreateTarget h req w =
     wrap_result ''creating discovery target: '' (bc_Post h targets_path (BodyTarget req) w)"

definition discovery_PatchTarget ::
    "'w base_client \<Rightarrow> string \<Rightarrow> PatchTargetRequest \<Rightarrow> 'w \<Rightarrow> (go_error + tool_result) \<times> 'w" where
  "discovery_PatchTarget h i req w =
     (let targetID = trim_space i in
      if targetID = [] then (Inl (ErrText ''target id is required''), w)
      else wrap_result ''updating discovery target: ''
             (bc_Patch h (targets_path @ ''/'' @ path_escape targetID) (BodyPatch req) w))"

definition discovery_DeleteTarget ::
    "'w base_client \<Rightarrow> string \<Rightarrow> 'w \<Rightarrow> go_error option \<times> 'w" where
  "discovery_DeleteTarget h i w =
     (let targetID = trim_space i in
      if targetID = [] then (Some (ErrText ''target id is required''), w)
      else wrap_error ''deleting discovery target: ''
             (bc_Delete h (targets_path @ ''/'' @ path_escape targetID) w))"

definition discovery_StartTargetScan ::
    "'w base_client \<Rightarrow> string \<Rightarrow> 'w \<Rightarrow> (go_error + tool_result) \<times> 'w" where
  "discovery_StartTargetScan h i w =
     (let targetID = trim_space i in
      if targetID = [] then (Inl (ErrText ''target id is required''), w)
      else wrap_result ''starting target scan: ''
             (bc_Post h (targets_path @ ''/'' @ path_escape targetID @ ''/scan'') BodyEmpty w))"

definition discovery_StartScan ::
    "'w base_client \<Rightarrow> StartScanRequest \<Rightarrow> 'w \<Rightarrow> (go_error + tool_result) \<times> 'w" where
  "discovery_StartScan h req w =
     wrap_result ''starting discovery scan: '' (bc_Post h scans_path (BodyScan req) w)"

definition discovery_CancelScan ::
    "'w base_client \<Rightarrow> string \<Rightarrow> 'w \<Rightarrow> go_error option \<times> 'w" where
  "discovery_CancelScan h i w =
     (let scanID = trim_space i in
      if scanID = [] then (Some (ErrText ''scan id is required''), w)
      else wrap_error ''deleting discovery scan: ''
             (bc_Delete h (scans_path @ ''/'' @ path_escape scanID) w))"

text \<open>\<open>newDiscoveryClient\<close> over the client the shared library builds for a base URL and a token.\<close>

definition newDiscoveryClient ::
    "(string \<Rightarrow> string \<Rightarrow> 'w base_client) \<Rightarrow> string \<Rightarrow> string \<Rightarrow> 'w discoveryToolClient" where
  "newDiscoveryClient new_client baseURL token =
     (let h = new_client (trim_space baseURL) (trim_space token) in
      \<lparr>di_ListTargets = discovery_ListTargets h, di_GetTarget = discovery_GetTarget h,
       di_ListScans = discovery_ListScans h, di_GetScan = discovery_GetScan h,
       di_ListDrivers = discovery_ListDrivers h, di_CreateTarget = discovery_CreateTarget h,
       di_PatchTarget = discovery_PatchTarget h, di_DeleteTarget = discovery_DeleteTarget h,
       di_StartTargetScan = discovery_StartTargetScan h, di_StartScan = discovery_StartScan h,
       di_CancelScan = discovery_CancelScan h\<rparr>)"

section \<open>The runner of the tools (NewRunner)\<close>

record ToolsConfig =
  tc_AuthURL :: string
  tc_SMDURL :: string
  tc_BSSURL :: string
  tc_CloudInitURL :: string
  tc_DiscoveryURL :: string
  tc_PowerURL :: string

text \<open>
  The constructors take a base URL and a token; \<open>new_power\<close> makes a client of the checked
  configuration of \<open>pkg/client\<close>.
\<close>

record 'w client_library =
  ck_smd :: "string \<Rightarrow> string \<Rightarrow> 'w smdClient"
  ck_bss :: "string \<Rightarrow> string \<Rightarrow> go_error + 'w bssClient"
  ck_cloudInit :: "string \<Rightarrow> string \<Rightarrow> go_error + 'w cloudClient"
  ck_power :: "ClientConfig \<Rightarrow> 'w powerClient"
  ck_base :: "string \<Rightarrow> string \<Rightarrow> 'w base_client"
  ck_probe :: "string \<Rightarrow> 'w \<Rightarrow> go_error + (int \<times> (go_error + string))"
  ck_decode :: "string \<Rightarrow> json_map option"
  ck_arg_error :: "string \<Rightarrow> string"

definition NewRunner ::
    "'w client_library \<Rightarrow> ToolsConfig \<Rightarrow> string \<Rightarrow> go_error + 'w ToolRunner" where
  "NewRunner lib cfg token =
     (let smd = ck_smd lib (trim_space (tc_SMDURL cfg)) (trim_space token) in
      case ck_bss lib (trim_space (tc_BSSURL cfg)) (trim_space token) of
        Inl err \<Rightarrow> Inl (Wrap ''initializing BSS client: '' err [])
      | Inr bss \<Rightarrow>
     (case ck_cloudInit lib (trim_space (tc_CloudInitURL cfg)) (trim_space token) of
        Inl err \<Rightarrow> Inl (Wrap ''initializing Cloud-Init client: '' err [])
      | Inr cloudInit \<Rightarrow>
     (case client_New \<lparr>cc_BaseURL = trim_space (tc_PowerURL cfg), cc_Token = trim_space token,
             cc_Timeout = 0, cc_MaxRetries = 0\<rparr> of
        Inl err \<Rightarrow> Inl (Wrap ''initializing power client: '' err [])
      | Inr power_cfg \<Rightarrow>
          Inr \<lparr>tr_probe = ck_probe lib, tr_decode = ck_decode lib,
            tr_healthTarget =
              [(''auth'', trim_space (tc_AuthURL cfg)), (''smd'', trim_space (tc_SMDURL cfg)),
               (''bss'', trim_space (tc_BSSURL cfg)), (''cloud-init'', trim_space (tc_CloudInitURL cfg)),
               (''discovery'', trim_space (tc_DiscoveryURL cfg)),
               (''power'', trim_space (tc_PowerURL cfg))],
            tr_smd = smd, tr_bss = bss, tr_cloudInit = cloudInit,
            tr_discovery = newDiscoveryClient (ck_base lib) (trim_space (tc_DiscoveryURL cfg))
              (trim_space token),
            tr_power = ck_power lib power_cfg, tr_arg_error = ck_arg_error lib\<rparr>)))"

section \<open>Properties\<close>

text \<open>
  A request names one thing when the ID is one segment of its path, which decodes to it: no ID can
  add a segment, a query or a fragment.
\<close>

definition names_id :: "string \<Rightarrow> string list \<Rightarrow> string list \<Rightarrow> string \<Rightarrow> bool" where
  "names_id path before after i \<longleftrightarrow>
     CHR ''?'' \<notin> set path \<and> CHR ''#'' \<notin> set path \<and>
     (\<exists>seg. split_on (CHR ''/'') path = before @ seg # after \<and> path_unescape seg = Some i)"

lemma escaped_segment:
  "CHR ''/'' \<notin> set (path_escape i)" "CHR ''?'' \<notin> set (path_escape i)"
  "CHR ''#'' \<notin> set (path_escape i)"
  using path_escape_no_sep [of _ i] by (auto simp: path_sep_def)

lemmas segment_rules = names_id_def escaped_segment path_roundtrip split_on_single split_on_append

lemma names_id_paths:
  "names_id (targets_path @ ''/'' @ path_escape i) [[], ''discovery'', ''v1'', ''targets''] [] i"
  "names_id (targets_path @ ''/'' @ path_escape i @ ''/scan'')
     [[], ''discovery'', ''v1'', ''targets''] [''scan''] i"
  "names_id (scans_path @ ''/'' @ path_escape i) [[], ''discovery'', ''v1'', ''scans''] [] i"
  "names_id (transitionPathPrefix @ ''/'' @ path_escape i) [[], ''power'', ''v1'', ''transitions''] [] i"
  by (simp_all add: segment_rules)

text \<open>The characters of an escaped segment are printable, so that trimming leaves it alone.\<close>

lemma hex_plain: "d < 16 \<Longrightarrow> plain_char (upper_hex d)"
  by (simp add: upper_hex_def plain_char_def of_char_of)

lemma unreserved_plain_char: "unreserved c \<Longrightarrow> plain_char c"
  unfolding unreserved_def plain_char_def Let_def by (elim disjE conjE) simp_all

lemma path_escape_char_plain: "x \<in> set (path_escape_char c) \<Longrightarrow> plain_char x"
proof -
  assume x: "x \<in> set (path_escape_char c)"
  have special: "\<forall>c \<in> set ''%$&+=:@''. plain_char c" by (simp add: plain_char_def)
  show "plain_char x"
  proof (cases "unreserved c \<or> c \<in> set ''$&+=:@''")
    case True
    with x have "x = c" by (simp add: path_escape_char_def)
    with True special unreserved_plain_char show ?thesis by auto
  next
    case False
    then have "path_escape_char c =
        [CHR ''%'', upper_hex (of_char c div 16), upper_hex (of_char c mod 16)]"
      by (simp add: path_escape_char_def)
    with x special hex_plain [OF of_char_hex(1) [of c]] hex_plain [OF of_char_hex(2) [of c]]
    show ?thesis by auto
  qed
qed

lemma path_escape_plain: "x \<in> set (path_escape s) \<Longrightarrow> plain_char x"
  using path_escape_char_plain by (auto simp: path_escape_def)

lemma trim_path_escape: "trim_space (path_escape s) = path_escape s"
  by (rule trim_space_plain) (metis path_escape_plain hd_in_set last_in_set plain_ends_def)

text \<open>
  What \<open>handleGetTransition\<close> and \<open>handleDeleteTransition\<close> of the power service take for the ID of a
  request: the path parameter, trimmed.
\<close>

definition served_id :: "(string \<Rightarrow> string \<Rightarrow> string \<times> string \<Rightarrow> string) \<Rightarrow> string \<Rightarrow> string option" where
  "served_id param p =
     map_option (\<lambda>url. trim_space (param ''/power/v1/transitions/{id}'' ''id'' url)) (set_path p)"

lemma served_id_escaped:
  assumes "chi_params param" "i \<noteq> []" "trim_space i = i"
  shows "served_id param (transitionPathPrefix @ ''/'' @ path_escape i) =
    Some (if \<exists>c \<in> set i. segment_special c then path_escape i else i)"
proof -
  let ?p = "''/power/v1/transitions/''"
  have url: "set_path (?p @ path_escape i) =
      Some (?p @ i, if \<exists>c \<in> set i. segment_special c then ?p @ path_escape i else [])"
    by (rule set_path_segment) (simp add: unreserved_def)
  have param: "param (?p @ ''{'' @ ''id'' @ ''}'') ''id'' (path, raw) = seg"
    if "seg \<noteq> []" "CHR ''/'' \<notin> set seg" "(if raw = [] then path else raw) = ?p @ seg" for path raw seg
    using assms(1) [unfolded chi_params_def, rule_format, of ?p "''id''" seg raw path] that
    by (simp add: plain_pattern_def plain_name_def)
  have ne: "path_escape i \<noteq> []" using path_roundtrip [of i] assms(2) by auto
  show ?thesis
  proof (cases "\<exists>c \<in> set i. segment_special c")
    case True
    then show ?thesis
      using url param [of "path_escape i" "?p @ path_escape i" "?p @ i"] ne escaped_segment(1)
      by (simp add: served_id_def trim_path_escape)
  next
    case False
    then have "CHR ''/'' \<notin> set i" by (auto simp: segment_special_def)
    then show ?thesis
      using False url param [of i "[]" "?p @ i"] assms(2,3) by (simp add: served_id_def)
  qed
qed

text \<open>
  C26. An ID that a caller gives stays in its place: whatever its characters, reading, changing,
  deleting and scanning a target, reading and cancelling a scan, and reading and aborting a
  transition send each of their requests to a path that has the ID as one segment, after the
  fixed prefix, without a query or a fragment, and this segment decodes to exactly the trimmed ID.
  The power service itself does not decode it: it takes an ID without slash, semicolon and comma
  as it is, as every ID of its own is, but any other one in its escaped form.
\<close>

theorem ids_stay_in_segments:
  assumes "trim_space i \<noteq> []" "chi_params param"
  shows "(\<exists>p. names_id p [[], ''discovery'', ''v1'', ''targets''] [] (trim_space i) \<and>
      (\<forall>(h :: 'w base_client) w. discovery_GetTarget h i w = bc_Get h p w) \<and>
      (\<forall>(h :: 'w base_client) req w. discovery_PatchTarget h i req w =
         wrap_result ''updating discovery target: '' (bc_Patch h p (BodyPatch req) w)) \<and>
      (\<forall>(h :: 'w base_client) w. discovery_DeleteTarget h i w =
         wrap_error ''deleting discovery target: '' (bc_Delete h p w))) \<and>
    (\<exists>p. names_id p [[], ''discovery'', ''v1'', ''targets''] [''scan''] (trim_space i) \<and>
      (\<forall>(h :: 'w base_client) w. discovery_StartTargetScan h i w =
         wrap_result ''starting target scan: '' (bc_Post h p BodyEmpty w))) \<and>
    (\<exists>p. names_id p [[], ''discovery'', ''v1'', ''scans''] [] (trim_space i) \<and>
      (\<forall>(h :: 'w base_client) w. discovery_GetScan h i w = bc_Get h p w) \<and>
      (\<forall>(h :: 'w base_client) w. discovery_CancelScan h i w =
         wrap_error ''deleting discovery scan: '' (bc_Delete h p w))) \<and>
    (\<exists>p. names_id p [[], ''power'', ''v1'', ''transitions''] [] (trim_space i) \<and>
      (\<forall>(get :: ('x, 'a) http_get) c w. client_GetTransition get c i w =
         wrap_result (''getting transition '' @ go_quote (trim_space i) @ '': '') (get c p w)) \<and>
      (\<forall>delete (get :: ('x, 'a) http_get) c w. client_AbortTransition delete get c i w =
         (case delete c p w of
            (Some e, w1) \<Rightarrow>
              (Inl (Wrap (''aborting transition '' @ go_quote (trim_space i) @ '': '') e []), w1)
          | (None, w1) \<Rightarrow>
              wrap_result (''loading transition '' @ go_quote (trim_space i) @ '' after abort: '')
                (wrap_result (''getting transition '' @ go_quote (trim_space i) @ '': '') (get c p w1)))) \<and>
      served_id param p =
        Some (if set (trim_space i) \<inter> {CHR ''/'', CHR '';'', CHR '',''} = {} then trim_space i
              else path_escape (trim_space i)))"
proof (intro conjI exI)
  let ?i = "trim_space i"
  show "names_id (targets_path @ ''/'' @ path_escape ?i) [[], ''discovery'', ''v1'', ''targets''] [] ?i"
    "names_id (targets_path @ ''/'' @ path_escape ?i @ ''/scan'')
       [[], ''discovery'', ''v1'', ''targets''] [''scan''] ?i"
    "names_id (scans_path @ ''/'' @ path_escape ?i) [[], ''discovery'', ''v1'', ''scans''] [] ?i"
    "names_id (transitionPathPrefix @ ''/'' @ path_escape ?i)
       [[], ''power'', ''v1'', ''transitions''] [] ?i"
    by (rule names_id_paths)+
  have "(\<exists>c \<in> set ?i. segment_special c) \<longleftrightarrow> set ?i \<inter> {CHR ''/'', CHR '';'', CHR '',''} \<noteq> {}"
    by (auto simp: segment_special_def)
  then show "served_id param (transitionPathPrefix @ ''/'' @ path_escape ?i) =
      Some (if set ?i \<inter> {CHR ''/'', CHR '';'', CHR '',''} = {} then ?i else path_escape ?i)"
    using served_id_escaped [OF assms(2,1) trim_space_idem] by auto
qed (use assms(1) in \<open>simp_all add: discovery_GetTarget_def discovery_PatchTarget_def
    discovery_DeleteTarget_def discovery_StartTargetScan_def discovery_GetScan_def
    discovery_CancelScan_def client_GetTransition_def client_AbortTransition_def Let_def
    split: prod.split option.split\<close>)

theorem ids_stay_in_segments_witness:
  "\<exists>p. names_id p [[], ''power'', ''v1'', ''transitions''] [] ''../a?b'' \<and>
    (\<forall>(get :: (unit, nat) http_get) c w. client_GetTransition get c '' ../a?b'' w =
       wrap_result (''getting transition '' @ go_quote ''../a?b'' @ '': '') (get c p w)) \<and>
    served_id match_param p = Some ''..%2Fa%3Fb''"
proof -
  have t: "trim_space '' ../a?b'' = ''../a?b''" by code_simp
  have ne: "trim_space '' ../a?b'' \<noteq> []" by (simp add: t)
  have e: "path_escape ''../a?b'' = ''..%2Fa%3Fb''" by code_simp
  from ids_stay_in_segments [where ?'a = nat and ?'x = unit and ?'w = nat, OF ne match_param_params,
      THEN conjunct2, THEN conjunct2, THEN conjunct2] obtain p where
    "names_id p [[], ''power'', ''v1'', ''transitions''] [] ''../a?b''"
    "\<forall>(get :: (unit, nat) http_get) c w. client_GetTransition get c '' ../a?b'' w =
       wrap_result (''getting transition '' @ go_quote ''../a?b'' @ '': '') (get c p w)"
    "served_id match_param p = Some ''..%2Fa%3Fb''"
    unfolding t e by auto
  then show ?thesis by blast
qed

end
