(* ===== verification/MCP_Main.thy ===== *)
theory MCP_Main
  imports MCP_Config MCP_Discovery
begin

text \<open>
  How \<open>cmd/chamicore-mcp/main.go\<close> puts the MCP service together from its environment: the
  configuration, the tool registry, the mode guard, the session token and the tool runner.
  Logging, telemetry, signals and the HTTP listener are left out.
\<close>

record 'w mcp_service =
  ms_cfg :: McpConfig
  ms_registry :: ToolRegistry
  ms_guard :: Guard
  ms_token :: TokenResolution
  ms_runner :: "'w ToolRunner"

definition tools_config :: "McpConfig \<Rightarrow> ToolsConfig" where
  "tools_config cfg =
     \<lparr>tc_AuthURL = mc_AuthURL cfg, tc_SMDURL = mc_SMDURL cfg, tc_BSSURL = mc_BSSURL cfg,
      tc_CloudInitURL = mc_CloudInitURL cfg, tc_DiscoveryURL = mc_DiscoveryURL cfg,
      tc_PowerURL = mc_PowerURL cfg\<rparr>"

text \<open>An error is a fatal one: the program stops with it before it serves anything.\<close>

definition mcp_start ::
    "environment \<Rightarrow> (string \<Rightarrow> go_error + string option) \<Rightarrow> (string \<Rightarrow> go_error + string)
     \<Rightarrow> go_error + ToolSpec list \<Rightarrow> 'w client_library \<Rightarrow> go_error + 'w mcp_service" where
  "mcp_start env read_file decode_cli contract lib =
     (case mcp_Load env of
        Inl err \<Rightarrow> Inl err
      | Inr cfg \<Rightarrow>
     (case NewToolRegistry contract of
        Inl err \<Rightarrow> Inl err
      | Inr registry \<Rightarrow>
     (case NewGuard (mc_Mode cfg) (mc_EnableWrite cfg) of
        Inl err \<Rightarrow> Inl err
      | Inr guard \<Rightarrow>
     (case ResolveToken read_file decode_cli env
             \<lparr>to_AllowCLIConfigToken = mc_AllowCLIConfigToken cfg,
              to_CLIConfigPath = mc_CLIConfigPath cfg\<rparr> of
        Inl err \<Rightarrow> Inl err
      | Inr resolvedToken \<Rightarrow>
     (case NewRunner lib (tools_config cfg) (tr_Token resolvedToken) of
        Inl err \<Rightarrow> Inl err
      | Inr toolRunner \<Rightarrow>
          Inr \<lparr>ms_cfg = cfg, ms_registry = registry, ms_guard = guard, ms_token = resolvedToken,
            ms_runner = toolRunner\<rparr>)))))"

text \<open>The three transports of a started service; \<open>decode\<close> decodes the payload of its token.\<close>

definition service_authn ::
    "(string \<Rightarrow> json_map option) \<Rightarrow> 'w mcp_service \<Rightarrow> SessionAuthenticator" where
  "service_authn decode svc =
     token_authenticator (NewTokenSessionAuthenticator decode (tr_Token (ms_token svc)))"

abbreviation service_HTTP where "service_HTTP decode svc \<equiv>
  handleCallToolHTTP (ms_registry svc) (Some (guard_authorizer (ms_guard svc)))
    (Some (service_authn decode svc)) (Some (Runner_Call (ms_runner svc)))"

abbreviation service_SSE where "service_SSE decode svc \<equiv>
  handleCallToolSSE (ms_registry svc) (Some (guard_authorizer (ms_guard svc)))
    (Some (service_authn decode svc)) (Some (Runner_Call (ms_runner svc)))"

abbreviation service_RPC where "service_RPC decode svc \<equiv>
  handleRPCRequest (ms_registry svc) (Some (guard_authorizer (ms_guard svc)))
    (Some (service_authn decode svc)) (Some (Runner_Call (ms_runner svc)))"

section \<open>The token\<close>

lemma ResolveToken_cases:
  "ResolveToken read_file decode_cli env opts = Inr t \<Longrightarrow>
   trim_space (tr_Token t) = tr_Token t \<and> (tr_Token t = [] \<longleftrightarrow> t = no_token) \<and>
   (tr_Token t \<noteq> [] \<longrightarrow>
      tr_Source t = TokenSourceMCPEnv \<and> tr_Token t = trim_space (env ''CHAMICORE_MCP_TOKEN'') \<or>
      tr_Source t = TokenSourceSharedEnv \<and> trim_space (env ''CHAMICORE_MCP_TOKEN'') = [] \<and>
        tr_Token t = trim_space (env ''CHAMICORE_TOKEN'') \<or>
      tr_Source t = TokenSourceCLIConfig \<and> to_AllowCLIConfigToken opts \<and>
        trim_space (env ''CHAMICORE_MCP_TOKEN'') = [] \<and> trim_space (env ''CHAMICORE_TOKEN'') = [])"
  by (auto simp: ResolveToken_def Let_def no_token_def split: if_splits sum.splits option.splits)

lemma ResolveToken_indep:
  "\<not> (to_AllowCLIConfigToken opts \<and> trim_space (env ''CHAMICORE_MCP_TOKEN'') = [] \<and>
      trim_space (env ''CHAMICORE_TOKEN'') = []) \<Longrightarrow>
   ResolveToken rf dc env opts = ResolveToken rf' dc' env opts"
  unfolding ResolveToken_def Let_def by auto

text \<open>
  The session token comes from where the precedence says, and from nowhere else: the variable
  of the service, then the shared one, then the CLI file, which is not even looked at unless it is
  allowed and both variables are blank; the file system can matter, or make the start fail, in
  that case only; a resolved token is trimmed and names its source.
\<close>

lemma token_precedence:
  "(\<forall>t. ResolveToken read_file decode_cli env opts = Inr t \<longrightarrow>
      trim_space (tr_Token t) = tr_Token t \<and> (tr_Token t = [] \<longleftrightarrow> t = no_token) \<and>
      (tr_Source t = TokenSourceMCPEnv \<longrightarrow> tr_Token t = trim_space (env ''CHAMICORE_MCP_TOKEN'')) \<and>
      (tr_Source t = TokenSourceSharedEnv \<longrightarrow> trim_space (env ''CHAMICORE_MCP_TOKEN'') = [] \<and>
         tr_Token t = trim_space (env ''CHAMICORE_TOKEN''))) \<and>
   ((\<exists>rf dc. ResolveToken rf dc env opts \<noteq> ResolveToken read_file decode_cli env opts) \<longrightarrow>
      to_AllowCLIConfigToken opts \<and> trim_space (env ''CHAMICORE_MCP_TOKEN'') = [] \<and>
      trim_space (env ''CHAMICORE_TOKEN'') = [])"
proof (intro conjI impI allI)
  fix t assume t: "ResolveToken read_file decode_cli env opts = Inr t"
  note c = ResolveToken_cases [OF t]
  from c show "trim_space (tr_Token t) = tr_Token t" "tr_Token t = [] \<longleftrightarrow> t = no_token" by simp_all
  show "tr_Token t = trim_space (env ''CHAMICORE_MCP_TOKEN'')" if "tr_Source t = TokenSourceMCPEnv"
    using c that by (auto simp: no_token_def)
  show "trim_space (env ''CHAMICORE_MCP_TOKEN'') = []"
    "tr_Token t = trim_space (env ''CHAMICORE_TOKEN'')" if "tr_Source t = TokenSourceSharedEnv"
    using c that by (auto simp: no_token_def)
qed (use ResolveToken_indep in metis)+

section \<open>Writing is opted into\<close>

lemma mcp_start_parts:
  assumes "mcp_start env read_file decode_cli (Inr tools) lib = Inr svc"
  shows "NewToolRegistry (Inr tools) = Inr (ms_registry svc)"
    "NewGuard (mc_Mode (mcp_env env)) (mc_EnableWrite (mcp_env env)) = Inr (ms_guard svc)"
    "ResolveToken read_file decode_cli env
       \<lparr>to_AllowCLIConfigToken = mc_AllowCLIConfigToken (mcp_env env),
        to_CLIConfigPath = mc_CLIConfigPath (ms_cfg svc)\<rparr> = Inr (ms_token svc)"
    "mc_Mode (mcp_env env) \<in> {ModeReadOnly, ModeReadWrite}"
proof -
  from assms obtain cfg where load: "mcp_Load env = Inr cfg"
    by (auto simp: mcp_start_def split: sum.splits)
  then show "mc_Mode (mcp_env env) \<in> {ModeReadOnly, ModeReadWrite}"
    by (auto simp: mcp_Load_def Let_def split: if_splits)
  from load have "mc_Mode cfg = mc_Mode (mcp_env env)" "mc_EnableWrite cfg = mc_EnableWrite (mcp_env env)"
    "mc_AllowCLIConfigToken cfg = mc_AllowCLIConfigToken (mcp_env env)"
    by (auto simp: mcp_Load_def Let_def split: if_splits)
  with assms load show "NewToolRegistry (Inr tools) = Inr (ms_registry svc)"
    "NewGuard (mc_Mode (mcp_env env)) (mc_EnableWrite (mcp_env env)) = Inr (ms_guard svc)"
    "ResolveToken read_file decode_cli env
       \<lparr>to_AllowCLIConfigToken = mc_AllowCLIConfigToken (mcp_env env),
        to_CLIConfigPath = mc_CLIConfigPath (ms_cfg svc)\<rparr> = Inr (ms_token svc)"
    by (auto simp: mcp_start_def split: sum.splits)
qed

lemma no_token_no_call:
  assumes "NewToolRegistry (Inr tools) = Inr registry" "NewGuard mode enableWrite = Inr g"
    and "trim_space tok = []"
  shows "snd (snd (handleCallToolHTTP registry (Some (guard_authorizer g))
        (Some (token_auth decode tok)) caller r w)) = w"
    "snd (snd (handleCallToolSSE registry (Some (guard_authorizer g))
        (Some (token_auth decode tok)) caller wr r w)) = w"
    "snd (snd (handleRPCRequest registry (Some (guard_authorizer g))
        (Some (token_auth decode tok)) caller version show_any req w)) = w"
  using tool_calls_only(1) [OF assms(1,2), where decode = decode and tok = tok
      and caller = caller and r = r and w = w]
    tool_calls_only(2) [OF assms(1,2), where decode = decode and tok = tok
      and caller = caller and r = r and w = w and wr = wr]
    tool_calls_only(3) [OF assms(1,2), where decode = decode and tok = tok
      and caller = caller and w = w and version = version and show_any = show_any and req = req]
    assms(3)
  by blast+

definition writes_enabled :: "environment \<Rightarrow> bool" where
  "writes_enabled env \<longleftrightarrow>
     to_lower (trim_space (env ''CHAMICORE_MCP_MODE'')) = ModeReadWrite \<and>
     envBool env ''CHAMICORE_MCP_ENABLE_WRITE'' False"

definition token_configured :: "environment \<Rightarrow> bool" where
  "token_configured env \<longleftrightarrow>
     trim_space (env ''CHAMICORE_MCP_TOKEN'') \<noteq> [] \<or> trim_space (env ''CHAMICORE_TOKEN'') \<noteq> [] \<or>
     envBool env ''CHAMICORE_MCP_ALLOW_CLI_CONFIG_TOKEN'' False"

lemma mode_read_write:
  assumes "to_lower (trim_space (mc_Mode (mcp_env env))) = ModeReadWrite"
    and "mc_Mode (mcp_env env) \<in> {ModeReadOnly, ModeReadWrite}"
  shows "to_lower (trim_space (env ''CHAMICORE_MCP_MODE'')) = ModeReadWrite"
proof -
  have ro: "to_lower (trim_space ModeReadOnly) \<noteq> ModeReadWrite" by code_simp
  with assms have rw: "mc_Mode (mcp_env env) = ModeReadWrite" by auto
  have mode: "mc_Mode (mcp_env env) =
      to_lower (trim_space (envOrDefault env ''CHAMICORE_MCP_MODE'' ModeReadOnly))"
    by (simp only: mcp_env_def McpConfig.select_convs)
  show ?thesis
  proof (cases "env ''CHAMICORE_MCP_MODE'' = []")
    case True
    with rw ro show ?thesis by (simp add: mode envOrDefault_def)
  next
    case False
    with rw show ?thesis by (simp add: mode envOrDefault_def)
  qed
qed

text \<open>
  Changing anything is opted into twice: when the service starts with the shipped contract, no
  request on any transport changes the state of the other services unless the environment sets
  both the mode \<open>read-write\<close> and \<open>CHAMICORE_MCP_ENABLE_WRITE\<close>, and configures a token.
\<close>

lemma writes_are_opted_into:
  assumes "mcp_start env read_file decode_cli (Inr tools) lib = Inr svc"
    and "map (\<lambda>t. (ts_Name t, ts_Capability t)) tools = shipped_capabilities"
    and "\<not> (writes_enabled env \<and> token_configured env)"
  shows "snd (snd (service_HTTP decode svc r w)) = w \<and>
    snd (snd (service_SSE decode svc wr r w)) = w \<and>
    snd (snd (service_RPC decode svc version show_any req w)) = w"
proof (cases "writes_enabled env")
  case True
  note parts = mcp_start_parts [OF assms(1)]
  have "mc_AllowCLIConfigToken (mcp_env env) = envBool env ''CHAMICORE_MCP_ALLOW_CLI_CONFIG_TOKEN'' False"
    by (simp only: mcp_env_def McpConfig.select_convs)
  with ResolveToken_cases [OF parts(3)] True assms(3) have "trim_space (tr_Token (ms_token svc)) = []"
    by (auto simp: token_configured_def)
  show ?thesis unfolding service_authn_def
    by (intro conjI no_token_no_call [OF parts(1,2)]) fact+
next
  case False
  note parts = mcp_start_parts [OF assms(1)]
  have "mc_EnableWrite (mcp_env env) = envBool env ''CHAMICORE_MCP_ENABLE_WRITE'' False"
    by (simp only: mcp_env_def McpConfig.select_convs)
  with False mode_read_write [OF _ parts(4)]
  have "\<not> (to_lower (trim_space (mc_Mode (mcp_env env))) = ModeReadWrite \<and>
      mc_EnableWrite (mcp_env env))"
    by (auto simp: writes_enabled_def)
  from read_only_changes_nothing [OF assms(2) parts(1,2) this] show ?thesis
    unfolding service_authn_def .
qed

section \<open>Witnesses\<close>

text \<open>Services that count the calls which change them.\<close>

definition sample_smd :: "nat smdClient" where
  "sample_smd = \<lparr>sm_ListComponents = \<lambda>_ _ _ _ _ _. Inr (Inr []), sm_GetComponent = \<lambda>_ _. Inr (Inr []),
     sm_ListGroups = \<lambda>_ _ _. Inr (Inr []), sm_GetGroup = \<lambda>_ _. Inr (Inr []),
     sm_AddGroupMembers = \<lambda>_ _ w. (None, Suc w), sm_RemoveGroupMember = \<lambda>_ _ w. (None, Suc w)\<rparr>"

definition sample_bss :: "nat bssClient" where
  "sample_bss = \<lparr>bs_List = \<lambda>_ _ _ _. Inr None, bs_Create = \<lambda>_ w. (Inr (Inr []), Suc w),
     bs_Patch = \<lambda>_ _ w. (Inr (Inr []), Suc w), bs_Delete = \<lambda>_ w. (None, Suc w)\<rparr>"

definition sample_cloud :: "nat cloudClient" where
  "sample_cloud = \<lparr>cl_List = \<lambda>_ _ _ _. Inr None, cl_Create = \<lambda>_ w. (Inr (Inr []), Suc w),
     cl_Patch = \<lambda>_ _ w. (Inr (Inr []), Suc w), cl_Delete = \<lambda>_ w. (None, Suc w)\<rparr>"

definition sample_power :: "nat powerClient" where
  "sample_power = \<lparr>pw_GetPowerStatus = \<lambda>_ _ _. Inr None, pw_ListTransitions = \<lambda>_ _ _. Inr (Inr []),
     pw_GetTransition = \<lambda>_ _. Inr (Inr []), pw_CreateTransition = \<lambda>_ w. (Inr (Inr []), Suc w),
     pw_AbortTransition = \<lambda>_ w. (Inr (Inr []), Suc w),
     pw_WaitTransition = \<lambda>_ _ _ w. (Inr (Inr []), Suc w)\<rparr>"

definition sample_discovery :: "nat discoveryToolClient" where
  "sample_discovery = \<lparr>di_ListTargets = \<lambda>_ _ _. Inr (Inr []), di_GetTarget = \<lambda>_ _. Inr (Inr []),
     di_ListScans = \<lambda>_ _ _. Inr (Inr []), di_GetScan = \<lambda>_ _. Inr (Inr []),
     di_ListDrivers = \<lambda>_. Inr (Inr []), di_CreateTarget = \<lambda>_ w. (Inr (Inr []), Suc w),
     di_PatchTarget = \<lambda>_ _ w. (Inr (Inr []), Suc w), di_DeleteTarget = \<lambda>_ w. (None, Suc w),
     di_StartTargetScan = \<lambda>_ w. (Inr (Inr []), Suc w), di_StartScan = \<lambda>_ w. (Inr (Inr []), Suc w),
     di_CancelScan = \<lambda>_ w. (None, Suc w)\<rparr>"

definition shipped_tools :: "ToolSpec list" where
  "shipped_tools =
     map (\<lambda>(n, c). no_tool\<lparr>ts_Name := n, ts_Capability := c\<rparr>) shipped_capabilities"

lemma shipped_tools_shipped:
  "map (\<lambda>t. (ts_Name t, ts_Capability t)) shipped_tools = shipped_capabilities"
  by (simp add: shipped_tools_def comp_def case_prod_beta)

lemma shipped_names:
  "distinct (map fst shipped_capabilities)"
  "(n, c) \<in> set shipped_capabilities \<Longrightarrow> trim_space n = n \<and> n \<noteq> [] \<and> trim_space c \<noteq> []"
  by (simp add: shipped_capabilities_def) (auto simp: shipped_capabilities_def mcp_plain)

lemma shipped_registry: "\<exists>registry. NewToolRegistry (Inr shipped_tools) = Inr registry"
proof -
  have names: "map (\<lambda>t. trim_space (ts_Name t)) shipped_tools = map fst shipped_capabilities"
    using shipped_names(2) by (auto simp: shipped_tools_def)
  have "distinct (map (\<lambda>t. trim_space (ts_Name t)) shipped_tools)"
    unfolding names by (rule shipped_names(1))
  moreover have "\<forall>t \<in> set shipped_tools. trim_space (ts_Name t) \<noteq> [] \<and>
      trim_space (ts_Capability t) \<noteq> [] \<and> map_of [] (trim_space (ts_Name t)) = None"
    using shipped_names(2) by (fastforce simp: shipped_tools_def)
  ultimately obtain m where "index_tools shipped_tools [] = Inr m"
    using index_tools_ok [of shipped_tools "[]"] by blast
  moreover have "shipped_tools \<noteq> []" by (simp add: shipped_tools_def shipped_capabilities_def)
  ultimately show ?thesis by (simp add: NewToolRegistry_def)
qed

definition sample_lib :: "nat client_library" where
  "sample_lib = \<lparr>ck_smd = \<lambda>_ _. sample_smd, ck_bss = \<lambda>_ _. Inr sample_bss,
     ck_cloudInit = \<lambda>_ _. Inr sample_cloud, ck_power = \<lambda>_. sample_power,
     ck_base = \<lambda>_ _. \<lparr>bc_Get = \<lambda>_ _. Inr (Inr []), bc_Post = \<lambda>_ _ w. (Inr (Inr []), Suc w),
       bc_Patch = \<lambda>_ _ w. (Inr (Inr []), Suc w), bc_Delete = \<lambda>_ w. (None, Suc w)\<rparr>,
     ck_probe = \<lambda>_ _. Inr (200, Inr ''ok''), ck_decode = \<lambda>_. None, ck_arg_error = \<lambda>_. []\<rparr>"


text \<open>An environment that configures a token and nothing else.\<close>

definition start_env :: environment where
  "start_env k = (if k = ''CHAMICORE_MCP_TOKEN'' then ''t'' else [])"

lemma start_env_simps:
  "start_env ''CHAMICORE_MCP_TOKEN'' = ''t''" "start_env ''CHAMICORE_MCP_MODE'' = []"
  "start_env ''CHAMICORE_MCP_ENABLE_WRITE'' = []" "start_env ''CHAMICORE_MCP_TRANSPORT'' = []"
  by (simp_all add: start_env_def)

lemma sample_mode:
  "mc_Mode (mcp_env start_env) = ModeReadOnly" "mc_Transport (mcp_env start_env) = TransportStdio"
proof -
  have "to_lower (trim_space ModeReadOnly) = ModeReadOnly"
    "to_lower (trim_space TransportStdio) = TransportStdio" by code_simp+
  then show "mc_Mode (mcp_env start_env) = ModeReadOnly"
    "mc_Transport (mcp_env start_env) = TransportStdio"
    by (simp_all only: mcp_env_def McpConfig.select_convs envOrDefault_def start_env_simps
        simp_thms if_False)
qed

lemma client_New_ok: "trim_space (cc_BaseURL c) \<noteq> [] \<Longrightarrow> \<exists>c'. client_New c = Inr c'"
  by (simp add: client_New_def Let_def)

lemma sample_start:
  "\<exists>svc. mcp_start start_env (\<lambda>_. Inr None) (\<lambda>_. Inr []) (Inr shipped_tools) sample_lib = Inr svc"
proof -
  obtain cfg where cfg: "mcp_Load start_env = Inr cfg" "mc_Mode cfg = ModeReadOnly"
    "mc_PowerURL cfg = or_default (mc_PowerURL (mcp_env start_env)) mcp_defaultPowerURL"
    by (simp add: mcp_Load_def Let_def sample_mode)
  obtain registry where reg: "NewToolRegistry (Inr shipped_tools) = Inr registry"
    using shipped_registry by blast
  have ro: "to_lower (trim_space ModeReadOnly) = ModeReadOnly" by code_simp
  have g: "NewGuard ModeReadOnly b = Inr \<lparr>gd_mode = ModeReadOnly\<rparr>" for b
    by (simp add: NewGuard_def ro)
  have tok: "ResolveToken rf dc start_env opts = Inr \<lparr>tr_Token = ''t'', tr_Source = TokenSourceMCPEnv\<rparr>"
    for rf dc opts
    by (simp add: ResolveToken_def start_env_simps mcp_plain)
  have url: "trim_space mcp_defaultPowerURL \<noteq> []" by (simp add: mcp_plain)
  have "trim_space (or_default v mcp_defaultPowerURL) \<noteq> []" for v
    using url by (simp add: or_default_def)
  then obtain pc where "client_New \<lparr>cc_BaseURL = trim_space (mc_PowerURL cfg), cc_Token = trim_space ''t'',
      cc_Timeout = 0, cc_MaxRetries = 0\<rparr> = Inr pc"
    using client_New_ok [of "\<lparr>cc_BaseURL = trim_space (mc_PowerURL cfg), cc_Token = trim_space ''t'',
      cc_Timeout = 0, cc_MaxRetries = 0\<rparr>"] by (auto simp: cfg(3))
  with cfg(1,2) reg g tok show ?thesis
    by (simp add: mcp_start_def NewRunner_def tools_config_def sample_lib_def Let_def)
qed

lemma token_precedence_witness:
  "tr_Token \<lparr>tr_Token = ''t'', tr_Source = TokenSourceMCPEnv\<rparr> =
     trim_space (start_env ''CHAMICORE_MCP_TOKEN'')"
proof -
  have "ResolveToken (\<lambda>_. Inr None) (\<lambda>_. Inr []) start_env
      \<lparr>to_AllowCLIConfigToken = True, to_CLIConfigPath = []\<rparr> =
      Inr \<lparr>tr_Token = ''t'', tr_Source = TokenSourceMCPEnv\<rparr>"
    by (simp add: ResolveToken_def start_env_simps mcp_plain)
  from token_precedence [THEN conjunct1, rule_format, OF this] show ?thesis by simp
qed

lemma writes_are_opted_into_witness:
  "\<exists>svc. mcp_start start_env (\<lambda>_. Inr None) (\<lambda>_. Inr []) (Inr shipped_tools) sample_lib = Inr svc \<and>
     snd (snd (service_HTTP (\<lambda>_. None) svc sample_http 0)) = 0"
proof -
  obtain svc where svc:
    "mcp_start start_env (\<lambda>_. Inr None) (\<lambda>_. Inr []) (Inr shipped_tools) sample_lib = Inr svc"
    using sample_start by blast
  have "\<not> writes_enabled start_env" by (simp add: writes_enabled_def start_env_simps to_lower_def)
  then have "snd (snd (service_HTTP (\<lambda>_. None) svc sample_http 0)) = 0"
    by (intro writes_are_opted_into [OF svc shipped_tools_shipped, THEN conjunct1]) blast
  with svc show ?thesis by blast
qed

end
