(* ===== verification/Go_Process.thy ===== *)
theory Go_Process
  imports Go_Errors
begin

text \<open>
  The \<open>main\<close> functions of the three programs: a sequence of calls, some of which must succeed,
  some of which open a resource and defer the call that closes it.  The trace holds the calls that
  succeeded.  A \<open>main\<close> that returns runs its deferred calls, the last one first; \<open>os.Exit\<close>,
  and so \<open>logger.Fatal\<close>, ends the process at once and runs none of them.
\<close>

record ('e, 'w) process =
  pr_trace :: "'e list"
  pr_deferred :: "'e list"
  pr_world :: 'w

text \<open>A piece of \<open>main\<close>; \<open>Some code\<close> is \<open>os.Exit(code)\<close>.\<close>

type_synonym ('e, 'w) proc = "('e, 'w) process \<Rightarrow> int option \<times> ('e, 'w) process"

definition act :: "'e \<Rightarrow> ('e, 'w) proc" where
  "act e p = (None, p\<lparr>pr_trace := pr_trace p @ [e]\<rparr>)"

definition quit :: "int \<Rightarrow> ('e, 'w) proc" where
  "quit code p = (Some code, p)"

text \<open>A call whose error is logged with \<open>Fatal\<close>.\<close>

definition must :: "'e \<Rightarrow> go_error option \<Rightarrow> ('e, 'w) proc" where
  "must e err = (case err of None \<Rightarrow> act e | Some _ \<Rightarrow> quit 1)"

text \<open>A call, the check of its error, and the \<open>defer\<close> of the call that undoes it.\<close>

definition opens :: "'e \<Rightarrow> 'e \<Rightarrow> ('e, 'w) proc" where
  "opens e r p = (None, p\<lparr>pr_trace := pr_trace p @ [e], pr_deferred := r # pr_deferred p\<rparr>)"

definition must_open :: "'e \<Rightarrow> go_error option \<Rightarrow> 'e \<Rightarrow> ('e, 'w) proc" where
  "must_open e err r = (case err of None \<Rightarrow> opens e r | Some _ \<Rightarrow> quit 1)"

text \<open>What happens while the process serves.\<close>

definition change :: "('w \<Rightarrow> 'w) \<Rightarrow> ('e, 'w) proc" where
  "change f p = (None, p\<lparr>pr_world := f (pr_world p)\<rparr>)"

definition with_world :: "('w \<Rightarrow> ('e, 'w) proc) \<Rightarrow> ('e, 'w) proc" where
  "with_world f p = f (pr_world p) p"

fun in_order :: "('e, 'w) proc list \<Rightarrow> ('e, 'w) proc" where
  "in_order [] p = (None, p)"
| "in_order (m # ms) p =
     (case m p of (None, p') \<Rightarrow> in_order ms p' | (Some code, p') \<Rightarrow> (Some code, p'))"

text \<open>The exit status, the trace and the world of a process.\<close>

definition run_main :: "('e, 'w) proc \<Rightarrow> 'w \<Rightarrow> int \<times> 'e list \<times> 'w" where
  "run_main m w =
     (case m \<lparr>pr_trace = [], pr_deferred = [], pr_world = w\<rparr> of
        (None, p) \<Rightarrow> (0, pr_trace p @ pr_deferred p, pr_world p)
      | (Some code, p) \<Rightarrow> (code, pr_trace p, pr_world p))"

text \<open>The settings of an \<open>http.Server\<close>.\<close>

record http_server =
  hs_Addr :: string
  hs_ReadHeaderTimeout :: duration
  hs_ReadTimeout :: duration
  hs_WriteTimeout :: duration
  hs_IdleTimeout :: duration

text \<open>Why the listener stopped: a signal, or the error of \<open>ListenAndServe\<close>.\<close>

datatype stop_cause = StopSignal | ServeFailed go_error

lemmas proc_defs = act_def quit_def must_def opens_def must_open_def change_def

lemma in_order_append:
  "in_order (ms @ ns) p =
   (case in_order ms p of (None, p') \<Rightarrow> in_order ns p' | (Some code, p') \<Rightarrow> (Some code, p'))"
  by (induction ms arbitrary: p) (simp_all split: prod.split option.split)

section \<open>Resources\<close>

text \<open>
  \<open>closer e\<close> is the call that closes what the call \<open>e\<close> opens; the calls that close what a trace has
  opened, the last opened first.
\<close>

definition to_close :: "('e \<Rightarrow> 'e option) \<Rightarrow> 'e list \<Rightarrow> 'e list" where
  "to_close closer tr = rev (List.map_filter closer tr)"

definition closing :: "('e \<Rightarrow> 'e option) \<Rightarrow> 'e \<Rightarrow> bool" where
  "closing closer r \<longleftrightarrow> r \<in> ran closer"

text \<open>The interface between a process and its resources: a closing call opens nothing.\<close>

locale resources =
  fixes closer :: "'e \<Rightarrow> 'e option"
  assumes closer_closes: "closer e = Some r \<Longrightarrow> closer r = None"
begin

abbreviation closes where "closes \<equiv> closing closer"

lemma to_close_append [simp]: "to_close closer (xs @ ys) = to_close closer ys @ to_close closer xs"
  by (simp add: to_close_def List.map_filter_def)

lemma to_close_simps [simp]:
  "to_close closer [] = []"
  "to_close closer (e # tr) = to_close closer tr @ (case closer e of None \<Rightarrow> [] | Some r \<Rightarrow> [r])"
  by (simp_all add: to_close_def List.map_filter_def split: option.split)

lemma closes_to_close: "r \<in> set (to_close closer tr) \<Longrightarrow> closes r"
  by (auto simp: to_close_def closing_def List.map_filter_def ran_def)

text \<open>Everything opened is deferred to be closed, and nothing has been closed yet.\<close>

definition tidy :: "('e, 'w) process \<Rightarrow> bool" where
  "tidy p \<longleftrightarrow> pr_deferred p = to_close closer (pr_trace p) \<and> (\<forall>e \<in> set (pr_trace p). \<not> closes e)"

definition keeps_tidy :: "('e, 'w) proc \<Rightarrow> bool" where
  "keeps_tidy m \<longleftrightarrow> (\<forall>p. tidy p \<longrightarrow> tidy (snd (m p)))"

lemma tidy_act: "closer e = None \<Longrightarrow> \<not> closes e \<Longrightarrow> keeps_tidy (act e)"
  by (simp add: keeps_tidy_def tidy_def act_def)

lemma tidy_quit: "keeps_tidy (quit code)"
  by (simp add: keeps_tidy_def quit_def)

lemma tidy_change: "keeps_tidy (change f)"
  by (simp add: keeps_tidy_def tidy_def change_def)

lemma tidy_with_world: "(\<And>w. keeps_tidy (f w)) \<Longrightarrow> keeps_tidy (with_world f)"
  by (simp add: keeps_tidy_def with_world_def)

lemma tidy_must: "closer e = None \<Longrightarrow> \<not> closes e \<Longrightarrow> keeps_tidy (must e err)"
  by (simp add: must_def tidy_act tidy_quit split: option.split)

lemma tidy_opens: "closer e = Some r \<Longrightarrow> \<not> closes e \<Longrightarrow> keeps_tidy (opens e r)"
  by (simp add: keeps_tidy_def tidy_def opens_def)

lemma tidy_must_open: "closer e = Some r \<Longrightarrow> \<not> closes e \<Longrightarrow> keeps_tidy (must_open e err r)"
  by (simp add: must_open_def tidy_opens tidy_quit split: option.split)

lemma tidy_in_order: "(\<And>m. m \<in> set ms \<Longrightarrow> keeps_tidy m) \<Longrightarrow> keeps_tidy (in_order ms)"
proof (induction ms)
  case Nil
  show ?case by (simp add: keeps_tidy_def)
next
  case (Cons m ms)
  then have "keeps_tidy m" "keeps_tidy (in_order ms)" by simp_all
  then show ?case by (fastforce simp: keeps_tidy_def split: prod.split option.split)
qed

lemmas tidy_intros = tidy_act tidy_quit tidy_change tidy_with_world tidy_must tidy_opens tidy_must_open tidy_in_order

lemma close_once: "to_close closer (to_close closer up) = []"
proof -
  have "closer r = None" if "r \<in> set (to_close closer up)" for r
    using that closer_closes by (auto simp: to_close_def List.map_filter_def)
  moreover have "to_close closer xs = []" if "\<And>r. r \<in> set xs \<Longrightarrow> closer r = None" for xs
    using that by (induction xs) simp_all
  ultimately show ?thesis by blast
qed

text \<open>
  A tidy process that returns has closed everything it opened, in reverse order, and only at the
  end; one that exits has closed nothing.
\<close>

lemma run_main_closes:
  assumes "keeps_tidy m" "run_main m w = (code, tr, w')"
  shows "case m \<lparr>pr_trace = [], pr_deferred = [], pr_world = w\<rparr> of
      (None, p) \<Rightarrow> code = 0 \<and> tr = pr_trace p @ to_close closer tr \<and> w' = pr_world p \<and>
        filter closes tr = to_close closer tr
    | (Some c, p) \<Rightarrow> code = c \<and> tr = pr_trace p \<and> w' = pr_world p \<and> filter closes tr = []"
proof -
  let ?p = "\<lparr>pr_trace = [], pr_deferred = [], pr_world = w\<rparr>"
  have "tidy ?p" by (simp add: tidy_def)
  with assms(1) have tidy: "tidy (snd (m ?p))" unfolding keeps_tidy_def by blast
  have all: "filter closes (to_close closer up) = to_close closer up" for up
    using closes_to_close by (intro filter_True) blast
  from tidy have none: "filter closes (pr_trace (snd (m ?p))) = []"
    by (auto simp: tidy_def filter_empty_conv)
  obtain stop q where m: "m ?p = (stop, q)" by fastforce
  show ?thesis
  proof (cases stop)
    case None
    with assms(2) m tidy have tr: "tr = pr_trace q @ to_close closer (pr_trace q)" and rest: "code = 0" "w' = pr_world q"
      by (simp_all add: run_main_def tidy_def)
    from tr have "to_close closer tr = to_close closer (pr_trace q)" by (simp add: close_once)
    moreover from tr none m have "filter closes tr = to_close closer (pr_trace q)" by (simp add: all)
    ultimately show ?thesis using tr rest m None by simp
  next
    case (Some c)
    with assms(2) m none show ?thesis by (simp add: run_main_def)
  qed
qed

lemma closes_all_or_nothing:
  assumes "keeps_tidy m" "run_main m w = (code, tr, w')" "closes e" "e \<in> set tr"
  shows "filter closes tr = to_close closer tr"
proof -
  have "filter closes tr \<noteq> []" using assms(3,4) by (auto simp: filter_empty_conv)
  moreover have "filter closes tr = to_close closer tr \<or> filter closes tr = []"
  proof -
    obtain stop q where "m \<lparr>pr_trace = [], pr_deferred = [], pr_world = w\<rparr> = (stop, q)" by fastforce
    with run_main_closes [OF assms(1,2)] show ?thesis
      by (cases stop) (simp_all only: prod.case option.case, blast+)
  qed
  ultimately show ?thesis by blast
qed

end

end
