(* ===== verification/MCP_Process.thy ===== *)
theory MCP_Process
  imports MCP_Main Go_Process
begin

text \<open>
  The MCP process (\<open>cmd/chamicore-mcp/main.go\<close>) with the HTTP routes it serves
  (\<open>registerMCPHTTPRoutes\<close> of \<open>internal/server/http_sse.go\<close>): from its environment to its exit status.
  Telemetry and the listener are calls whose answers are parameters; log lines are left out.
\<close>

section \<open>The HTTP routes\<close>

datatype mcp_request =
    InitializeRequest | ToolsRequest | CallRequest HttpRequest
  | StreamRequest "nat \<Rightarrow> go_error option" HttpRequest

datatype mcp_reply =
    ResultReply int rpc_result | CallReply http_reply | StreamReply sse_reply

definition handleInitializeHTTP :: "string \<Rightarrow> mcp_reply" where
  "handleInitializeHTTP version =
     ResultReply 200 (RpcInitialize defaultProtocolVersion defaultServerName (trim_space version))"

definition handleListToolsHTTP :: "ToolRegistry \<Rightarrow> mcp_reply" where
  "handleListToolsHTTP registry = ResultReply 200 (RpcTools (tool_descriptors registry))"

definition mcp_routes ::
    "(string \<Rightarrow> json_map option) \<Rightarrow> 'w mcp_service \<Rightarrow> string \<Rightarrow> mcp_request \<Rightarrow> 'w
     \<Rightarrow> mcp_reply \<times> ToolCallCompletion option \<times> 'w" where
  "mcp_routes decode svc version req w =
     (case req of
        InitializeRequest \<Rightarrow> (handleInitializeHTTP version, None, w)
      | ToolsRequest \<Rightarrow> (handleListToolsHTTP (ms_registry svc), None, w)
      | CallRequest r \<Rightarrow>
          (case service_HTTP decode svc r w of (reply, audit, w') \<Rightarrow> (CallReply reply, Some audit, w'))
      | StreamRequest wr r \<Rightarrow>
          (case service_SSE decode svc wr r w of (reply, audit, w') \<Rightarrow> (StreamReply reply, Some audit, w')))"

text \<open>The requests a listener serves, one after the other.\<close>

fun serve_requests ::
    "(mcp_request \<Rightarrow> 'w \<Rightarrow> mcp_reply \<times> ToolCallCompletion option \<times> 'w) \<Rightarrow> mcp_request list \<Rightarrow> 'w
     \<Rightarrow> mcp_reply list \<times> 'w" where
  "serve_requests handle [] w = ([], w)"
| "serve_requests handle (req # reqs) w =
     (case handle req w of (reply, audit, w1) \<Rightarrow>
        (case serve_requests handle reqs w1 of (replies, w2) \<Rightarrow> (reply # replies, w2)))"

section \<open>The process\<close>

datatype mcp_event =
    McpContext | McpReleaseContext | McpCancel
  | McpTelemetry string bool bool | McpStopTelemetry
  | RanStdio "rpcResponse list"
  | McpServe http_server "mcp_reply list" | McpStopContext duration | McpReleaseStopContext
  | McpStopListener

text \<open>What the process meets: the answers of the libraries and its input on either transport.\<close>

record mcp_input =
  mi_otel :: "go_error option"
  mi_io :: stdio_env
  mi_lines :: "string list"
  mi_requests :: "mcp_request list"
  mi_stop :: stop_cause
  mi_shutdown :: "go_error option"

text \<open>The write timeout is off, for the streams.\<close>

definition mcp_http :: "McpConfig \<Rightarrow> http_server" where
  "mcp_http cfg =
     \<lparr>hs_Addr = mc_ListenAddr cfg, hs_ReadHeaderTimeout = 10 * second, hs_ReadTimeout = 30 * second,
      hs_WriteTimeout = 0, hs_IdleTimeout = 120 * second\<rparr>"

definition mcp_stdio ::
    "(string \<Rightarrow> json_map option) \<Rightarrow> (json \<Rightarrow> string) \<Rightarrow> string \<Rightarrow> mcp_input \<Rightarrow> 'w mcp_service
     \<Rightarrow> (mcp_event, 'w) proc" where
  "mcp_stdio decode show_any version i svc =
     with_world (\<lambda>w.
       case RunStdio (mi_io i) (service_RPC decode svc version show_any) 0 (mi_lines i) w of
         (err, resps, audits, w') \<Rightarrow>
           in_order [act (RanStdio resps), change (\<lambda>_. w'),
             case err of None \<Rightarrow> in_order [] | Some e \<Rightarrow> quit 1])"

definition mcp_listen ::
    "(string \<Rightarrow> json_map option) \<Rightarrow> string \<Rightarrow> mcp_input \<Rightarrow> 'w mcp_service \<Rightarrow> (mcp_event, 'w) proc" where
  "mcp_listen decode version i svc =
     with_world (\<lambda>w.
       case serve_requests (mcp_routes decode svc version) (mi_requests i) w of
         (replies, w') \<Rightarrow>
           in_order
             [act (McpServe (mcp_http (ms_cfg svc)) replies), change (\<lambda>_. w'),
              case mi_stop i of StopSignal \<Rightarrow> in_order [] | ServeFailed err \<Rightarrow> in_order [],
              act McpCancel,
              opens (McpStopContext (15 * second)) McpReleaseStopContext,
              must McpStopListener (mi_shutdown i)])"

definition mcp_main ::
    "environment \<Rightarrow> (string \<Rightarrow> go_error + string option) \<Rightarrow> (string \<Rightarrow> go_error + string)
     \<Rightarrow> go_error + ToolSpec list \<Rightarrow> 'w client_library \<Rightarrow> (string \<Rightarrow> json_map option)
     \<Rightarrow> (json \<Rightarrow> string) \<Rightarrow> string \<Rightarrow> mcp_input \<Rightarrow> (mcp_event, 'w) proc" where
  "mcp_main env read_file decode_cli contract lib decode show_any version i =
     (case mcp_Load env of
        Inl err \<Rightarrow> quit 1
      | Inr cfg \<Rightarrow>
          in_order
            [opens McpContext McpReleaseContext,
             must_open (McpTelemetry ''chamicore-mcp'' (mc_MetricsEnabled cfg) (mc_TracesEnabled cfg))
               (mi_otel i) McpStopTelemetry,
             case mcp_start env read_file decode_cli contract lib of
               Inl err \<Rightarrow> quit 1
             | Inr svc \<Rightarrow>
                 if mc_Transport cfg = TransportStdio then mcp_stdio decode show_any version i svc
                 else if mc_Transport cfg = TransportHTTP then mcp_listen decode version i svc
                 else quit 1])"

section \<open>Resources\<close>

fun mcp_closer :: "mcp_event \<Rightarrow> mcp_event option" where
  "mcp_closer McpContext = Some McpReleaseContext"
| "mcp_closer (McpTelemetry _ _ _) = Some McpStopTelemetry"
| "mcp_closer (McpStopContext _) = Some McpReleaseStopContext"
| "mcp_closer _ = None"

interpretation mcp_res: resources mcp_closer
  by unfold_locales (auto elim: mcp_closer.elims)

lemma mcp_closing [simp]:
  "closing mcp_closer e \<longleftrightarrow> e \<in> {McpReleaseContext, McpStopTelemetry, McpReleaseStopContext}"
proof
  show "closing mcp_closer e \<Longrightarrow> e \<in> {McpReleaseContext, McpStopTelemetry, McpReleaseStopContext}"
    by (auto simp: closing_def Map.ran_def elim: mcp_closer.elims)
  have "closing mcp_closer r" if "mcp_closer x = Some r" for x r
    using that by (auto simp: closing_def Map.ran_def)
  from this [of McpContext] this [of "McpTelemetry [] False False"] this [of "McpStopContext 0"]
  show "e \<in> {McpReleaseContext, McpStopTelemetry, McpReleaseStopContext} \<Longrightarrow> closing mcp_closer e"
    by auto
qed

lemma mcp_stdio_tidy: "mcp_res.keeps_tidy (mcp_stdio decode show_any version i svc)"
  unfolding mcp_stdio_def
  by (intro mcp_res.tidy_with_world)
    (auto intro!: mcp_res.tidy_intros split: prod.split option.split)

lemma mcp_listen_tidy: "mcp_res.keeps_tidy (mcp_listen decode version i svc)"
  unfolding mcp_listen_def
  by (intro mcp_res.tidy_with_world)
    (auto intro!: mcp_res.tidy_intros split: prod.split stop_cause.split)

lemma mcp_main_tidy:
  "mcp_res.keeps_tidy (mcp_main env read_file decode_cli contract lib decode show_any version i)"
  by (auto simp: mcp_main_def intro!: mcp_res.tidy_intros mcp_stdio_tidy mcp_listen_tidy
      split: sum.split)

section \<open>What the process does\<close>

lemma mcp_start_transport:
  "mcp_start env read_file decode_cli contract lib = Inr svc \<Longrightarrow> mcp_Load env = Inr (ms_cfg svc) \<and>
   mc_Transport (ms_cfg svc) \<in> {TransportStdio, TransportHTTP}"
  by (auto simp: mcp_start_def mcp_Load_def Let_def split: sum.splits if_splits)

text \<open>
  It ends with status 1 and closes nothing, or with status 0 after it served the configured
  transport, and then it has closed what it opened, last opened first.  The configuration admits
  no third transport.
\<close>

lemma mcp_main_lifecycle:
  "case run_main (mcp_main env read_file decode_cli contract lib decode show_any version i) w of
     (code, tr, w') \<Rightarrow>
       code = 1 \<and> filter (closing mcp_closer) tr = [] \<or>
       (\<exists>svc. code = 0 \<and> mcp_start env read_file decode_cli contract lib = Inr svc \<and>
          filter (closing mcp_closer) tr = to_close mcp_closer tr \<and>
          (mc_Transport (ms_cfg svc) = TransportStdio \<and> (\<exists>resps. RanStdio resps \<in> set tr) \<or>
           mc_Transport (ms_cfg svc) = TransportHTTP \<and> McpStopListener \<in> set tr \<and>
             (\<exists>replies. McpServe (mcp_http (ms_cfg svc)) replies \<in> set tr)))"
proof -
  let ?main = "mcp_main env read_file decode_cli contract lib decode show_any version i"
  obtain code tr w' where run: "run_main ?main w = (code, tr, w')" by (cases "run_main ?main w")
  let ?p = "\<lparr>pr_trace = [], pr_deferred = [], pr_world = w\<rparr>"
  obtain stop q where m: "?main ?p = (stop, q)" by fastforce
  note closes = mcp_res.run_main_closes [OF mcp_main_tidy run, unfolded m prod.case]
  have "(case stop of None \<Rightarrow> True | Some c \<Rightarrow> c = 1) \<and> (stop = None \<longrightarrow>
      (\<exists>svc. mcp_start env read_file decode_cli contract lib = Inr svc \<and>
          (mc_Transport (ms_cfg svc) = TransportStdio \<and> (\<exists>resps. RanStdio resps \<in> set (pr_trace q)) \<or>
           mc_Transport (ms_cfg svc) = TransportHTTP \<and> McpStopListener \<in> set (pr_trace q) \<and>
             (\<exists>replies. McpServe (mcp_http (ms_cfg svc)) replies \<in> set (pr_trace q)))))"
  proof (cases "mcp_start env read_file decode_cli contract lib")
    case (Inl err)
    with m show ?thesis
      by (auto simp: mcp_main_def proc_defs split: sum.splits option.splits)
  next
    case (Inr svc)
    note load = mcp_start_transport [OF Inr]
    then show ?thesis
    proof (cases "mc_Transport (ms_cfg svc) = TransportStdio")
      case True
      with m Inr load show ?thesis
        by (auto simp: mcp_main_def mcp_stdio_def with_world_def proc_defs
            split: option.splits prod.splits)
    next
      case False
      with m Inr load show ?thesis
        by (auto simp: mcp_main_def mcp_listen_def with_world_def proc_defs
            split: option.splits prod.splits stop_cause.splits)
    qed
  qed
  moreover have "stop = None \<longrightarrow> set (pr_trace q) \<subseteq> set tr"
  proof
    assume "stop = None"
    with closes have "tr = pr_trace q @ to_close mcp_closer tr" by (simp only: option.case)
    then show "set (pr_trace q) \<subseteq> set tr" by (metis set_append Un_upper1)
  qed
  ultimately show ?thesis
    using closes unfolding run prod.case by (cases stop) (simp_all only: option.case, blast+)
qed

section \<open>Writing is opted into\<close>

lemma serve_requests_unchanged:
  "(\<And>req w. snd (snd (handle req w)) = w) \<Longrightarrow> snd (serve_requests handle reqs w) = w"
  by (induction reqs arbitrary: w) (simp_all add: case_prod_beta)

lemma RunStdio_unchanged:
  "(\<And>req w. snd (snd (handle req w)) = w) \<Longrightarrow> snd (snd (snd (RunStdio io handle k lines w))) = w"
proof (induction lines arbitrary: k w)
  case (Cons raw lines)
  then show ?case by (simp add: Let_def case_prod_beta split: option.split sum.split)
qed simp

text \<open>
  C21. An MCP process that is not told to write never does: started with the shipped tool contract
  from an environment that does not set both the mode \<open>read-write\<close> and
  \<open>CHAMICORE_MCP_ENABLE_WRITE\<close>, or configures no token, it leaves the other services as they were,
  whatever lines or requests it is sent on either transport and however it ends.
\<close>

theorem mcp_process_writes_nothing:
  assumes "map (\<lambda>t. (ts_Name t, ts_Capability t)) tools = shipped_capabilities"
    and "\<not> (writes_enabled env \<and> token_configured env)"
    and "run_main (mcp_main env read_file decode_cli (Inr tools) lib decode show_any version i) w =
      (code, tr, w')"
  shows "w' = w"
proof (cases "mcp_start env read_file decode_cli (Inr tools) lib")
  case (Inl err)
  with assms(3) show ?thesis
    by (auto simp: run_main_def mcp_main_def proc_defs split: sum.splits option.splits)
next
  case (Inr svc)
  note load = mcp_start_transport [OF Inr]
  note none = writes_are_opted_into [OF Inr assms(1,2)]
  have "snd (snd (snd (RunStdio io (service_RPC decode svc version show_any) 0 lines w))) = w" for io lines w
    by (rule RunStdio_unchanged) (use none in blast)
  then have stdio: "w2 = w1" if "RunStdio io (service_RPC decode svc version show_any) 0 lines w1 =
      (e, resps, audits, w2)" for io lines w1 w2 e resps audits
    using that by (metis snd_conv)
  have "snd (snd (mcp_routes decode svc version req w)) = w" for req w
    using none by (cases req) (simp_all add: mcp_routes_def case_prod_beta)
  from serve_requests_unchanged [OF this]
  have "snd (serve_requests (mcp_routes decode svc version) reqs w) = w" for reqs w .
  then have http: "w2 = w1" if "serve_requests (mcp_routes decode svc version) reqs w1 = (replies, w2)"
    for reqs w1 w2 replies
    using that by (metis snd_conv)
  show ?thesis
    using assms(3) load Inr
    by (cases "mc_Transport (ms_cfg svc) = TransportStdio")
      (auto simp: run_main_def mcp_main_def mcp_stdio_def mcp_listen_def with_world_def proc_defs
        split: option.splits prod.splits stop_cause.splits dest: stdio http)
qed

section \<open>Witness\<close>

text \<open>A process that is sent a tool call and a malformed line.\<close>

definition sample_input :: mcp_input where
  "sample_input =
     \<lparr>mi_otel = None,
      mi_io = \<lparr>io_ctx = (\<lambda>_. None), io_decode = (\<lambda>line. if line = ''call'' then Inr sample_rpc else Inl (Sentinel Canceled)),
        io_write = (\<lambda>_. None), io_scan_err = None\<rparr>,
      mi_lines = [''call'', ''?''], mi_requests = [CallRequest sample_http], mi_stop = StopSignal,
      mi_shutdown = None\<rparr>"

theorem mcp_process_writes_nothing_witness:
  "\<exists>code tr. run_main (mcp_main start_env (\<lambda>_. Inr None) (\<lambda>_. Inr []) (Inr shipped_tools) sample_lib
      (\<lambda>_. None) (\<lambda>_. []) ''dev'' sample_input) 0 = (code, tr, 0)"
proof -
  obtain code tr w' where run: "run_main (mcp_main start_env (\<lambda>_. Inr None) (\<lambda>_. Inr [])
      (Inr shipped_tools) sample_lib (\<lambda>_. None) (\<lambda>_. []) ''dev'' sample_input) 0 = (code, tr, w')"
    by (rule prod_cases3)
  have "\<not> (writes_enabled start_env \<and> token_configured start_env)"
    by (simp add: writes_enabled_def start_env_simps to_lower_def)
  from mcp_process_writes_nothing [OF shipped_tools_shipped this run] run show ?thesis by blast
qed

end
