(* ===== verification/MCP_Router.thy ===== *)
theory MCP_Router
  imports MCP_Process Go_Router
begin

text \<open>
  The HTTP router of the MCP service as it is declared (\<open>internal/server/router.go\<close>, \<open>health.go\<close> and
  \<open>registerMCPHTTPRoutes\<close>).  It has no token middleware: the two handlers of tool calls authenticate
  the session themselves, and every other route is public.
\<close>

datatype mcp_endpoint =
    McpHealth | McpReadiness | McpVersion | McpPrometheus
  | McpInitialize | McpTools | McpCall | McpStream | McpContract

definition registerHealthRoutes :: "bool \<Rightarrow> mcp_endpoint decl list" where
  "registerHealthRoutes metricsEnabled =
     [Method ''GET'' ''/health'' McpHealth,
      Method ''GET'' ''/readiness'' McpReadiness,
      Method ''GET'' ''/version'' McpVersion] @
     (if metricsEnabled then [Method ''GET'' ''/metrics'' McpPrometheus] else [])"

definition registerMCPHTTPRoutes :: "mcp_endpoint decl list" where
  "registerMCPHTTPRoutes =
     [Route ''/mcp/v1''
        [Method ''POST'' ''/initialize'' McpInitialize,
         Method ''GET'' ''/tools'' McpTools,
         Method ''POST'' ''/tools/call'' McpCall,
         Method ''POST'' ''/tools/call/sse'' McpStream]]"

definition mcp_decls :: "McpConfig \<Rightarrow> mcp_endpoint decl list" where
  "mcp_decls cfg =
     [Use Tracing, Use (Metrics ''chamicore-mcp''), Use RequestID, Use RequestLogger, Use Recoverer,
      Use SecureHeaders, Use (BodyLimit (2 ^ 20)), Use ContentType, Use (APIVersion ''mcp/v1''),
      Use CacheControl] @
     registerHealthRoutes (mc_MetricsEnabled cfg) @ registerMCPHTTPRoutes @
     [Method ''GET'' ''/api/tools.yaml'' McpContract]"

text \<open>The readiness check asks nothing.\<close>

definition mcp_readiness :: "go_error option" where
  "mcp_readiness = None"

text \<open>
  What an endpoint does with a request; \<open>wr\<close> are the errors of writing its stream.  The replies of
  the health handlers and of the contract document are left open.
\<close>

datatype mcp_answer = PublicAnswer mcp_endpoint | McpAnswer mcp_reply

definition mcp_endpoint_call ::
    "(nat \<Rightarrow> go_error option) \<Rightarrow> mcp_endpoint \<Rightarrow> HttpRequest \<Rightarrow> mcp_request option" where
  "mcp_endpoint_call wr e r =
     (case e of
        McpInitialize \<Rightarrow> Some InitializeRequest
      | McpTools \<Rightarrow> Some ToolsRequest
      | McpCall \<Rightarrow> Some (CallRequest r)
      | McpStream \<Rightarrow> Some (StreamRequest wr r)
      | _ \<Rightarrow> None)"

definition mcp_serve ::
    "(string \<Rightarrow> json_map option) \<Rightarrow> 'w mcp_service \<Rightarrow> string \<Rightarrow> (nat \<Rightarrow> go_error option) \<Rightarrow> mcp_endpoint
     \<Rightarrow> (HttpRequest, mcp_answer, 'w) http_handler" where
  "mcp_serve decode svc version wr e r w =
     (case mcp_endpoint_call wr e r of
        None \<Rightarrow> (PublicAnswer e, w)
      | Some req \<Rightarrow>
          (case mcp_routes decode svc version req w of (reply, audit, w') \<Rightarrow> (McpAnswer reply, w')))"

definition mcp_stack :: "middleware list" where
  "mcp_stack =
     [Tracing, Metrics ''chamicore-mcp'', RequestID, RequestLogger, Recoverer, SecureHeaders,
      BodyLimit (2 ^ 20), ContentType, APIVersion ''mcp/v1'', CacheControl]"

lemma mcp_decls_routes:
  assumes "chi_scoping mounted"
  shows "(\<forall>rt \<in> set (mounted [] [] (mcp_decls cfg)). rt_chain rt = mcp_stack) \<and>
    distinct (map (\<lambda>rt. (rt_method rt, rt_path rt)) (mounted [] [] (mcp_decls cfg)))"
  by (simp add: chi_scoping_simps [OF assms] mcp_decls_def registerHealthRoutes_def
      registerMCPHTTPRoutes_def mcp_stack_def)

text \<open>Only the two routes of tool calls reach the tools, through their gate.\<close>

lemma mcp_http_calls:
  assumes "chi_scoping mounted" "\<And>m. passes_on (sem m)"
    and "rt \<in> set (mounted [] [] (mcp_decls cfg))"
    and "behind sem (rt_chain rt) (mcp_serve decode svc version wr (rt_handler rt)) r w = (reply, w')"
  shows "w' = w \<or>
    (\<exists>r'. rt_handler rt = McpCall \<and> w' = snd (snd (service_HTTP decode svc r' w)) \<or>
      rt_handler rt = McpStream \<and> w' = snd (snd (service_SSE decode svc wr r' w)))"
proof -
  let ?h = "mcp_serve decode svc version wr (rt_handler rt)"
  consider "w' = w" | r' where "w' = snd (?h r' w)"
    using behind_passes_on [of "rt_chain rt" sem ?h r w] assms(2,4) by auto
  then show ?thesis
  proof cases
    case (2 r')
    then show ?thesis
      by (cases "rt_handler rt") (auto simp: mcp_serve_def mcp_endpoint_call_def mcp_routes_def
          case_prod_beta)
  qed simp
qed

end
