(* ===== verification/MCP_Audit.thy ===== *)
theory MCP_Audit
  imports MCP_Server
begin

text \<open>
  The audit log of tool calls, \<open>internal/audit/logger.go\<close>: the entry \<open>Complete\<close> writes for a
  finished call, the summary of its targets and the redaction of its error text.  A regular
  expression is the function that gives the length of its match at a place (0 for none), which the
  two patterns determine without backtracking; case folding is the ASCII one.
\<close>

section \<open>Target summary\<close>

record TargetSummary =
  su_NodeIDs :: "string list"
  su_GroupIDs :: "string list"
  su_ResourceIDs :: "string list"

definition readString :: "json_map \<Rightarrow> string list \<Rightarrow> string list" where
  "readString args keys =
     List.map_filter (\<lambda>key.
       case map_of args key of
         Some (JString s) \<Rightarrow> if trim_space s \<noteq> [] then Some (trim_space s) else None
       | _ \<Rightarrow> None) keys"

fun string_items :: "json \<Rightarrow> string list" where
  "string_items (JArray items) =
     trim_list (List.map_filter (\<lambda>item. case item of JString s \<Rightarrow> Some s | _ \<Rightarrow> None) items)"
| "string_items _ = []"

definition readStringSlice :: "json_map \<Rightarrow> string list \<Rightarrow> string list" where
  "readStringSlice args keys =
     concat (map (\<lambda>key. case map_of args key of None \<Rightarrow> [] | Some raw \<Rightarrow> string_items raw) keys)"

definition uniqueStrings :: "string list \<Rightarrow> string list" where
  "uniqueStrings values = sort (uniq_trim [] values)"

definition diff :: "string list \<Rightarrow> string list list \<Rightarrow> string list" where
  "diff values drops = filter (\<lambda>value. value \<notin> set (concat drops)) values"

abbreviation node_keys where "node_keys \<equiv> [''nodes'', ''node_ids'']"
abbreviation group_list_keys where "group_list_keys \<equiv> [''groups'', ''group_ids'']"
abbreviation group_keys where "group_keys \<equiv> [''label'', ''group'']"
abbreviation resource_list_keys where "resource_list_keys \<equiv> [''ids'', ''component_ids'', ''members'']"
abbreviation resource_keys where "resource_keys \<equiv>
  [''id'', ''component_id'', ''request_id'', ''scan_id'', ''target_id'', ''name'']"
abbreviation resource_extra_keys where "resource_extra_keys \<equiv> [''resources'', ''resource_ids'']"

definition SummarizeTargets :: "json_map option \<Rightarrow> TargetSummary" where
  "SummarizeTargets args =
     (case args of
        None \<Rightarrow> \<lparr>su_NodeIDs = [], su_GroupIDs = [], su_ResourceIDs = []\<rparr>
      | Some args \<Rightarrow>
          (let nodes = uniqueStrings (readStringSlice args node_keys);
               groups = uniqueStrings (readStringSlice args group_list_keys @
                          readString args group_keys);
               resources = uniqueStrings (readStringSlice args resource_list_keys @
                             readString args resource_keys @
                             readStringSlice args resource_extra_keys)
           in \<lparr>su_NodeIDs = nodes, su_GroupIDs = groups,
               su_ResourceIDs = diff resources [nodes, groups]\<rparr>))"

section \<open>Redaction\<close>

definition re_word :: "char \<Rightarrow> bool" where
  "re_word c \<longleftrightarrow> (let n = (of_char c :: nat) in
     48 \<le> n \<and> n \<le> 57 \<or> 65 \<le> n \<and> n \<le> 90 \<or> 97 \<le> n \<and> n \<le> 122 \<or> n = 95)"

definition re_space :: "char \<Rightarrow> bool" where
  "re_space c \<longleftrightarrow> c \<in> {CHR 0x09, CHR 0x0A, CHR 0x0C, CHR 0x0D, CHR '' ''}"

text \<open>\<open>\b\<close> in front of a letter.\<close>

definition re_boundary :: "char option \<Rightarrow> bool" where
  "re_boundary prev \<longleftrightarrow> (case prev of None \<Rightarrow> True | Some c \<Rightarrow> \<not> re_word c)"

definition re_keyword :: "string \<Rightarrow> string \<Rightarrow> bool" where
  "re_keyword k s \<longleftrightarrow> to_lower (take (length k) s) = k"

definition token_char :: "char \<Rightarrow> bool" where
  "token_char c \<longleftrightarrow> (let n = (of_char c :: nat) in
     48 \<le> n \<and> n \<le> 57 \<or> 65 \<le> n \<and> n \<le> 90 \<or> 97 \<le> n \<and> n \<le> 122 \<or> c \<in> set ''-._~+/'')"

text \<open>\<open>(?i)\bBearer\s+[A-Za-z0-9\-._~+/]+=*\<close>\<close>

definition bearerTokenPattern :: "char option \<Rightarrow> string \<Rightarrow> nat" where
  "bearerTokenPattern prev s =
     (if re_boundary prev \<and> re_keyword ''bearer'' s then
        (let r = drop 6 s;
             spaces = takeWhile re_space r; r = dropWhile re_space r;
             tok = takeWhile token_char r; r = dropWhile token_char r;
             pad = takeWhile (\<lambda>c. c = CHR ''='') r
         in if spaces \<noteq> [] \<and> tok \<noteq> []
            then 6 + length spaces + length tok + length pad else 0)
      else 0)"

definition secret_words :: "string list" where
  "secret_words = [''token'', ''secret'', ''password'', ''authorization'']"

definition value_char :: "char \<Rightarrow> bool" where
  "value_char c \<longleftrightarrow> \<not> re_space c \<and> c \<noteq> CHR '','' \<and> c \<noteq> CHR '';''"

text \<open>\<open>(?i)\b(token|secret|password|authorization)\s*[:=]\s*([^\s,;]+)\<close>\<close>

definition keyValuePattern :: "char option \<Rightarrow> string \<Rightarrow> nat" where
  "keyValuePattern prev s =
     (if re_boundary prev then
        (case find (\<lambda>k. re_keyword k s) secret_words of
           None \<Rightarrow> 0
         | Some k \<Rightarrow>
             (let r = drop (length k) s;
                  spaces = takeWhile re_space r; r = dropWhile re_space r
              in case r of
                   [] \<Rightarrow> 0
                 | c # r \<Rightarrow>
                     (let spaces2 = takeWhile re_space r;
                          v = takeWhile value_char (dropWhile re_space r)
                      in if (c = CHR '':'' \<or> c = CHR ''='') \<and> v \<noteq> []
                         then length k + length spaces + 1 + length spaces2 + length v else 0)))
      else 0)"

text \<open>\<open>ReplaceAllStringFunc\<close>: the matches from left to right, without overlap.\<close>

function replace_all ::
    "(char option \<Rightarrow> string \<Rightarrow> nat) \<Rightarrow> (string \<Rightarrow> string) \<Rightarrow> char option \<Rightarrow> string \<Rightarrow> string" where
  "replace_all pat f prev s =
     (if s = [] then []
      else
        (let n = pat prev s in
         if n = 0 then hd s # replace_all pat f (Some (hd s)) (tl s)
         else f (take n s) @ replace_all pat f (Some (last (take n s))) (drop n s)))"
  by pat_completeness auto
termination
  by (relation "measure (\<lambda>(pat, f, prev, s). length s)") auto

declare replace_all.simps [simp del]

definition redacted_pair :: "string \<Rightarrow> string" where
  "redacted_pair match =
     (if CHR '':'' \<in> set match
      then trim_space (takeWhile (\<lambda>c. c \<noteq> CHR '':'') match) @ '': [REDACTED]''
      else if CHR ''='' \<in> set match
      then trim_space (takeWhile (\<lambda>c. c \<noteq> CHR ''='') match) @ ''=[REDACTED]''
      else ''[REDACTED]'')"

definition RedactSensitiveText :: "string \<Rightarrow> string" where
  "RedactSensitiveText raw =
     (let trimmed = trim_space raw in
      if trimmed = [] then []
      else
        replace_all keyValuePattern redacted_pair None
          (replace_all bearerTokenPattern (\<lambda>_. ''Bearer [REDACTED]'') None trimmed))"

section \<open>The entry\<close>

record audit_entry =
  ae_request_id :: string
  ae_session_id :: string
  ae_transport :: string
  ae_tool :: string
  ae_mode :: string
  ae_caller_subject :: string
  ae_result :: string
  ae_target :: TargetSummary
  ae_response_code :: "int option"
  ae_error_detail :: "string option"

definition Logger_Complete :: "ToolCallCompletion \<Rightarrow> audit_entry" where
  "Logger_Complete event =
     (let result = trim_space (tc_Result event); tool = trim_space (tc_ToolName event);
          mode = trim_space (tc_Mode event); redactedError = RedactSensitiveText (tc_ErrorDetail event)
      in \<lparr>ae_request_id = trim_space (tc_RequestID event),
          ae_session_id = trim_space (tc_SessionID event),
          ae_transport = trim_space (tc_Transport event),
          ae_tool = (if tool = [] then ''unknown'' else tool),
          ae_mode = (if mode = [] then ''read-only'' else mode),
          ae_caller_subject = trim_space (tc_CallerSub event),
          ae_result = (if result = [] then ''error'' else result),
          ae_target = SummarizeTargets (tc_Arguments event),
          ae_response_code = (if 0 < tc_ResponseCode event then Some (tc_ResponseCode event) else None),
          ae_error_detail = (if redactedError \<noteq> [] then Some redactedError else None)\<rparr>)"


section \<open>Properties of the summary\<close>

text \<open>
  What a call names under a set of keys: the strings given directly, and the strings in arrays,
  trimmed, without the blank ones.
\<close>

definition named :: "json_map \<Rightarrow> string set \<Rightarrow> string set" where
  "named args keys = {trim_space s | k s. k \<in> keys \<and> map_of args k = Some (JString s)} - {[]}"

definition listed :: "json_map \<Rightarrow> string set \<Rightarrow> string set" where
  "listed args keys =
     {trim_space s | k items s. k \<in> keys \<and> map_of args k = Some (JArray items) \<and>
        JString s \<in> set items} - {[]}"

lemma set_readString [simp]: "set (readString args keys) = named args (set keys)"
proof (induction keys)
  case Nil
  show ?case by (simp add: readString_def named_def map_filter_simps)
next
  case (Cons k ks)
  have "named args (insert k K) = (case map_of args k of
      Some (JString s) \<Rightarrow> {trim_space s} - {[]} | _ \<Rightarrow> {}) \<union> named args K" for K
    by (auto simp: named_def split: option.splits json.splits)
  moreover have "set (readString args (k # ks)) = (case map_of args k of
      Some (JString s) \<Rightarrow> {trim_space s} - {[]} | _ \<Rightarrow> {}) \<union> set (readString args ks)"
    by (auto simp: readString_def map_filter_simps split: option.splits json.splits)
  ultimately show ?case using Cons.IH by simp
qed

lemma set_string_items:
  "x \<in> set (string_items raw) \<longleftrightarrow>
     x \<noteq> [] \<and> (\<exists>items s. raw = JArray items \<and> JString s \<in> set items \<and> x = trim_space s)"
proof (cases raw)
  case (JArray items)
  have "set (List.map_filter (\<lambda>item. case item of JString s \<Rightarrow> Some s | _ \<Rightarrow> None) items) =
      {s. JString s \<in> set items}"
    by (induction items) (auto simp: map_filter_simps split: json.splits)
  then show ?thesis using JArray by (auto simp: nonblank_def)
qed simp_all

lemma set_readStringSlice [simp]: "set (readStringSlice args keys) = listed args (set keys)"
proof (induction keys)
  case Nil
  show ?case by (simp add: readStringSlice_def listed_def)
next
  case (Cons k ks)
  have "listed args (insert k K) = (case map_of args k of None \<Rightarrow> {} | Some raw \<Rightarrow>
      set (string_items raw)) \<union> listed args K" for K
    by (auto simp: listed_def set_string_items split: option.splits) metis+
  then show ?case using Cons.IH by (simp add: readStringSlice_def split: option.split)
qed

lemma trimmed_sets:
  "x \<in> named args keys \<Longrightarrow> x \<noteq> [] \<and> trim_space x = x"
  "x \<in> listed args keys \<Longrightarrow> x \<noteq> [] \<and> trim_space x = x"
  by (auto simp: named_def listed_def)

lemma nonblank_fixed: "(\<And>x. x \<in> set xs \<Longrightarrow> x \<noteq> [] \<and> trim_space x = x) \<Longrightarrow> nonblank xs = set xs"
  by (force simp: nonblank_def)

lemma uniqueStrings_simps [simp]:
  "set (uniqueStrings xs) = nonblank xs" "sorted (uniqueStrings xs)" "distinct (uniqueStrings xs)"
  by (simp_all add: uniqueStrings_def)

lemma diff_simps [simp]:
  "set (diff xs drops) = set xs - set (concat drops)"
  "sorted xs \<Longrightarrow> sorted (diff xs drops)" "distinct xs \<Longrightarrow> distinct (diff xs drops)"
  by (auto simp: diff_def sorted_wrt_filter)

lemma nonblank_readers [simp]:
  "nonblank (readStringSlice args ks) = listed args (set ks)"
  "nonblank (readStringSlice args ks @ readString args ks') = listed args (set ks) \<union> named args (set ks')"
  "nonblank (readStringSlice args ks @ readString args ks' @ readStringSlice args ks'') =
     listed args (set ks) \<union> named args (set ks') \<union> listed args (set ks'')"
  by (subst nonblank_fixed; auto dest: trimmed_sets)+

lemma listed_Un: "listed args K \<union> X \<union> listed args K' = listed args (K \<union> K') \<union> X"
  by (auto simp: listed_def)

text \<open>
  C24. The target part of an audit entry is exactly what the call's arguments name: the nodes are the
  strings of \<open>nodes\<close> and \<open>node_ids\<close>; the groups those of \<open>groups\<close> and \<open>group_ids\<close> with the \<open>label\<close>
  and the \<open>group\<close>; the resources those of the lists \<open>ids\<close>, \<open>component_ids\<close>, \<open>members\<close>, \<open>resources\<close>
  and \<open>resource_ids\<close> with the six single names, less the nodes and groups.  Each list is sorted,
  without repetitions and blanks; no other argument, and no nested value, contributes to it, and
  a call without arguments has no targets.
\<close>

theorem audit_targets_only:
  "(let t = ae_target (Logger_Complete (event\<lparr>tc_Arguments := Some args\<rparr>)) in
      set (su_NodeIDs t) = listed args {''nodes'', ''node_ids''} \<and>
      set (su_GroupIDs t) = listed args {''groups'', ''group_ids''} \<union> named args {''label'', ''group''} \<and>
      set (su_ResourceIDs t) =
        (listed args {''ids'', ''component_ids'', ''members'', ''resources'', ''resource_ids''} \<union>
         named args {''id'', ''component_id'', ''request_id'', ''scan_id'', ''target_id'', ''name''}) -
        (set (su_NodeIDs t) \<union> set (su_GroupIDs t)) \<and>
      sorted (su_NodeIDs t) \<and> distinct (su_NodeIDs t) \<and> sorted (su_GroupIDs t) \<and>
      distinct (su_GroupIDs t) \<and> sorted (su_ResourceIDs t) \<and> distinct (su_ResourceIDs t)) \<and>
   ae_target (Logger_Complete (event\<lparr>tc_Arguments := None\<rparr>)) =
     \<lparr>su_NodeIDs = [], su_GroupIDs = [], su_ResourceIDs = []\<rparr>"
  by (simp add: Logger_Complete_def SummarizeTargets_def Let_def listed_Un insert_commute)

section \<open>Properties of the redaction\<close>









abbreviation sensitive :: "string \<Rightarrow> bool" where
  "sensitive kw \<equiv> to_lower kw \<in> {''token'', ''secret'', ''password'', ''authorization''}"




lemma sensitive_ne: "sensitive kw \<Longrightarrow> kw \<noteq> []"
  by (auto simp: to_lower_def)




















end
