(* ===== verification/Power_Service.thy ===== *)
theory Power_Service
  imports Power_Config Power_Redfish Power_SMD_Update
begin

text \<open>
  The running power service: how \<open>cmd/chamicore-power/main.go\<close> wires store, syncer, Redfish
  backends, runner and server together, and what the parts then keep true of the shared state.
  A step is a request, the execution of one queued task, a sync cycle, a handler that goes on
  filling the queue, or a restart of the process; \<open>Power_Runner_Conc\<close> takes the steps of the
  runner apart further.
\<close>

section \<open>What the runner keeps true of store and memory\<close>

text \<open>Every progress entry is of a stored transition and remembers when it was created.\<close>

definition entries_stored :: "runner_mem \<Rightarrow> Transition list \<Rightarrow> bool" where
  "entries_stored m rows \<longleftrightarrow>
     (\<forall>i p. rm_progress m i = Some p \<longrightarrow>
        (\<exists>r. row_of tr_ID rows i = Some r \<and> tr_CreatedAt r = tr_CreatedAt (tp_transition p)))"

abbreviation transition_rows :: "(pg_tables, 'x) runner_state_scheme \<Rightarrow> Transition list" where
  "transition_rows s \<equiv> t_transitions (pt_tr (rs_db s))"

definition run_inv :: "(pg_tables, 'x) runner_state_scheme \<Rightarrow> bool" where
  "run_inv s \<longleftrightarrow>
     mem_ok (rs_mem s) \<and> store_inv (pt_tr (rs_db s)) \<and> entries_stored (rs_mem s) (transition_rows s)"

text \<open>
  A step of the runner keeps its invariant and the topology; every stored transition stays, with
  the time of its creation; and one that has no progress entry gets none and stays as it is.
\<close>

definition run_keeps ::
    "(pg_tables, 'x) runner_state_scheme \<Rightarrow> (pg_tables, 'x) runner_state_scheme \<Rightarrow> bool" where
  "run_keeps s s' \<longleftrightarrow>
     run_inv s' \<and> pt_map (rs_db s') = pt_map (rs_db s) \<and>
     (\<forall>i r. row_of tr_ID (transition_rows s) i = Some r \<longrightarrow>
        (\<exists>r'. row_of tr_ID (transition_rows s') i = Some r' \<and> tr_CreatedAt r' = tr_CreatedAt r) \<and>
        (rm_progress (rs_mem s) i = None \<longrightarrow>
           rm_progress (rs_mem s') i = None \<and> row_of tr_ID (transition_rows s') i = Some r))"

lemma run_keepsI:
  assumes "run_inv s'" "pt_map (rs_db s') = pt_map (rs_db s)"
    and "\<And>i r. row_of tr_ID (transition_rows s) i = Some r \<Longrightarrow>
      \<exists>r'. row_of tr_ID (transition_rows s') i = Some r' \<and> tr_CreatedAt r' = tr_CreatedAt r"
    and "\<And>i r. row_of tr_ID (transition_rows s) i = Some r \<Longrightarrow> rm_progress (rs_mem s) i = None \<Longrightarrow>
      rm_progress (rs_mem s') i = None \<and> row_of tr_ID (transition_rows s') i = Some r"
  shows "run_keeps s s'"
  using assms by (simp add: run_keeps_def)

lemma run_keeps_refl: "run_inv s \<Longrightarrow> run_keeps s s"
  by (simp add: run_keeps_def)

lemma run_keeps_trans: "run_keeps s1 s2 \<Longrightarrow> run_keeps s2 s3 \<Longrightarrow> run_keeps s1 s3"
  unfolding run_keeps_def by fastforce

lemma run_keeps_inv: "run_keeps s s' \<Longrightarrow> run_inv s'"
  by (simp add: run_keeps_def)

text \<open>What a critical section does to the memory.\<close>

definition section_keeps :: "runner_mem \<Rightarrow> section_result \<Rightarrow> runner_mem \<Rightarrow> bool" where
  "section_keeps m r m' \<longleftrightarrow>
     mem_ok m' \<and>
     (\<forall>i p'. rm_progress m' i = Some p' \<longrightarrow>
        (\<exists>p. rm_progress m i = Some p \<and>
           tr_CreatedAt (tp_transition p') = tr_CreatedAt (tp_transition p))) \<and>
     (\<forall>tr. r = SecPersist tr \<longrightarrow>
        (\<exists>p. rm_progress m (tr_ID tr) = Some p \<and> tr_CreatedAt tr = tr_CreatedAt (tp_transition p)))"

lemma count_outcome_keeps [simp]:
  "tr_CreatedAt (tp_transition (count_outcome st p)) = tr_CreatedAt (tp_transition p)"
  "tr_ID (tp_transition (count_outcome st p)) = tr_ID (tp_transition p)"
  by (simp_all add: count_outcome_def Let_def)

lemma abort_section_keeps:
  assumes "mem_ok m" "abort_section now i m = (r, m')"
  shows "section_keeps m r m'"
  using abort_section_ok [OF assms] assms mem_okD [OF assms(1)]
  by (auto simp: section_keeps_def abort_section_def Let_def split: option.splits if_splits)

lemma mark_section_keeps:
  assumes "mem_ok m" "mark_section now i m = (r, m')"
  shows "section_keeps m r m'"
  using mark_section_ok [OF assms] assms mem_okD [OF assms(1)]
  by (auto simp: section_keeps_def mark_section_def Let_def split: option.splits if_splits)

lemma outcome_section_keeps:
  assumes "mem_ok m" "outcome_section now i st m = (r, m')"
  shows "section_keeps m r m'"
proof (cases "rm_progress m i")
  case None
  with assms show ?thesis by (auto simp: section_keeps_def outcome_section_def)
next
  case (Some p0)
  define p where "p = (count_outcome st p0)\<lparr>tp_remaining := tp_remaining p0 - 1\<rparr>"
  have p: "tr_CreatedAt (tp_transition p) = tr_CreatedAt (tp_transition p0)"
    "tr_ID (tp_transition p) = i"
    using mem_okD [OF assms(1) Some] by (simp_all add: p_def)
  have ok: "mem_ok m'" using outcome_section_ok [OF assms] by blast
  show ?thesis
  proof (cases "tp_remaining p \<le> 0")
    case True
    with assms(2) Some p_def have "m' = set_progress i None (cancel_ctx i m)"
      and r: "r = SecPersist ((tp_transition p)\<lparr>tr_CompletedAt := Some now, tr_UpdatedAt := now,
        tr_State := finalTransitionState p\<rparr>)"
      by (simp_all add: outcome_section_def Let_def)
    with ok p Some show ?thesis by (simp add: section_keeps_def)
  next
    case False
    with assms(2) Some p_def have "m' = set_progress i (Some p) m" "r = SecDone"
      by (simp_all add: outcome_section_def Let_def)
    with ok p Some show ?thesis by (simp add: section_keeps_def)
  qed
qed

text \<open>The store writes.\<close>

lemma store_inv_rows:
  "store_inv t \<Longrightarrow> unique_keys tr_ID (t_transitions t)"
  "store_inv t \<Longrightarrow> row_of tr_ID (t_transitions t) i = Some r \<Longrightarrow> trim_space i = i"
  using row_of_SomeD by (fastforce simp: store_inv_def tr_tables_ok_def)+

lemma UpdateTransition_keeps:
  assumes inv: "store_inv t" and row: "row_of tr_ID (t_transitions t) (tr_ID tr) = Some r"
    and created: "tr_CreatedAt tr = tr_CreatedAt r" and run: "UpdateTransition env tr t = (res, t')"
  shows "store_inv t' \<and>
    (\<forall>i q. row_of tr_ID (t_transitions t) i = Some q \<longrightarrow>
      (\<exists>q'. row_of tr_ID (t_transitions t') i = Some q' \<and> tr_CreatedAt q' = tr_CreatedAt q) \<and>
      (i \<noteq> tr_ID tr \<longrightarrow> row_of tr_ID (t_transitions t') i = Some q))"
proof -
  have id: "trim_space (tr_ID tr) = tr_ID tr" by (rule store_inv_rows(2) [OF inv row])
  with row created have "op_admissible (OpUpdate tr) t" by simp
  then have "store_inv t'" by (rule store_inv_update [OF inv _ run])
  moreover from run have "\<forall>i q. row_of tr_ID (t_transitions t) i = Some q \<longrightarrow>
      (\<exists>q'. row_of tr_ID (t_transitions t') i = Some q' \<and> tr_CreatedAt q' = tr_CreatedAt q) \<and>
      (i \<noteq> tr_ID tr \<longrightarrow> row_of tr_ID (t_transitions t') i = Some q)"
    by (cases rule: UpdateTransition_cases) (simp_all add: id row_of_update_rows)
  ultimately show ?thesis by blast
qed

lemma persist_keeps:
  assumes inv: "run_inv s" and sec: "section_keeps (rs_mem s) r m"
    and run: "persist_section PostgresStore env msg r (rs_db s) = (e, d)"
  shows "run_keeps s (s\<lparr>rs_mem := m, rs_db := d\<rparr>)"
proof -
  note i = inv [unfolded run_inv_def]
  have mem: "mem_ok m" using sec by (simp add: section_keeps_def)
  have none: "rm_progress (rs_mem s) i = None \<Longrightarrow> rm_progress m i = None" for i
    using sec unfolding section_keeps_def by (metis option.exhaust option.distinct(1))
  have stored: "entries_stored m (transition_rows s)"
    unfolding entries_stored_def
  proof (intro allI impI)
    fix i p' assume "rm_progress m i = Some p'"
    with sec obtain p where "rm_progress (rs_mem s) i = Some p"
      "tr_CreatedAt (tp_transition p') = tr_CreatedAt (tp_transition p)"
      unfolding section_keeps_def by blast
    with i show "\<exists>r. row_of tr_ID (transition_rows s) i = Some r \<and>
        tr_CreatedAt r = tr_CreatedAt (tp_transition p')"
      unfolding entries_stored_def by metis
  qed
  show ?thesis
  proof (cases "\<exists>tr. r = SecPersist tr")
    case False
    with run have "d = rs_db s" by (cases r) (simp_all add: persist_section_def)
    with mem none stored i show ?thesis by (simp add: run_keeps_def run_inv_def)
  next
    case True
    then obtain tr where tr: "r = SecPersist tr" by blast
    with run obtain res t' where upd: "UpdateTransition env tr (pt_tr (rs_db s)) = (res, t')"
      and d: "d = (rs_db s)\<lparr>pt_tr := t'\<rparr>"
      by (auto simp: persist_section_def PostgresStore_def on_tr_def split: prod.splits sum.splits)
    from sec tr obtain p where p: "rm_progress (rs_mem s) (tr_ID tr) = Some p"
      "tr_CreatedAt tr = tr_CreatedAt (tp_transition p)" unfolding section_keeps_def by blast
    with i obtain row where row: "row_of tr_ID (transition_rows s) (tr_ID tr) = Some row"
      "tr_CreatedAt tr = tr_CreatedAt row" unfolding entries_stored_def by fastforce
    have "store_inv (pt_tr (rs_db s))" using i by blast
    note keeps = UpdateTransition_keeps [OF this row upd]
    have "entries_stored m (t_transitions t')"
      using stored keeps unfolding entries_stored_def by metis
    moreover have "rm_progress (rs_mem s) j = None \<Longrightarrow> j \<noteq> tr_ID tr" for j using p by auto
    ultimately show ?thesis
      using mem none keeps by (simp add: run_keeps_def run_inv_def d)
  qed
qed

section \<open>The operations of the runner\<close>

lemma AbortTransition_keeps:
  assumes "run_inv s" "AbortTransition PostgresStore env now i s = (e, s')"
  shows "run_keeps s s'"
proof (cases "trim_space i = []")
  case True
  with assms show ?thesis by (auto simp: AbortTransition_def intro: run_keeps_refl)
next
  case False
  obtain r m where sec: "abort_section now (trim_space i) (rs_mem s) = (r, m)" by fastforce
  obtain e' d where "persist_section PostgresStore env ''marking transition canceled: '' r (rs_db s) = (e', d)"
    by fastforce
  with assms(2) False sec persist_keeps [OF assms(1) abort_section_keeps [OF _ sec] this] assms(1)
  show ?thesis by (simp add: AbortTransition_def run_inv_def)
qed

lemma markTransitionRunning_keeps:
  assumes "run_inv s" "markTransitionRunning PostgresStore env now i s = (e, s')"
  shows "run_keeps s s'"
proof -
  obtain r m where sec: "mark_section now i (rs_mem s) = (r, m)" by fastforce
  obtain e' d where "persist_section PostgresStore env ''marking transition running: '' r (rs_db s) = (e', d)"
    by fastforce
  with assms(2) sec persist_keeps [OF assms(1) mark_section_keeps [OF _ sec] this] assms(1)
  show ?thesis by (simp add: markTransitionRunning_def run_inv_def)
qed

lemma recordTaskOutcome_keeps:
  assumes "run_inv s"
  shows "run_keeps s (recordTaskOutcome PostgresStore env now i st s)"
proof -
  obtain r m where sec: "outcome_section now i st (rs_mem s) = (r, m)" by fastforce
  obtain e' d where "persist_section PostgresStore env [] r (rs_db s) = (e', d)" by fastforce
  with sec persist_keeps [OF assms outcome_section_keeps [OF _ sec] this] assms
  show ?thesis by (simp add: recordTaskOutcome_def run_inv_def)
qed

lemma update_task_keeps:
  assumes inv: "run_inv s" and run: "S_UpdateTransitionTask PostgresStore env tk (rs_db s) = (r, d)"
  shows "run_keeps s (s\<lparr>rs_db := d\<rparr>)"
proof -
  obtain t' where upd: "UpdateTransitionTask env tk (pt_tr (rs_db s)) = (r, t')"
    and d: "d = (rs_db s)\<lparr>pt_tr := t'\<rparr>"
    using run by (auto simp: PostgresStore_def on_tr_def split: prod.splits)
  note i = inv [unfolded run_inv_def]
  have "store_inv t' \<and> t_transitions t' = t_transitions (pt_tr (rs_db s))"
  proof (cases r)
    case (Inl e)
    with upd UpdateTransitionTask_Inl i show ?thesis by blast
  next
    case (Inr k)
    with upd UpdateTransitionTask_Inr store_inv_update_task i show ?thesis by blast
  qed
  with i show ?thesis by (simp add: run_keeps_def run_inv_def d)
qed

lemma completeTask_keeps:
  assumes "run_inv s"
  shows "run_keeps s (completeTask PostgresStore env now upd i tk k fps e s)"
proof -
  let ?tk = "finished_task now upd tk k fps e"
  obtain r d where upd: "S_UpdateTransitionTask PostgresStore (env 1) ?tk (rs_db s) = (r, d)"
    by fastforce
  note one = update_task_keeps [OF assms upd]
  show ?thesis
    unfolding completeTask_def Let_def upd prod.case
    by (rule run_keeps_trans [OF one recordTaskOutcome_keeps [OF run_keeps_inv [OF one]]])
qed

lemma executeTask_keeps:
  assumes inv: "run_inv s"
    and run: "executeTask PostgresStore env ov cfg jitter exec read v upd base limiter item (s, w) =
      Some (s', w')"
  shows "run_keeps s s'"
proof -
  obtain me s1 where mark: "markTransitionRunning PostgresStore (env 3) (clock w)
      (qt_transitionID item) s = (me, s1)" by fastforce
  note one = markTransitionRunning_keeps [OF inv mark]
  note inv1 = run_keeps_inv [OF one]
  show ?thesis
  proof (cases me)
    case (Some e)
    with run mark one show ?thesis by (simp add: executeTask_def)
  next
    case None
    let ?tk = "(qt_task item)\<lparr>tk_State := TaskStateRunning, tk_StartedAt := Some (clock w),
      tk_UpdatedAt := clock w\<rparr>"
    obtain r d2 where upd: "S_UpdateTransitionTask PostgresStore (env 0) ?tk (rs_db s1) = (r, d2)"
      by fastforce
    note two = run_keeps_trans [OF one update_task_keeps [OF inv1 upd]]
    note fin = run_keeps_trans [OF two completeTask_keeps [OF run_keeps_inv [OF two]]]
      and early = run_keeps_trans [OF one completeTask_keeps [OF inv1]]
    from run mark None upd show ?thesis
      by (auto simp: executeTask_def Let_def intro: fin early
          split: option.splits prod.splits)
  qed
qed

lemma enqueue_all_items:
  "enqueue_all answers k xs q = (r, q') \<Longrightarrow>
   set (q_ch q') \<subseteq> set (q_ch q) \<union> set xs \<and> (\<forall>rest. r = EnqueueBlocked rest \<longrightarrow> set rest \<subseteq> set xs)"
proof (induction answers k xs q rule: enqueue_all.induct)
  case (2 answers k x xs q)
  obtain ce pd where a: "answers k = (ce, pd)" by fastforce
  show ?case
  proof (cases "enqueue ce pd x q")
    case (EnqOk q1)
    with "2.prems" a have "enqueue_all answers (Suc k) xs q1 = (r, q')" by simp
    with "2.IH" [OF a [symmetric] EnqOk] enqueue_OkD [OF EnqOk] show ?thesis by auto
  qed (use "2.prems" a in auto)
qed auto

text \<open>The ways \<open>StartTransition\<close> can end, on the PostgreSQL store.\<close>

definition start_items :: "reset_op \<Rightarrow> Transition \<Rightarrow> Task list \<Rightarrow> queuedTask list" where
  "start_items op created pend =
     map (\<lambda>k. \<lparr>qt_operation = op, qt_transitionID = tr_ID created, qt_task = k\<rparr>) pend"

lemma StartTransition_cases:
  assumes run: "StartTransition PostgresStore env parse_op op_string running now now2 answers req s =
    (res, s')"
  obtains (refused) e where "res = StartErr e" "s' = s"
  | (closed) tr tasks created createdTasks t1 r2 t2 where
      "CreateTransition (env 1) tr tasks (pt_tr (rs_db s)) = (Inr (created, createdTasks), t1)"
      "map tk_NodeID tasks = normalizeNodeIDs (sr_NodeIDs req)"
      "UpdateTransition (env 2) (created\<lparr>tr_UpdatedAt := now2\<rparr>) t1 = (r2, t2)"
      "s' = s\<lparr>rs_db := (rs_db s)\<lparr>pt_tr := t2\<rparr>\<rparr>"
      "res = (case r2 of Inl e \<Rightarrow> StartErr (Wrap ''updating terminal transition record: '' e [])
                       | Inr tr \<Rightarrow> StartOk tr)"
  | (queued) op tr tasks created createdTasks t1 er q where
      "CreateTransition (env 1) tr tasks (pt_tr (rs_db s)) = (Inr (created, createdTasks), t1)"
      "map tk_NodeID tasks = normalizeNodeIDs (sr_NodeIDs req)"
      "enqueue_all answers 0
         (start_items op created (filter (\<lambda>k. tk_State k = TaskStatePending) createdTasks))
         (rs_queue s) = (er, q)"
      "s' = s\<lparr>rs_db := (rs_db s)\<lparr>pt_tr := t1\<rparr>,
         rs_mem := (let m = register_section created
             (filter (\<lambda>k. tk_State k = TaskStatePending) createdTasks) (rs_mem s)
           in case er of EnqueueFailed _ \<Rightarrow> cancel_ctx (tr_ID created) m | _ \<Rightarrow> m),
         rs_queue := q\<rparr>"
      "mem_ok (rs_mem s) \<longrightarrow> mem_ok (register_section created
         (filter (\<lambda>k. tk_State k = TaskStatePending) createdTasks) (rs_mem s))"
      "res = (case er of AllQueued \<Rightarrow> StartOk created
                | EnqueueFailed e \<Rightarrow> StartErr (Wrap ''enqueueing transition task: '' e [])
                | EnqueueBlocked rest \<Rightarrow> StartWaiting created rest | EnqueuePanicked \<Rightarrow> StartPanic)"
proof (cases "\<exists>e. res = StartErr e \<and> s' = s")
  case True
  with refused show ?thesis by blast
next
  case go: False
  note One_nat_def [simp del]
  let ?ns = "normalizeNodeIDs (sr_NodeIDs req)"
  from run go have running by (auto simp: StartTransition_def split: if_splits)
  with run go obtain op ms es where op: "parse_op (sr_Operation req) = Inr op" and ns: "?ns \<noteq> []"
    and res: "S_ResolveNodeMappings PostgresStore (env 0) (rs_db s) ?ns = Inr (ms, es)"
    by (auto simp: StartTransition_def Let_def split: if_splits sum.splits)
  define tasks where "tasks = map (plan_task now (op_string op) (sr_DryRun req) ms es) ?ns"
  have nodes: "map tk_NodeID tasks = ?ns" by (simp add: tasks_def comp_def plan_task_node)
  define plan where "plan = plan_transition now (op_string op) req tasks"
  obtain r t1 where create: "CreateTransition (env 1) plan tasks (pt_tr (rs_db s)) = (r, t1)"
    by fastforce
  let ?d1 = "(rs_db s)\<lparr>pt_tr := t1\<rparr>"
  have S_create: "S_CreateTransition PostgresStore (env 1) plan tasks (rs_db s) = (r, ?d1)"
    by (simp add: PostgresStore_def on_tr_def create)
  show ?thesis
  proof (cases r)
    case (Inl e)
    with CreateTransition_Inl create have "?d1 = rs_db s" by fastforce
    with run \<open>running\<close> op ns res S_create Inl
    have "s' = s" "\<exists>e. res = StartErr e"
      by (auto simp: StartTransition_def Let_def tasks_def plan_def)
    with go show ?thesis by blast
  next
    case (Inr x)
    obtain created createdTasks where x: "x = (created, createdTasks)" by fastforce
    let ?pend = "filter (\<lambda>k. tk_State k = TaskStatePending) createdTasks"
    note cr = create [unfolded Inr x]
    show ?thesis
    proof (cases "sr_DryRun req \<or> count_state TaskStatePending tasks = 0")
      case True
      obtain r2 t2 where upd: "UpdateTransition (env 2) (created\<lparr>tr_UpdatedAt := now2\<rparr>) t1 = (r2, t2)"
        by fastforce
      then have "S_UpdateTransition PostgresStore (env 2) (created\<lparr>tr_UpdatedAt := now2\<rparr>) ?d1 =
          (r2, (rs_db s)\<lparr>pt_tr := t2\<rparr>)" by (simp add: PostgresStore_def on_tr_def)
      with run \<open>running\<close> op ns res S_create Inr x True
      have "s' = s\<lparr>rs_db := (rs_db s)\<lparr>pt_tr := t2\<rparr>\<rparr>"
        "res = (case r2 of Inl e \<Rightarrow> StartErr (Wrap ''updating terminal transition record: '' e [])
                       | Inr tr \<Rightarrow> StartOk tr)"
        by (auto simp: StartTransition_def Let_def tasks_def [symmetric] plan_def [symmetric]
            split: sum.splits)
      from closed [OF cr nodes upd this] show ?thesis .
    next
      case False
      then have dry: "\<not> sr_DryRun req" and pending: "count_state TaskStatePending tasks \<noteq> 0" by auto
      obtain er q where enq: "enqueue_all answers 0 (start_items op created ?pend) (rs_queue s) = (er, q)"
        by fastforce
      have tasks: "tasks = map (plan_task now (op_string op) False ms es) ?ns"
        using dry by (simp add: tasks_def)
      have entry: "length ?pend = count_state TaskStatePending tasks"
          "tr_FailureCount created + int (length ?pend) = tr_TargetCount created"
          "tr_SuccessCount created = 0" "0 \<le> tr_FailureCount created"
        using pg_runner.started_entry [OF S_create [unfolded Inr x plan_def] tasks dry pending] by simp_all
      then have "?pend \<noteq> []" using pending by auto
      with entry have ok: "mem_ok (rs_mem s) \<longrightarrow> mem_ok (register_section created ?pend (rs_mem s))"
        by (intro impI pg_runner.register_ok) simp_all
      have "s' = s\<lparr>rs_db := ?d1,
         rs_mem := (let m = register_section created ?pend (rs_mem s)
           in case er of EnqueueFailed _ \<Rightarrow> cancel_ctx (tr_ID created) m | _ \<Rightarrow> m),
         rs_queue := q\<rparr> \<and>
        res = (case er of AllQueued \<Rightarrow> StartOk created
                | EnqueueFailed e \<Rightarrow> StartErr (Wrap ''enqueueing transition task: '' e [])
                | EnqueueBlocked rest \<Rightarrow> StartWaiting created rest | EnqueuePanicked \<Rightarrow> StartPanic)"
        using run \<open>running\<close> op ns res S_create Inr x dry pending enq
        by (cases er) (auto simp: StartTransition_def Let_def tasks [symmetric]
            plan_def [symmetric] start_items_def)
      then show ?thesis using queued [OF cr nodes enq _ ok] by blast
    qed
  qed
qed

lemma CreateTransition_keeps:
  assumes inv: "store_inv t" and uuid: "uuids_ok env"
    and run: "CreateTransition env tr tasks t = (Inr (ctr, ctks), t')"
  shows "store_inv t' \<and> row_of tr_ID (t_transitions t') (tr_ID ctr) = Some ctr \<and>
    (\<forall>i r. row_of tr_ID (t_transitions t) i = Some r \<longrightarrow>
       row_of tr_ID (t_transitions t') i = Some r \<and> i \<noteq> tr_ID ctr)"
proof -
  have "store_inv t'" using store_inv_create [OF inv _ run] uuid by (simp add: uuids_ok_def)
  moreover have none: "row_of tr_ID (t_transitions t) (tr_ID ctr) = None"
    and rows: "t_transitions t' = t_transitions t @ [ctr]"
    using CreateTransition_Inr [OF run] by blast+
  have "row_of tr_ID (t_transitions t') (tr_ID ctr) = Some ctr"
    using none by (simp add: rows row_of_append row_of_Cons)
  moreover have "row_of tr_ID (t_transitions t') i = Some r \<and> i \<noteq> tr_ID ctr"
    if "row_of tr_ID (t_transitions t) i = Some r" for i r
    using that none by (auto simp: rows row_of_append)
  ultimately show ?thesis by blast
qed

lemma entries_stored_mono:
  "entries_stored m rows \<Longrightarrow> (\<And>i r. row_of tr_ID rows i = Some r \<Longrightarrow>
     \<exists>r'. row_of tr_ID rows' i = Some r' \<and> tr_CreatedAt r' = tr_CreatedAt r) \<Longrightarrow>
   entries_stored m rows'"
  unfolding entries_stored_def by metis

lemma register_section_progress:
  "rm_progress (register_section tr pend m) = (rm_progress m)(tr_ID tr \<mapsto>
     \<lparr>tp_transition = tr, tp_remaining = int (length pend), tp_executableTotal = int (length pend),
      tp_canceledCount = 0, tp_started = False, tp_aborted = False\<rparr>)"
  by (simp add: register_section_def)

lemma StartTransition_keeps:
  assumes inv: "run_inv s" and uuid: "uuids_ok (env 1)"
    and run: "StartTransition PostgresStore env parse_op op_string running now now2 answers req s =
      (res, s')"
  shows "run_keeps s s'"
  using run
proof (cases rule: StartTransition_cases)
  case (refused e)
  with inv show ?thesis by (simp add: run_keeps_refl)
next
  case (closed tr tasks created createdTasks t1 r2 t2)
  note i = inv [unfolded run_inv_def]
  then have st: "store_inv (pt_tr (rs_db s))" by blast
  note c = CreateTransition_keeps [OF st uuid closed(1)]
  have "store_inv t1" using c by blast
  moreover have "row_of tr_ID (t_transitions t1) (tr_ID (created\<lparr>tr_UpdatedAt := now2\<rparr>)) = Some created"
    "tr_CreatedAt (created\<lparr>tr_UpdatedAt := now2\<rparr>) = tr_CreatedAt created" using c by simp_all
  ultimately have u: "store_inv t2 \<and>
      (\<forall>i q. row_of tr_ID (t_transitions t1) i = Some q \<longrightarrow>
        (\<exists>q'. row_of tr_ID (t_transitions t2) i = Some q' \<and> tr_CreatedAt q' = tr_CreatedAt q) \<and>
        (i \<noteq> tr_ID (created\<lparr>tr_UpdatedAt := now2\<rparr>) \<longrightarrow>
          row_of tr_ID (t_transitions t2) i = Some q))"
    by (rule UpdateTransition_keeps [OF _ _ _ closed(3)])
  have keep: "row_of tr_ID (t_transitions t2) i = Some r"
    if "row_of tr_ID (transition_rows s) i = Some r" for i r
  proof -
    from that c have "row_of tr_ID (t_transitions t1) i = Some r" "i \<noteq> tr_ID created" by blast+
    with u show ?thesis by simp
  qed
  then have "entries_stored (rs_mem s) (t_transitions t2)"
    using i by (auto intro: entries_stored_mono [of _ "transition_rows s"])
  with i u have "run_inv s'" by (simp add: run_inv_def closed(4))
  then show ?thesis
    by (rule run_keepsI) (simp_all add: closed(4) keep)
next
  case (queued op tr tasks created createdTasks t1 er q)
  note i = inv [unfolded run_inv_def]
  then have st: "store_inv (pt_tr (rs_db s))" by blast
  note c = CreateTransition_keeps [OF st uuid queued(1)]
  define pend where "pend = filter (\<lambda>k. tk_State k = TaskStatePending) createdTasks"
  let ?reg = "register_section created pend (rs_mem s)"
  have keep: "row_of tr_ID (t_transitions t1) i = Some r \<and> i \<noteq> tr_ID created"
    if "row_of tr_ID (transition_rows s) i = Some r" for i r
    using that c by blast
  then have old: "entries_stored (rs_mem s) (t_transitions t1)"
    using i by (auto intro: entries_stored_mono [of _ "transition_rows s"])
  have new: "entries_stored ?reg (t_transitions t1)"
    unfolding entries_stored_def
  proof (intro allI impI)
    fix j p assume p: "rm_progress ?reg j = Some p"
    show "\<exists>r. row_of tr_ID (t_transitions t1) j = Some r \<and>
        tr_CreatedAt r = tr_CreatedAt (tp_transition p)"
    proof (cases "j = tr_ID created")
      case True
      with p have "tp_transition p = created" by (auto simp: register_section_progress)
      with True c show ?thesis by blast
    next
      case False
      with p have "rm_progress (rs_mem s) j = Some p" by (simp add: register_section_progress)
      with old show ?thesis unfolding entries_stored_def by blast
    qed
  qed
  have prog: "rm_progress (rs_mem s') = rm_progress ?reg"
    by (simp add: queued(4) Let_def pend_def split: enqueue_all_result.split)
  have db: "pt_tr (rs_db s') = t1" "pt_map (rs_db s') = pt_map (rs_db s)"
    by (simp_all add: queued(4))
  have "mem_ok ?reg" using queued(5) i unfolding pend_def by blast
  then have mem: "mem_ok (rs_mem s')" unfolding mem_ok_def prog .
  from new have "entries_stored (rs_mem s') (t_transitions t1)" unfolding entries_stored_def prog .
  with mem c db have "run_inv s'" by (simp only: run_inv_def)
  then show ?thesis
  proof (rule run_keepsI)
    fix j r assume row: "row_of tr_ID (transition_rows s) j = Some r"
    with keep [OF row] db show "\<exists>r'. row_of tr_ID (transition_rows s') j = Some r' \<and>
        tr_CreatedAt r' = tr_CreatedAt r" by simp
    assume "rm_progress (rs_mem s) j = None"
    with keep [OF row] db prog show "rm_progress (rs_mem s') j = None \<and>
        row_of tr_ID (transition_rows s') j = Some r" by (simp add: register_section_progress)
  qed (rule db)
qed


section \<open>The wiring (main.go)\<close>

text \<open>
  The state of the process: that of the runner with the database, the handlers that wait for room
  in the queue (the tasks each still has to send), and the syncer.
\<close>

record power_state = "pg_tables runner_state" +
  ps_waiting :: "queuedTask list list"
  ps_sync :: Syncer

definition on_runner ::
    "(pg_tables runner_state \<Rightarrow> 'a \<times> pg_tables runner_state) \<Rightarrow> power_state \<Rightarrow> 'a \<times> power_state" where
  "on_runner f s =
     (case f (runner_state.truncate s) of
        (x, s1) \<Rightarrow> (x, s\<lparr>rs_mem := rs_mem s1, rs_db := rs_db s1, rs_queue := rs_queue s1\<rparr>))"

definition keep_waiting :: "start_result \<times> power_state \<Rightarrow> start_result \<times> power_state" where
  "keep_waiting x =
     (case x of
        (StartWaiting tr rest, s) \<Rightarrow> (StartWaiting tr rest, s\<lparr>ps_waiting := ps_waiting s @ [rest]\<rparr>)
      | (res, s) \<Rightarrow> (res, s))"

definition on_syncer ::
    "(Syncer \<Rightarrow> map_tables \<Rightarrow> 'a \<times> Syncer \<times> map_tables) \<Rightarrow> power_state \<Rightarrow> 'a \<times> power_state" where
  "on_syncer f s =
     (case f (ps_sync s) (pt_map (rs_db s)) of
        (x, y, d) \<Rightarrow> (x, s\<lparr>ps_sync := y, rs_db := (rs_db s)\<lparr>pt_map := d\<rparr>\<rparr>))"

text \<open>What a request meets: database calls, the clock, SMD, the Redfish library's operations.\<close>

record service_env =
  sn_ping :: "go_error option"
  sn_read :: pg
  sn_store :: "nat \<Rightarrow> store_env"
  sn_replace :: pg
  sn_trigger :: trigger_run
  sn_now :: time
  sn_now2 :: time
  sn_answers :: "nat \<Rightarrow> go_error option \<times> bool"
  sn_get_group :: "string \<Rightarrow> go_error + string list"
  sn_parse_op :: "string \<Rightarrow> go_error + reset_op"
  sn_op_string :: "reset_op \<Rightarrow> string"

definition service_runner :: "service_env \<Rightarrow> power_state transitionRunner" where
  "service_runner env =
     \<lparr>rn_StartTransition = (\<lambda>req s. keep_waiting (on_runner
        (StartTransition PostgresStore (sn_store env) (sn_parse_op env) (sn_op_string env) True
           (sn_now env) (sn_now2 env) (sn_answers env) req) s)),
      rn_AbortTransition = (\<lambda>i. on_runner (AbortTransition PostgresStore (sn_store env 0) (sn_now env) i))\<rparr>"

definition service_syncer :: "service_env \<Rightarrow> power_state mappingSyncer" where
  "service_syncer env =
     \<lparr>my_Trigger = (\<lambda>_. on_syncer (Trigger (ListBMCEndpoints (sn_read env))
        (ReplaceTopologyMappings (sn_replace env)) (sn_trigger env))),
      my_IsReady = (\<lambda>s. sy_ready (ps_sync s))\<rparr>"

definition power_service :: "PowerConfig \<Rightarrow> service_env \<Rightarrow> power_state Server" where
  "power_service cfg env =
     server_New (\<lambda>_. sn_ping env) (sn_read env) (sn_read env) (Some (service_runner env))
       (Some (resolveGroupMembers (sn_get_group env))) (Some (service_syncer env))
       (pc_BulkMaxNodes cfg) (sn_parse_op env) (sn_op_string env)"

text \<open>A fresh process over a database.\<close>

definition power_boot :: "PowerConfig \<Rightarrow> pg_tables \<Rightarrow> power_state" where
  "power_boot cfg db =
     \<lparr>rs_mem = empty_mem, rs_db = db,
      rs_queue = newQueue (rc_queueSize (normalizeConfig (engine_config cfg))),
      ps_waiting = [], ps_sync = sync_New (sync_config cfg)\<rparr>"

text \<open>The libraries the workers call: Redfish, its zero credential, and SMD in a state.\<close>

record ('c, 'x, 'u) power_lib =
  pl_normalizeEndpoint :: "string \<Rightarrow> go_error + string"
  pl_redfish :: "bool \<Rightarrow> ('c, 'x sys_world_scheme) RedfishAPI"
  pl_cred :: 'c
  pl_patch :: "'u patch_component"

record turn_env =
  tn_store :: "nat \<Rightarrow> store_env"
  tn_overflow :: int
  tn_jitter :: "int \<Rightarrow> duration \<Rightarrow> duration"
  tn_base :: ctx
  tn_limiter :: "go_error option"

text \<open>One worker takes a task and runs it to its end; \<open>None\<close> is a task that never ends.\<close>

definition worker_turn ::
    "PowerConfig \<Rightarrow> ('c, 'x, 'u) power_lib \<Rightarrow> turn_env \<Rightarrow> 'u \<Rightarrow> power_state \<times> 'x sys_world_scheme
     \<Rightarrow> (power_state \<times> 'x sys_world_scheme) option" where
  "worker_turn cfg lib t u sw =
     (case sw of (s, w) \<Rightarrow>
        (case dequeue None False (rs_queue s) of
           DeqItem item q \<Rightarrow>
             (case executeTask PostgresStore (tn_store t) (tn_overflow t)
                     (normalizeConfig (engine_config cfg)) (tn_jitter t)
                     (ExecutePowerAction (pl_normalizeEndpoint lib) (pl_redfish lib)
                        (EmptyCredentialResolver (pl_cred lib)))
                     (ReadPowerState (pl_normalizeEndpoint lib) (pl_redfish lib)
                        (EmptyCredentialResolver (pl_cred lib)))
                     (NewVerifier (pc_VerificationWindow cfg) (pc_VerificationPoll cfg))
                     (Some (\<lambda>n st. fst (UpdateNodePowerState (Some (pl_patch lib)) n st u)))
                     (tn_base t) (tn_limiter t) item
                     (runner_state.truncate (s\<lparr>rs_queue := q\<rparr>), w) of
                None \<Rightarrow> None
              | Some (s1, w1) \<Rightarrow>
                  Some (s\<lparr>rs_mem := rs_mem s1, rs_db := rs_db s1, rs_queue := rs_queue s1\<rparr>, w1))
         | _ \<Rightarrow> Some (s, w)))"

text \<open>A handler that waited goes on sending.\<close>

definition resume_enqueue ::
    "(nat \<Rightarrow> go_error option \<times> bool) \<Rightarrow> queuedTask list \<Rightarrow> power_state
     \<Rightarrow> queuedTask list list \<times> power_state" where
  "resume_enqueue answers rest s =
     (case enqueue_all answers 0 rest (rs_queue s) of
        (EnqueueBlocked rest', q) \<Rightarrow> ([rest'], s\<lparr>rs_queue := q\<rparr>)
      | (EnqueueFailed _, q) \<Rightarrow>
          ([], s\<lparr>rs_queue := q, rs_mem := cancel_ctx (qt_transitionID (hd rest)) (rs_mem s)\<rparr>)
      | (_, q) \<Rightarrow> ([], s\<lparr>rs_queue := q\<rparr>))"

inductive service_step ::
    "PowerConfig \<Rightarrow> ('c, 'x, 'u) power_lib \<Rightarrow> power_state \<times> 'x sys_world_scheme
     \<Rightarrow> power_state \<times> 'x sys_world_scheme \<Rightarrow> bool" for cfg lib where
  request: "service_step cfg lib (s, w) (s', w)"
    if "uuids_ok (sn_store env 1)" "power_routes (power_service cfg env) r call s = (reply, s')"
| turn: "service_step cfg lib (s, w) sw" if "worker_turn cfg lib t u (s, w) = Some sw"
| cycle: "service_step cfg lib (s, w)
      (snd (on_syncer (SyncOnce (ListBMCEndpoints p) (ReplaceTopologyMappings q) env) s), w)"
| resume: "service_step cfg lib (s, w) (s'\<lparr>ps_waiting := ws1 @ left @ ws2\<rparr>, w)"
    if "ps_waiting s = ws1 @ rest # ws2" "resume_enqueue answers rest s = (left, s')"
| restart: "service_step cfg lib (s, w) (power_boot cfg (rs_db s), w)"

section \<open>Steps and the invariant\<close>

text \<open>Every task that waits to be executed is of a stored transition.\<close>

definition waiting_items :: "power_state \<Rightarrow> queuedTask set" where
  "waiting_items s = set (q_ch (rs_queue s)) \<union> (\<Union>rest \<in> set (ps_waiting s). set rest)"

definition service_inv :: "PowerConfig \<Rightarrow> power_state \<Rightarrow> bool" where
  "service_inv cfg s \<longleftrightarrow>
     run_inv s \<and> topo_ok (pt_map (rs_db s)) \<and> syncer_ok (ps_sync s) \<and>
     lq.bounded (rs_queue s) \<and>
     q_cap (rs_queue s) = q_cap (newQueue (rc_queueSize (normalizeConfig (engine_config cfg))) :: queuedTask Queue) \<and>
     (\<forall>x \<in> waiting_items s. row_of tr_ID (transition_rows s) (qt_transitionID x) \<noteq> None)"

text \<open>A request does one thing to the state at most.\<close>

lemma startTransition_effect:
  "startTransition sv r req s = (reply, s') \<Longrightarrow>
   s' = s \<or> (\<exists>runner sreq res. sv_transitionRunner sv = Some runner \<and>
     rn_StartTransition runner sreq s = (res, s'))"
  by (auto simp: startTransition_def transition_unavailable_def Let_def too_many_targets_def
      respondTargetResolutionError_def split: option.splits sum.splits if_splits prod.splits start_result.splits)

lemma power_routes_effect:
  assumes "power_routes sv r call s = (reply, s')"
  obtains (nothing) "s' = s"
  | (start) runner sreq res where "sv_transitionRunner sv = Some runner"
      "rn_StartTransition runner sreq s = (res, s')"
  | (abort) runner i err where "sv_transitionRunner sv = Some runner"
      "rn_AbortTransition runner i s = (err, s')"
  | (sync) sync err where "sv_mappingSync sv = Some sync" "my_Trigger sync (60 * second) s = (err, s')"
proof -
  note started = startTransition_effect [where sv = sv and r = r and s = s and s' = s' and reply = reply]
  have "s' = s \<or> (\<exists>runner sreq res. sv_transitionRunner sv = Some runner \<and>
        rn_StartTransition runner sreq s = (res, s')) \<or>
      (\<exists>runner i err. sv_transitionRunner sv = Some runner \<and> rn_AbortTransition runner i s = (err, s')) \<or>
      (\<exists>sync err. sv_mappingSync sv = Some sync \<and> my_Trigger sync (60 * second) s = (err, s'))"
  proof (cases call)
    case DeleteCall
    with assms show ?thesis
      by (auto simp: requireAnyScope_simp handleDeleteTransition_def Let_def
          split: option.splits if_splits prod.splits)
  next
    case SyncCall
    with assms show ?thesis
      by (auto simp: requireAnyScope_simp handleAdminSyncMappings_def
          split: option.splits if_splits prod.splits)
  qed (use assms started in \<open>auto simp: requireAnyScope_simp handleCreateTransition_def
      handleActionOn_def handleActionOff_def handleActionReboot_def handleActionReset_def
      split: if_splits sum.splits\<close>)
  with that show thesis by blast
qed

lemma run_keeps_fields:
  "run_keeps s s' \<Longrightarrow> rs_mem t = rs_mem s \<Longrightarrow> rs_db t = rs_db s \<Longrightarrow> rs_mem t' = rs_mem s' \<Longrightarrow>
   rs_db t' = rs_db s' \<Longrightarrow> run_keeps t t'"
  by (simp add: run_keeps_def run_inv_def)

lemma truncate_fields [simp]:
  "rs_mem (runner_state.truncate s) = rs_mem s" "rs_db (runner_state.truncate s) = rs_db s"
  "rs_queue (runner_state.truncate s) = rs_queue s"
  by (simp_all add: runner_state.truncate_def)

lemma run_inv_truncate [simp]: "run_inv (runner_state.truncate s) = run_inv s"
  by (simp add: run_inv_def)

text \<open>What a step does to the tasks that wait: the new ones are of new transitions.\<close>

definition items_keep ::
    "(pg_tables, 'x) runner_state_scheme \<Rightarrow> queuedTask set \<Rightarrow> (pg_tables, 'x) runner_state_scheme
     \<Rightarrow> queuedTask set \<Rightarrow> bool" where
  "items_keep s xs s' xs' \<longleftrightarrow>
     q_cap (rs_queue s') = q_cap (rs_queue s) \<and>
     (lq.bounded (rs_queue s) \<longrightarrow> lq.bounded (rs_queue s')) \<and>
     (\<forall>x \<in> xs' - xs. row_of tr_ID (transition_rows s') (qt_transitionID x) \<noteq> None)"

lemma enqueue_all_bounded:
  "enqueue_all answers k xs q = (r, q') \<Longrightarrow>
   q_cap q' = q_cap q \<and> (lq.bounded q \<longrightarrow> lq.bounded q')"
proof (induction answers k xs q rule: enqueue_all.induct)
  case (2 answers k x xs q)
  obtain ce pd where a: "answers k = (ce, pd)" by fastforce
  show ?case
  proof (cases "enqueue ce pd x q")
    case (EnqOk q1)
    with "2.prems" a have "enqueue_all answers (Suc k) xs q1 = (r, q')" by simp
    with "2.IH" [OF a [symmetric] EnqOk] enqueue_OkD [OF EnqOk] show ?thesis
      by (simp add: lq.bounded_def)
  qed (use "2.prems" a in auto)
qed auto

definition start_waiting :: "start_result \<Rightarrow> queuedTask set" where
  "start_waiting res = (case res of StartWaiting _ rest \<Rightarrow> set rest | _ \<Rightarrow> {})"

lemma StartTransition_items:
  assumes inv: "run_inv s" and uuid: "uuids_ok (env 1)"
    and run: "StartTransition PostgresStore env parse_op op_string running now now2 answers req s =
      (res, s')"
  shows "items_keep s (set (q_ch (rs_queue s))) s' (set (q_ch (rs_queue s')) \<union> start_waiting res)"
  using run
proof (cases rule: StartTransition_cases)
  case (closed tr tasks created createdTasks t1 r2 t2)
  then show ?thesis by (simp add: items_keep_def start_waiting_def split: sum.split)
next
  case (queued op tr tasks created createdTasks t1 er q)
  let ?items = "start_items op created (filter (\<lambda>k. tk_State k = TaskStatePending) createdTasks)"
  have "store_inv (pt_tr (rs_db s))" using inv by (simp add: run_inv_def)
  note c = CreateTransition_keeps [OF this uuid queued(1)]
  have "start_waiting res \<subseteq> set ?items"
    using enqueue_all_items [OF queued(3)]
    by (auto simp: start_waiting_def queued(6) split: enqueue_all_result.splits)
  moreover have "qt_transitionID x = tr_ID created" if "x \<in> set ?items" for x
    using that by (auto simp: start_items_def)
  moreover have "rs_queue s' = q" "transition_rows s' = t_transitions t1" by (simp_all add: queued(4))
  ultimately show ?thesis
    using enqueue_all_bounded [OF queued(3)] enqueue_all_items [OF queued(3)] c
    by (auto simp: items_keep_def)
qed (simp add: items_keep_def start_waiting_def)

lemma executeTask_queue:
  assumes "executeTask st env ov cfg jitter exec read v upd base limiter item (s, w) = Some (s', w')"
  shows "rs_queue s' = rs_queue s"
  using assms
  by (auto simp: executeTask_def markTransitionRunning_def completeTask_def recordTaskOutcome_def
      Let_def split: option.splits prod.splits)

text \<open>Stored transitions stay; one without a progress entry stays as it is.\<close>

definition rows_keep ::
    "(pg_tables, 'x) runner_state_scheme \<Rightarrow> (pg_tables, 'x) runner_state_scheme \<Rightarrow> bool" where
  "rows_keep s s' \<longleftrightarrow>
     (\<forall>i r. row_of tr_ID (transition_rows s) i = Some r \<longrightarrow>
        row_of tr_ID (transition_rows s') i \<noteq> None \<and>
        (rm_progress (rs_mem s) i = None \<longrightarrow>
           rm_progress (rs_mem s') i = None \<and> row_of tr_ID (transition_rows s') i = Some r))"

lemma run_keeps_rows: "run_keeps s s' \<Longrightarrow> rows_keep s s'"
  unfolding run_keeps_def rows_keep_def by blast

lemma service_keepsI:
  assumes inv: "service_inv cfg s" and run: "run_keeps s s'" and sync: "ps_sync s' = ps_sync s"
    and items: "items_keep s (waiting_items s) s' (waiting_items s')"
  shows "service_inv cfg s' \<and> rows_keep s s'"
proof -
  note i = inv [unfolded service_inv_def] and rows = run_keeps_rows [OF run]
  have "row_of tr_ID (transition_rows s') (qt_transitionID x) \<noteq> None" if "x \<in> waiting_items s'" for x
  proof (cases "x \<in> waiting_items s")
    case True
    with i rows show ?thesis unfolding rows_keep_def by blast
  next
    case False
    with items that show ?thesis by (simp add: items_keep_def)
  qed
  moreover have "run_inv s'" "pt_map (rs_db s') = pt_map (rs_db s)"
    using run by (simp_all add: run_keeps_def)
  ultimately show ?thesis
    using i sync items rows by (simp add: service_inv_def items_keep_def)
qed

lemma on_runner_run_keeps:
  assumes "run_inv s" "on_runner f s = (x, s')"
    and "\<And>t'. f (runner_state.truncate s) = (x, t') \<Longrightarrow> run_keeps (runner_state.truncate s) t'"
  shows "\<exists>t'. f (runner_state.truncate s) = (x, t') \<and> run_keeps s s' \<and>
    s' = s\<lparr>rs_mem := rs_mem t', rs_db := rs_db t', rs_queue := rs_queue t'\<rparr>"
proof -
  obtain t' where t': "f (runner_state.truncate s) = (x, t')"
    and s': "s' = s\<lparr>rs_mem := rs_mem t', rs_db := rs_db t', rs_queue := rs_queue t'\<rparr>"
    using assms(2) by (auto simp: on_runner_def split: prod.splits)
  have "run_keeps s s'"
    using assms(3) [OF t']
    by (simp add: run_keeps_def run_inv_def s')
  with t' s' show ?thesis by blast
qed

lemma service_start_keeps:
  assumes inv: "service_inv cfg s" and uuid: "uuids_ok (sn_store env 1)"
    and run: "rn_StartTransition (service_runner env) req s = (res, s')"
  shows "service_inv cfg s' \<and> rows_keep s s'"
proof -
  let ?f = "StartTransition PostgresStore (sn_store env) (sn_parse_op env) (sn_op_string env) True
    (sn_now env) (sn_now2 env) (sn_answers env) req"
  have i: "run_inv s" using inv by (simp add: service_inv_def)
  obtain res1 s1 where on: "on_runner ?f s = (res1, s1)" by fastforce
  have "run_keeps (runner_state.truncate s) t'" if "?f (runner_state.truncate s) = (res1, t')" for t'
    by (rule StartTransition_keeps [where env = "sn_store env"]) (use i uuid that in simp_all)
  then obtain t' where t': "?f (runner_state.truncate s) = (res1, t')" and keeps: "run_keeps s s1"
    and s1: "s1 = s\<lparr>rs_mem := rs_mem t', rs_db := rs_db t', rs_queue := rs_queue t'\<rparr>"
    using on_runner_run_keeps [OF i on] by blast
  have it: "items_keep (runner_state.truncate s) (set (q_ch (rs_queue (runner_state.truncate s)))) t'
      (set (q_ch (rs_queue t')) \<union> start_waiting res1)"
    by (rule StartTransition_items [where env = "sn_store env", OF _ _ t']) (use i uuid in simp_all)
  from run on have s': "res = res1" "rs_mem s' = rs_mem s1" "rs_db s' = rs_db s1"
    "rs_queue s' = rs_queue s1" "ps_sync s' = ps_sync s1"
    "(\<Union>rest \<in> set (ps_waiting s'). set rest) = (\<Union>rest \<in> set (ps_waiting s1). set rest) \<union> start_waiting res1"
    by (auto simp: service_runner_def keep_waiting_def start_waiting_def split: start_result.splits)
  have "items_keep s (waiting_items s) s' (waiting_items s')"
    using it by (auto simp: items_keep_def waiting_items_def s' s1)
  moreover have "run_keeps s s'" using keeps s' by (auto intro: run_keeps_fields)
  ultimately show ?thesis using service_keepsI [OF inv] s' s1 by simp
qed

lemma service_abort_keeps:
  assumes inv: "service_inv cfg s" and run: "rn_AbortTransition (service_runner env) i s = (e, s')"
  shows "service_inv cfg s' \<and> rows_keep s s'"
proof -
  let ?f = "AbortTransition PostgresStore (sn_store env 0) (sn_now env) i"
  have ri: "run_inv s" using inv by (simp add: service_inv_def)
  have on: "on_runner ?f s = (e, s')" using run by (simp add: service_runner_def)
  have "run_keeps (runner_state.truncate s) t'" if "?f (runner_state.truncate s) = (e, t')" for t'
    by (rule AbortTransition_keeps [OF _ that]) (use ri in simp)
  then obtain t' where t': "?f (runner_state.truncate s) = (e, t')" and keeps: "run_keeps s s'"
    and s': "s' = s\<lparr>rs_mem := rs_mem t', rs_db := rs_db t', rs_queue := rs_queue t'\<rparr>"
    using on_runner_run_keeps [OF ri on] by blast
  have "rs_queue t' = rs_queue s"
    using t' by (auto simp: AbortTransition_def Let_def split: if_splits prod.splits)
  then show ?thesis using service_keepsI [OF inv keeps]
    by (simp add: s' items_keep_def waiting_items_def)
qed

lemma service_sync_keeps:
  assumes inv: "service_inv cfg s"
    and run: "SyncOnce (ListBMCEndpoints p) (ReplaceTopologyMappings q) env (ps_sync s) (pt_map (rs_db s)) =
      (r, y, d)"
  defines "s' \<equiv> s\<lparr>ps_sync := y, rs_db := (rs_db s)\<lparr>pt_map := d\<rparr>\<rparr>"
  shows "service_inv cfg s' \<and> rows_keep s s'"
proof -
  note i = inv [unfolded service_inv_def]
  have "topo_ok (pt_map (rs_db s))" "syncer_ok (ps_sync s)" using i by blast+
  then have "topo_ok d" "syncer_ok y"
    using SyncOnce_pg [OF _ run] SyncOnce_status [OF run] by (auto split: option.splits)
  with i show ?thesis
    by (auto simp: service_inv_def run_inv_def waiting_items_def rows_keep_def s'_def)
qed

lemma service_trigger_keeps:
  assumes inv: "service_inv cfg s" and run: "my_Trigger (service_syncer env) t s = (e, s')"
  shows "service_inv cfg s' \<and> rows_keep s s'"
proof -
  have same: "service_inv cfg s \<and> rows_keep s s" using inv by (simp add: rows_keep_def)
  note go = service_sync_keeps [OF inv, where p = "sn_read env" and q = "sn_replace env"]
  show ?thesis
  proof (cases "sn_trigger env")
    case (Untaken x1)
    with run same show ?thesis by (simp add: service_syncer_def on_syncer_def Trigger_def)
  next
    case (Taken x2)
    with run show ?thesis
      by (auto simp: service_syncer_def on_syncer_def Trigger_def split: prod.splits intro!: go)
  next
    case (Left x31 x32)
    with run show ?thesis
      by (auto simp: service_syncer_def on_syncer_def Trigger_def split: prod.splits intro!: go)
  qed
qed

lemma service_turn_keeps:
  assumes inv: "service_inv cfg s" and run: "worker_turn cfg lib t u (s, w) = Some (s', w')"
  shows "service_inv cfg s' \<and> rows_keep s s'"
proof (cases "\<exists>item q. dequeue None False (rs_queue s) = DeqItem item q")
  case False
  with run have "s' = s" by (auto simp: worker_turn_def split: deq_result.splits)
  with inv show ?thesis by (simp add: rows_keep_def)
next
  case True
  then obtain item q where deq: "dequeue None False (rs_queue s) = DeqItem item q" by blast
  have ri: "run_inv s" using inv by (simp add: service_inv_def)
  let ?s = "s\<lparr>rs_queue := q\<rparr>"
  from run deq obtain s1 where
    ex: "executeTask PostgresStore (tn_store t) (tn_overflow t) (normalizeConfig (engine_config cfg))
       (tn_jitter t)
       (ExecutePowerAction (pl_normalizeEndpoint lib) (pl_redfish lib) (EmptyCredentialResolver (pl_cred lib)))
       (ReadPowerState (pl_normalizeEndpoint lib) (pl_redfish lib) (EmptyCredentialResolver (pl_cred lib)))
       (NewVerifier (pc_VerificationWindow cfg) (pc_VerificationPoll cfg))
       (Some (\<lambda>n st. fst (UpdateNodePowerState (Some (pl_patch lib)) n st u)))
       (tn_base t) (tn_limiter t) item (runner_state.truncate ?s, w) = Some (s1, w')"
    and s': "s' = s\<lparr>rs_mem := rs_mem s1, rs_db := rs_db s1, rs_queue := rs_queue s1\<rparr>"
    by (auto simp: worker_turn_def split: option.splits)
  have "run_inv (runner_state.truncate ?s)" using ri by (simp add: run_inv_def)
  from executeTask_keeps [OF this ex] have keeps: "run_keeps s s'"
    by (rule run_keeps_fields) (simp_all add: s')
  have q: "rs_queue s' = q" using executeTask_queue [OF ex] by (simp add: s')
  note dq = dequeue_ItemD [OF deq]
  have ch: "q_ch (rs_queue s) = item # q_ch q" by (rule dq [THEN conjunct1])
  have cap: "q_cap q = q_cap (rs_queue s)"
    using arg_cong [OF dq [THEN conjunct2], of q_cap] by simp
  have waits: "ps_waiting s' = ps_waiting s" by (simp add: s')
  have "waiting_items s' \<subseteq> waiting_items s"
    unfolding waiting_items_def q waits ch by auto
  moreover have "lq.bounded (rs_queue s) \<longrightarrow> lq.bounded q" by (simp add: lq.bounded_def ch cap)
  ultimately have "items_keep s (waiting_items s) s' (waiting_items s')"
    using q cap by (auto simp: items_keep_def)
  with service_keepsI [OF inv keeps] show ?thesis by (simp add: s')
qed

lemma service_resume_keeps:
  assumes inv: "service_inv cfg s" and ws: "ps_waiting s = ws1 @ rest # ws2"
    and run: "resume_enqueue answers rest s = (left, s1)"
  defines "s' \<equiv> s1\<lparr>ps_waiting := ws1 @ left @ ws2\<rparr>"
  shows "service_inv cfg s' \<and> rows_keep s s'"
proof -
  obtain r q where enq: "enqueue_all answers 0 rest (rs_queue s) = (r, q)" by fastforce
  note items = enqueue_all_items [OF enq] and bounded = enqueue_all_bounded [OF enq]
  have out: "rs_queue s1 = q" "rs_db s1 = rs_db s" "ps_sync s1 = ps_sync s"
    "rm_progress (rs_mem s1) = rm_progress (rs_mem s)"
    and left: "(\<Union>xs \<in> set left. set xs) \<subseteq> set rest"
    using run enq items by (auto simp: resume_enqueue_def split: enqueue_all_result.splits)
  have ri: "run_inv s'"
    using inv out by (simp add: service_inv_def run_inv_def s'_def mem_ok_def entries_stored_def)
  then have keeps: "run_keeps s s'" by (rule run_keepsI) (simp_all add: s'_def out)
  have "waiting_items s' \<subseteq> waiting_items s"
    using items left ws out by (auto simp: waiting_items_def s'_def)
  with bounded out have "items_keep s (waiting_items s) s' (waiting_items s')"
    by (auto simp: items_keep_def s'_def)
  with service_keepsI [OF inv keeps] show ?thesis by (simp add: s'_def out)
qed

lemma service_boot_inv:
  assumes "store_inv (pt_tr db)" "topo_ok (pt_map db)"
  shows "service_inv cfg (power_boot cfg db)"
  using assms
  by (simp add: service_inv_def power_boot_def run_inv_def mem_ok_def entries_stored_def
      empty_mem_def sync_New_ok newQueue_bounded waiting_items_def)
    (simp add: newQueue_def)

lemma service_restart_keeps:
  "service_inv cfg s \<Longrightarrow>
   service_inv cfg (power_boot cfg (rs_db s)) \<and> rows_keep s (power_boot cfg (rs_db s))"
  using service_boot_inv [of "rs_db s" cfg]
  by (simp add: service_inv_def run_inv_def rows_keep_def power_boot_def empty_mem_def)

lemma service_step_keeps:
  assumes "service_step cfg lib sw sw'" "service_inv cfg (fst sw)"
  shows "service_inv cfg (fst sw') \<and> rows_keep (fst sw) (fst sw')"
  using assms
proof (cases rule: service_step.cases)
  case (request env r call s reply s' w)
  with assms(2) have inv: "service_inv cfg s" by simp
  from request(4) have "service_inv cfg s' \<and> rows_keep s s'"
  proof (cases rule: power_routes_effect)
    case nothing
    with inv show ?thesis by (simp add: rows_keep_def)
  next
    case (start runner sreq res)
    with service_start_keeps [OF inv request(3), of sreq res s'] show ?thesis
      by (simp add: power_service_def server_New_def)
  next
    case (abort runner i err)
    with service_abort_keeps [OF inv, of env i err s'] show ?thesis
      by (simp add: power_service_def server_New_def)
  next
    case (sync sync err)
    with service_trigger_keeps [OF inv, of env _ err s'] show ?thesis
      by (simp add: power_service_def server_New_def)
  qed
  with request show ?thesis by simp
next
  case (turn t u s w)
  with assms(2) service_turn_keeps [of cfg s lib t u w] show ?thesis by (cases sw') auto
next
  case (cycle s w p q env)
  with assms(2) service_sync_keeps [of cfg s p q env] show ?thesis
    by (auto simp: on_syncer_def split: prod.split)
next
  case (resume s ws1 rest ws2 answers left s' w)
  with assms(2) service_resume_keeps [of cfg s ws1 rest ws2 answers left s'] show ?thesis by simp
next
  case (restart s w)
  with assms(2) service_restart_keeps [of cfg s] show ?thesis by simp
qed

section \<open>What an accepted start has stored\<close>

lemma GetTransition_Inr:
  "GetTransition pg t i = Inr r \<Longrightarrow> row_of tr_ID (t_transitions t) (trim_space i) = Some r"
  by (auto simp: GetTransition_def Let_def scanTransition_def split: if_splits option.splits)

lemma created_tasks:
  assumes inv: "store_inv t" and uuid: "uuids_ok env"
    and run: "CreateTransition env tr tasks t = (Inr (ctr, ctks), t')"
  shows "map tk_NodeID (filter (\<lambda>k. tk_TransitionID k = tr_ID ctr) (t_tasks t')) =
    map (trim_space \<circ> tk_NodeID) tasks"
proof -
  note c = CreateTransition_Inr [OF run]
  have keep: "store_inv t'" "row_of tr_ID (t_transitions t') (tr_ID ctr) = Some ctr"
    using CreateTransition_keeps [OF inv uuid run] by blast+
  have id: "trim_space (tr_ID ctr) = tr_ID ctr" by (rule store_inv_rows(2) [OF keep])
  have "row_of tr_ID (t_transitions t) (tr_ID ctr) = None" using c by blast
  moreover have "tk_TransitionID ` set (t_tasks t) \<subseteq> tr_ID ` set (t_transitions t)"
    using inv by (simp add: store_inv_def tr_tables_ok_def)
  ultimately have "tk_TransitionID k \<noteq> tr_ID ctr" if "k \<in> set (t_tasks t)" for k
    using that by (metis image_subset_iff row_of_None)
  then have "filter (\<lambda>k. tk_TransitionID k = tr_ID ctr) (t_tasks t) = []"
    by (simp add: filter_empty_conv)
  moreover have "list_all2 (stored_as (tr_ID ctr)) tasks ctks" and tk: "t_tasks t' = t_tasks t @ map task_row ctks"
    using c by blast+
  from this(1) have "filter (\<lambda>k. tk_TransitionID k = tr_ID ctr) (map task_row ctks) = map task_row ctks \<and>
      map tk_NodeID ctks = map (trim_space \<circ> tk_NodeID) tasks"
    by (induction rule: list_all2_induct) (simp_all add: stored_as_def id)
  ultimately show ?thesis by (simp add: tk comp_def)
qed

lemma started_is_stored:
  assumes inv: "run_inv s" and uuid: "uuids_ok (env 1)"
    and run: "StartTransition PostgresStore env parse_op op_string running now now2 answers req s =
      (StartOk tr, s')"
  shows "row_of tr_ID (transition_rows s') (tr_ID tr) = Some tr \<and>
    map tk_NodeID (filter (\<lambda>k. tk_TransitionID k = tr_ID tr) (t_tasks (pt_tr (rs_db s')))) =
      map trim_space (normalizeNodeIDs (sr_NodeIDs req))"
  using run
proof (cases rule: StartTransition_cases)
  case (closed plan tasks created createdTasks t1 r2 t2)
  have st: "store_inv (pt_tr (rs_db s))" using inv by (simp add: run_inv_def)
  note c = CreateTransition_keeps [OF st uuid closed(1)]
  have id: "trim_space (tr_ID created) = tr_ID created" using c store_inv_rows(2) by blast
  from closed(5) have r2: "r2 = Inr tr" by (cases r2) simp_all
  from closed(3) have "t_tasks t2 = t_tasks t1 \<and> row_of tr_ID (t_transitions t2) (tr_ID created) = Some tr"
  proof (cases rule: UpdateTransition_cases)
    case (written row ev)
    from written(4) have "GetTransition (reread (se_pg (env 2))) t2 (tr_ID created) = Inr tr"
      by (simp add: r2 id)
    from GetTransition_Inr [OF this] written(2) show ?thesis by (simp add: id)
  qed (use r2 in simp)
  moreover from this have "tr_ID tr = tr_ID created" using row_of_SomeD by fastforce
  ultimately show ?thesis
    using created_tasks [OF st uuid closed(1)] by (simp add: closed(4) closed(2) flip: map_map)
next
  case (queued op plan tasks created createdTasks t1 er q)
  have st: "store_inv (pt_tr (rs_db s))" using inv by (simp add: run_inv_def)
  have "tr = created" using queued(6) by (cases er) simp_all
  with CreateTransition_keeps [OF st uuid queued(1)] created_tasks [OF st uuid queued(1)]
  show ?thesis by (simp add: queued(4) queued(2) flip: map_map)
qed simp

lemma GetTransition_no_faults:
  "row_of tr_ID (t_transitions t) i = Some r \<Longrightarrow> trim_space i = i \<Longrightarrow> i \<noteq> [] \<Longrightarrow>
   GetTransition no_faults t i = Inr r"
  by (simp add: GetTransition_def scanTransition_def)

lemma ListTransitionTasks_rows:
  "ListTransitionTasks pg t i = Inr tasks \<Longrightarrow> trim_space i = i \<Longrightarrow> i \<noteq> [] \<Longrightarrow>
   tasks = map scanTransitionTask (sort_key tk_NodeID (filter (\<lambda>r. tk_TransitionID r = i) (t_tasks t)))"
  by (auto simp: ListTransitionTasks_def split: option.splits sum.splits dest: read_rows_Inr)

lemma ListTransitionTasks_no_faults:
  "trim_space i = i \<Longrightarrow> i \<noteq> [] \<Longrightarrow> ListTransitionTasks no_faults t i =
   Inr (map scanTransitionTask (sort_key tk_NodeID (filter (\<lambda>r. tk_TransitionID r = i) (t_tasks t))))"
  by (simp add: ListTransitionTasks_def)

lemma accepted_start:
  assumes "startTransition (power_service cfg env) r req s =
      (RespondJSON 202 location (TransitionBody res), s')"
  obtains nodeIDs tr tasks sreq t' where
    "resolveTargets (Some (resolveGroupMembers (sn_get_group env))) (tq_Nodes req) (tq_Groups req) = Inr nodeIDs"
    "int (length nodeIDs) \<le> pc_BulkMaxNodes cfg" "sr_NodeIDs sreq = nodeIDs"
    "StartTransition PostgresStore (sn_store env) (sn_parse_op env) (sn_op_string env) True
       (sn_now env) (sn_now2 env) (sn_answers env) sreq (runner_state.truncate s) = (StartOk tr, t')"
    "s' = s\<lparr>rs_mem := rs_mem t', rs_db := rs_db t', rs_queue := rs_queue t'\<rparr>"
    "ListTransitionTasks (sn_read env) (pt_tr (rs_db t')) (tr_ID tr) = Inr tasks"
    "res = toTransitionResource tr tasks" "location = Some (''/power/v1/transitions/'' @ tr_ID tr)"
proof -
  let ?run = "\<lambda>sreq. on_runner (StartTransition PostgresStore (sn_store env) (sn_parse_op env)
    (sn_op_string env) True (sn_now env) (sn_now2 env) (sn_answers env) sreq) s"
  note defs = startTransition_def power_service_def server_New_def transition_unavailable_def
    too_many_targets_def respondTargetResolutionError_def
  from assms obtain operation nodeIDs where op: "sn_parse_op env (tq_Operation req) = Inr operation"
    and ts: "resolveTargets (Some (resolveGroupMembers (sn_get_group env))) (tq_Nodes req) (tq_Groups req) = Inr nodeIDs"
    and max: "int (length nodeIDs) \<le> pc_BulkMaxNodes cfg"
    by (auto simp: defs split: sum.splits if_splits)
  define sreq where "sreq = \<lparr>sr_RequestID = resolvedRequestID r (tq_RequestID req),
    sr_RequestedBy = requestedByFromContext r, sr_Operation = sn_op_string env operation,
    sr_NodeIDs = nodeIDs, sr_DryRun = tq_DryRun req\<rparr>"
  have sreq: "sr_NodeIDs sreq = nodeIDs" by (simp add: sreq_def)
  obtain res1 s1 where run: "keep_waiting (?run sreq) = (res1, s1)" by fastforce
  have "startTransition (power_service cfg env) r req s =
      (case res1 of
         StartErr err \<Rightarrow> (respondStartTransitionError err, s1)
       | StartWaiting _ _ \<Rightarrow> (NoReply, s1)
       | StartPanic \<Rightarrow> (HandlerPanic, s1)
       | StartOk tr \<Rightarrow>
           (case ListTransitionTasks (sn_read env) (pt_tr (rs_db s1)) (tr_ID tr) of
              Inl err \<Rightarrow> (RespondProblem 500 ''failed to load transition tasks'', s1)
            | Inr tasks \<Rightarrow> (RespondJSON 202 (Some (''/power/v1/transitions/'' @ tr_ID tr))
                (TransitionBody (toTransitionResource tr tasks)), s1)))"
    using op ts max run [unfolded sreq_def]
    by (simp add: defs service_runner_def pg_transition_store_def Let_def split: start_result.split sum.split)
  note step = this [unfolded assms]
  have "respondStartTransitionError err \<noteq> RespondJSON st l b" for err st l b
    by (simp add: respondStartTransitionError_def)
  note step = step this this [symmetric]
  obtain tr where ok: "res1 = StartOk tr" using step by (cases res1) auto
  obtain tasks where tasks: "ListTransitionTasks (sn_read env) (pt_tr (rs_db s1)) (tr_ID tr) = Inr tasks"
    using step(1) unfolding ok by (auto split: sum.splits)
  have start: "keep_waiting (?run sreq) = (StartOk tr, s1)"
    and out: "s' = s1" "res = toTransitionResource tr tasks"
      "location = Some (''/power/v1/transitions/'' @ tr_ID tr)"
    using run step(1) unfolding ok by (simp_all add: tasks)
  from start have "?run sreq = (StartOk tr, s1)"
    by (auto simp: keep_waiting_def split: prod.splits start_result.splits)
  then obtain t' where "StartTransition PostgresStore (sn_store env) (sn_parse_op env) (sn_op_string env) True
       (sn_now env) (sn_now2 env) (sn_answers env) sreq (runner_state.truncate s) = (StartOk tr, t')"
    "s1 = s\<lparr>rs_mem := rs_mem t', rs_db := rs_db t', rs_queue := rs_queue t'\<rparr>"
    by (auto simp: on_runner_def split: prod.splits)
  with that [OF ts max sreq this(1) _ _ out(2,3)] tasks out(1) show thesis by simp
qed

text \<open>The nodes of an accepted start, as its answer lists them.\<close>

lemma normalizeNodeIDs_id:
  assumes "sorted ns" "distinct ns" "\<And>n. n \<in> set ns \<Longrightarrow> n \<noteq> [] \<and> trim_space n = n"
  shows "normalizeNodeIDs ns = ns" "map trim_space ns = ns"
proof -
  have "nonblank ns = set ns" using assms(3) by (force simp: nonblank_def image_iff)
  then show "normalizeNodeIDs ns = ns"
    using assms(1,2) by (intro sorted_distinct_set_unique) simp_all
  show "map trim_space ns = ns" using assms(3) by (simp add: map_idI)
qed

lemma resource_nodes:
  assumes "map tk_NodeID rows = ns" "sorted ns" "map trim_space ns = ns"
  shows "map xs_NodeID (xp_Tasks (xr_Spec (toTransitionResource tr
    (map scanTransitionTask (sort_key tk_NodeID rows))))) = ns"
proof -
  have "sort_key tk_NodeID rows = rows" using assms(1,2) by (simp add: sort_key_id_if_sorted)
  moreover have "map (\<lambda>k. trim_space (tk_NodeID k)) rows = map trim_space (map tk_NodeID rows)" by simp
  ultimately show ?thesis
    using assms(1,3) by (simp add: toTransitionResource_def task_spec_def scanTransitionTask_def
        task_row_def comp_def)
qed

section \<open>Properties\<close>

text \<open>Whatever the service has done since it was booted.\<close>

lemma service_run_inv:
  assumes "(service_step cfg lib)\<^sup>*\<^sup>* (power_boot cfg db, w) sw"
    and "store_inv (pt_tr db)" "topo_ok (pt_map db)"
  shows "service_inv cfg (fst sw) \<and> (\<forall>i. row_of tr_ID (t_transitions (pt_tr db)) i \<noteq> None \<longrightarrow>
    row_of tr_ID (transition_rows (fst sw)) i \<noteq> None)"
  using assms(1)
proof (induction rule: rtranclp_induct)
  case base
  show ?case using service_boot_inv [OF assms(2,3), of cfg] by (simp add: power_boot_def)
next
  case (step sw sw')
  then show ?case using service_step_keeps [OF step(2)] unfolding rows_keep_def by blast
qed

text \<open>
  C12. The running service keeps its state consistent: over a database that is, after any sequence of
  requests, executed tasks, sync cycles, resumed handlers and restarts, keys, foreign key and
  outbox of the tables hold, every progress entry is sound and is of a stored transition with its
  creation time, every waiting task is of a stored transition, the queue keeps its capacity, the
  syncer tells the truth, and no stored transition is ever removed.
\<close>

theorem service_invariant:
  assumes "(service_step cfg lib)\<^sup>*\<^sup>* (power_boot cfg db, w) (s, w')"
    and "store_inv (pt_tr db)" "topo_ok (pt_map db)"
  shows "service_inv cfg s \<and> (\<forall>i. row_of tr_ID (t_transitions (pt_tr db)) i \<noteq> None \<longrightarrow>
    row_of tr_ID (transition_rows s) i \<noteq> None)"
  using service_run_inv [OF assms] by simp

text \<open>What a restart leaves without a progress entry is never touched again.\<close>

lemma stranded_rows:
  assumes "(service_step cfg lib)\<^sup>*\<^sup>* (power_boot cfg db, w) sw"
    and "store_inv (pt_tr db)" "topo_ok (pt_map db)"
    and "row_of tr_ID (t_transitions (pt_tr db)) i = Some row"
  shows "service_inv cfg (fst sw) \<and> rm_progress (rs_mem (fst sw)) i = None \<and>
    row_of tr_ID (transition_rows (fst sw)) i = Some row"
  using assms(1)
proof (induction rule: rtranclp_induct)
  case base
  show ?case
    using service_boot_inv [OF assms(2,3), of cfg] assms(4) by (simp add: power_boot_def empty_mem_def)
next
  case (step sw sw')
  then show ?case using service_step_keeps [OF step(2)] unfolding rows_keep_def by blast
qed

text \<open>
  C13. A restart strands the transitions in progress: no step of the new process ever changes the
  stored record of a transition it found in the database, so a pending or running one keeps that
  state, and a request to abort it is accepted with 202, changes nothing and reports the old state.
\<close>

theorem restart_strands:
  assumes "(service_step cfg lib)\<^sup>*\<^sup>* (power_boot cfg db, w) (s, w')"
    and "store_inv (pt_tr db)" "topo_ok (pt_map db)"
    and "row_of tr_ID (t_transitions (pt_tr db)) i = Some row"
    and "call_permitted r DeleteCall" "trim_space (hq_ID r) = i" "sn_read env = no_faults"
  shows "row_of tr_ID (transition_rows s) i = Some row \<and>
    (\<exists>tasks. power_routes (power_service cfg env) r DeleteCall s =
      (RespondJSON 202 None (TransitionBody (toTransitionResource row tasks)), s))"
proof -
  note keep = stranded_rows [OF assms(1-4), unfolded fst_conv]
  then have row: "row_of tr_ID (transition_rows s) i = Some row"
    and none: "rm_progress (rs_mem s) i = None" and inv: "store_inv (pt_tr (rs_db s))"
    by (simp_all add: service_inv_def run_inv_def)
  have ne: "i \<noteq> []" using inv row_of_SomeD [OF row] by (auto simp: store_inv_def)
  have id: "trim_space i = i" by (rule store_inv_rows(2) [OF inv row])
  have abort: "on_runner (AbortTransition PostgresStore (sn_store env 0) (sn_now env) i) s =
      (Some (Sentinel ErrTransitionNotFound), s)"
    by (simp add: on_runner_def AbortTransition_def abort_section_def none ne id persist_section_def)
  have "loadTransition (pg_transition_store no_faults) i s =
      Inr (row, map scanTransitionTask (sort_key tk_NodeID
        (filter (\<lambda>k. tk_TransitionID k = i) (t_tasks (pt_tr (rs_db s))))))"
    using GetTransition_no_faults [OF row id ne] ListTransitionTasks_no_faults [OF id ne]
    by (simp add: loadTransition_def pg_transition_store_def)
  then have "handleDeleteTransition (power_service cfg env) r s =
      (RespondJSON 202 None (TransitionBody (toTransitionResource row (map scanTransitionTask
        (sort_key tk_NodeID (filter (\<lambda>k. tk_TransitionID k = i) (t_tasks (pt_tr (rs_db s)))))))), s)"
    using abort ne assms(6,7)
    by (simp add: handleDeleteTransition_def power_service_def server_New_def service_runner_def
        respond_loaded_def errors_is_simps)
  with row assms(5) show ?thesis
    by (auto simp: requireAnyScope_simp call_permitted_def split: option.splits)
qed

text \<open>
  C14. An accepted start reads back: the 202 answer lists exactly the nodes the request names, itself
  or through its groups, sorted, without repetition and within the configured bulk limit, and gives
  the location under which a GET in the state it leaves answers with the same resource.
\<close>

theorem accepted_start_reads_back:
  assumes "service_inv cfg s" "uuids_ok (sn_store env 1)"
    and "power_routes (power_service cfg env) r (CreateCall (Inr req)) s =
      (RespondJSON 202 location (TransitionBody res), s')"
    and "call_permitted r' GetCall" "hq_ID r' = xr_ID res" "sn_read env' = no_faults"
  shows "location = Some (''/power/v1/transitions/'' @ xr_ID res) \<and>
    power_routes (power_service cfg env') r' GetCall s' =
      (RespondJSON 200 None (TransitionBody res), s') \<and>
    (case map xs_NodeID (xp_Tasks (xr_Spec res)) of nodes \<Rightarrow>
       sorted nodes \<and> distinct nodes \<and> int (length nodes) \<le> pc_BulkMaxNodes cfg \<and>
       set nodes = requested_nodes (Some (resolveGroupMembers (sn_get_group env)))
         (ar_Nodes req) (ar_Groups req))"
proof -
  let ?req = "action_request (trim_space (ar_Operation req)) req"
  have "startTransition (power_service cfg env) r ?req s =
      (RespondJSON 202 location (TransitionBody res), s')"
    using assms(3) by (auto simp: requireAnyScope_simp handleCreateTransition_def split: if_splits)
  then obtain ns tr tasks sreq t' where
    ts: "resolveTargets (Some (resolveGroupMembers (sn_get_group env))) (ar_Nodes req) (ar_Groups req) = Inr ns"
    and max: "int (length ns) \<le> pc_BulkMaxNodes cfg" and nodes: "sr_NodeIDs sreq = ns"
    and start: "StartTransition PostgresStore (sn_store env) (sn_parse_op env) (sn_op_string env) True
       (sn_now env) (sn_now2 env) (sn_answers env) sreq (runner_state.truncate s) = (StartOk tr, t')"
    and s': "s' = s\<lparr>rs_mem := rs_mem t', rs_db := rs_db t', rs_queue := rs_queue t'\<rparr>"
    and tasks: "ListTransitionTasks (sn_read env) (pt_tr (rs_db t')) (tr_ID tr) = Inr tasks"
    and res: "res = toTransitionResource tr tasks" and loc: "location = Some (''/power/v1/transitions/'' @ tr_ID tr)"
    by (elim accepted_start) (simp add: action_request_def)
  have inv: "run_inv (runner_state.truncate s)" using assms(1) by (simp add: service_inv_def)
  note targets = resolveTargets_Inr [OF ts]
  have trimmed: "n \<noteq> [] \<and> trim_space n = n" if "n \<in> set ns" for n
    using that targets requested_nodes_trimmed by blast
  have ids: "normalizeNodeIDs ns = ns" "map trim_space ns = ns"
    using normalizeNodeIDs_id targets trimmed by blast+
  have st: "store_inv (pt_tr (rs_db t'))"
    using run_keeps_inv [OF StartTransition_keeps [OF inv assms(2) start]] by (simp add: run_inv_def)
  define rows where "rows = filter (\<lambda>k. tk_TransitionID k = tr_ID tr) (t_tasks (pt_tr (rs_db t')))"
  have row: "row_of tr_ID (t_transitions (pt_tr (rs_db t'))) (tr_ID tr) = Some tr"
    and rows: "map tk_NodeID rows = ns"
    using started_is_stored [OF inv assms(2) start] targets
    by (simp_all add: rows_def nodes ids)
  have id: "trim_space (tr_ID tr) = tr_ID tr" by (rule store_inv_rows(2) [OF st row])
  have ne: "tr_ID tr \<noteq> []" using st row_of_SomeD [OF row] by (auto simp: store_inv_def)
  have xr: "xr_ID res = tr_ID tr" by (simp add: res toTransitionResource_def id)
  have body: "tasks = map scanTransitionTask (sort_key tk_NodeID rows)"
    using ListTransitionTasks_rows [OF tasks id ne] by (simp add: rows_def)
  have "loadTransition (pg_transition_store no_faults) (tr_ID tr) s' = Inr (tr, tasks)"
    using GetTransition_no_faults [OF row id ne] ListTransitionTasks_no_faults [OF id ne]
    by (simp add: loadTransition_def pg_transition_store_def s' body rows_def)
  then have "handleGetTransition (power_service cfg env') r' s' = RespondJSON 200 None (TransitionBody res)"
    using assms(5,6) ne id unfolding xr by (simp add: handleGetTransition_def power_service_def
        server_New_def respond_loaded_def) (simp add: res)
  moreover have "map xs_NodeID (xp_Tasks (xr_Spec res)) = ns"
    unfolding res body by (rule resource_nodes [OF rows]) (use targets ids in simp_all)
  ultimately show ?thesis
    using assms(4) loc max targets
    by (auto simp: requireAnyScope_simp call_permitted_def xr split: option.splits)
qed

section \<open>Witnesses\<close>

definition sample_cfg :: PowerConfig where
  "sample_cfg =
     \<lparr>pc_ListenAddr = [], pc_DBDSN = [], pc_SMDURL = [], pc_NATSURL = [], pc_NATSStream = [],
      pc_LogLevel = [], pc_JWKSURL = [], pc_InternalToken = [], pc_PrometheusAddr = [],
      pc_DevMode = False, pc_MetricsEnabled = False, pc_TracesEnabled = False,
      pc_MappingSyncInterval = 0, pc_MappingSyncOnStartup = False, pc_DefaultCredentialID = [],
      pc_BulkMaxNodes = 20, pc_RetryAttempts = 0, pc_RetryBackoffBase = 0, pc_RetryBackoffMax = 0,
      pc_TransitionDeadline = 0, pc_VerificationWindow = 0, pc_VerificationPoll = 0,
      pc_GlobalConcurrency = 1, pc_PerBMCConcurrency = 0\<rparr>"

definition sample_service_env :: service_env where
  "sample_service_env =
     \<lparr>sn_ping = None, sn_read = no_faults, sn_store = (\<lambda>_. sample_env), sn_replace = no_faults,
      sn_trigger = Untaken (Sentinel Canceled), sn_now = 50, sn_now2 = 60, sn_answers = (\<lambda>_. (None, False)),
      sn_get_group = (\<lambda>_. Inr []), sn_parse_op = (\<lambda>_. Inr OpOn), sn_op_string = (\<lambda>_. ''On'')\<rparr>"

text \<open>A caller allowed every call.\<close>

definition sample_caller :: "string \<Rightarrow> HttpReq" where
  "sample_caller i = \<lparr>hq_Query = [], hq_XRequestID = [], hq_Authorization = [],
     hq_Claims = Some \<lparr>cl_Subject = ''ops'', cl_HasScope = (\<lambda>_. True)\<rparr>, hq_ID = i\<rparr>"

definition sample_db :: "tr_tables \<Rightarrow> pg_tables" where
  "sample_db t = \<lparr>pt_map = sample_tables, pt_tr = t\<rparr>"

definition no_rows :: tr_tables where
  "no_rows = \<lparr>t_transitions = [], t_tasks = [], t_outbox = []\<rparr>"

lemma no_rows_inv: "store_inv no_rows"
  by (simp add: store_inv_def tr_tables_ok_def unique_keys_def no_rows_def)

lemma sample_caller_permitted: "call_permitted (sample_caller i) call"
  by (simp add: call_permitted_def sample_caller_def)

lemma sample_uuids: "uuids_ok (sn_store sample_service_env k)"
  by (simp add: uuids_ok_def sample_service_env_def sample_env_uuid)

lemma sample_queue_size: "rc_queueSize (normalizeConfig (engine_config sample_cfg)) = 4"
  by (simp add: normalizeConfig_def engine_config_def sample_cfg_def Let_def wrap64_def)

lemma sample_boot_truncate:
  "runner_state.truncate (power_boot sample_cfg (sample_db no_rows)) = start_state 4"
  by (simp add: runner_state.truncate_def power_boot_def start_state_def sample_queue_size
      sample_db_def no_rows_def)

definition sample_body :: resetActionRequest where
  "sample_body = \<lparr>ar_RequestID = ''r-1'', ar_Nodes = [''n1''], ar_Groups = [], ar_DryRun = False,
     ar_Operation = ''On''\<rparr>"

lemma sample_service_inv: "store_inv t \<Longrightarrow> service_inv sample_cfg (power_boot sample_cfg (sample_db t))"
  by (rule service_boot_inv) (simp_all add: sample_db_def sample_topo_ok)

text \<open>The process restarted over a database with one pending transition.\<close>

lemma sample_restart:
  "(service_step cfg lib)\<^sup>*\<^sup>* (power_boot cfg db, w) (power_boot cfg db, w)"
  using service_step.restart [of cfg lib "power_boot cfg db" w] by (simp add: power_boot_def r_into_rtranclp)

theorem service_invariant_witness:
  "service_inv sample_cfg (power_boot sample_cfg (sample_db sample_tr_tables)) \<and>
   row_of tr_ID (t_transitions sample_tr_tables) ''t-1'' \<noteq> None"
proof -
  have "service_inv sample_cfg (power_boot sample_cfg (sample_db sample_tr_tables))"
    using service_invariant [OF sample_restart, of "sample_db sample_tr_tables" sample_cfg]
    by (simp add: sample_db_def sample_topo_ok sample_tr_tables_inv)
  then show ?thesis
    by (simp add: sample_tr_tables_def row_of_Cons) (simp add: sample_transition_def)
qed

theorem restart_strands_witness:
  "\<exists>tasks s. power_routes (power_service sample_cfg sample_service_env) (sample_caller ''t-1'')
       DeleteCall s = (RespondJSON 202 None
         (TransitionBody (toTransitionResource sample_transition tasks)), s) \<and>
     tr_State sample_transition = ''pending''"
proof -
  have row: "row_of tr_ID (t_transitions (pt_tr (sample_db sample_tr_tables))) ''t-1'' = Some sample_transition"
    by (simp add: sample_tr_tables_def sample_db_def row_of_Cons) (simp add: sample_transition_def)
  have "store_inv (pt_tr (sample_db sample_tr_tables))" "topo_ok (pt_map (sample_db sample_tr_tables))"
      "trim_space (hq_ID (sample_caller ''t-1'')) = ''t-1''" "sn_read sample_service_env = no_faults"
      "tr_State sample_transition = ''pending''"
    by (simp_all add: sample_db_def sample_topo_ok sample_tr_tables_inv sample_caller_def
        sample_service_env_def sample_transition_def)
  with restart_strands [OF sample_restart _ _ row sample_caller_permitted [of "''t-1''"]]
  show ?thesis by blast
qed

lemma sample_targets:
  "resolveTargets (Some (resolveGroupMembers (sn_get_group sample_service_env))) [''n1''] [] =
     Inr [''n1'']"
  by (simp add: resolveTargets_def parseTargetList_def add_targets_def Let_def)

lemma sample_accepted:
  "\<exists>location res s. power_routes (power_service sample_cfg sample_service_env) (sample_caller [])
      (CreateCall (Inr sample_body)) (power_boot sample_cfg (sample_db no_rows)) =
    (RespondJSON 202 location (TransitionBody res), s)"
proof -
  let ?boot = "power_boot sample_cfg (sample_db no_rows)"
  obtain x t' where run: "sample_run (\<lambda>_. (None, False)) = (x, t')" by fastforce
  with sample_run_ok obtain tr where x: "x = StartOk tr" by (cases x) simp_all
  let ?s = "?boot\<lparr>rs_mem := rs_mem t', rs_db := rs_db t', rs_queue := rs_queue t'\<rparr>"
  have start: "rn_StartTransition (service_runner sample_service_env) (sample_start [''n1'']) ?boot = (StartOk tr, ?s)"
    using run [unfolded sample_run_def x]
    by (simp add: service_runner_def on_runner_def keep_waiting_def sample_boot_truncate sample_service_env_def)
  have inv: "run_inv (start_state 4)"
    using sample_service_inv [OF no_rows_inv] run_inv_truncate [of "power_boot sample_cfg (sample_db no_rows)"]
    by (simp add: service_inv_def sample_boot_truncate)
  note run1 = run [unfolded sample_run_def x]
  have uuid: "uuids_ok sample_env" by (simp add: uuids_ok_def sample_env_uuid)
  have st: "store_inv (pt_tr (rs_db t'))"
    using run_keeps_inv [OF StartTransition_keeps [OF inv uuid run1]] by (simp add: run_inv_def)
  have row: "row_of tr_ID (transition_rows t') (tr_ID tr) = Some tr"
    using started_is_stored [OF inv uuid run1] by simp
  have "trim_space (tr_ID tr) = tr_ID tr" by (rule store_inv_rows(2) [OF st row])
  moreover have "tr_ID tr \<noteq> []" using st row_of_SomeD [OF row] by (auto simp: store_inv_def)
  ultimately obtain tasks where "ListTransitionTasks no_faults (pt_tr (rs_db t')) (tr_ID tr) = Inr tasks"
    using ListTransitionTasks_no_faults by blast
  moreover have "sn_parse_op sample_service_env op = Inr OpOn" "sn_op_string sample_service_env OpOn = ''On''"
      "sn_read sample_service_env = no_faults" "pc_BulkMaxNodes sample_cfg = 20" for op
    by (simp_all add: sample_service_env_def sample_cfg_def)
  ultimately show ?thesis
    using start [unfolded sample_start_def] sample_targets
    by (simp add: requireAnyScope_simp sample_caller_def handleCreateTransition_def startTransition_def
        power_service_def server_New_def action_request_def sample_body_def resolvedRequestID_def
        requestedByFromContext_def pg_transition_store_def plain_strings Let_def)
qed

theorem accepted_start_reads_back_witness:
  "\<exists>location res s. power_routes (power_service sample_cfg sample_service_env) (sample_caller [])
      (CreateCall (Inr sample_body)) (power_boot sample_cfg (sample_db no_rows)) =
    (RespondJSON 202 location (TransitionBody res), s) \<and>
    power_routes (power_service sample_cfg sample_service_env) (sample_caller (xr_ID res)) GetCall s =
      (RespondJSON 200 None (TransitionBody res), s)"
proof -
  obtain location res s where run:
    "power_routes (power_service sample_cfg sample_service_env) (sample_caller [])
      (CreateCall (Inr sample_body)) (power_boot sample_cfg (sample_db no_rows)) =
    (RespondJSON 202 location (TransitionBody res), s)"
    using sample_accepted by blast
  have "hq_ID (sample_caller (xr_ID res)) = xr_ID res" "sn_read sample_service_env = no_faults"
    by (simp_all add: sample_caller_def sample_service_env_def)
  from accepted_start_reads_back [OF sample_service_inv [OF no_rows_inv] sample_uuids run
      sample_caller_permitted this] run
  show ?thesis by blast
qed

end
