(* ===== verification/Power_Main.thy ===== *)
theory Power_Main
  imports Power_Service Go_Process
begin

text \<open>
  The \<open>main\<close> of \<open>chamicore-power\<close> (\<open>cmd/chamicore-power/main.go\<close>): start, service, shutdown.  The
  database driver, the telemetry, the NATS publisher with its outbox relay and the listener are
  calls of libraries whose answers are parameters; what the service does to the database while it
  serves is a function \<open>serve\<close>.  Log lines are left out.
\<close>

datatype power_event =
    MakeContext | ReleaseContext | CancelWork
  | InitTelemetry string bool bool | StopTelemetry
  | ConnectDB string | CloseDB
  | EnsureSchema string | Migrate string
  | ConnectNATS string string "string list" | ClosePublisher | StartRelay
  | StartSync SyncConfig | StartRunner Config
  | Serve http_server | MakeStopContext duration | ReleaseStopContext | StopListener

text \<open>The answers of the libraries.\<close>

record main_answers =
  an_otel :: "go_error option"
  an_connect :: "go_error option"
  an_schema :: "go_error option"
  an_migrate :: "go_error option"
  an_publisher :: "go_error option"
  an_relay :: "go_error option"
  an_stop :: stop_cause

definition power_http :: "PowerConfig \<Rightarrow> http_server" where
  "power_http cfg =
     \<lparr>hs_Addr = pc_ListenAddr cfg, hs_ReadHeaderTimeout = 10 * second, hs_ReadTimeout = 30 * second,
      hs_WriteTimeout = 60 * second, hs_IdleTimeout = 120 * second\<rparr>"

text \<open>The outbox relay is optional: without it the service goes on.\<close>

definition power_relay :: "PowerConfig \<Rightarrow> main_answers \<Rightarrow> (power_event, 'w) proc" where
  "power_relay cfg a =
     (if trim_space (pc_NATSURL cfg) = [] then in_order []
      else
        (case an_publisher a of
           Some err \<Rightarrow> in_order []
         | None \<Rightarrow>
             in_order
               [opens (ConnectNATS (pc_NATSURL cfg) (pc_NATSStream cfg) [''chamicore.power.>'']) ClosePublisher,
                case an_relay a of Some err \<Rightarrow> in_order [] | None \<Rightarrow> act StartRelay]))"

definition power_start :: "PowerConfig \<Rightarrow> main_answers \<Rightarrow> (power_event, 'w) proc list" where
  "power_start cfg a =
     [opens MakeContext ReleaseContext,
      must_open (InitTelemetry ''chamicore-power'' (pc_MetricsEnabled cfg) (pc_TracesEnabled cfg))
        (an_otel a) StopTelemetry,
      must_open (ConnectDB (pc_DBDSN cfg)) (an_connect a) CloseDB,
      must (EnsureSchema ''power'') (an_schema a),
      must (Migrate ''migrations/postgres'') (an_migrate a),
      power_relay cfg a,
      act (StartSync (sync_config cfg)),
      act (StartRunner (engine_config cfg))]"

text \<open>Both ways to stop go on to the shutdown, whose own error is only logged.\<close>

definition power_stop :: "main_answers \<Rightarrow> (power_event, 'w) proc list" where
  "power_stop a =
     [case an_stop a of StopSignal \<Rightarrow> in_order [] | ServeFailed err \<Rightarrow> in_order [],
      act CancelWork,
      opens (MakeStopContext (15 * second)) ReleaseStopContext,
      act StopListener]"

definition power_main ::
    "environment \<Rightarrow> main_answers \<Rightarrow> (PowerConfig \<Rightarrow> 'w \<Rightarrow> 'w) \<Rightarrow> (power_event, 'w) proc" where
  "power_main env a serve =
     (case power_Load env of
        Inl err \<Rightarrow> quit 1
      | Inr cfg \<Rightarrow>
          in_order (power_start cfg a @ [act (Serve (power_http cfg)), change (serve cfg)] @ power_stop a))"

section \<open>The life of the process\<close>

fun power_closer :: "power_event \<Rightarrow> power_event option" where
  "power_closer MakeContext = Some ReleaseContext"
| "power_closer (InitTelemetry _ _ _) = Some StopTelemetry"
| "power_closer (ConnectDB _) = Some CloseDB"
| "power_closer (ConnectNATS _ _ _) = Some ClosePublisher"
| "power_closer (MakeStopContext _) = Some ReleaseStopContext"
| "power_closer _ = None"

interpretation power_res: resources power_closer
  by unfold_locales (auto elim: power_closer.elims)

lemma power_closing [simp]:
  "closing power_closer e \<longleftrightarrow>
     e \<in> {ReleaseContext, StopTelemetry, CloseDB, ClosePublisher, ReleaseStopContext}"
proof
  show "closing power_closer e \<Longrightarrow>
      e \<in> {ReleaseContext, StopTelemetry, CloseDB, ClosePublisher, ReleaseStopContext}"
    by (auto simp: closing_def ran_def elim: power_closer.elims)
  have "closing power_closer r" if "power_closer x = Some r" for x r
    using that by (auto simp: closing_def ran_def)
  from this [of MakeContext] this [of "InitTelemetry [] False False"] this [of "ConnectDB []"]
    this [of "ConnectNATS [] [] []"] this [of "MakeStopContext 0"]
  show "e \<in> {ReleaseContext, StopTelemetry, CloseDB, ClosePublisher, ReleaseStopContext} \<Longrightarrow>
      closing power_closer e" by auto
qed

lemma power_main_tidy: "power_res.keeps_tidy (power_main env a serve)"
proof -
  have "power_res.keeps_tidy (power_relay cfg a)" for cfg
    by (auto simp: power_relay_def intro!: power_res.tidy_intros split: option.split)
  then show ?thesis
    by (auto simp: power_main_def power_start_def power_stop_def intro!: power_res.tidy_intros
        split: sum.split stop_cause.split)
qed

definition power_can_start :: "main_answers \<Rightarrow> bool" where
  "power_can_start a \<longleftrightarrow>
     an_otel a = None \<and> an_connect a = None \<and> an_schema a = None \<and> an_migrate a = None"

text \<open>What the relay opens, and that it neither ends the process nor changes the database.\<close>

lemma power_relay_run:
  obtains up where "power_relay cfg a p = (None, p\<lparr>pr_trace := pr_trace p @ up,
      pr_deferred := to_close power_closer up @ pr_deferred p\<rparr>)"
    "set up \<subseteq> {ConnectNATS (pc_NATSURL cfg) (pc_NATSStream cfg) [''chamicore.power.>''], StartRelay}"
proof -
  let ?nats = "ConnectNATS (pc_NATSURL cfg) (pc_NATSStream cfg) [''chamicore.power.>'']"
  let ?out = "\<lambda>up. (None, p\<lparr>pr_trace := pr_trace p @ up,
      pr_deferred := to_close power_closer up @ pr_deferred p\<rparr>)"
  have "power_relay cfg a p \<in> {?out [], ?out [?nats], ?out [?nats, StartRelay]}"
    by (simp add: power_relay_def proc_defs split: option.split)
  then have "\<exists>up \<in> {[], [?nats], [?nats, StartRelay]}. power_relay cfg a p = ?out up" by blast
  with that show thesis by fastforce
qed

lemma power_main_returns:
  assumes "power_Load env = Inr cfg" "power_can_start a"
  obtains up where "run_main (power_main env a serve) db =
      (0, up @ [StartSync (sync_config cfg), StartRunner (engine_config cfg), Serve (power_http cfg),
         CancelWork, MakeStopContext (15 * second), StopListener, ReleaseStopContext] @
         to_close power_closer up, serve cfg db)"
    "{ConnectDB (pc_DBDSN cfg), EnsureSchema ''power'', Migrate ''migrations/postgres''} \<subseteq> set up"
    "Serve (power_http cfg) \<notin> set up"
proof -
  let ?up = "[MakeContext, InitTelemetry ''chamicore-power'' (pc_MetricsEnabled cfg) (pc_TracesEnabled cfg),
    ConnectDB (pc_DBDSN cfg), EnsureSchema ''power'', Migrate ''migrations/postgres'']"
  obtain up where relay: "power_relay cfg a \<lparr>pr_trace = ?up,
        pr_deferred = to_close power_closer ?up, pr_world = db\<rparr> =
      (None, \<lparr>pr_trace = ?up @ up,
        pr_deferred = to_close power_closer up @ to_close power_closer ?up, pr_world = db\<rparr>)"
    and up: "set up \<subseteq> {ConnectNATS (pc_NATSURL cfg) (pc_NATSStream cfg) [''chamicore.power.>''], StartRelay}"
    by (rule power_relay_run [of cfg a "\<lparr>pr_trace = ?up, pr_deferred = to_close power_closer ?up, pr_world = db\<rparr>"]) simp
  have "run_main (power_main env a serve) db =
      (0, (?up @ up) @ [StartSync (sync_config cfg), StartRunner (engine_config cfg), Serve (power_http cfg),
         CancelWork, MakeStopContext (15 * second), StopListener, ReleaseStopContext] @
         to_close power_closer (?up @ up), serve cfg db)"
    using assms relay by (simp add: run_main_def power_main_def power_start_def power_stop_def proc_defs
        power_can_start_def split: stop_cause.split)
  then show thesis by (rule that) (use up in auto)
qed

lemma power_main_fails:
  assumes "power_Load env = Inr cfg" "\<not> power_can_start a"
  shows "\<exists>tr. run_main (power_main env a serve) db = (1, tr, db) \<and> set tr \<subseteq> {MakeContext,
    InitTelemetry ''chamicore-power'' (pc_MetricsEnabled cfg) (pc_TracesEnabled cfg),
    ConnectDB (pc_DBDSN cfg), EnsureSchema ''power''}"
  using assms by (auto simp: run_main_def power_main_def power_start_def proc_defs power_can_start_def
      split: option.split)

text \<open>
  C31. The life of the power process: it fails to start, with status 1 and the database as it was,
  and then nothing it opened is closed, because a fatal error skips the deferred calls; or it serves
  once, over the migrated database, and shuts down by stopping the workers, then the listener, and
  then closes all it opened, last opened first. A listener that fails, on a port in use say, ends the
  process with status 0.
\<close>

theorem power_main_lifecycle:
  "case run_main (power_main env a serve) db of (code, tr, db') \<Rightarrow>
     code = 1 \<and> db' = db \<and> filter (closing power_closer) tr = [] \<and>
       (\<forall>server. Serve server \<notin> set tr) \<and> (\<forall>cfg. StartRunner cfg \<notin> set tr) \<and>
       ((\<exists>err. power_Load env = Inl err) \<or>
        (\<exists>err. Some err \<in> {an_otel a, an_connect a, an_schema a, an_migrate a})) \<or>
     (\<exists>cfg up. code = 0 \<and> db' = serve cfg db \<and> power_Load env = Inr cfg \<and> power_can_start a \<and>
       tr = up @ [StartSync (sync_config cfg), StartRunner (engine_config cfg), Serve (power_http cfg),
         CancelWork, MakeStopContext (15 * second), StopListener, ReleaseStopContext] @
         to_close power_closer up \<and>
       {ConnectDB (pc_DBDSN cfg), EnsureSchema ''power'', Migrate ''migrations/postgres''} \<subseteq> set up \<and>
       filter (closing power_closer) tr = to_close power_closer tr)"
proof (cases "power_Load env")
  case (Inl err)
  then show ?thesis by (simp add: power_main_def run_main_def quit_def)
next
  case (Inr cfg)
  show ?thesis
  proof (cases "power_can_start a")
    case True
    from power_main_returns [OF Inr True, of serve db] obtain up where run: "run_main (power_main env a serve) db =
      (0, up @ [StartSync (sync_config cfg), StartRunner (engine_config cfg), Serve (power_http cfg),
         CancelWork, MakeStopContext (15 * second), StopListener, ReleaseStopContext] @
         to_close power_closer up, serve cfg db)" (is "_ = (0, ?tr, _)")
      and up: "{ConnectDB (pc_DBDSN cfg), EnsureSchema ''power'', Migrate ''migrations/postgres''} \<subseteq> set up" .
    have "filter (closing power_closer) ?tr = to_close power_closer ?tr"
      by (rule power_res.closes_all_or_nothing [OF power_main_tidy run, of ReleaseStopContext]) simp_all
    with run up Inr True show ?thesis by (simp del: power_closing) blast
  next
    case False
    from power_main_fails [OF Inr this, of serve db]
    obtain tr where "run_main (power_main env a serve) db = (1, tr, db)"
      and "set tr \<subseteq> {MakeContext,
        InitTelemetry ''chamicore-power'' (pc_MetricsEnabled cfg) (pc_TracesEnabled cfg),
        ConnectDB (pc_DBDSN cfg), EnsureSchema ''power''}" by blast
    moreover from this(2) have "filter (closing power_closer) tr = []"
        "Serve server \<notin> set tr" "StartRunner rcfg \<notin> set tr" for server rcfg
      by (auto simp: filter_empty_conv)
    moreover have "\<exists>err. Some err \<in> {an_otel a, an_connect a, an_schema a, an_migrate a}"
      using False by (auto simp: power_can_start_def)
    ultimately show ?thesis by (simp del: power_closing)
  qed
qed

text \<open>A process over a consistent database leaves a consistent one and loses no transition.\<close>

lemma power_main_database:
  assumes "store_inv (pt_tr db)" "topo_ok (pt_map db)"
    and "\<And>cfg. \<exists>s w w'. (service_step cfg lib)\<^sup>*\<^sup>* (power_boot cfg db, w) (s, w') \<and> serve cfg db = rs_db s"
    and "run_main (power_main env a serve) db = (code, tr, db')"
  shows "store_inv (pt_tr db')" "topo_ok (pt_map db')"
    "row_of tr_ID (t_transitions (pt_tr db)) i \<noteq> None \<Longrightarrow>
     row_of tr_ID (t_transitions (pt_tr db')) i \<noteq> None"
proof -
  have "db' = db \<or> (\<exists>cfg. db' = serve cfg db)"
  proof (cases "power_Load env")
    case (Inl err)
    with assms(4) show ?thesis by (simp add: power_main_def run_main_def quit_def)
  next
    case (Inr cfg)
    then show ?thesis
      using assms(4) power_main_returns [OF Inr, of a serve db] power_main_fails [OF Inr, of a serve db]
      by (cases "power_can_start a") fastforce+
  qed
  then have "store_inv (pt_tr db') \<and> topo_ok (pt_map db') \<and>
      (row_of tr_ID (t_transitions (pt_tr db)) i \<noteq> None \<longrightarrow> row_of tr_ID (t_transitions (pt_tr db')) i \<noteq> None)"
  proof
    assume "\<exists>cfg. db' = serve cfg db"
    then obtain cfg s w w' where run: "(service_step cfg lib)\<^sup>*\<^sup>* (power_boot cfg db, w) (s, w')"
      and db': "db' = rs_db s" using assms(3) by metis
    from service_run_inv [OF run assms(1,2)] show ?thesis
      by (simp add: db' service_inv_def run_inv_def)
  qed (use assms(1,2) in simp)
  then show "store_inv (pt_tr db')" "topo_ok (pt_map db')"
    "row_of tr_ID (t_transitions (pt_tr db)) i \<noteq> None \<Longrightarrow>
     row_of tr_ID (t_transitions (pt_tr db')) i \<noteq> None" by blast+
qed

end
