(* ===== verification/Power_Router.thy ===== *)
theory Power_Router
  imports Power_Client Power_Service Go_Router
begin

text \<open>
  The router of the power service (\<open>buildRouter\<close> of \<open>internal/server/server.go\<close>) as it is declared, what
  guards a route, and where the requests of the client SDK arrive.
\<close>

datatype power_op =
    OpListTransitions | OpCreateTransition | OpGetTransition | OpDeleteTransition | OpPowerStatus
  | OpActionOn | OpActionOff | OpActionReboot | OpActionReset | OpSyncMappings

datatype power_endpoint =
    HealthEndpoint | ReadinessEndpoint | VersionEndpoint | PrometheusEndpoint
  | SwaggerEndpoint | OpenAPIEndpoint | Api power_op

definition power_jwt :: "PowerConfig \<Rightarrow> jwt_config" where
  "power_jwt cfg = \<lparr>jw_JWKSUrl = pc_JWKSURL cfg, jw_InternalToken = pc_InternalToken cfg,
     jw_DevMode = pc_DevMode cfg\<rparr>"

definition power_decls :: "PowerConfig \<Rightarrow> power_endpoint decl list" where
  "power_decls cfg =
     [Use Tracing, Use (Metrics ''chamicore-power''), Use RequestID, Use RequestLogger, Use Recoverer,
      Use SecureHeaders, Use (BodyLimit (2 ^ 20)), Use ContentType, Use (APIVersion ''power/v1''),
      Use CacheControl, Use ETag,
      Group
        ([Method ''GET'' ''/health'' HealthEndpoint,
          Method ''GET'' ''/readiness'' ReadinessEndpoint,
          Method ''GET'' ''/version'' VersionEndpoint] @
         (if pc_MetricsEnabled cfg then [Method ''GET'' ''/metrics'' PrometheusEndpoint] else []) @
         [Method ''GET'' ''/api/docs'' SwaggerEndpoint,
          Method ''GET'' ''/api/openapi.yaml'' OpenAPIEndpoint]),
      Group
        [Use (JWT (power_jwt cfg)),
         Route ''/power/v1''
           [With [AnyScope [''read:power'', ''admin'']] ''GET'' ''/transitions'' (Api OpListTransitions),
            With [AnyScope [''write:power'', ''admin'']] ''POST'' ''/transitions'' (Api OpCreateTransition),
            With [AnyScope [''read:power'', ''admin'']] ''GET'' ''/transitions/{id}'' (Api OpGetTransition),
            With [AnyScope [''write:power'', ''admin'']] ''DELETE'' ''/transitions/{id}'' (Api OpDeleteTransition),
            With [AnyScope [''read:power'', ''admin'']] ''GET'' ''/power-status'' (Api OpPowerStatus),
            With [AnyScope [''write:power'', ''admin'']] ''POST'' ''/actions/on'' (Api OpActionOn),
            With [AnyScope [''write:power'', ''admin'']] ''POST'' ''/actions/off'' (Api OpActionOff),
            With [AnyScope [''write:power'', ''admin'']] ''POST'' ''/actions/reboot'' (Api OpActionReboot),
            With [AnyScope [''write:power'', ''admin'']] ''POST'' ''/actions/reset'' (Api OpActionReset),
            With [AnyScope [''admin:power'', ''admin'']] ''POST'' ''/admin/mappings/sync''
              (Api OpSyncMappings)]]]"

text \<open>
  What a request carries for each of the handlers: its decoded body, for those that read one; and
  the handlers themselves, without the scope check before them.
\<close>

record power_bodies =
  pb_action :: "go_error + actionRequest"
  pb_reset :: "go_error + resetActionRequest"

fun call_of :: "power_bodies \<Rightarrow> power_op \<Rightarrow> power_call" where
  "call_of b OpListTransitions = ListCall"
| "call_of b OpCreateTransition = CreateCall (pb_reset b)"
| "call_of b OpGetTransition = GetCall"
| "call_of b OpDeleteTransition = DeleteCall"
| "call_of b OpPowerStatus = StatusCall"
| "call_of b OpActionOn = OnCall (pb_action b)"
| "call_of b OpActionOff = OffCall (pb_action b)"
| "call_of b OpActionReboot = RebootCall (pb_action b)"
| "call_of b OpActionReset = ResetCall (pb_reset b)"
| "call_of b OpSyncMappings = SyncCall"

fun power_handler :: "'w Server \<Rightarrow> power_call \<Rightarrow> (HttpReq, power_reply, 'w) http_handler" where
  "power_handler sv ListCall r w = (handleListTransitions sv r w, w)"
| "power_handler sv (CreateCall body) r w = handleCreateTransition sv r body w"
| "power_handler sv GetCall r w = (handleGetTransition sv r w, w)"
| "power_handler sv DeleteCall r w = handleDeleteTransition sv r w"
| "power_handler sv StatusCall r w = (handleGetPowerStatus sv r w, w)"
| "power_handler sv (OnCall body) r w = handleActionOn sv r body w"
| "power_handler sv (OffCall body) r w = handleActionOff sv r body w"
| "power_handler sv (RebootCall body) r w = handleActionReboot sv r body w"
| "power_handler sv (ResetCall body) r w = handleActionReset sv r body w"
| "power_handler sv SyncCall r w = handleAdminSyncMappings sv w"

text \<open>\<open>public\<close> are the replies of the handlers of the library and of the embedded documents.\<close>

definition power_serve ::
    "'w Server \<Rightarrow> (power_endpoint \<Rightarrow> HttpReq \<Rightarrow> power_reply) \<Rightarrow> power_bodies \<Rightarrow> power_endpoint
     \<Rightarrow> (HttpReq, power_reply, 'w) http_handler" where
  "power_serve sv public b e r w =
     (case e of Api op \<Rightarrow> power_handler sv (call_of b op) r w | _ \<Rightarrow> (public e r, w))"

section \<open>What guards a route\<close>

text \<open>
  The middleware in the model: \<open>requireAnyScope\<close> is code of the service.  That of the library answers
  itself or passes the very request on, with at most the request ID completed.  The token check
  answers itself or passes the very request on with claims in it: those that \<open>verify\<close> reads from its
  \<open>Authorization\<close> header under the configured keys and, in development mode, where nothing is
  verified, the \<open>synthetic\<close> claims of an administrator.
\<close>

definition completed :: "HttpReq \<Rightarrow> HttpReq \<Rightarrow> bool" where
  "completed r r' \<longleftrightarrow> (\<exists>rid. r' = r\<lparr>hq_XRequestID := rid\<rparr>)"

definition admitted ::
    "(jwt_config \<Rightarrow> string \<Rightarrow> Claims option) \<Rightarrow> Claims \<Rightarrow> jwt_config \<Rightarrow> HttpReq \<Rightarrow> Claims \<Rightarrow> bool" where
  "admitted verify synthetic cfg r claims \<longleftrightarrow>
     (if jw_DevMode cfg then claims = synthetic else verify cfg (hq_Authorization r) = Some claims)"

definition power_middleware ::
    "(jwt_config \<Rightarrow> string \<Rightarrow> Claims option) \<Rightarrow> Claims
     \<Rightarrow> (middleware \<Rightarrow> (HttpReq, power_reply, 'w) http_handler \<Rightarrow> (HttpReq, power_reply, 'w) http_handler)
     \<Rightarrow> bool" where
  "power_middleware verify synthetic sem \<longleftrightarrow>
     (\<forall>m. (case m of JWT _ \<Rightarrow> True | AnyScope _ \<Rightarrow> True | _ \<Rightarrow> completes completed (sem m))) \<and>
     (\<forall>scopes handler r w. sem (AnyScope scopes) handler r w = requireAnyScope scopes r (handler r) w) \<and>
     (\<forall>cfg handler r w. snd (sem (JWT cfg) handler r w) = w \<or>
        (\<exists>claims. admitted verify synthetic cfg r claims \<and>
           snd (sem (JWT cfg) handler r w) = snd (handler (r\<lparr>hq_Claims := Some claims\<rparr>) w)))"

definition power_stack :: "middleware list" where
  "power_stack =
     [Tracing, Metrics ''chamicore-power'', RequestID, RequestLogger, Recoverer, SecureHeaders,
      BodyLimit (2 ^ 20), ContentType, APIVersion ''power/v1'', CacheControl, ETag]"

lemma power_routes_handler:
  "power_routes sv r call w =
   requireAnyScope [call_scope call, ''admin''] r (power_handler sv call r) w"
  by (cases call) (simp_all add: requireAnyScope_def split: option.split)

lemma power_decls_routes:
  assumes "chi_scoping mounted" "rt \<in> set (mounted [] [] (power_decls cfg))"
  shows "case rt_handler rt of
      Api op \<Rightarrow> rt_chain rt = power_stack @ [JWT (power_jwt cfg), AnyScope [call_scope (call_of b op), ''admin'']]
    | _ \<Rightarrow> rt_chain rt = power_stack \<and> rt_method rt = ''GET''"
  using assms(2)
  by (simp add: chi_scoping_simps [OF assms(1)] power_decls_def power_stack_def if_distrib [of "mounted p ms" for p ms]
      split: if_splits) (elim disjE; simp add: power_stack_def)+

lemma stack_completes:
  assumes "power_middleware verify synthetic sem"
  shows "snd (behind sem power_stack handler r w) = w \<or>
    (\<exists>rid. snd (behind sem power_stack handler r w) = snd (handler (r\<lparr>hq_XRequestID := rid\<rparr>) w))"
proof -
  have "completes completed (sem m)" if "m \<in> set power_stack" for m
    using assms that unfolding power_middleware_def by (auto simp: power_stack_def dest: spec [of _ m])
  moreover have "reflp completed" unfolding completed_def by (rule reflpI) (metis HttpReq.surjective HttpReq.update_convs(2))
  moreover have "transp completed" unfolding completed_def by (rule transpI) auto
  ultimately show ?thesis
    using behind_completes [of power_stack completed sem handler r w] by (auto simp: completed_def)
qed

text \<open>
  C28. Nothing but an authorized API call changes the state of the service: whatever request a declared
  route serves, behind its whole middleware, the state stays as it was, or the state is the one
  that the handler of the route's call leaves for that very request, with at most its request ID
  completed; the call is no reading one; and the claims in the request have the scope of the call
  or \<open>admin\<close>.  These claims are the ones that verification reads from the request's own
  \<open>Authorization\<close> header; only in development mode, where authentication is bypassed, they are the
  synthetic ones of the library.
\<close>

theorem power_http_gated:
  assumes "chi_scoping mounted" "power_middleware verify synthetic sem"
    and "rt \<in> set (mounted [] [] (power_decls cfg))"
    and "behind sem (rt_chain rt) (power_serve sv public b (rt_handler rt)) r w = (reply, w')"
  shows "w' = w \<or>
    (\<exists>op rid claims served. rt_handler rt = Api op \<and>
       (if pc_DevMode cfg then claims = synthetic
        else verify (power_jwt cfg) (hq_Authorization r) = Some claims) \<and>
       served = r\<lparr>hq_XRequestID := rid, hq_Claims := Some claims\<rparr> \<and>
       call_permitted served (call_of b op) \<and> call_scope (call_of b op) \<noteq> ''read:power'' \<and>
       w' = snd (power_handler sv (call_of b op) served w))"
proof (cases "\<exists>op. rt_handler rt = Api op")
  case False
  then have "snd (power_serve sv public b (rt_handler rt) r' w) = w" for r'
    by (cases "rt_handler rt") (simp_all add: power_serve_def)
  moreover have "rt_chain rt = power_stack"
    using power_decls_routes [OF assms(1,3), of b] False by (cases "rt_handler rt") auto
  ultimately show ?thesis
    using stack_completes [OF assms(2), of "power_serve sv public b (rt_handler rt)" r w] assms(4)
    by auto
next
  case True
  then obtain op where op: "rt_handler rt = Api op" by blast
  let ?call = "call_of b op" and ?h = "power_handler sv (call_of b op)" and ?jwt = "power_jwt cfg"
  have chain: "rt_chain rt = power_stack @ [JWT ?jwt, AnyScope [call_scope ?call, ''admin'']]"
    using power_decls_routes [OF assms(1,3), of b] by (simp add: op)
  have serve: "power_serve sv public b (rt_handler rt) = ?h"
    by (simp add: fun_eq_iff power_serve_def op)
  let ?scoped = "sem (AnyScope [call_scope ?call, ''admin'']) ?h"
  have scoped: "?scoped r1 w = power_routes sv r1 ?call w" for r1
    using assms(2) by (simp add: power_middleware_def power_routes_handler)
  consider "w' = w" | rid where "w' = snd (sem (JWT ?jwt) ?scoped (r\<lparr>hq_XRequestID := rid\<rparr>) w)"
    using stack_completes [OF assms(2), of "sem (JWT ?jwt) ?scoped" r w] assms(4)
    by (auto simp: chain serve)
  then show ?thesis
  proof cases
    case (2 rid)
    let ?r = "r\<lparr>hq_XRequestID := rid\<rparr>"
    have "w' = w \<or> (\<exists>claims. admitted verify synthetic ?jwt ?r claims \<and>
        w' = snd (power_routes sv (?r\<lparr>hq_Claims := Some claims\<rparr>) ?call w))"
      using assms(2) unfolding 2 power_middleware_def scoped [symmetric] by blast
    then show ?thesis
    proof (elim disjE exE conjE)
      fix claims
      let ?served = "r\<lparr>hq_XRequestID := rid, hq_Claims := Some claims\<rparr>"
      assume claims: "admitted verify synthetic ?jwt ?r claims"
        and w': "w' = snd (power_routes sv (?r\<lparr>hq_Claims := Some claims\<rparr>) ?call w)"
      show ?thesis
      proof (cases "call_permitted ?served ?call \<and> call_scope ?call \<noteq> ''read:power''")
        case True
        then have "power_routes sv ?served ?call w = ?h ?served w"
          by (auto simp: power_routes_handler requireAnyScope_simp call_permitted_def)
        with True claims w' op show ?thesis
          by (intro disjI2 exI [of _ op] exI [of _ rid] exI [of _ claims] exI [of _ ?served])
            (simp add: admitted_def power_jwt_def split: if_splits)
      next
        case False
        then have "w' = w" using w' power_routes_kept [of ?served ?call sv w] by auto
        then show ?thesis by simp
      qed
    qed simp
  qed simp
qed

section \<open>Where the requests of the client arrive\<close>

text \<open>
  A transport that records the method and the path of each request; a \<open>GET\<close> or \<open>POST\<close> on it fails, a
  \<open>DELETE\<close> succeeds.
\<close>

record request_log = world +
  rl_sent :: "(string \<times> string) list"

definition log_get :: "go_error \<Rightarrow> ctx \<Rightarrow> string \<Rightarrow> request_log \<Rightarrow> (go_error + 'a) \<times> request_log" where
  "log_get e c path w = (Inl e, w\<lparr>rl_sent := rl_sent w @ [(''GET'', path)]\<rparr>)"

definition log_post :: "go_error \<Rightarrow> ctx \<Rightarrow> string \<Rightarrow> 'b \<Rightarrow> request_log \<Rightarrow> (go_error + 'a) \<times> request_log" where
  "log_post e c path body w = (Inl e, w\<lparr>rl_sent := rl_sent w @ [(''POST'', path)]\<rparr>)"

definition log_delete :: "ctx \<Rightarrow> string \<Rightarrow> request_log \<Rightarrow> go_error option \<times> request_log" where
  "log_delete c path w = (None, w\<lparr>rl_sent := rl_sent w @ [(''DELETE'', path)]\<rparr>)"

text \<open>The endpoints that the recorded requests reach, each request without its query.\<close>

definition arrivals ::
    "(string \<Rightarrow> string \<Rightarrow> bool) \<Rightarrow> power_endpoint route list \<Rightarrow> 'a \<times> request_log \<Rightarrow> power_endpoint list list" where
  "arrivals matches routes out =
     map (\<lambda>(meth, path). routed matches routes meth (takeWhile (\<lambda>c. c \<noteq> CHR ''?'') path)) (rl_sent (snd out))"

definition nothing_sent :: request_log where
  "nothing_sent = \<lparr>clock = 0, done_first = (\<lambda>_. False), rl_sent = []\<rparr>"

lemma query_cut: "CHR ''?'' \<notin> set p \<Longrightarrow> takeWhile (\<lambda>c. c \<noteq> CHR ''?'') (with_query p params) = p"
  by (auto simp: with_query_def Let_def takeWhile_tail takeWhile_eq_all_conv)

lemma client_segment:
  assumes "i \<noteq> []"
  shows "path_escape i \<noteq> []" "CHR ''/'' \<notin> set (path_escape i)"
    "takeWhile (\<lambda>c. c \<noteq> CHR ''?'') (path_escape i) = path_escape i"
proof -
  show "path_escape i \<noteq> []" using path_roundtrip [of i] assms by auto
  have "\<not> path_sep x" if "x \<in> set (path_escape i)" for x by (rule path_escape_no_sep [OF that])
  then show "CHR ''/'' \<notin> set (path_escape i)"
    "takeWhile (\<lambda>c. c \<noteq> CHR ''?'') (path_escape i) = path_escape i"
    by (auto simp: path_sep_def takeWhile_eq_all_conv)
qed

text \<open>The routes of the service, by their patterns.\<close>

lemma power_routed:
  assumes chi: "chi_scoping mounted" and matching: "chi_matching matches"
  shows "routed matches (mounted [] [] (power_decls cfg)) ''GET'' transitionPathPrefix = [Api OpListTransitions]"
    "routed matches (mounted [] [] (power_decls cfg)) ''POST'' transitionPathPrefix = [Api OpCreateTransition]"
    "routed matches (mounted [] [] (power_decls cfg)) ''GET'' powerStatusPath = [Api OpPowerStatus]"
    "routed matches (mounted [] [] (power_decls cfg)) ''POST'' actionOnPath = [Api OpActionOn]"
    "routed matches (mounted [] [] (power_decls cfg)) ''POST'' actionOffPath = [Api OpActionOff]"
    "routed matches (mounted [] [] (power_decls cfg)) ''POST'' actionRebootPath = [Api OpActionReboot]"
    "routed matches (mounted [] [] (power_decls cfg)) ''POST'' actionResetPath = [Api OpActionReset]"
    "routed matches (mounted [] [] (power_decls cfg)) ''POST'' adminMappingSyncPath = [Api OpSyncMappings]"
    "seg \<noteq> [] \<Longrightarrow> CHR ''/'' \<notin> set seg \<Longrightarrow> routed matches (mounted [] [] (power_decls cfg)) ''GET''
       (transitionPathPrefix @ ''/'' @ seg) = [Api OpGetTransition]"
    "seg \<noteq> [] \<Longrightarrow> CHR ''/'' \<notin> set seg \<Longrightarrow> routed matches (mounted [] [] (power_decls cfg)) ''DELETE''
       (transitionPathPrefix @ ''/'' @ seg) = [Api OpDeleteTransition]"
proof -
  have literal: "matches p path = (path = p)" if "plain_pattern p" for p path
    using matching that by (simp add: chi_matching_def)
  have "matches (''/power/v1/transitions/'' @ ''{'' @ ''id'' @ ''}'') path =
      (\<exists>seg. seg \<noteq> [] \<and> CHR ''/'' \<notin> set seg \<and> path = ''/power/v1/transitions/'' @ seg)" for path
    using matching [unfolded chi_matching_def, THEN conjunct2, rule_format,
      of "''/power/v1/transitions/''" "''id''" path] by (simp add: plain_name_def plain_pattern_def)
  then have single: "matches ''/power/v1/transitions/{id}'' path =
      (\<exists>seg. seg \<noteq> [] \<and> CHR ''/'' \<notin> set seg \<and> path = ''/power/v1/transitions/'' @ seg)" for path
    by simp
  note routes = routed_def power_decls_def chi_scoping_simps [OF chi] plain_pattern_def
  show "routed matches (mounted [] [] (power_decls cfg)) ''GET'' transitionPathPrefix = [Api OpListTransitions]"
    "routed matches (mounted [] [] (power_decls cfg)) ''POST'' transitionPathPrefix = [Api OpCreateTransition]"
    "routed matches (mounted [] [] (power_decls cfg)) ''GET'' powerStatusPath = [Api OpPowerStatus]"
    "routed matches (mounted [] [] (power_decls cfg)) ''POST'' actionOnPath = [Api OpActionOn]"
    "routed matches (mounted [] [] (power_decls cfg)) ''POST'' actionOffPath = [Api OpActionOff]"
    "routed matches (mounted [] [] (power_decls cfg)) ''POST'' actionRebootPath = [Api OpActionReboot]"
    "routed matches (mounted [] [] (power_decls cfg)) ''POST'' actionResetPath = [Api OpActionReset]"
    "routed matches (mounted [] [] (power_decls cfg)) ''POST'' adminMappingSyncPath = [Api OpSyncMappings]"
    by (simp_all add: routes single literal)
  assume "seg \<noteq> []" "CHR ''/'' \<notin> set seg"
  then show "routed matches (mounted [] [] (power_decls cfg)) ''GET''
       (transitionPathPrefix @ ''/'' @ seg) = [Api OpGetTransition]"
    "routed matches (mounted [] [] (power_decls cfg)) ''DELETE''
       (transitionPathPrefix @ ''/'' @ seg) = [Api OpDeleteTransition]"
    by (simp_all add: routes single literal)
qed

text \<open>
  C29. Client and server agree on the routes: every call of the client SDK sends one request, whose
  method and path belong to exactly one declared route, that of the operation the call is named
  after; aborting sends the deletion and then reads the transition.
\<close>

theorem client_calls_arrive:
  assumes "chi_scoping mounted" "chi_matching matches" "trim_space i \<noteq> []"
  shows "(case arrivals matches (mounted [] [] (power_decls cfg)) of reached \<Rightarrow>
    reached (client_ListTransitions (log_get e) c page nothing_sent) = [[Api OpListTransitions]] \<and>
    reached (client_CreateTransition (log_post e) c body nothing_sent) = [[Api OpCreateTransition]] \<and>
    reached (client_StartTransition (log_post e) c body nothing_sent) = [[Api OpCreateTransition]] \<and>
    reached (client_GetTransition (log_get e) c i nothing_sent) = [[Api OpGetTransition]] \<and>
    reached (client_AbortTransition log_delete (log_get e) c i nothing_sent) =
      [[Api OpDeleteTransition], [Api OpGetTransition]] \<and>
    reached (client_GetPowerStatus (log_get e) c opts nothing_sent) = [[Api OpPowerStatus]] \<and>
    reached (client_ActionOn (log_post e) c action nothing_sent) = [[Api OpActionOn]] \<and>
    reached (client_ActionOff (log_post e) c action nothing_sent) = [[Api OpActionOff]] \<and>
    reached (client_ActionReboot (log_post e) c action nothing_sent) = [[Api OpActionReboot]] \<and>
    reached (client_ActionReset (log_post e) c reset nothing_sent) = [[Api OpActionReset]] \<and>
    reached (client_TriggerMappingSync (log_post e) c nothing_sent) = [[Api OpSyncMappings]])"
proof -
  note routes = power_routed [OF assms(1,2), where cfg = cfg]
  note seg = client_segment [OF assms(3)]
  have cut: "takeWhile (\<lambda>c. c \<noteq> CHR ''?'') (transitionPathPrefix @ ''/'' @ path_escape (trim_space i)) =
      transitionPathPrefix @ ''/'' @ path_escape (trim_space i)"
    by (simp add: seg(3))
  have "takeWhile (\<lambda>c. c \<noteq> CHR ''?'') (buildListTransitionsPath page) = transitionPathPrefix"
    "takeWhile (\<lambda>c. c \<noteq> CHR ''?'') (buildPowerStatusPath opts) = powerStatusPath"
    unfolding buildListTransitionsPath_def buildPowerStatusPath_def Let_def by (rule query_cut, simp)+
  note facts = this cut routes(1-8) routes(9,10) [OF seg(1,2)]
  have empty: "rl_sent nothing_sent = []" by (simp add: nothing_sent_def)
  have two: "[x] @ [y] = [x, y]" for x y :: "string \<times> string" by simp
  have plain: "takeWhile (\<lambda>c. c \<noteq> CHR ''?'') p = p" if "p \<in> {transitionPathPrefix, actionOnPath,
      actionOffPath, actionRebootPath, actionResetPath, adminMappingSyncPath}" for p
    using that by auto
  note plain = plain [of transitionPathPrefix] plain [of actionOnPath] plain [of actionOffPath]
    plain [of actionRebootPath] plain [of actionResetPath] plain [of adminMappingSyncPath]
  have sent: "rl_sent (w\<lparr>rl_sent := reqs\<rparr>) = reqs" for w :: request_log and reqs by simp
  note calls = arrivals_def wrap_result_def startTransitionAction_def log_get_def log_post_def
    log_delete_def Let_def prod.case sum.case option.case snd_conv list.map append_Nil two
    sent assms(3) if_False empty trim_space_idem
  show ?thesis
    unfolding client_ListTransitions_def client_CreateTransition_def client_StartTransition_def
      client_GetTransition_def client_AbortTransition_def client_GetPowerStatus_def client_ActionOn_def
      client_ActionOff_def client_ActionReboot_def client_ActionReset_def client_TriggerMappingSync_def
    by (intro conjI) (simp_all only: calls facts plain insert_iff simp_thms)
qed

section \<open>Witnesses\<close>

text \<open>A middleware that knows one token, that of an operator, and passes on all else.\<close>

definition sample_claims :: Claims where
  "sample_claims = \<lparr>cl_Subject = ''ops'', cl_HasScope = (\<lambda>s. s = ''admin:power'')\<rparr>"

definition dev_claims :: Claims where
  "dev_claims = \<lparr>cl_Subject = ''dev'', cl_HasScope = (\<lambda>_. True)\<rparr>"

definition sample_verify :: "jwt_config \<Rightarrow> string \<Rightarrow> Claims option" where
  "sample_verify cfg token = (if token = ''Bearer t'' then Some sample_claims else None)"

definition operator_request :: HttpReq where
  "operator_request = no_claims\<lparr>hq_Authorization := ''Bearer t''\<rparr>"

fun sample_sem ::
    "middleware \<Rightarrow> (HttpReq, power_reply, 'w) http_handler \<Rightarrow> (HttpReq, power_reply, 'w) http_handler" where
  "sample_sem (JWT cfg) handler r w =
     (if jw_DevMode cfg then handler (r\<lparr>hq_Claims := Some dev_claims\<rparr>) w
      else
        (case sample_verify cfg (hq_Authorization r) of
           None \<Rightarrow> (RespondProblem 401 ''unauthorized'', w)
         | Some claims \<Rightarrow> handler (r\<lparr>hq_Claims := Some claims\<rparr>) w))"
| "sample_sem (AnyScope scopes) handler r w = requireAnyScope scopes r (handler r) w"
| "sample_sem m handler r w = handler r w"

lemma sample_middleware: "power_middleware sample_verify dev_claims sample_sem"
proof -
  have "completed r r" for r by (simp add: completed_def) (metis HttpReq.surjective HttpReq.update_convs(2))
  then have library: "case m of JWT _ \<Rightarrow> True | AnyScope _ \<Rightarrow> True | _ \<Rightarrow> completes completed (sample_sem m)" for m
    by (cases m) (auto simp: completes_def)
  have token: "snd (sample_sem (JWT cfg) handler r w) = w \<or>
      (\<exists>claims. admitted sample_verify dev_claims cfg r claims \<and>
         snd (sample_sem (JWT cfg) handler r w) = snd (handler (r\<lparr>hq_Claims := Some claims\<rparr>) w))"
    for cfg r w and handler :: "(HttpReq, power_reply, 'w) http_handler"
    by (auto simp: admitted_def split: option.split)
  show ?thesis
    unfolding power_middleware_def by (intro conjI allI library token) simp
qed

text \<open>A server that counts its sync cycles.\<close>

definition counting_server :: "nat Server" where
  "counting_server = \<lparr>sv_Ping = (\<lambda>_. None), sv_ResolveNodeMappings = (\<lambda>_ _. Inr ([], [])),
     sv_transitionStore = None, sv_transitionRunner = None, sv_resolveGroupMembers = None,
     sv_mappingSync = Some \<lparr>my_Trigger = (\<lambda>_ w. (None, Suc w)), my_IsReady = (\<lambda>_. True)\<rparr>,
     sv_BulkMaxNodes = 20, sv_parse_op = (\<lambda>_. Inr OpOn), sv_op_string = (\<lambda>_. ''On'')\<rparr>"

definition sync_route :: "power_endpoint route" where
  "sync_route =
     \<lparr>rt_method = ''POST'', rt_path = ''/power/v1/admin/mappings/sync'',
      rt_chain = power_stack @ [JWT (power_jwt sample_cfg), AnyScope [''admin:power'', ''admin'']],
      rt_handler = Api OpSyncMappings\<rparr>"

definition no_bodies :: power_bodies where
  "no_bodies = \<lparr>pb_action = Inl (Sentinel Canceled), pb_reset = Inl (Sentinel Canceled)\<rparr>"

theorem power_http_gated_witness:
  "snd (behind sample_sem (rt_chain sync_route) (power_serve counting_server (\<lambda>_ _. NoReply) no_bodies
       (rt_handler sync_route)) operator_request 0) = 1 \<and>
   (\<exists>rid. call_permitted (operator_request\<lparr>hq_XRequestID := rid, hq_Claims := Some sample_claims\<rparr>) SyncCall)"
proof -
  let ?out = "behind sample_sem (rt_chain sync_route) (power_serve counting_server (\<lambda>_ _. NoReply) no_bodies
    (rt_handler sync_route)) operator_request (0 :: nat)"
  have route: "sync_route \<in> set (mount [] [] (power_decls sample_cfg))"
    by (simp add: sync_route_def power_decls_def power_stack_def)
  have dev: "\<not> pc_DevMode sample_cfg" by (simp add: sample_cfg_def)
  obtain reply w' where out: "?out = (reply, w')" by fastforce
  then have w': "w' = 1"
    using dev by (simp add: sync_route_def power_stack_def power_serve_def requireAnyScope_def
        sample_claims_def sample_verify_def operator_request_def power_jwt_def no_claims_def
        handleAdminSyncMappings_def counting_server_def)
  from power_http_gated [OF mount_scoping sample_middleware route out] w' dev out show ?thesis
    by (auto simp: sync_route_def sample_verify_def operator_request_def)
qed

theorem client_calls_arrive_witness:
  "arrivals match_pattern (mount [] [] (power_decls sample_cfg))
     (client_AbortTransition log_delete (log_get (Sentinel Canceled) ::
        ctx \<Rightarrow> string \<Rightarrow> request_log \<Rightarrow> (go_error + unit) \<times> request_log) background ''t-1'' nothing_sent) =
   [[Api OpDeleteTransition], [Api OpGetTransition]]"
proof -
  have "trim_space ''t-1'' \<noteq> []" by simp
  from client_calls_arrive [OF mount_scoping match_pattern_matching this, THEN conjunct2, THEN conjunct2,
      THEN conjunct2, THEN conjunct2, THEN conjunct1]
  show ?thesis .
qed

end
