(* ===== verification/Go_Struct.thy ===== *)
theory Go_Struct
  imports Go_JSON Go_Format "HOL-Library.Monad_Syntax"
begin

text \<open>
  How \<open>encoding/json\<close> writes a struct by the tags of its fields, and reads an object into one: every
  key goes to the field whose name it is up to case, a later value replaces an earlier one, unknown
  keys are skipped, a field without a key keeps its zero value and null leaves it alone.
\<close>

section \<open>Writing\<close>

definition tag :: "string \<Rightarrow> json \<Rightarrow> (string \<times> json) list" where
  "tag name v = [(name, v)]"

text \<open>\<open>omitempty\<close> on a value that is empty when \<open>e\<close>.\<close>

definition omit_tag :: "bool \<Rightarrow> string \<Rightarrow> json \<Rightarrow> (string \<times> json) list" where
  "omit_tag e name v = (if e then [] else [(name, v)])"

abbreviation string_tag where "string_tag name s \<equiv> omit_tag (s = []) name (JString s)"

definition pointer_tag :: "('a \<Rightarrow> json) \<Rightarrow> string \<Rightarrow> 'a option \<Rightarrow> (string \<times> json) list" where
  "pointer_tag write name p = (case p of None \<Rightarrow> [] | Some x \<Rightarrow> [(name, write x)])"

definition JInt :: "int \<Rightarrow> json" where
  "JInt n = JNumber (itoa n)"

section \<open>Reading\<close>

text \<open>Reading a value into a variable that holds a value already; \<open>None\<close> is a type error.\<close>

type_synonym 'a into = "json \<Rightarrow> 'a \<Rightarrow> 'a option"

fun into_string :: "string into" where
  "into_string (JString s) old = Some s"
| "into_string JNull old = Some old"
| "into_string _ old = None"

fun into_bool :: "bool into" where
  "into_bool (JBool b) old = Some b"
| "into_bool JNull old = Some old"
| "into_bool _ old = None"

fun into_int :: "int into" where
  "into_int (JNumber n) old = atoi n"
| "into_int JNull old = Some old"
| "into_int _ old = None"

text \<open>\<open>time.Time\<close>; \<open>parse\<close> reads a text in RFC 3339.\<close>

fun into_time :: "(string \<Rightarrow> time option) \<Rightarrow> time into" where
  "into_time parse (JString s) old = parse s"
| "into_time parse JNull old = Some old"
| "into_time parse _ old = None"

fun into_pointer :: "'a into \<Rightarrow> 'a \<Rightarrow> 'a option into" where
  "into_pointer read zero JNull old = Some None"
| "into_pointer read zero v old = map_option Some (read v (case old of None \<Rightarrow> zero | Some x \<Rightarrow> x))"

fun into_list :: "'a into \<Rightarrow> 'a \<Rightarrow> 'a list into" where
  "into_list read zero (JArray vs) old = those (map (\<lambda>v. read v zero) vs)"
| "into_list read zero JNull old = Some []"
| "into_list read zero _ old = None"

definition values_at :: "string \<Rightarrow> (string \<times> json) list \<Rightarrow> json list" where
  "values_at name obj = map snd (filter (\<lambda>(key, v). equal_fold key name) obj)"

definition read_field :: "'a into \<Rightarrow> 'a \<Rightarrow> (string \<times> json) list \<Rightarrow> string \<Rightarrow> 'a option" where
  "read_field read zero obj name =
     fold (\<lambda>v acc. Option.bind acc (read v)) (values_at name obj) (Some zero)"

section \<open>What is written is read back\<close>

named_theorems struct_simps

lemma values_at_simps [struct_simps]:
  "values_at name [] = []"
  "values_at name (xs @ ys) = values_at name xs @ values_at name ys"
  "values_at name (tag key v) = (if equal_fold key name then [v] else [])"
  "values_at name (omit_tag e key v) = (if \<not> e \<and> equal_fold key name then [v] else [])"
  "values_at name (pointer_tag write key p) =
     (if equal_fold key name then (case p of None \<Rightarrow> [] | Some x \<Rightarrow> [write x]) else [])"
  by (simp_all add: values_at_def tag_def omit_tag_def pointer_tag_def split: option.split)

lemma equal_fold_lower [struct_simps]: "equal_fold a b \<longleftrightarrow> map lower_char a = map lower_char b"
  by (simp add: equal_fold_def to_lower_def)

text \<open>A field read from one value, from the value of an optional tag, or from that of a pointer.\<close>

lemma read_one:
  "values_at name obj = [v] \<Longrightarrow> read_field read zero obj name = read v zero"
  by (simp add: read_field_def)

lemma read_omitted:
  "values_at name obj = (if \<not> e \<and> True then [v] else []) \<Longrightarrow> (e \<Longrightarrow> x = zero) \<Longrightarrow>
   (\<not> e \<Longrightarrow> read v zero = Some x) \<Longrightarrow> read_field read zero obj name = Some x"
  by (simp add: read_field_def split: if_splits)

lemma read_pointer:
  assumes "values_at name obj = (case p of None \<Rightarrow> [] | Some x \<Rightarrow> [write x])"
    and "\<And>x. p = Some x \<Longrightarrow> write x \<noteq> JNull \<and> read (write x) zero = Some (f x)"
  shows "read_field (into_pointer read zero) None obj name = Some (map_option f p)"
proof (cases p)
  case None
  with assms(1) show ?thesis by (simp add: read_field_def)
next
  case (Some x)
  with assms(2) have "write x \<noteq> JNull" "read (write x) zero = Some (f x)" by simp_all
  then have "into_pointer read zero (write x) None = Some (Some (f x))" by (cases "write x") simp_all
  with assms(1) Some show ?thesis by (simp add: read_field_def)
qed

lemma into_int_JInt: "go_int n \<Longrightarrow> into_int (JInt n) old = Some n"
  by (simp add: JInt_def atoi_itoa)

lemma those_map_Some: "(\<And>x. x \<in> set xs \<Longrightarrow> f x = Some (g x)) \<Longrightarrow> those (map f xs) = Some (map g xs)"
  by (induction xs) simp_all

lemma into_list_map:
  "(\<And>x. x \<in> set xs \<Longrightarrow> read (write x) zero = Some (g x)) \<Longrightarrow>
   into_list read zero (JArray (map write xs)) old = Some (map g xs)"
  using those_map_Some [of xs "\<lambda>x. read (write x) zero" g] by (simp add: comp_def)

end
