(* ===== verification/Power_Wire.thy ===== *)
theory Power_Wire
  imports Power_Client MCP_Tools Go_Struct
begin

text \<open>
  The payloads of the power API as JSON: what the server writes (the structs of
  \<open>internal/server/handlers_*.go\<close> with their tags) and what the client SDK and the tools read and
  send (\<open>pkg/types/types.go\<close>).  Times are RFC 3339 texts on the wire; reading one is a parameter.
\<close>

section \<open>What the server writes\<close>

definition task_fields :: "transitionTaskSpec \<Rightarrow> (string \<times> json) list" where
  "task_fields x =
     tag ''nodeID'' (JString (xs_NodeID x)) @
      string_tag ''bmcID'' (xs_BMCID x) @
      string_tag ''endpoint'' (xs_Endpoint x) @
      tag ''operation'' (JString (xs_Operation x)) @
      tag ''state'' (JString (xs_State x)) @
      tag ''dryRun'' (JBool (xs_DryRun x)) @
      tag ''attemptCount'' (JInt (xs_AttemptCount x)) @
      string_tag ''finalPowerState'' (xs_FinalPowerState x) @
      string_tag ''errorDetail'' (xs_ErrorDetail x) @
      tag ''queuedAt'' (JString (xs_QueuedAt x)) @
      pointer_tag JString ''startedAt'' (xs_StartedAt x) @
      pointer_tag JString ''completedAt'' (xs_CompletedAt x)"

definition write_task :: "transitionTaskSpec \<Rightarrow> json" where
  "write_task x = JObject (task_fields x)"

definition transition_fields :: "transitionSpec \<Rightarrow> (string \<times> json) list" where
  "transition_fields x =
     string_tag ''requestID'' (xp_RequestID x) @
      tag ''operation'' (JString (xp_Operation x)) @
      tag ''state'' (JString (xp_State x)) @
      string_tag ''requestedBy'' (xp_RequestedBy x) @
      tag ''dryRun'' (JBool (xp_DryRun x)) @
      tag ''targetCount'' (JInt (xp_TargetCount x)) @
      tag ''successCount'' (JInt (xp_SuccessCount x)) @
      tag ''failureCount'' (JInt (xp_FailureCount x)) @
      tag ''queuedAt'' (JString (xp_QueuedAt x)) @
      pointer_tag JString ''startedAt'' (xp_StartedAt x) @
      pointer_tag JString ''completedAt'' (xp_CompletedAt x) @
      omit_tag (xp_Tasks x = []) ''tasks'' (JArray (map write_task (xp_Tasks x)))"

definition write_transition :: "transitionSpec \<Rightarrow> json" where
  "write_transition x = JObject (transition_fields x)"

definition node_status_fields :: "powerNodeStatus \<Rightarrow> (string \<times> json) list" where
  "node_status_fields x =
     tag ''nodeID'' (JString (ns_NodeID x)) @
      string_tag ''bmcID'' (ns_BMCID x) @
      string_tag ''transitionID'' (ns_TransitionID x) @
      string_tag ''operation'' (ns_Operation x) @
      tag ''state'' (JString (ns_State x)) @
      string_tag ''powerState'' (ns_PowerState x) @
      string_tag ''errorDetail'' (ns_ErrorDetail x) @
      pointer_tag JString ''lastUpdatedAt'' (ns_LastUpdatedAt x) @
      pointer_tag JString ''lastCompletedAt'' (ns_LastCompletedAt x)"

definition write_node_status :: "powerNodeStatus \<Rightarrow> json" where
  "write_node_status x = JObject (node_status_fields x)"

text \<open>The body of a power status, the node statuses and their number; and that of a sync trigger.\<close>

definition write_power_status :: "powerNodeStatus list \<Rightarrow> int \<Rightarrow> json" where
  "write_power_status statuses nodeCount =
     JObject (tag ''nodeStatuses'' (JArray (map write_node_status statuses)) @ tag ''total'' (JInt nodeCount))"

definition write_sync_trigger :: "string \<Rightarrow> json" where
  "write_sync_trigger status = JObject (tag ''status'' (JString status))"

section \<open>What the client reads (types.go)\<close>

record PublicTask =
  wk_NodeID :: string
  wk_BMCID :: string
  wk_Endpoint :: string
  wk_Operation :: string
  wk_State :: string
  wk_FinalPowerState :: string
  wk_ErrorDetail :: string
  wk_QueuedAt :: time
  wk_StartedAt :: "time option"
  wk_CompletedAt :: "time option"
  wk_AttemptCount :: int
  wk_DryRun :: bool

record PublicTransition =
  wx_RequestID :: string
  wx_Operation :: string
  wx_State :: string
  wx_RequestedBy :: string
  wx_QueuedAt :: time
  wx_StartedAt :: "time option"
  wx_CompletedAt :: "time option"
  wx_Tasks :: "PublicTask list"
  wx_TargetCount :: int
  wx_SuccessCount :: int
  wx_FailureCount :: int
  wx_DryRun :: bool

record PublicNodeStatus =
  wn_NodeID :: string
  wn_BMCID :: string
  wn_TransitionID :: string
  wn_Operation :: string
  wn_State :: string
  wn_PowerState :: string
  wn_ErrorDetail :: string
  wn_LastUpdatedAt :: "time option"
  wn_LastCompletedAt :: "time option"

definition no_task :: PublicTask where
  "no_task = \<lparr>wk_NodeID = [], wk_BMCID = [], wk_Endpoint = [], wk_Operation = [], wk_State = [],
      wk_FinalPowerState = [], wk_ErrorDetail = [], wk_QueuedAt = 0, wk_StartedAt = None,
      wk_CompletedAt = None, wk_AttemptCount = 0, wk_DryRun = False\<rparr>"

definition no_node_status :: PublicNodeStatus where
  "no_node_status = \<lparr>wn_NodeID = [], wn_BMCID = [], wn_TransitionID = [], wn_Operation = [], wn_State = [],
      wn_PowerState = [], wn_ErrorDetail = [], wn_LastUpdatedAt = None,
      wn_LastCompletedAt = None\<rparr>"

text \<open>A value that is no object is a type error here; the bodies are never null.\<close>

definition into_task :: "(string \<Rightarrow> time option) \<Rightarrow> PublicTask into" where
  "into_task parse v old =
     (case v of JObject obj \<Rightarrow> do {
       nodeID \<leftarrow> read_field into_string [] obj ''nodeID'';
       bMCID \<leftarrow> read_field into_string [] obj ''bmcID'';
       endpoint \<leftarrow> read_field into_string [] obj ''endpoint'';
       operation \<leftarrow> read_field into_string [] obj ''operation'';
       state \<leftarrow> read_field into_string [] obj ''state'';
       finalPowerState \<leftarrow> read_field into_string [] obj ''finalPowerState'';
       errorDetail \<leftarrow> read_field into_string [] obj ''errorDetail'';
       queuedAt \<leftarrow> read_field (into_time parse) 0 obj ''queuedAt'';
       startedAt \<leftarrow> read_field (into_pointer (into_time parse) 0) None obj ''startedAt'';
       completedAt \<leftarrow> read_field (into_pointer (into_time parse) 0) None obj ''completedAt'';
       attemptCount \<leftarrow> read_field into_int 0 obj ''attemptCount'';
       dryRun \<leftarrow> read_field into_bool False obj ''dryRun'';
       Some \<lparr>wk_NodeID = nodeID, wk_BMCID = bMCID, wk_Endpoint = endpoint,
             wk_Operation = operation, wk_State = state, wk_FinalPowerState = finalPowerState,
             wk_ErrorDetail = errorDetail, wk_QueuedAt = queuedAt, wk_StartedAt = startedAt,
             wk_CompletedAt = completedAt, wk_AttemptCount = attemptCount, wk_DryRun = dryRun\<rparr>
     } | _ \<Rightarrow> None)"

definition read_transition :: "(string \<Rightarrow> time option) \<Rightarrow> json \<Rightarrow> PublicTransition option" where
  "read_transition parse v =
     (case v of JObject obj \<Rightarrow> do {
       requestID \<leftarrow> read_field into_string [] obj ''requestID'';
       operation \<leftarrow> read_field into_string [] obj ''operation'';
       state \<leftarrow> read_field into_string [] obj ''state'';
       requestedBy \<leftarrow> read_field into_string [] obj ''requestedBy'';
       queuedAt \<leftarrow> read_field (into_time parse) 0 obj ''queuedAt'';
       startedAt \<leftarrow> read_field (into_pointer (into_time parse) 0) None obj ''startedAt'';
       completedAt \<leftarrow> read_field (into_pointer (into_time parse) 0) None obj ''completedAt'';
       tasks \<leftarrow> read_field (into_list (into_task parse) no_task) [] obj ''tasks'';
       targetCount \<leftarrow> read_field into_int 0 obj ''targetCount'';
       successCount \<leftarrow> read_field into_int 0 obj ''successCount'';
       failureCount \<leftarrow> read_field into_int 0 obj ''failureCount'';
       dryRun \<leftarrow> read_field into_bool False obj ''dryRun'';
       Some \<lparr>wx_RequestID = requestID, wx_Operation = operation, wx_State = state,
             wx_RequestedBy = requestedBy, wx_QueuedAt = queuedAt, wx_StartedAt = startedAt,
             wx_CompletedAt = completedAt, wx_Tasks = tasks, wx_TargetCount = targetCount,
             wx_SuccessCount = successCount, wx_FailureCount = failureCount, wx_DryRun = dryRun\<rparr>
     } | _ \<Rightarrow> None)"

definition into_node_status :: "(string \<Rightarrow> time option) \<Rightarrow> PublicNodeStatus into" where
  "into_node_status parse v old =
     (case v of JObject obj \<Rightarrow> do {
       nodeID \<leftarrow> read_field into_string [] obj ''nodeID'';
       bMCID \<leftarrow> read_field into_string [] obj ''bmcID'';
       transitionID \<leftarrow> read_field into_string [] obj ''transitionID'';
       operation \<leftarrow> read_field into_string [] obj ''operation'';
       state \<leftarrow> read_field into_string [] obj ''state'';
       powerState \<leftarrow> read_field into_string [] obj ''powerState'';
       errorDetail \<leftarrow> read_field into_string [] obj ''errorDetail'';
       lastUpdatedAt \<leftarrow> read_field (into_pointer (into_time parse) 0) None obj ''lastUpdatedAt'';
       lastCompletedAt \<leftarrow> read_field (into_pointer (into_time parse) 0) None obj ''lastCompletedAt'';
       Some \<lparr>wn_NodeID = nodeID, wn_BMCID = bMCID, wn_TransitionID = transitionID,
             wn_Operation = operation, wn_State = state, wn_PowerState = powerState,
             wn_ErrorDetail = errorDetail, wn_LastUpdatedAt = lastUpdatedAt,
             wn_LastCompletedAt = lastCompletedAt\<rparr>
     } | _ \<Rightarrow> None)"

definition read_power_status ::
    "(string \<Rightarrow> time option) \<Rightarrow> json \<Rightarrow> (PublicNodeStatus list \<times> int) option" where
  "read_power_status parse v =
     (case v of JObject obj \<Rightarrow> do {
       statuses \<leftarrow> read_field (into_list (into_node_status parse) no_node_status) [] obj ''nodeStatuses'';
       nodeCount \<leftarrow> read_field into_int 0 obj ''total'';
       Some (statuses, nodeCount)
     } | _ \<Rightarrow> None)"

definition read_sync_trigger :: "json \<Rightarrow> string option" where
  "read_sync_trigger v =
     (case v of JObject obj \<Rightarrow> read_field into_string [] obj ''status'' | _ \<Rightarrow> None)"

section \<open>What the client sends and the server reads\<close>

definition create_request_fields :: "CreateTransitionRequest \<Rightarrow> (string \<times> json) list" where
  "create_request_fields x =
     tag ''operation'' (JString (ct_Operation x)) @
      string_tag ''requestID'' (ct_RequestID x) @
      omit_tag (ct_Nodes x = []) ''nodes'' (JArray (map JString (ct_Nodes x))) @
      omit_tag (ct_Groups x = []) ''groups'' (JArray (map JString (ct_Groups x))) @
      omit_tag (\<not> ct_DryRun x) ''dryRun'' (JBool (ct_DryRun x))"

definition write_create_request :: "CreateTransitionRequest \<Rightarrow> json" where
  "write_create_request x = JObject (create_request_fields x)"

text \<open>Into \<open>transitionCreateRequest\<close>, which has the fields of \<open>resetActionRequest\<close>.\<close>

definition read_create_request :: "json \<Rightarrow> resetActionRequest option" where
  "read_create_request v =
     (case v of JObject obj \<Rightarrow> do {
       requestID \<leftarrow> read_field into_string [] obj ''requestID'';
       operation \<leftarrow> read_field into_string [] obj ''operation'';
       nodes \<leftarrow> read_field (into_list into_string []) [] obj ''nodes'';
       groups \<leftarrow> read_field (into_list into_string []) [] obj ''groups'';
       dryRun \<leftarrow> read_field into_bool False obj ''dryRun'';
       Some \<lparr>ar_RequestID = requestID, ar_Nodes = nodes, ar_Groups = groups, ar_DryRun = dryRun,
             ar_Operation = operation\<rparr>
     } | _ \<Rightarrow> None)"

text \<open>
  The requests of the power actions: \<open>ActionRequest\<close> and \<open>ResetActionRequest\<close> of the client have the
  fields of the server's structs.
\<close>

definition action_fields :: "'x actionRequest_scheme \<Rightarrow> (string \<times> json) list" where
  "action_fields x =
     string_tag ''requestID'' (ar_RequestID x) @
      omit_tag (ar_Nodes x = []) ''nodes'' (JArray (map JString (ar_Nodes x))) @
      omit_tag (ar_Groups x = []) ''groups'' (JArray (map JString (ar_Groups x))) @
      omit_tag (\<not> ar_DryRun x) ''dryRun'' (JBool (ar_DryRun x))"

definition write_action_request :: "actionRequest \<Rightarrow> json" where
  "write_action_request x = JObject (action_fields x)"

definition write_reset_request :: "resetActionRequest \<Rightarrow> json" where
  "write_reset_request x = JObject (tag ''operation'' (JString (ar_Operation x)) @ action_fields x)"

definition read_action_request :: "json \<Rightarrow> actionRequest option" where
  "read_action_request v =
     (case v of JObject obj \<Rightarrow> do {
       requestID \<leftarrow> read_field into_string [] obj ''requestID'';
       nodes \<leftarrow> read_field (into_list into_string []) [] obj ''nodes'';
       groups \<leftarrow> read_field (into_list into_string []) [] obj ''groups'';
       dryRun \<leftarrow> read_field into_bool False obj ''dryRun'';
       Some \<lparr>ar_RequestID = requestID, ar_Nodes = nodes, ar_Groups = groups, ar_DryRun = dryRun\<rparr>
     } | _ \<Rightarrow> None)"

definition read_reset_request :: "json \<Rightarrow> resetActionRequest option" where
  "read_reset_request v = read_create_request v"

section \<open>What is written is read back\<close>

text \<open>What a client should see of a task and of a transition.\<close>

definition public_task :: "Task \<Rightarrow> PublicTask" where
  "public_task t =
     \<lparr>wk_NodeID = trim_space (tk_NodeID t), wk_BMCID = trim_space (tk_BMCID t),
      wk_Endpoint = trim_space (tk_BMCEndpoint t), wk_Operation = trim_space (tk_Operation t),
      wk_State = trim_space (tk_State t), wk_FinalPowerState = trim_space (tk_FinalPowerState t),
      wk_ErrorDetail = trim_space (tk_ErrorDetail t), wk_QueuedAt = tk_QueuedAt t,
      wk_StartedAt = tk_StartedAt t, wk_CompletedAt = tk_CompletedAt t,
      wk_AttemptCount = tk_AttemptCount t, wk_DryRun = tk_DryRun t\<rparr>"

definition public_transition :: "Transition \<Rightarrow> Task list \<Rightarrow> PublicTransition" where
  "public_transition tr tasks =
     \<lparr>wx_RequestID = trim_space (tr_RequestID tr), wx_Operation = trim_space (tr_Operation tr),
      wx_State = trim_space (tr_State tr), wx_RequestedBy = trim_space (tr_RequestedBy tr),
      wx_QueuedAt = tr_QueuedAt tr, wx_StartedAt = tr_StartedAt tr,
      wx_CompletedAt = tr_CompletedAt tr, wx_Tasks = map public_task tasks,
      wx_TargetCount = tr_TargetCount tr, wx_SuccessCount = tr_SuccessCount tr,
      wx_FailureCount = tr_FailureCount tr, wx_DryRun = tr_DryRun tr\<rparr>"

text \<open>The times and numbers of the records fit their texts.\<close>

definition reads_times :: "(string \<Rightarrow> time option) \<Rightarrow> time set \<Rightarrow> bool" where
  "reads_times parse ts \<longleftrightarrow> (\<forall>t \<in> ts. parse (rfc3339_nano t) = Some t)"

definition task_times :: "Task \<Rightarrow> time set" where
  "task_times t = {tk_QueuedAt t} \<union> set_option (tk_StartedAt t) \<union> set_option (tk_CompletedAt t)"

definition transition_times :: "Transition \<Rightarrow> time set" where
  "transition_times t = {tr_QueuedAt t} \<union> set_option (tr_StartedAt t) \<union> set_option (tr_CompletedAt t)"

lemma read_time_pointer:
  assumes "values_at name obj = (case toTimeRFC3339Ptr p of None \<Rightarrow> [] | Some x \<Rightarrow> [JString x])"
    and "reads_times parse (set_option p)"
  shows "read_field (into_pointer (into_time parse) 0) None obj name = Some p"
  using assms
  by (cases p) (simp_all add: read_field_def toTimeRFC3339Ptr_def newTimeRFC3339_def reads_times_def)

lemma read_tagged:
  "values_at name obj = [JString s] \<Longrightarrow> read_field into_string [] obj name = Some s"
  "values_at name obj = (if s \<noteq> [] then [JString s] else []) \<Longrightarrow> read_field into_string [] obj name = Some s"
  "values_at name obj = [JBool b] \<Longrightarrow> read_field into_bool False obj name = Some b"
  "values_at name obj = (if b then [JBool b] else []) \<Longrightarrow> read_field into_bool False obj name = Some b"
  "values_at name obj = [JInt n] \<Longrightarrow> go_int n \<Longrightarrow> read_field into_int 0 obj name = Some n"
  "values_at name obj = [JString (newTimeRFC3339 t)] \<Longrightarrow> reads_times parse {t} \<Longrightarrow>
   read_field (into_time parse) 0 obj name = Some t"
  by (auto simp: read_field_def into_int_JInt reads_times_def newTimeRFC3339_def split: if_splits)

lemma read_list:
  assumes "values_at name obj = (if xs \<noteq> [] then [JArray (map write xs)] else [])"
    and "\<And>x. x \<in> set xs \<Longrightarrow> read (write x) zero = Some (g x)"
  shows "read_field (into_list read zero) [] obj name = Some (map g xs)"
proof (cases "xs = []")
  case True
  with assms(1) show ?thesis by (simp add: read_field_def)
next
  case False
  have "into_list read zero (JArray (map write xs)) [] = Some (map g xs)"
    by (rule into_list_map) (rule assms(2))
  with assms(1) False show ?thesis by (simp add: read_field_def)
qed

lemma task_fields_at:
  "values_at ''nodeID'' (task_fields x) = [JString (xs_NodeID x)]"
  "values_at ''bmcID'' (task_fields x) = (if xs_BMCID x \<noteq> [] then [JString (xs_BMCID x)] else [])"
  "values_at ''endpoint'' (task_fields x) = (if xs_Endpoint x \<noteq> [] then [JString (xs_Endpoint x)] else [])"
  "values_at ''operation'' (task_fields x) = [JString (xs_Operation x)]"
  "values_at ''state'' (task_fields x) = [JString (xs_State x)]"
  "values_at ''dryRun'' (task_fields x) = [JBool (xs_DryRun x)]"
  "values_at ''attemptCount'' (task_fields x) = [JInt (xs_AttemptCount x)]"
  "values_at ''finalPowerState'' (task_fields x) =
     (if xs_FinalPowerState x \<noteq> [] then [JString (xs_FinalPowerState x)] else [])"
  "values_at ''errorDetail'' (task_fields x) =
     (if xs_ErrorDetail x \<noteq> [] then [JString (xs_ErrorDetail x)] else [])"
  "values_at ''queuedAt'' (task_fields x) = [JString (xs_QueuedAt x)]"
  "values_at ''startedAt'' (task_fields x) = (case xs_StartedAt x of None \<Rightarrow> [] | Some t \<Rightarrow> [JString t])"
  "values_at ''completedAt'' (task_fields x) = (case xs_CompletedAt x of None \<Rightarrow> [] | Some t \<Rightarrow> [JString t])"
  by (simp_all add: task_fields_def struct_simps lower_char_def)

lemmas task_fields_read =
  read_tagged(1) [OF task_fields_at(1)] read_tagged(2) [OF task_fields_at(2)]
  read_tagged(2) [OF task_fields_at(3)] read_tagged(1) [OF task_fields_at(4)]
  read_tagged(1) [OF task_fields_at(5)] read_tagged(3) [OF task_fields_at(6)]
  read_tagged(5) [OF task_fields_at(7)] read_tagged(2) [OF task_fields_at(8)]
  read_tagged(2) [OF task_fields_at(9)]

lemma read_task:
  assumes "reads_times parse (task_times t)" "go_int (tk_AttemptCount t)"
  shows "into_task parse (write_task (task_spec t)) old = Some (public_task t)"
proof -
  let ?x = "task_spec t"
  have times: "reads_times parse {tk_QueuedAt t}" "reads_times parse (set_option (tk_StartedAt t))"
    "reads_times parse (set_option (tk_CompletedAt t))"
    using assms(1) by (auto simp: reads_times_def task_times_def)
  have at: "xs_StartedAt ?x = toTimeRFC3339Ptr (tk_StartedAt t)"
    "xs_CompletedAt ?x = toTimeRFC3339Ptr (tk_CompletedAt t)"
    "xs_QueuedAt ?x = newTimeRFC3339 (tk_QueuedAt t)" by (simp_all add: task_spec_def)
  have num: "go_int (xs_AttemptCount ?x)" using assms(2) by (simp add: task_spec_def)
  note read = task_fields_read [of ?x] task_fields_read(7) [OF num]
    read_tagged(6) [OF task_fields_at(10) [of ?x, unfolded at] times(1)]
    read_time_pointer [OF task_fields_at(11) [of ?x, unfolded at] times(2)]
    read_time_pointer [OF task_fields_at(12) [of ?x, unfolded at] times(3)]
  have "into_task parse (write_task ?x) old =
      Some \<lparr>wk_NodeID = xs_NodeID ?x, wk_BMCID = xs_BMCID ?x, wk_Endpoint = xs_Endpoint ?x,
        wk_Operation = xs_Operation ?x, wk_State = xs_State ?x,
        wk_FinalPowerState = xs_FinalPowerState ?x, wk_ErrorDetail = xs_ErrorDetail ?x,
        wk_QueuedAt = tk_QueuedAt t, wk_StartedAt = tk_StartedAt t, wk_CompletedAt = tk_CompletedAt t,
        wk_AttemptCount = xs_AttemptCount ?x, wk_DryRun = xs_DryRun ?x\<rparr>"
    by (simp only: into_task_def write_task_def json.case read bind.simps)
  then show ?thesis by (simp add: task_spec_def public_task_def)
qed

lemma transition_fields_at:
  "values_at ''requestID'' (transition_fields x) = (if xp_RequestID x \<noteq> [] then [JString (xp_RequestID x)] else [])"
  "values_at ''operation'' (transition_fields x) = [JString (xp_Operation x)]"
  "values_at ''state'' (transition_fields x) = [JString (xp_State x)]"
  "values_at ''requestedBy'' (transition_fields x) =
     (if xp_RequestedBy x \<noteq> [] then [JString (xp_RequestedBy x)] else [])"
  "values_at ''dryRun'' (transition_fields x) = [JBool (xp_DryRun x)]"
  "values_at ''targetCount'' (transition_fields x) = [JInt (xp_TargetCount x)]"
  "values_at ''successCount'' (transition_fields x) = [JInt (xp_SuccessCount x)]"
  "values_at ''failureCount'' (transition_fields x) = [JInt (xp_FailureCount x)]"
  "values_at ''queuedAt'' (transition_fields x) = [JString (xp_QueuedAt x)]"
  "values_at ''startedAt'' (transition_fields x) = (case xp_StartedAt x of None \<Rightarrow> [] | Some t \<Rightarrow> [JString t])"
  "values_at ''completedAt'' (transition_fields x) =
     (case xp_CompletedAt x of None \<Rightarrow> [] | Some t \<Rightarrow> [JString t])"
  "values_at ''tasks'' (transition_fields x) =
     (if xp_Tasks x \<noteq> [] then [JArray (map write_task (xp_Tasks x))] else [])"
  by (simp_all add: transition_fields_def struct_simps lower_char_def)

lemma node_status_fields_at:
  "values_at ''nodeID'' (node_status_fields x) = [JString (ns_NodeID x)]"
  "values_at ''bmcID'' (node_status_fields x) = (if ns_BMCID x \<noteq> [] then [JString (ns_BMCID x)] else [])"
  "values_at ''transitionID'' (node_status_fields x) =
     (if ns_TransitionID x \<noteq> [] then [JString (ns_TransitionID x)] else [])"
  "values_at ''operation'' (node_status_fields x) =
     (if ns_Operation x \<noteq> [] then [JString (ns_Operation x)] else [])"
  "values_at ''state'' (node_status_fields x) = [JString (ns_State x)]"
  "values_at ''powerState'' (node_status_fields x) =
     (if ns_PowerState x \<noteq> [] then [JString (ns_PowerState x)] else [])"
  "values_at ''errorDetail'' (node_status_fields x) =
     (if ns_ErrorDetail x \<noteq> [] then [JString (ns_ErrorDetail x)] else [])"
  "values_at ''lastUpdatedAt'' (node_status_fields x) =
     (case ns_LastUpdatedAt x of None \<Rightarrow> [] | Some t \<Rightarrow> [JString t])"
  "values_at ''lastCompletedAt'' (node_status_fields x) =
     (case ns_LastCompletedAt x of None \<Rightarrow> [] | Some t \<Rightarrow> [JString t])"
  by (simp_all add: node_status_fields_def struct_simps lower_char_def)

lemma create_request_fields_at:
  "values_at ''requestID'' (create_request_fields x) =
     (if ct_RequestID x \<noteq> [] then [JString (ct_RequestID x)] else [])"
  "values_at ''operation'' (create_request_fields x) = [JString (ct_Operation x)]"
  "values_at ''nodes'' (create_request_fields x) =
     (if ct_Nodes x \<noteq> [] then [JArray (map JString (ct_Nodes x))] else [])"
  "values_at ''groups'' (create_request_fields x) =
     (if ct_Groups x \<noteq> [] then [JArray (map JString (ct_Groups x))] else [])"
  "values_at ''dryRun'' (create_request_fields x) = (if ct_DryRun x then [JBool (ct_DryRun x)] else [])"
  by (simp_all add: create_request_fields_def struct_simps lower_char_def)

lemma read_transition:
  assumes "reads_times parse (transition_times tr)"
    and "go_int (tr_TargetCount tr)" "go_int (tr_SuccessCount tr)" "go_int (tr_FailureCount tr)"
    and "\<And>t. t \<in> set tasks \<Longrightarrow> reads_times parse (task_times t) \<and> go_int (tk_AttemptCount t)"
  shows "read_transition parse (write_transition (xr_Spec (toTransitionResource tr tasks))) =
    Some (public_transition tr tasks)"
proof -
  let ?x = "xr_Spec (toTransitionResource tr tasks)"
  have times: "reads_times parse {tr_QueuedAt tr}" "reads_times parse (set_option (tr_StartedAt tr))"
    "reads_times parse (set_option (tr_CompletedAt tr))"
    using assms(1) by (auto simp: reads_times_def transition_times_def)
  have at: "xp_StartedAt ?x = toTimeRFC3339Ptr (tr_StartedAt tr)"
    "xp_CompletedAt ?x = toTimeRFC3339Ptr (tr_CompletedAt tr)"
    "xp_QueuedAt ?x = newTimeRFC3339 (tr_QueuedAt tr)" "xp_Tasks ?x = map task_spec tasks"
    by (simp_all add: toTransitionResource_def)
  have num: "go_int (xp_TargetCount ?x)" "go_int (xp_SuccessCount ?x)" "go_int (xp_FailureCount ?x)"
    using assms(2-4) by (simp_all add: toTransitionResource_def)
  have tasks: "values_at ''tasks'' (transition_fields ?x) =
      (if tasks \<noteq> [] then [JArray (map (write_task \<circ> task_spec) tasks)] else [])"
    by (simp add: transition_fields_at(12) at)
  note f = transition_fields_at [of ?x]
  note read = read_tagged(2) [OF f(1)] read_tagged(1) [OF f(2)] read_tagged(1) [OF f(3)]
    read_tagged(2) [OF f(4)] read_tagged(3) [OF f(5)] read_tagged(5) [OF f(6) num(1)]
    read_tagged(5) [OF f(7) num(2)] read_tagged(5) [OF f(8) num(3)]
    read_tagged(6) [OF f(9) [unfolded at] times(1)] read_time_pointer [OF f(10) [unfolded at] times(2)]
    read_time_pointer [OF f(11) [unfolded at] times(3)]
  have list: "read_field (into_list (into_task parse) no_task) [] (transition_fields ?x) ''tasks'' =
      Some (map public_task tasks)"
    by (rule read_list [OF tasks]) (simp add: read_task assms(5))
  have "read_transition parse (write_transition ?x) =
      Some \<lparr>wx_RequestID = xp_RequestID ?x, wx_Operation = xp_Operation ?x, wx_State = xp_State ?x,
        wx_RequestedBy = xp_RequestedBy ?x, wx_QueuedAt = tr_QueuedAt tr,
        wx_StartedAt = tr_StartedAt tr, wx_CompletedAt = tr_CompletedAt tr,
        wx_Tasks = map public_task tasks, wx_TargetCount = xp_TargetCount ?x,
        wx_SuccessCount = xp_SuccessCount ?x, wx_FailureCount = xp_FailureCount ?x,
        wx_DryRun = xp_DryRun ?x\<rparr>"
    by (simp only: read_transition_def write_transition_def json.case read list bind.simps)
  then show ?thesis by (simp add: toTransitionResource_def public_transition_def)
qed

lemma read_create_request:
  "read_create_request (write_create_request x) =
   Some \<lparr>ar_RequestID = ct_RequestID x, ar_Nodes = ct_Nodes x, ar_Groups = ct_Groups x,
     ar_DryRun = ct_DryRun x, ar_Operation = ct_Operation x\<rparr>"
proof -
  note f = create_request_fields_at [of x]
  have bool: "values_at ''dryRun'' (create_request_fields x) = (if ct_DryRun x then [JBool (ct_DryRun x)] else [])"
    by (rule f(5))
  have nodes: "read_field (into_list into_string []) [] (create_request_fields x) ''nodes'' = Some (ct_Nodes x)"
    using read_list [OF f(3), of into_string "[]" "\<lambda>s. s"] by simp
  have groups: "read_field (into_list into_string []) [] (create_request_fields x) ''groups'' = Some (ct_Groups x)"
    using read_list [OF f(4), of into_string "[]" "\<lambda>s. s"] by simp
  note read = read_tagged(2) [OF f(1)] read_tagged(1) [OF f(2)] read_tagged(4) [OF f(5)]
  show ?thesis
    by (simp only: read_create_request_def write_create_request_def json.case read nodes groups bind.simps)
qed

lemma action_fields_at:
  "values_at ''requestID'' (action_fields x) = (if ar_RequestID x \<noteq> [] then [JString (ar_RequestID x)] else [])"
  "values_at ''operation'' (action_fields x) = []"
  "values_at ''nodes'' (action_fields x) = (if ar_Nodes x \<noteq> [] then [JArray (map JString (ar_Nodes x))] else [])"
  "values_at ''groups'' (action_fields x) = (if ar_Groups x \<noteq> [] then [JArray (map JString (ar_Groups x))] else [])"
  "values_at ''dryRun'' (action_fields x) = (if ar_DryRun x then [JBool (ar_DryRun x)] else [])"
  by (simp_all add: action_fields_def struct_simps lower_char_def)

text \<open>The fields that all the requests share.\<close>

lemma read_shared_fields:
  assumes "values_at ''requestID'' obj = values_at ''requestID'' (action_fields x)"
    and "values_at ''nodes'' obj = values_at ''nodes'' (action_fields x)"
    and "values_at ''groups'' obj = values_at ''groups'' (action_fields x)"
    and "values_at ''dryRun'' obj = values_at ''dryRun'' (action_fields x)"
  shows "read_field into_string [] obj ''requestID'' = Some (ar_RequestID x)"
    "read_field (into_list into_string []) [] obj ''nodes'' = Some (ar_Nodes x)"
    "read_field (into_list into_string []) [] obj ''groups'' = Some (ar_Groups x)"
    "read_field into_bool False obj ''dryRun'' = Some (ar_DryRun x)"
proof -
  note f = assms [unfolded action_fields_at]
  show "read_field into_string [] obj ''requestID'' = Some (ar_RequestID x)" by (rule read_tagged(2) [OF f(1)])
  show "read_field into_bool False obj ''dryRun'' = Some (ar_DryRun x)" by (rule read_tagged(4) [OF f(4)])
  show "read_field (into_list into_string []) [] obj ''nodes'' = Some (ar_Nodes x)"
    using read_list [OF f(2), of into_string "[]" "\<lambda>s. s"] by simp
  show "read_field (into_list into_string []) [] obj ''groups'' = Some (ar_Groups x)"
    using read_list [OF f(3), of into_string "[]" "\<lambda>s. s"] by simp
qed

lemma read_action_request: "read_action_request (write_action_request x) = Some x"
  using read_shared_fields [OF refl refl refl refl, of x]
  by (simp only: read_action_request_def write_action_request_def json.case bind.simps) simp

lemma read_reset_request: "read_reset_request (write_reset_request x) = Some x"
proof -
  let ?obj = "tag ''operation'' (JString (ar_Operation x)) @ action_fields x"
  have at: "values_at ''requestID'' ?obj = values_at ''requestID'' (action_fields x)"
    "values_at ''nodes'' ?obj = values_at ''nodes'' (action_fields x)"
    "values_at ''groups'' ?obj = values_at ''groups'' (action_fields x)"
    "values_at ''dryRun'' ?obj = values_at ''dryRun'' (action_fields x)"
    "values_at ''operation'' ?obj = [JString (ar_Operation x)]"
    by (simp_all add: values_at_simps action_fields_at equal_fold_lower lower_char_def)
  from read_shared_fields [OF at(1-4)] read_tagged(1) [OF at(5)] show ?thesis
    by (simp only: read_reset_request_def read_create_request_def write_reset_request_def json.case
        bind.simps) simp
qed

text \<open>The status of a node, whose times the server has written.\<close>

definition public_node_status :: "time option \<Rightarrow> time option \<Rightarrow> powerNodeStatus \<Rightarrow> PublicNodeStatus" where
  "public_node_status updated completed x =
     \<lparr>wn_NodeID = ns_NodeID x, wn_BMCID = ns_BMCID x, wn_TransitionID = ns_TransitionID x,
      wn_Operation = ns_Operation x, wn_State = ns_State x, wn_PowerState = ns_PowerState x,
      wn_ErrorDetail = ns_ErrorDetail x, wn_LastUpdatedAt = updated, wn_LastCompletedAt = completed\<rparr>"

lemma read_node_status:
  assumes "ns_LastUpdatedAt x = toTimeRFC3339Ptr updated" "ns_LastCompletedAt x = toTimeRFC3339Ptr completed"
    and "reads_times parse (set_option updated \<union> set_option completed)"
  shows "into_node_status parse (write_node_status x) old = Some (public_node_status updated completed x)"
proof -
  have times: "reads_times parse (set_option updated)" "reads_times parse (set_option completed)"
    using assms(3) by (auto simp: reads_times_def)
  note f = node_status_fields_at [of x]
  note read = read_tagged(1) [OF f(1)] read_tagged(2) [OF f(2)] read_tagged(2) [OF f(3)]
    read_tagged(2) [OF f(4)] read_tagged(1) [OF f(5)] read_tagged(2) [OF f(6)] read_tagged(2) [OF f(7)]
    read_time_pointer [OF f(8) [unfolded assms(1)] times(1)]
    read_time_pointer [OF f(9) [unfolded assms(2)] times(2)]
  show ?thesis
    by (simp only: into_node_status_def write_node_status_def json.case read bind.simps public_node_status_def)
qed

lemma read_power_status:
  assumes "go_int n"
    and "\<And>x. x \<in> set statuses \<Longrightarrow> ns_LastUpdatedAt x = toTimeRFC3339Ptr (updated x) \<and>
      ns_LastCompletedAt x = toTimeRFC3339Ptr (completed x) \<and>
      reads_times parse (set_option (updated x) \<union> set_option (completed x))"
  shows "read_power_status parse (write_power_status statuses n) =
    Some (map (\<lambda>x. public_node_status (updated x) (completed x) x) statuses, n)"
proof -
  let ?obj = "tag ''nodeStatuses'' (JArray (map write_node_status statuses)) @ tag ''total'' (JInt n)"
  have at: "values_at ''nodeStatuses'' ?obj = [JArray (map write_node_status statuses)]"
    "values_at ''total'' ?obj = [JInt n]"
    by (simp_all add: struct_simps lower_char_def)
  have "into_list (into_node_status parse) no_node_status (JArray (map write_node_status statuses)) [] =
      Some (map (\<lambda>x. public_node_status (updated x) (completed x) x) statuses)"
    by (rule into_list_map) (use read_node_status assms(2) in blast)
  then have "read_field (into_list (into_node_status parse) no_node_status) [] ?obj ''nodeStatuses'' =
      Some (map (\<lambda>x. public_node_status (updated x) (completed x) x) statuses)"
    by (simp only: read_one [OF at(1)])
  moreover have "read_field into_int 0 ?obj ''total'' = Some n" by (rule read_tagged(5) [OF at(2) assms(1)])
  ultimately show ?thesis
    by (simp only: read_power_status_def write_power_status_def json.case bind.simps)
qed

lemma read_sync_trigger: "read_sync_trigger (write_sync_trigger status) = Some status"
proof -
  have "values_at ''status'' (tag ''status'' (JString status)) = [JString status]"
    by (simp add: struct_simps)
  from read_tagged(1) [OF this] show ?thesis
    by (simp add: read_sync_trigger_def write_sync_trigger_def)
qed

text \<open>
  C30. Client and server agree on the payloads: a transition that the server writes is read by the
  client as the transition and its tasks, with every count and time, when the counts fit an \<open>int\<close> and
  the times of the records are read back from their RFC 3339 texts; the requests to start a transition
  or an action are read by the server as they were sent; and so are, by the client, a power status
  with its number of nodes and the answer to a sync trigger.
\<close>

theorem payloads_read_back:
  assumes "reads_times parse (transition_times tr)"
    and "go_int (tr_TargetCount tr)" "go_int (tr_SuccessCount tr)" "go_int (tr_FailureCount tr)"
    and "\<And>t. t \<in> set tasks \<Longrightarrow> reads_times parse (task_times t) \<and> go_int (tk_AttemptCount t)"
    and "\<And>x. x \<in> set statuses \<Longrightarrow> ns_LastUpdatedAt x = toTimeRFC3339Ptr (updated x) \<and>
      ns_LastCompletedAt x = toTimeRFC3339Ptr (completed x) \<and>
      reads_times parse (set_option (updated x) \<union> set_option (completed x))"
    and "go_int (int (length statuses))"
  shows "read_transition parse (write_transition (xr_Spec (toTransitionResource tr tasks))) =
      Some (public_transition tr tasks) \<and>
    map_option (action_request operation) (read_create_request (write_create_request x)) =
      Some \<lparr>tq_RequestID = trim_space (ct_RequestID x), tq_Operation = operation,
        tq_Nodes = ct_Nodes x, tq_Groups = ct_Groups x, tq_DryRun = ct_DryRun x\<rparr> \<and>
    read_action_request (write_action_request action) = Some action \<and>
    read_reset_request (write_reset_request reset) = Some reset \<and>
    read_power_status parse (write_power_status statuses (int (length statuses))) =
      Some (map (\<lambda>x. public_node_status (updated x) (completed x) x) statuses, int (length statuses)) \<and>
    read_sync_trigger (write_sync_trigger status) = Some status"
  using read_transition [OF assms(1-5)] read_power_status [OF assms(7), of statuses updated completed parse] assms(6)
  by (simp add: read_create_request action_request_def read_sync_trigger read_action_request
      read_reset_request)

section \<open>Witness\<close>

definition sample_status :: powerNodeStatus where
  "sample_status = (no_status ''n1'')\<lparr>ns_State := ''succeeded'', ns_LastUpdatedAt := toTimeRFC3339Ptr (Some 50)\<rparr>"

definition parse_50 :: "string \<Rightarrow> time option" where
  "parse_50 s = (if s = rfc3339_nano 50 then Some 50 else None)"

theorem payloads_read_back_witness:
  "read_transition parse_50 (write_transition (xr_Spec (toTransitionResource sample_transition [sample_task]))) =
     Some (public_transition sample_transition [sample_task]) \<and>
   read_power_status parse_50 (write_power_status [sample_status] 1) =
     Some ([public_node_status (Some 50) None sample_status], 1)"
proof -
  have "reads_times parse_50 (transition_times sample_transition)" "go_int (tr_TargetCount sample_transition)"
    "go_int (tr_SuccessCount sample_transition)" "go_int (tr_FailureCount sample_transition)"
    by (simp_all add: reads_times_def parse_50_def transition_times_def sample_transition_def go_int_def)
  moreover have "reads_times parse_50 (task_times t) \<and> go_int (tk_AttemptCount t)"
    if "t \<in> set [sample_task]" for t
    using that by (simp add: reads_times_def parse_50_def task_times_def sample_task_def go_int_def)
  moreover have "ns_LastUpdatedAt x = toTimeRFC3339Ptr (Some 50) \<and>
      ns_LastCompletedAt x = toTimeRFC3339Ptr None \<and> reads_times parse_50 (set_option (Some 50) \<union> set_option None)"
    if "x \<in> set [sample_status]" for x
    using that by (simp add: reads_times_def parse_50_def sample_status_def no_status_def toTimeRFC3339Ptr_def)
  moreover have "go_int (int (length [sample_status]))" by (simp add: go_int_def)
  ultimately show ?thesis
    using payloads_read_back [of parse_50 sample_transition "[sample_task]" "[sample_status]"
        "\<lambda>_. Some 50" "\<lambda>_. None"]
    by simp
qed

end
