(* ===== verification/Template_Store.thy ===== *)
theory Template_Store
  imports Go_Errors DB_Tables
begin

text \<open>
  The PostgreSQL store of the service template, \<open>templates/service/internal/store/postgres.go\<close>,
  over the one table of its first migration: rows with a UUID primary key and a unique name, whose
  \<open>updated_at\<close> a trigger sets on every update.  The placeholders of the template stand for
  themselves: a resource is \<open>resource\<close> here.  Which calls fail is \<open>tp_fault\<close>; the input
  function of PostgreSQL's \<open>uuid\<close> type and the errors of the driver are parameters.
\<close>

section \<open>The table\<close>

record resource =
  re_ID :: string
  re_Name :: string
  re_Description :: string
  re_CreatedAt :: time
  re_UpdatedAt :: time

text \<open>
  \<open>tp_uuid\<close> is the canonical text of a UUID, \<open>None\<close> where the input is refused; \<open>tp_pq_code\<close> is the
  code of the \<open>pq.Error\<close> that \<open>errors.As\<close> finds in an error, and \<open>tp_page_error\<close> the driver's refusal of
  an unsigned argument above the signed range, which a negative page number is cast to.
\<close>

datatype store_call =
    CallPing | CallBuild | CallBuildData | CallCount | CallList | CallScan nat | CallRows | CallGet | CallInsert
  | CallUpdate | CallDelete | CallRowsAffected

record template_pg =
  tp_fault :: "store_call \<Rightarrow> go_error option"
  tp_uuid :: "string \<Rightarrow> string option"
  tp_uuid_error :: "string \<Rightarrow> go_error"
  tp_unique_error :: "string \<Rightarrow> go_error"
  tp_page_error :: go_error
  tp_pq_code :: "go_error \<Rightarrow> string option"

abbreviation pqUniqueViolation where "pqUniqueViolation \<equiv> ''23505''"

definition isPQUniqueViolation :: "template_pg \<Rightarrow> go_error \<Rightarrow> bool" where
  "isPQUniqueViolation pg err = (tp_pq_code pg err = Some pqUniqueViolation)"

text \<open>What the driver documents of its errors.\<close>

definition driver_errors_ok :: "template_pg \<Rightarrow> bool" where
  "driver_errors_ok pg \<longleftrightarrow>
     (\<forall>c. tp_pq_code pg (tp_unique_error pg c) = Some pqUniqueViolation) \<and>
     (\<forall>s. tp_pq_code pg (tp_uuid_error pg s) = Some ''22P02'') \<and>
     (\<forall>s e. \<not> errors_is (tp_uuid_error pg s) e) \<and> (\<forall>s e. \<not> errors_is (tp_unique_error pg s) e) \<and>
     (\<forall>c err e. tp_fault pg c = Some err \<longrightarrow> e \<in> {ErrResourceNotFound, ErrResourceConflict} \<longrightarrow> \<not> errors_is err e)"

text \<open>An ID in a \<open>WHERE\<close> clause or a value is cast before the statement runs.\<close>

definition cast_id :: "template_pg \<Rightarrow> string \<Rightarrow> go_error + string" where
  "cast_id pg i =
     (case tp_uuid pg i of None \<Rightarrow> Inl (tp_uuid_error pg i) | Some u \<Rightarrow> Inr u)"

definition run_call :: "template_pg \<Rightarrow> store_call \<Rightarrow> go_error + unit" where
  "run_call pg call = (case tp_fault pg call of Some e \<Rightarrow> Inl e | None \<Rightarrow> Inr ())"

section \<open>Operations\<close>

record ListOptions =
  op_Limit :: int
  op_Offset :: int

definition newest_resources :: "resource list \<Rightarrow> resource list" where
  "newest_resources rows = sort_key (\<lambda>r. - re_CreatedAt r) rows"

definition ListResources ::
    "template_pg \<Rightarrow> ListOptions \<Rightarrow> resource list \<Rightarrow> go_error + (resource list \<times> int)" where
  "ListResources pg opts rows =
     (case run_call pg CallBuild of
        Inl e \<Rightarrow> Inl (Wrap ''building count query: '' e [])
      | Inr _ \<Rightarrow>
     (case run_call pg CallCount of
        Inl e \<Rightarrow> Inl (Wrap ''executing count query: '' e [])
      | Inr _ \<Rightarrow>
          if rows = [] then Inr ([], 0)
          else
            (case run_call pg CallBuildData of
               Inl e \<Rightarrow> Inl (Wrap ''building data query: '' e [])
             | Inr _ \<Rightarrow>
            (case (if op_Limit opts < 0 \<or> op_Offset opts < 0 then Inl (tp_page_error pg)
                   else run_call pg CallList) of
               Inl e \<Rightarrow> Inl (Wrap ''executing data query: '' e [])
             | Inr _ \<Rightarrow>
                 (let page = take (nat (op_Limit opts)) (drop (nat (op_Offset opts)) (newest_resources rows))
                  in case find (\<lambda>n. tp_fault pg (CallScan n) \<noteq> None) [0..<length page] of
                       Some n \<Rightarrow> Inl (Wrap ''scanning row: '' (the (tp_fault pg (CallScan n))) [])
                     | None \<Rightarrow>
                         (case run_call pg CallRows of
                            Inl e \<Rightarrow> Inl (Wrap ''iterating rows: '' e [])
                          | Inr _ \<Rightarrow> Inr (page, int (length rows))))))))"

definition GetResource ::
    "template_pg \<Rightarrow> string \<Rightarrow> resource list \<Rightarrow> go_error + resource" where
  "GetResource pg i rows =
     (case run_call pg CallBuild of
        Inl e \<Rightarrow> Inl (Wrap ''building query: '' e [])
      | Inr _ \<Rightarrow>
     (case cast_id pg i of
        Inl e \<Rightarrow> Inl (Wrap ''querying __RESOURCE_LOWER__: '' e [])
      | Inr u \<Rightarrow>
          (case run_call pg CallGet of
             Inl e \<Rightarrow> Inl (Wrap ''querying __RESOURCE_LOWER__: '' e [])
           | Inr _ \<Rightarrow>
               (case find (\<lambda>r. re_ID r = u) rows of
                  None \<Rightarrow> Inl (Sentinel ErrResourceNotFound)
                | Some r \<Rightarrow> Inr r))))"

text \<open>\<open>now\<close> is the clock of the service.\<close>

definition CreateResource ::
    "template_pg \<Rightarrow> time \<Rightarrow> resource \<Rightarrow> resource list \<Rightarrow> (go_error + resource) \<times> resource list" where
  "CreateResource pg now m rows =
     (let failed = (\<lambda>e. if isPQUniqueViolation pg e then (Inl (Sentinel ErrResourceConflict), rows)
                        else (Inl (Wrap ''inserting __RESOURCE_LOWER__: '' e []), rows))
      in case run_call pg CallBuild of
           Inl e \<Rightarrow> (Inl (Wrap ''building insert query: '' e []), rows)
         | Inr _ \<Rightarrow>
         case cast_id pg (re_ID m) of
           Inl e \<Rightarrow> failed e
         | Inr u \<Rightarrow>
             (case run_call pg CallInsert of
                Inl e \<Rightarrow> failed e
              | Inr _ \<Rightarrow>
                  if u \<in> re_ID ` set rows then failed (tp_unique_error pg ''pkey'')
                  else if re_Name m \<in> re_Name ` set rows then failed (tp_unique_error pg ''name'')
                  else
                    (let row = m\<lparr>re_ID := u, re_CreatedAt := now, re_UpdatedAt := now\<rparr>
                     in (Inr row, rows @ [row]))))"

text \<open>
  The trigger replaces the service's \<open>updated_at\<close> by the transaction's \<open>NOW()\<close>, \<open>db_now\<close> here, and
  \<open>RETURNING\<close> answers it.  The other fields of the result are those of the argument.  A driver error
  is one that came before the update took effect; an answer lost after it is not modelled.
\<close>

definition UpdateResource ::
    "template_pg \<Rightarrow> time \<Rightarrow> resource \<Rightarrow> resource list \<Rightarrow> (go_error + resource) \<times> resource list" where
  "UpdateResource pg db_now m rows =
     (case run_call pg CallBuild of
        Inl e \<Rightarrow> (Inl (Wrap ''building update query: '' e []), rows)
      | Inr _ \<Rightarrow>
     (case cast_id pg (re_ID m) of
        Inl e \<Rightarrow> (Inl (Wrap ''updating __RESOURCE_LOWER__: '' e []), rows)
      | Inr u \<Rightarrow>
          (case run_call pg CallUpdate of
             Inl e \<Rightarrow> (Inl (Wrap ''updating __RESOURCE_LOWER__: '' e []), rows)
           | Inr _ \<Rightarrow>
               if u \<notin> re_ID ` set rows then (Inl (Sentinel ErrResourceNotFound), rows)
               else if \<exists>r \<in> set rows. re_ID r \<noteq> u \<and> re_Name r = re_Name m
               then (Inl (Wrap ''updating __RESOURCE_LOWER__: '' (tp_unique_error pg ''name'') []), rows)
               else
                 (Inr (m\<lparr>re_UpdatedAt := db_now\<rparr>),
                  map (\<lambda>r. if re_ID r = u
                           then r\<lparr>re_Name := re_Name m, re_Description := re_Description m,
                                  re_UpdatedAt := db_now\<rparr> else r) rows))))"

definition DeleteResource ::
    "template_pg \<Rightarrow> string \<Rightarrow> resource list \<Rightarrow> go_error option \<times> resource list" where
  "DeleteResource pg i rows =
     (case run_call pg CallBuild of
        Inl e \<Rightarrow> (Some (Wrap ''building delete query: '' e []), rows)
      | Inr _ \<Rightarrow>
     (case cast_id pg i of
        Inl e \<Rightarrow> (Some (Wrap ''deleting __RESOURCE_LOWER__: '' e []), rows)
      | Inr u \<Rightarrow>
          (case run_call pg CallDelete of
             Inl e \<Rightarrow> (Some (Wrap ''deleting __RESOURCE_LOWER__: '' e []), rows)
           | Inr _ \<Rightarrow>
               (let rows' = filter (\<lambda>r. re_ID r \<noteq> u) rows in
                case run_call pg CallRowsAffected of
                  Inl e \<Rightarrow> (Some (Wrap ''checking rows affected: '' e []), rows')
                | Inr _ \<Rightarrow>
                    if length rows' = length rows then (Some (Sentinel ErrResourceNotFound), rows)
                    else (None, rows')))))"


section \<open>The table as a map\<close>

text \<open>The primary key and the unique index.\<close>

definition rows_ok :: "resource list \<Rightarrow> bool" where
  "rows_ok rows \<longleftrightarrow> unique_keys re_ID rows \<and> unique_keys re_Name rows"

lemma GetResource_Inr:
  "GetResource pg i rows = Inr r \<Longrightarrow> \<exists>u. tp_uuid pg i = Some u \<and> row_of re_ID rows u = Some r"
  by (auto simp: GetResource_def cast_id_def row_of_def split: sum.splits option.splits)

lemma CreateResource_Inr:
  assumes "CreateResource pg now m rows = (Inr r, rows')" "rows_ok rows"
  shows "rows_ok rows' \<and> row_of re_ID rows (re_ID r) = None \<and>
    row_of re_ID rows' = (row_of re_ID rows)(re_ID r \<mapsto> r) \<and> tp_uuid pg (re_ID m) = Some (re_ID r) \<and>
    r = m\<lparr>re_ID := re_ID r, re_CreatedAt := now, re_UpdatedAt := now\<rparr>"
proof -
  from assms(1) obtain u where u: "tp_uuid pg (re_ID m) = Some u" "u \<notin> re_ID ` set rows"
    "re_Name m \<notin> re_Name ` set rows"
    and r: "r = m\<lparr>re_ID := u, re_CreatedAt := now, re_UpdatedAt := now\<rparr>" "rows' = rows @ [r]"
    by (auto simp: CreateResource_def cast_id_def Let_def split: sum.splits option.splits if_splits)
  then have none: "row_of re_ID rows u = None" by (simp add: row_of_None)
  have "row_of re_ID rows' = (row_of re_ID rows)(u \<mapsto> r)"
    using none by (auto simp: r row_of_append row_of_Cons fun_eq_iff split: option.split)
  with u r none assms(2) show ?thesis by (auto simp: rows_ok_def unique_keys_def)
qed

lemma CreateResource_Inl:
  "CreateResource pg now m rows = (Inl e, rows') \<Longrightarrow> rows' = rows"
  by (auto simp: CreateResource_def Let_def split: sum.splits if_splits)

lemma UpdateResource_Inr:
  assumes "UpdateResource pg now m rows = (Inr r, rows')" "rows_ok rows"
  shows "\<exists>u old. tp_uuid pg (re_ID m) = Some u \<and> row_of re_ID rows u = Some old \<and> rows_ok rows' \<and>
    r = m\<lparr>re_UpdatedAt := now\<rparr> \<and>
    row_of re_ID rows' = (row_of re_ID rows)(u \<mapsto> old\<lparr>re_Name := re_Name m, re_Description := re_Description m,
      re_UpdatedAt := now\<rparr>)"
proof -
  let ?f = "\<lambda>u r. if re_ID r = u then r\<lparr>re_Name := re_Name m, re_Description := re_Description m,
    re_UpdatedAt := now\<rparr> else r"
  from assms(1) obtain u where u: "tp_uuid pg (re_ID m) = Some u" "u \<in> re_ID ` set rows"
    and fresh: "\<forall>x \<in> set rows. re_ID x \<noteq> u \<longrightarrow> re_Name x \<noteq> re_Name m"
    and r: "r = m\<lparr>re_UpdatedAt := now\<rparr>" "rows' = map (?f u) rows"
    by (auto simp: UpdateResource_def cast_id_def split: sum.splits option.splits if_splits)
  from u(2) obtain old where old: "row_of re_ID rows u = Some old" using row_of_None by fastforce
  have row: "row_of re_ID rows' = (row_of re_ID rows)(u \<mapsto> ?f u old)"
  proof
    fix v
    have "row_of re_ID rows' v = map_option (?f u) (row_of re_ID rows v)"
      unfolding r(2) by (rule row_of_map) simp
    moreover have "map_option (?f u) (row_of re_ID rows v) = row_of re_ID rows v" if "v \<noteq> u"
      using row_of_SomeD [of re_ID rows v] that by (cases "row_of re_ID rows v") auto
    ultimately show "row_of re_ID rows' v = ((row_of re_ID rows)(u \<mapsto> ?f u old)) v"
      using old by (cases "v = u") simp_all
  qed
  have ids: "map re_ID rows' = map re_ID rows" by (simp add: r)
  have "distinct (map re_Name rows')"
    unfolding r(2) map_map distinct_map
  proof (intro conjI inj_onI)
    show "distinct rows" using assms(2) by (simp add: rows_ok_def unique_keys_def distinct_map)
    fix x y assume x: "x \<in> set rows" and y: "y \<in> set rows" and eq: "(re_Name \<circ> ?f u) x = (re_Name \<circ> ?f u) y"
    from assms(2) x y have inj: "re_ID x = re_ID y \<Longrightarrow> x = y" "re_Name x = re_Name y \<Longrightarrow> x = y"
      by (auto simp: rows_ok_def unique_keys_def distinct_map inj_on_def)
    show "x = y"
    proof (cases "re_ID x = u")
      case True
      with eq fresh y inj show ?thesis by (cases "re_ID y = u") auto
    next
      case False
      with eq fresh x inj show ?thesis by (cases "re_ID y = u") auto
    qed
  qed
  with ids assms(2) have "rows_ok rows'" by (simp add: rows_ok_def unique_keys_def)
  moreover have "?f u old = old\<lparr>re_Name := re_Name m, re_Description := re_Description m,
      re_UpdatedAt := now\<rparr>"
    using row_of_SomeD [OF old] by simp
  ultimately show ?thesis using u old row r(1) by auto
qed

lemma UpdateResource_Inl:
  "UpdateResource pg now m rows = (Inl e, rows') \<Longrightarrow> rows' = rows"
  by (auto simp: UpdateResource_def split: sum.splits if_splits)

lemma rows_ok_filter: "rows_ok rows \<Longrightarrow> rows_ok (filter P rows)"
  by (simp add: rows_ok_def unique_filter)

lemma DeleteResource_None:
  assumes "DeleteResource pg i rows = (None, rows')" "rows_ok rows"
  shows "\<exists>u old. tp_uuid pg i = Some u \<and> row_of re_ID rows u = Some old \<and> rows_ok rows' \<and>
    row_of re_ID rows' = (row_of re_ID rows)(u := None)"
proof -
  from assms(1) obtain u where u: "tp_uuid pg i = Some u"
    "length (filter (\<lambda>r. re_ID r \<noteq> u) rows) \<noteq> length rows"
    and r: "rows' = filter (\<lambda>r. re_ID r \<noteq> u) rows"
    by (auto simp: DeleteResource_def cast_id_def Let_def split: sum.splits option.splits if_splits)
  have "row_of re_ID rows u \<noteq> None"
  proof
    assume "row_of re_ID rows u = None"
    then have "filter (\<lambda>r. re_ID r \<noteq> u) rows = rows" by (auto simp: row_of_None filter_id_conv)
    with u(2) show False by simp
  qed
  then show ?thesis using u(1) assms(2)
    by (auto simp: r row_of_filter [where P = "\<lambda>k. k \<noteq> u"] rows_ok_filter fun_eq_iff)
qed

end
