(* ===== verification/Template_Server.thy ===== *)
theory Template_Server
  imports Template_Store Go_Env Go_JSON
begin

text \<open>
  The handlers of the service template, \<open>templates/service/internal/server/handlers.go\<close>, over a
  store that is a record of the methods of \<open>internal/store/store.go\<close>; the decoded body of a request
  is an argument.  A handler that reads and then writes is the composition of the two phases, so
  that the phases of two requests can be interleaved.
\<close>

section \<open>The store interface (store.go)\<close>

record 'w resource_store =
  st_Ping :: "'w \<Rightarrow> go_error option"
  st_List :: "ListOptions \<Rightarrow> 'w \<Rightarrow> go_error + (resource list \<times> int)"
  st_Get :: "string \<Rightarrow> 'w \<Rightarrow> go_error + resource"
  st_Create :: "resource \<Rightarrow> 'w \<Rightarrow> (go_error + resource) \<times> 'w"
  st_Update :: "resource \<Rightarrow> 'w \<Rightarrow> (go_error + resource) \<times> 'w"
  st_Delete :: "string \<Rightarrow> 'w \<Rightarrow> go_error option \<times> 'w"

section \<open>Requests and replies\<close>

record resource_request =
  qr_ID :: string
  qr_Query :: url_values
  qr_IfMatch :: string
  qr_IfNoneMatch :: string

record CreateRequest =
  cr_Name :: string
  cr_Description :: string

record UpdateRequest =
  ur_Name :: string
  ur_Description :: string

record PatchRequest =
  ph_Name :: "string option"
  ph_Description :: "string option"

record envelope =
  ev_ID :: string
  ev_ETag :: string
  ev_CreatedAt :: time
  ev_UpdatedAt :: time
  ev_Name :: string
  ev_Description :: string

datatype resource_body =
    NoBody
  | Problem string
  | ValidationProblem "(string \<times> string) list"
  | ResourceBody envelope
  | ListBody "envelope list" int int int

record resource_reply =
  rp_Status :: int
  rp_ETag :: "string option"
  rp_Location :: "string option"
  rp_Body :: resource_body

abbreviation tpl_problem where "tpl_problem status detail \<equiv>
  \<lparr>rp_Status = status, rp_ETag = None, rp_Location = None, rp_Body = Problem detail\<rparr>"

abbreviation tpl_unexpected where "tpl_unexpected \<equiv> tpl_problem 500 ''an unexpected error occurred''"

section \<open>Helpers\<close>

abbreviation defaultPageLimit where "defaultPageLimit \<equiv> 50 :: int"
abbreviation maxPageLimit where "maxPageLimit \<equiv> 200 :: int"

definition parsePagination :: "url_values \<Rightarrow> go_error + (int \<times> int)" where
  "parsePagination query =
     (let v = values_get query ''limit''; u = values_get query ''offset'';
          limit = (if v = [] then Some defaultPageLimit
                   else (case atoi v of
                           None \<Rightarrow> None
                         | Some n \<Rightarrow> if n < 1 then None else Some (if maxPageLimit < n then maxPageLimit else n)));
          offset = (if u = [] then Some 0
                    else (case atoi u of None \<Rightarrow> None | Some n \<Rightarrow> if n < 0 then None else Some n))
      in case limit of
           None \<Rightarrow> Inl (ErrText ''limit must be a positive integer'')
         | Some limit \<Rightarrow>
             (case offset of
                None \<Rightarrow> Inl (ErrText ''offset must be a non-negative integer'')
              | Some offset \<Rightarrow> Inr (limit, offset)))"

text \<open>\<open>time.UnixNano\<close>.\<close>

definition unix_nano :: "time \<Rightarrow> int" where
  "unix_nano t = wrap64 (t - 62135596800 * second)"

definition computeETag :: "string \<Rightarrow> time \<Rightarrow> string" where
  "computeETag i updatedAt =
     ''W/'' @ [CHR 0x22] @ i @ ''-'' @ itoa (unix_nano updatedAt) @ [CHR 0x22]"

definition etag_of :: "resource \<Rightarrow> string" where
  "etag_of m = computeETag (re_ID m) (re_UpdatedAt m)"

definition envelope_of :: "string \<Rightarrow> resource \<Rightarrow> envelope" where
  "envelope_of etag m =
     \<lparr>ev_ID = re_ID m, ev_ETag = etag, ev_CreatedAt = re_CreatedAt m, ev_UpdatedAt = re_UpdatedAt m,
      ev_Name = re_Name m, ev_Description = re_Description m\<rparr>"

definition resource_reply_of :: "int \<Rightarrow> string option \<Rightarrow> resource \<Rightarrow> resource_reply" where
  "resource_reply_of status location m =
     \<lparr>rp_Status = status, rp_ETag = Some (etag_of m), rp_Location = location,
      rp_Body = ResourceBody (envelope_of (etag_of m) m)\<rparr>"

definition not_found :: "string \<Rightarrow> resource_reply" where
  "not_found i = tpl_problem 404 (''__RESOURCE_LOWER__ '' @ go_quote i @ '' not found'')"

definition store_failure :: "string \<Rightarrow> go_error \<Rightarrow> resource_reply" where
  "store_failure i err = (if errors_is err ErrResourceNotFound then not_found i else tpl_unexpected)"

definition missing_id :: resource_reply where
  "missing_id = tpl_problem 400 ''missing resource id in URL path''"

definition invalid_request :: "go_error \<Rightarrow> resource_reply" where
  "invalid_request err = tpl_problem 400 (''invalid request body: '' @ err_msg err)"

definition validateName :: "string \<Rightarrow> (string \<times> string) list" where
  "validateName name =
     (if trim_space name = [] then [(''name'', ''name is required and must not be blank'')] else [])"

definition validateCreateRequest :: "CreateRequest \<Rightarrow> (string \<times> string) list" where
  "validateCreateRequest req = validateName (cr_Name req)"

definition validateUpdateRequest :: "UpdateRequest \<Rightarrow> (string \<times> string) list" where
  "validateUpdateRequest req = validateName (ur_Name req)"

definition validation_problem :: "(string \<times> string) list \<Rightarrow> resource_reply" where
  "validation_problem errs =
     \<lparr>rp_Status = 422, rp_ETag = None, rp_Location = None, rp_Body = ValidationProblem errs\<rparr>"

definition zero_resource :: resource where
  "zero_resource =
     \<lparr>re_ID = [], re_Name = [], re_Description = [], re_CreatedAt = 0, re_UpdatedAt = 0\<rparr>"

section \<open>Reading\<close>

definition handleList :: "'w resource_store \<Rightarrow> resource_request \<Rightarrow> 'w \<Rightarrow> resource_reply" where
  "handleList st r w =
     (case parsePagination (qr_Query r) of
        Inl err \<Rightarrow> tpl_problem 400 (err_msg err)
      | Inr (limit, offset) \<Rightarrow>
          (case st_List st \<lparr>op_Limit = limit, op_Offset = offset\<rparr> w of
             Inl err \<Rightarrow> tpl_unexpected
           | Inr (items, n) \<Rightarrow>
               \<lparr>rp_Status = 200, rp_ETag = None, rp_Location = None,
                rp_Body = ListBody (map (envelope_of []) items) n limit offset\<rparr>))"

definition handleGet :: "'w resource_store \<Rightarrow> resource_request \<Rightarrow> 'w \<Rightarrow> resource_reply" where
  "handleGet st r w =
     (if qr_ID r = [] then missing_id
      else
        (case st_Get st (qr_ID r) w of
           Inl err \<Rightarrow> store_failure (qr_ID r) err
         | Inr item \<Rightarrow>
             if qr_IfNoneMatch r \<noteq> [] \<and> trim_space (qr_IfNoneMatch r) = etag_of item
             then \<lparr>rp_Status = 304, rp_ETag = Some (etag_of item), rp_Location = None,
                   rp_Body = NoBody\<rparr>
             else resource_reply_of 200 None item))"

section \<open>Writing\<close>

definition handleCreate ::
    "'w resource_store \<Rightarrow> go_error + CreateRequest \<Rightarrow> 'w \<Rightarrow> resource_reply \<times> 'w" where
  "handleCreate st body w =
     (case body of
        Inl err \<Rightarrow> (invalid_request err, w)
      | Inr req \<Rightarrow>
          if validateCreateRequest req \<noteq> [] then (validation_problem (validateCreateRequest req), w)
          else
            (case st_Create st (zero_resource\<lparr>re_Name := cr_Name req,
                    re_Description := cr_Description req\<rparr>) w of
               (Inl err, w1) \<Rightarrow>
                 (if errors_is err ErrResourceConflict
                  then (tpl_problem 409 ''a __RESOURCE_LOWER__ with this identifier already exists'', w1)
                  else (tpl_unexpected, w1))
             | (Inr created, w1) \<Rightarrow>
                 (resource_reply_of 201
                    (Some (''__API_PREFIX__/__RESOURCE_PLURAL__/'' @ re_ID created)) created, w1)))"

text \<open>The reading phase of \<open>PUT\<close>: a reply, or the record to write.\<close>

definition put_check ::
    "'w resource_store \<Rightarrow> resource_request \<Rightarrow> go_error + UpdateRequest \<Rightarrow> 'w
     \<Rightarrow> resource_reply + resource" where
  "put_check st r body w =
     (if qr_ID r = [] then Inl missing_id
      else if qr_IfMatch r = []
      then Inl (tpl_problem 428 ''If-Match header with ETag is required for PUT operations'')
      else
        (case st_Get st (qr_ID r) w of
           Inl err \<Rightarrow> Inl (store_failure (qr_ID r) err)
         | Inr current \<Rightarrow>
             if trim_space (qr_IfMatch r) \<noteq> etag_of current
             then Inl (tpl_problem 412 ''the resource has been modified since you last retrieved it; re-fetch and retry'')
             else
               (case body of
                  Inl err \<Rightarrow> Inl (invalid_request err)
                | Inr req \<Rightarrow>
                    if validateUpdateRequest req \<noteq> []
                    then Inl (validation_problem (validateUpdateRequest req))
                    else
                      Inr (zero_resource\<lparr>re_ID := qr_ID r, re_Name := ur_Name req,
                             re_Description := ur_Description req\<rparr>))))"

definition put_write ::
    "'w resource_store \<Rightarrow> resource \<Rightarrow> 'w \<Rightarrow> resource_reply \<times> 'w" where
  "put_write st m w =
     (case st_Update st m w of
        (Inl err, w1) \<Rightarrow> (store_failure (re_ID m) err, w1)
      | (Inr updated, w1) \<Rightarrow> (resource_reply_of 200 None updated, w1))"

definition handleUpdate ::
    "'w resource_store \<Rightarrow> resource_request \<Rightarrow> go_error + UpdateRequest \<Rightarrow> 'w
     \<Rightarrow> resource_reply \<times> 'w" where
  "handleUpdate st r body w =
     (case put_check st r body w of Inl reply \<Rightarrow> (reply, w) | Inr m \<Rightarrow> put_write st m w)"

definition handlePatch ::
    "'w resource_store \<Rightarrow> resource_request \<Rightarrow> go_error + PatchRequest \<Rightarrow> 'w
     \<Rightarrow> resource_reply \<times> 'w" where
  "handlePatch st r body w =
     (if qr_ID r = [] then (missing_id, w)
      else
        (case body of
           Inl err \<Rightarrow> (invalid_request err, w)
         | Inr req \<Rightarrow>
             (case st_Get st (qr_ID r) w of
                Inl err \<Rightarrow> (store_failure (qr_ID r) err, w)
              | Inr existing \<Rightarrow>
                  (let m = existing\<lparr>
                         re_Name := (case ph_Name req of None \<Rightarrow> re_Name existing | Some n \<Rightarrow> n),
                         re_Description := (case ph_Description req of
                            None \<Rightarrow> re_Description existing | Some d \<Rightarrow> d)\<rparr>
                   in case st_Update st m w of
                        (Inl err, w1) \<Rightarrow> (tpl_unexpected, w1)
                      | (Inr updated, w1) \<Rightarrow> (resource_reply_of 200 None updated, w1)))))"

definition handleDelete ::
    "'w resource_store \<Rightarrow> resource_request \<Rightarrow> 'w \<Rightarrow> resource_reply \<times> 'w" where
  "handleDelete st r w =
     (if qr_ID r = [] then (missing_id, w)
      else
        (case st_Delete st (qr_ID r) w of
           (Some err, w1) \<Rightarrow> (store_failure (qr_ID r) err, w1)
         | (None, w1) \<Rightarrow>
             (\<lparr>rp_Status = 204, rp_ETag = None, rp_Location = None, rp_Body = NoBody\<rparr>, w1)))"

section \<open>The PostgreSQL store\<close>

record tpl_db =
  td_now :: time
  td_rows :: "resource list"

definition pg_resource_store :: "template_pg \<Rightarrow> tpl_db resource_store" where
  "pg_resource_store pg =
     \<lparr>st_Ping = (\<lambda>_. tp_fault pg CallPing),
      st_List = (\<lambda>opts w. ListResources pg opts (td_rows w)),
      st_Get = (\<lambda>i w. GetResource pg i (td_rows w)),
      st_Create = (\<lambda>m w. map_prod id (\<lambda>rows. w\<lparr>td_rows := rows\<rparr>)
        (CreateResource pg (td_now w) m (td_rows w))),
      st_Update = (\<lambda>m w. map_prod id (\<lambda>rows. w\<lparr>td_rows := rows\<rparr>)
        (UpdateResource pg (td_now w) m (td_rows w))),
      st_Delete = (\<lambda>i w. map_prod id (\<lambda>rows. w\<lparr>td_rows := rows\<rparr>)
        (DeleteResource pg i (td_rows w)))\<rparr>"


section \<open>The contract of a store\<close>

text \<open>
  What the handlers rely on: the store is a finite map from canonical IDs to resources under an
  invariant; a read answers from the map, a write changes at most one entry, an error none.
\<close>

locale resource_contract =
  fixes st :: "'w resource_store"
    and canon :: "string \<Rightarrow> string option"
    and inv :: "'w \<Rightarrow> bool"
    and entries :: "'w \<Rightarrow> string \<Rightarrow> resource option"
  assumes get: "inv w \<Longrightarrow> st_Get st i w = Inr r \<Longrightarrow>
      \<exists>u. canon i = Some u \<and> entries w u = Some r \<and> re_ID r = u"
    and update: "inv w \<Longrightarrow> st_Update st m w = (Inr r, w') \<Longrightarrow>
      inv w' \<and> r = m\<lparr>re_UpdatedAt := re_UpdatedAt r\<rparr> \<and>
      (\<exists>u old. canon (re_ID m) = Some u \<and> entries w u = Some old \<and>
         entries w' = (entries w)(u \<mapsto> old\<lparr>re_Name := re_Name m,
           re_Description := re_Description m, re_UpdatedAt := re_UpdatedAt r\<rparr>))"
    and update_error: "st_Update st m w = (Inl e, w') \<Longrightarrow> w' = w"
begin

lemma put_check_Inr:
  assumes "inv w" "put_check st r body w = Inr m"
  shows "\<exists>u old req. canon (qr_ID r) = Some u \<and> entries w u = Some old \<and>
    trim_space (qr_IfMatch r) = etag_of old \<and> body = Inr req \<and> trim_space (ur_Name req) \<noteq> [] \<and>
    m = zero_resource\<lparr>re_ID := qr_ID r, re_Name := ur_Name req, re_Description := ur_Description req\<rparr>"
  using assms get [OF assms(1), of "qr_ID r"]
  by (auto simp: put_check_def validateUpdateRequest_def validateName_def
      split: if_splits sum.splits)

lemma put_check_Inl: "put_check st r body w = Inl reply \<Longrightarrow> rp_Status reply \<noteq> 200"
  by (auto simp: put_check_def missing_id_def store_failure_def not_found_def invalid_request_def
      validation_problem_def split: if_splits sum.splits)

text \<open>A \<open>PUT\<close> is refused without effect, or replaces the one resource whose tag was presented.\<close>

lemma put_conditional:
  assumes "inv w" "handleUpdate st r body w = (reply, w')"
  shows "rp_Status reply \<noteq> 200 \<and> w' = w \<or>
    rp_Status reply = 200 \<and> inv w' \<and>
    (\<exists>u old req t. canon (qr_ID r) = Some u \<and> entries w u = Some old \<and>
       trim_space (qr_IfMatch r) = etag_of old \<and> body = Inr req \<and> trim_space (ur_Name req) \<noteq> [] \<and>
       entries w' = (entries w)(u \<mapsto> old\<lparr>re_Name := ur_Name req,
         re_Description := ur_Description req, re_UpdatedAt := t\<rparr>) \<and>
       rp_Body reply = ResourceBody \<lparr>ev_ID = qr_ID r, ev_ETag = computeETag (qr_ID r) t,
         ev_CreatedAt = 0, ev_UpdatedAt = t, ev_Name = ur_Name req,
         ev_Description = ur_Description req\<rparr>)"
proof (cases "put_check st r body w")
  case (Inl reply')
  with put_check_Inl [OF Inl] assms(2) show ?thesis by (simp add: handleUpdate_def)
next
  case (Inr m)
  note chk = put_check_Inr [OF assms(1) Inr]
  obtain res w1 where upd: "st_Update st m w = (res, w1)" by fastforce
  show ?thesis
  proof (cases res)
    case (Inl e)
    with upd update_error assms(2) Inr show ?thesis
      by (auto simp: handleUpdate_def put_write_def store_failure_def not_found_def split: if_splits)
  next
    case (Inr r')
    have "handleUpdate st r body w = (resource_reply_of 200 None r', w1)"
      using upd Inr \<open>put_check st r body w = Inr m\<close> by (simp add: handleUpdate_def put_write_def)
    with assms(2) have out: "reply = resource_reply_of 200 None r'" "w' = w1" by simp_all
    from chk obtain u old req where c: "canon (qr_ID r) = Some u" "entries w u = Some old"
      "trim_space (qr_IfMatch r) = etag_of old" "body = Inr req" "trim_space (ur_Name req) \<noteq> []"
      and m: "m = zero_resource\<lparr>re_ID := qr_ID r, re_Name := ur_Name req,
        re_Description := ur_Description req\<rparr>" by blast
    have u: "inv w1" "r' = m\<lparr>re_UpdatedAt := re_UpdatedAt r'\<rparr>"
      "entries w1 = (entries w)(u \<mapsto> old\<lparr>re_Name := re_Name m,
           re_Description := re_Description m, re_UpdatedAt := re_UpdatedAt r'\<rparr>)"
      using update [OF assms(1) upd [unfolded Inr]] c m by auto
    define t where "t = re_UpdatedAt r'"
    have r': "r' = \<lparr>re_ID = qr_ID r, re_Name = ur_Name req, re_Description = ur_Description req,
        re_CreatedAt = 0, re_UpdatedAt = t\<rparr>"
      using u(2) by (simp add: m zero_resource_def t_def)
    show ?thesis
      using c u(1) u(3) [folded t_def]
      by (intro disjI2 conjI exI [of _ u] exI [of _ old] exI [of _ req] exI [of _ t])
        (simp_all add: out r' m zero_resource_def resource_reply_of_def envelope_of_def etag_of_def)
  qed
qed

end

interpretation pg_resources: resource_contract "pg_resource_store pg" "tp_uuid pg"
  "\<lambda>w. rows_ok (td_rows w)" "\<lambda>w. row_of re_ID (td_rows w)"
proof unfold_locales
  fix w i r
  assume "st_Get (pg_resource_store pg) i w = Inr r"
  then show "\<exists>u. tp_uuid pg i = Some u \<and> row_of re_ID (td_rows w) u = Some r \<and> re_ID r = u"
    using GetResource_Inr [of pg i "td_rows w" r] row_of_SomeD by (force simp: pg_resource_store_def)
next
  fix w m r w'
  assume "rows_ok (td_rows w)" "st_Update (pg_resource_store pg) m w = (Inr r, w')"
  then obtain rows' where "UpdateResource pg (td_now w) m (td_rows w) = (Inr r, rows')"
    and w': "w' = w\<lparr>td_rows := rows'\<rparr>"
    by (cases "UpdateResource pg (td_now w) m (td_rows w)") (auto simp: pg_resource_store_def)
  from UpdateResource_Inr [OF this(1) \<open>rows_ok (td_rows w)\<close>]
  show "rows_ok (td_rows w') \<and> r = m\<lparr>re_UpdatedAt := re_UpdatedAt r\<rparr> \<and>
      (\<exists>u old. tp_uuid pg (re_ID m) = Some u \<and> row_of re_ID (td_rows w) u = Some old \<and>
         row_of re_ID (td_rows w') = (row_of re_ID (td_rows w))(u \<mapsto> old\<lparr>re_Name := re_Name m,
           re_Description := re_Description m, re_UpdatedAt := re_UpdatedAt r\<rparr>))"
    by (auto simp: w')
next
  fix m w e w'
  assume "st_Update (pg_resource_store pg) m w = (Inl e, w')"
  then show "w' = w"
    using UpdateResource_Inl by (auto simp: pg_resource_store_def map_prod_def split: prod.splits)
qed


section \<open>Properties\<close>

text \<open>
  C27. A \<open>PUT\<close> is conditional: it either answers something else than 200 and changes nothing, or the
  client presented the tag of the stored resource and exactly that resource gets the validated
  name and description.  The reply of a successful one is flawed: it names the ID as the client
  wrote it and gives the zero time as the creation time.
\<close>

theorem put_is_conditional:
  assumes "rows_ok (td_rows w)" "handleUpdate (pg_resource_store pg) r body w = (reply, w')"
  shows "rp_Status reply \<noteq> 200 \<and> w' = w \<or>
    rp_Status reply = 200 \<and> rows_ok (td_rows w') \<and>
    (\<exists>u old req t. tp_uuid pg (qr_ID r) = Some u \<and> row_of re_ID (td_rows w) u = Some old \<and>
       trim_space (qr_IfMatch r) = etag_of old \<and> body = Inr req \<and> trim_space (ur_Name req) \<noteq> [] \<and>
       row_of re_ID (td_rows w') = (row_of re_ID (td_rows w))(u \<mapsto> old\<lparr>re_Name := ur_Name req,
         re_Description := ur_Description req, re_UpdatedAt := t\<rparr>) \<and>
       rp_Body reply = ResourceBody \<lparr>ev_ID = qr_ID r, ev_ETag = computeETag (qr_ID r) t,
         ev_CreatedAt = 0, ev_UpdatedAt = t, ev_Name = ur_Name req,
         ev_Description = ur_Description req\<rparr>)"
  by (rule pg_resources.put_conditional [OF assms])

lemma itoa_inj: "go_int i \<Longrightarrow> go_int j \<Longrightarrow> itoa i = itoa j \<Longrightarrow> i = j"
  by (metis atoi_itoa option.inject)

lemma unix_nano_range: "go_int (unix_nano t)"
  by (simp add: go_int_def unix_nano_def wrap64_def)

lemma computeETag_inj: "computeETag i s = computeETag i t \<longleftrightarrow> unix_nano s = unix_nano t"
  using itoa_inj [OF unix_nano_range unix_nano_range] by (auto simp: computeETag_def)

lemma put_check_pg:
  "put_check (pg_resource_store pg) r body w = Inr m \<Longrightarrow>
   \<exists>old. GetResource pg (qr_ID r) (td_rows w) = Inr old \<and>
     trim_space (qr_IfMatch r) = etag_of old \<and> re_ID m = qr_ID r \<and> qr_ID r \<noteq> [] \<and> qr_IfMatch r \<noteq> []"
  by (auto simp: put_check_def pg_resource_store_def split: if_splits sum.splits)

lemma put_write_pg:
  assumes "put_write (pg_resource_store pg) m w = (reply, w')" "rp_Status reply = 200"
  shows "\<exists>r rows'. UpdateResource pg (td_now w) m (td_rows w) = (Inr r, rows') \<and>
    w' = w\<lparr>td_rows := rows'\<rparr>"
  using assms
  by (cases "UpdateResource pg (td_now w) m (td_rows w)")
    (auto simp: put_write_def pg_resource_store_def store_failure_def not_found_def
      split: sum.splits if_splits)

lemma GetResource_same:
  assumes "GetResource pg i rows = Inr old" "tp_uuid pg i = Some u" "row_of re_ID rows' u = Some new"
  shows "GetResource pg i rows' = Inr new"
  using assms by (auto simp: GetResource_def cast_id_def row_of_def split: sum.splits option.splits)

lemma UpdateResource_again:
  assumes "UpdateResource pg now m1 rows = (Inr r1, rows1)" "tp_uuid pg (re_ID m2) = Some u"
    and "u \<in> re_ID ` set rows1" "\<forall>x \<in> set rows1. re_ID x \<noteq> u \<longrightarrow> re_Name x \<noteq> re_Name m2"
  shows "\<exists>r2 rows2. UpdateResource pg now2 m2 rows1 = (Inr r2, rows2)"
  using assms by (auto simp: UpdateResource_def cast_id_def run_call_def split: sum.splits option.splits if_splits)


text \<open>
  Two requests that passed the check against the same version: the second write goes through after
  the first and takes its effect back, while the same request made after the first is refused.
\<close>

lemma second_put:
  fixes pg :: template_pg
  defines "S \<equiv> pg_resource_store pg"
  assumes ok: "rows_ok (td_rows w)"
    and chk: "put_check S r1 b1 w = Inr m1" "put_check S r2 b2 w = Inr m2"
    and same: "tp_uuid pg (qr_ID r1) = tp_uuid pg (qr_ID r2)"
    and first: "put_write S m1 w = (reply1, w1)" "rp_Status reply1 = 200"
    and free: "\<forall>x \<in> set (td_rows w). re_Name x = re_Name m2 \<longrightarrow> tp_uuid pg (qr_ID r2) = Some (re_ID x)"
    and later: "\<forall>x \<in> set (td_rows w). unix_nano (re_UpdatedAt x) \<noteq> unix_nano (td_now w)"
  shows "\<exists>u reply2 w2 x. put_write S m2 w1 = (reply2, w2) \<and> rp_Status reply2 = 200 \<and>
      tp_uuid pg (qr_ID r2) = Some u \<and> row_of re_ID (td_rows w2) u = Some x \<and>
      re_Name x = re_Name m2 \<and> re_Description x = re_Description m2 \<and>
      rp_Status (fst (handleUpdate S r2 b2 w1)) = 412"
proof -
  obtain old1 where c1: "GetResource pg (qr_ID r1) (td_rows w) = Inr old1"
    and m1: "re_ID m1 = qr_ID r1" using put_check_pg chk(1) unfolding S_def by blast
  obtain old where c2: "GetResource pg (qr_ID r2) (td_rows w) = Inr old"
    and tag: "trim_space (qr_IfMatch r2) = etag_of old" and m2: "re_ID m2 = qr_ID r2"
    and ne: "qr_ID r2 \<noteq> []" "qr_IfMatch r2 \<noteq> []" using put_check_pg chk(2) unfolding S_def by blast
  obtain u where u: "tp_uuid pg (qr_ID r2) = Some u" "row_of re_ID (td_rows w) u = Some old"
    using GetResource_Inr [OF c2] by blast
  obtain n1 rows1 where upd: "UpdateResource pg (td_now w) m1 (td_rows w) = (Inr n1, rows1)"
    and w1: "w1 = w\<lparr>td_rows := rows1\<rparr>" using put_write_pg first unfolding S_def by blast
  let ?new = "old\<lparr>re_Name := re_Name m1, re_Description := re_Description m1,
    re_UpdatedAt := td_now w\<rparr>"
  have ok1: "rows_ok rows1" and row1: "row_of re_ID rows1 = (row_of re_ID (td_rows w))(u \<mapsto> ?new)"
    using UpdateResource_Inr [OF upd ok] u same m1 by auto
  have in1: "u \<in> re_ID ` set rows1" using row1 row_of_None [of re_ID rows1 u] by auto
  have "re_Name x \<noteq> re_Name m2" if "x \<in> set rows1" "re_ID x \<noteq> u" for x
  proof -
    from that ok1 have "row_of re_ID rows1 (re_ID x) = Some x" by (simp add: rows_ok_def row_of_unique)
    with that row1 have "row_of re_ID (td_rows w) (re_ID x) = Some x" by simp
    from row_of_SomeD [OF this] free u(1) that(2) show ?thesis by auto
  qed
  with UpdateResource_again [OF upd, of m2 u "td_now w"] u(1) m2 in1
  obtain n2 rows2 where upd2: "UpdateResource pg (td_now w) m2 rows1 = (Inr n2, rows2)" by auto
  have row2: "\<exists>x. row_of re_ID rows2 u = Some x \<and> re_Name x = re_Name m2 \<and> re_Description x = re_Description m2"
    using UpdateResource_Inr [OF upd2 ok1] u(1) m2 by auto
  have write2: "put_write S m2 w1 = (resource_reply_of 200 None n2, w1\<lparr>td_rows := rows2\<rparr>)"
    using upd2 by (simp add: put_write_def S_def pg_resource_store_def w1)
  have "GetResource pg (qr_ID r2) rows1 = Inr ?new"
    using GetResource_same [OF c2 u(1)] row1 by simp
  moreover have "etag_of old \<noteq> etag_of ?new"
    using later row_of_SomeD [OF u(2)] by (simp add: etag_of_def computeETag_inj)
  ultimately have "rp_Status (fst (handleUpdate S r2 b2 w1)) = 412"
    using ne tag by (simp add: handleUpdate_def put_check_def S_def pg_resource_store_def w1)
  with write2 row2 u(1) show ?thesis by (auto simp: resource_reply_of_def)
qed

text \<open>
  The check of the tag and the write are two statements, so an update can be lost: when two
  \<open>PUT\<close> requests present the same tag and both pass the check before either writes, both answer
  200 and only the second one's content stays, although made one after the other the second is
  refused with 412.
\<close>

lemma put_update_lost:
  assumes "rows_ok (td_rows w)"
    and "put_check (pg_resource_store pg) r1 b1 w = Inr m1"
      "put_check (pg_resource_store pg) r2 b2 w = Inr m2"
    and "tp_uuid pg (qr_ID r1) = tp_uuid pg (qr_ID r2)"
    and "put_write (pg_resource_store pg) m1 w = (reply1, w1)" "rp_Status reply1 = 200"
    and "\<forall>x \<in> set (td_rows w). re_Name x = re_Name m2 \<longrightarrow> tp_uuid pg (qr_ID r2) = Some (re_ID x)"
    and "\<forall>x \<in> set (td_rows w). unix_nano (re_UpdatedAt x) \<noteq> unix_nano (td_now w)"
  shows "\<exists>u reply2 w2 x. put_write (pg_resource_store pg) m2 w1 = (reply2, w2) \<and>
      rp_Status reply2 = 200 \<and> tp_uuid pg (qr_ID r2) = Some u \<and> row_of re_ID (td_rows w2) u = Some x \<and>
      re_Name x = re_Name m2 \<and> re_Description x = re_Description m2 \<and>
      rp_Status (fst (handleUpdate (pg_resource_store pg) r2 b2 w1)) = 412"
  by (rule second_put [OF assms])

text \<open>
  Creating a resource never succeeds over the template's migration: the handler leaves the ID
  empty for the database to generate, the insert passes it on, and the empty text is no UUID; the
  reply is 400, 422 or 500, and nothing is stored.
\<close>

lemma create_never_succeeds:
  assumes "tp_uuid pg [] = None" "driver_errors_ok pg"
  shows "rp_Status (fst (handleCreate (pg_resource_store pg) body w)) \<in> {400, 422, 500} \<and>
    snd (handleCreate (pg_resource_store pg) body w) = w"
  using assms
  by (auto simp: handleCreate_def pg_resource_store_def CreateResource_def cast_id_def run_call_def
      zero_resource_def invalid_request_def validation_problem_def driver_errors_ok_def errors_is_simps isPQUniqueViolation_def
      split: sum.splits option.splits prod.splits if_splits)

text \<open>\<open>PATCH\<close> does not validate: it can make the name blank.\<close>

lemma patch_blanks_name:
  assumes "rows_ok (td_rows w)" "qr_ID r \<noteq> []"
    and "handlePatch (pg_resource_store pg) r (Inr \<lparr>ph_Name = Some [], ph_Description = None\<rparr>) w =
      (reply, w')" "rp_Status reply = 200"
    and "\<forall>x \<in> set (td_rows w). tp_uuid pg (re_ID x) = Some (re_ID x)"
  shows "\<exists>u x. tp_uuid pg (qr_ID r) = Some u \<and> row_of re_ID (td_rows w') u = Some x \<and> re_Name x = []"
proof -
  let ?S = "pg_resource_store pg"
  obtain old where get: "st_Get ?S (qr_ID r) w = Inr old"
    using assms(2-4) by (cases "st_Get ?S (qr_ID r) w")
      (auto simp: handlePatch_def store_failure_def not_found_def split: if_splits)
  let ?m = "old\<lparr>re_Name := []\<rparr>"
  obtain u where u: "tp_uuid pg (qr_ID r) = Some u" "row_of re_ID (td_rows w) u = Some old" "re_ID old = u"
    using pg_resources.get [OF assms(1) get] by blast
  obtain n where upd: "st_Update ?S ?m w = (Inr n, w')"
    using assms(2-4) get by (cases "st_Update ?S ?m w")
      (auto simp: handlePatch_def Let_def split: sum.splits)
  have "tp_uuid pg u = Some u" using row_of_SomeD [OF u(2)] assms(5) by auto
  note out = pg_resources.update [OF assms(1) upd]
  from out have n: "n = ?m\<lparr>re_UpdatedAt := re_UpdatedAt n\<rparr>" by blast
  from arg_cong [OF n, of re_Name] have "re_Name n = []" by simp
  with out u \<open>tp_uuid pg u = Some u\<close> show ?thesis by auto
qed


section \<open>Witnesses\<close>

text \<open>A database whose only ID text is \<open>u\<close>, with one row.\<close>

definition one_uuid :: template_pg where
  "one_uuid = \<lparr>tp_fault = \<lambda>_. None, tp_uuid = \<lambda>s. if s = ''u'' then Some ''u'' else None,
     tp_uuid_error = \<lambda>_. ErrText ''22P02'', tp_unique_error = \<lambda>_. ErrText ''23505'',
     tp_page_error = ErrText ''page'', tp_pq_code = \<lambda>e. Some (err_msg e)\<rparr>"

definition one_row :: tpl_db where
  "one_row = \<lparr>td_now = 9 * second, td_rows = [\<lparr>re_ID = ''u'', re_Name = ''a'', re_Description = [],
     re_CreatedAt = 0, re_UpdatedAt = second\<rparr>]\<rparr>"

definition put_request :: resource_request where
  "put_request = \<lparr>qr_ID = ''u'', qr_Query = [], qr_IfMatch = computeETag ''u'' second,
     qr_IfNoneMatch = []\<rparr>"

abbreviation put_body where
  "put_body name \<equiv> Inr \<lparr>ur_Name = name, ur_Description = ''d''\<rparr>"

lemma put_tag: "trim_space (computeETag ''u'' t) = computeETag ''u'' t"
  by (rule trim_space_plain) (simp add: computeETag_def plain_ends_def plain_char_def)

lemma computeETag_nonempty: "computeETag i t \<noteq> []"
  by (simp add: computeETag_def)

lemma put_sample:
  "trim_space name \<noteq> [] \<Longrightarrow>
   put_check (pg_resource_store one_uuid) put_request (put_body name) one_row =
   Inr (zero_resource\<lparr>re_ID := ''u'', re_Name := name, re_Description := ''d''\<rparr>)"
  by (simp add: put_check_def pg_resource_store_def put_request_def one_uuid_def one_row_def
      GetResource_def cast_id_def run_call_def etag_of_def put_tag computeETag_nonempty
      validateUpdateRequest_def validateName_def)

lemma one_row_ok: "rows_ok (td_rows one_row)" by (simp add: rows_ok_def unique_keys_def one_row_def)

lemma put_write_sample:
  "\<exists>w1 reply. put_write (pg_resource_store one_uuid)
     (zero_resource\<lparr>re_ID := ''u'', re_Name := ''b'', re_Description := ''d''\<rparr>) one_row = (reply, w1) \<and>
     rp_Status reply = 200"
  by (simp add: put_write_def pg_resource_store_def UpdateResource_def one_uuid_def one_row_def
      cast_id_def run_call_def zero_resource_def resource_reply_of_def)

theorem put_is_conditional_witness:
  "\<exists>reply w'. handleUpdate (pg_resource_store one_uuid) put_request (put_body ''b'') one_row =
     (reply, w') \<and> rp_Status reply = 200 \<and> rows_ok (td_rows w')"
proof -
  have "trim_space ''b'' \<noteq> []" by (simp add: trim_space_plain plain_ends_def plain_char_def)
  note chk = put_sample [OF this]
  obtain reply w1 where wr: "put_write (pg_resource_store one_uuid)
      (zero_resource\<lparr>re_ID := ''u'', re_Name := ''b'', re_Description := ''d''\<rparr>) one_row = (reply, w1)"
    "rp_Status reply = 200" using put_write_sample by blast
  have "handleUpdate (pg_resource_store one_uuid) put_request (put_body ''b'') one_row = (reply, w1)"
    by (simp add: handleUpdate_def chk wr)
  from put_is_conditional [OF one_row_ok this] wr(2) this show ?thesis by auto
qed

lemma put_update_lost_witness:
  "\<exists>reply1 w1 reply2 w2.
     put_write (pg_resource_store one_uuid)
       (zero_resource\<lparr>re_ID := ''u'', re_Name := ''b'', re_Description := ''d''\<rparr>) one_row = (reply1, w1) \<and>
     put_write (pg_resource_store one_uuid)
       (zero_resource\<lparr>re_ID := ''u'', re_Name := ''c'', re_Description := ''d''\<rparr>) w1 = (reply2, w2) \<and>
     rp_Status reply2 = 200 \<and>
     rp_Status (fst (handleUpdate (pg_resource_store one_uuid) put_request (put_body ''c'') w1)) = 412"
proof -
  have names: "trim_space ''b'' \<noteq> []" "trim_space ''c'' \<noteq> []"
    by (simp_all add: trim_space_plain plain_ends_def plain_char_def)
  obtain reply1 w1 where wr: "put_write (pg_resource_store one_uuid)
      (zero_resource\<lparr>re_ID := ''u'', re_Name := ''b'', re_Description := ''d''\<rparr>) one_row = (reply1, w1)"
    "rp_Status reply1 = 200" using put_write_sample by blast
  have later: "\<forall>x \<in> set (td_rows one_row). unix_nano (re_UpdatedAt x) \<noteq> unix_nano (td_now one_row)"
    by (simp add: one_row_def unix_nano_def wrap64_def second_def millisecond_def)
  have free: "\<forall>x \<in> set (td_rows one_row). re_Name x =
      re_Name (zero_resource\<lparr>re_ID := ''u'', re_Name := ''c'', re_Description := ''d''\<rparr>) \<longrightarrow>
      tp_uuid one_uuid (qr_ID put_request) = Some (re_ID x)"
    by (simp add: one_row_def)
  from put_update_lost [OF one_row_ok put_sample [OF names(1)] put_sample [OF names(2)] refl wr free later]
    wr(1)
  show ?thesis by blast
qed

lemma create_never_succeeds_witness:
  "rp_Status (fst (handleCreate (pg_resource_store one_uuid)
     (Inr \<lparr>cr_Name = ''n'', cr_Description = []\<rparr>) one_row)) \<in> {400, 422, 500}"
  by (rule create_never_succeeds [THEN conjunct1]) (simp_all add: one_uuid_def driver_errors_ok_def)

end
