(* ===== verification/Template_Main.thy ===== *)
theory Template_Main
  imports Template_Client Go_Process
begin

text \<open>
  The \<open>main\<close> of a service made from the template (\<open>cmd/service/main.go\<close>): as that of the power
  service, without background work.  \<open>serve\<close> is what its handlers do to the store while it serves.
\<close>

datatype template_event =
    TplContext | TplReleaseContext
  | TplTelemetry string bool bool | TplStopTelemetry
  | TplConnectDB string | TplCloseDB | TplMigrate string
  | TplServe http_server | TplStopContext duration | TplReleaseStopContext | TplStopListener

record template_answers =
  ta_otel :: "go_error option"
  ta_connect :: "go_error option"
  ta_migrate :: "go_error option"
  ta_stop :: stop_cause

definition template_http :: "TemplateConfig \<Rightarrow> http_server" where
  "template_http cfg =
     \<lparr>hs_Addr = tf_ListenAddr cfg, hs_ReadHeaderTimeout = 10 * second, hs_ReadTimeout = 30 * second,
      hs_WriteTimeout = 60 * second, hs_IdleTimeout = 120 * second\<rparr>"

definition template_start :: "TemplateConfig \<Rightarrow> template_answers \<Rightarrow> (template_event, 'w) proc list" where
  "template_start cfg a =
     [opens TplContext TplReleaseContext,
      must_open (TplTelemetry ''__SERVICE_FULL__'' (tf_MetricsEnabled cfg) (tf_TracesEnabled cfg))
        (ta_otel a) TplStopTelemetry,
      must_open (TplConnectDB (tf_DBDSN cfg)) (ta_connect a) TplCloseDB,
      must (TplMigrate ''file://migrations/postgres'') (ta_migrate a)]"

definition template_stop :: "template_answers \<Rightarrow> (template_event, 'w) proc list" where
  "template_stop a =
     [case ta_stop a of StopSignal \<Rightarrow> in_order [] | ServeFailed err \<Rightarrow> in_order [],
      opens (TplStopContext (15 * second)) TplReleaseStopContext,
      act TplStopListener]"

definition template_main ::
    "environment \<Rightarrow> template_answers \<Rightarrow> (TemplateConfig \<Rightarrow> 'w \<Rightarrow> 'w) \<Rightarrow> (template_event, 'w) proc" where
  "template_main env a serve =
     (case tpl_Load env of
        Inl err \<Rightarrow> quit 1
      | Inr cfg \<Rightarrow>
          in_order (template_start cfg a @ [act (TplServe (template_http cfg)), change (serve cfg)] @
            template_stop a))"

fun template_closer :: "template_event \<Rightarrow> template_event option" where
  "template_closer TplContext = Some TplReleaseContext"
| "template_closer (TplTelemetry _ _ _) = Some TplStopTelemetry"
| "template_closer (TplConnectDB _) = Some TplCloseDB"
| "template_closer (TplStopContext _) = Some TplReleaseStopContext"
| "template_closer _ = None"

interpretation template_res: resources template_closer
  by unfold_locales (auto elim: template_closer.elims)

lemma template_closing [simp]:
  "closing template_closer e \<longleftrightarrow> e \<in> {TplReleaseContext, TplStopTelemetry, TplCloseDB, TplReleaseStopContext}"
proof
  show "closing template_closer e \<Longrightarrow>
      e \<in> {TplReleaseContext, TplStopTelemetry, TplCloseDB, TplReleaseStopContext}"
    by (auto simp: closing_def ran_def elim: template_closer.elims)
  have "closing template_closer r" if "template_closer x = Some r" for x r
    using that by (auto simp: closing_def ran_def)
  from this [of TplContext] this [of "TplTelemetry [] False False"] this [of "TplConnectDB []"]
    this [of "TplStopContext 0"]
  show "e \<in> {TplReleaseContext, TplStopTelemetry, TplCloseDB, TplReleaseStopContext} \<Longrightarrow>
      closing template_closer e" by auto
qed

lemma template_main_tidy: "template_res.keeps_tidy (template_main env a serve)"
  by (auto simp: template_main_def template_start_def template_stop_def
      intro!: template_res.tidy_intros split: sum.split stop_cause.split)

text \<open>
  It fails to start with status 1, before it serves and without closing anything; or it serves once
  over the migrated database, stops the listener and closes what it opened in reverse order, with
  status 0 whatever stopped it.
\<close>

lemma template_main_lifecycle:
  "case run_main (template_main env a serve) db of (code, tr, db') \<Rightarrow>
     code = 1 \<and> db' = db \<and> filter (closing template_closer) tr = [] \<and>
       (\<forall>server. TplServe server \<notin> set tr) \<and>
       (ta_otel a \<noteq> None \<or> ta_connect a \<noteq> None \<or> ta_migrate a \<noteq> None) \<or>
     (\<exists>cfg up. code = 0 \<and> db' = serve cfg db \<and> tpl_Load env = Inr cfg \<and>
       tr = up @ [TplServe (template_http cfg), TplStopContext (15 * second), TplStopListener,
         TplReleaseStopContext] @ to_close template_closer up \<and>
       TplMigrate ''file://migrations/postgres'' \<in> set up \<and>
       filter (closing template_closer) tr = to_close template_closer tr)"
proof -
  obtain cfg where load: "tpl_Load env = Inr cfg" using tpl_Load_total by blast
  let ?up = "[TplContext, TplTelemetry ''__SERVICE_FULL__'' (tf_MetricsEnabled cfg) (tf_TracesEnabled cfg),
    TplConnectDB (tf_DBDSN cfg), TplMigrate ''file://migrations/postgres'']"
  let ?tr = "?up @ [TplServe (template_http cfg), TplStopContext (15 * second), TplStopListener,
    TplReleaseStopContext] @ to_close template_closer ?up"
  show ?thesis
  proof (cases "ta_otel a = None \<and> ta_connect a = None \<and> ta_migrate a = None")
    case True
    then have run: "run_main (template_main env a serve) db = (0, ?tr, serve cfg db)"
      by (simp add: run_main_def template_main_def load template_start_def template_stop_def proc_defs
          split: stop_cause.split)
    have "filter (closing template_closer) ?tr = to_close template_closer ?tr"
      by (rule template_res.closes_all_or_nothing [OF template_main_tidy run, of TplReleaseStopContext]) simp_all
    with run show ?thesis by (auto simp: load simp del: template_closing intro!: exI [of _ ?up])
  next
    case False
    then show ?thesis
      by (auto simp: run_main_def template_main_def load template_start_def proc_defs split: option.split)
  qed
qed

end
