(* ===== verification/Template_Router.thy ===== *)
theory Template_Router
  imports Template_Client Go_Router
begin

text \<open>
  The router of the service template as it is declared (\<open>buildRouter\<close> of \<open>internal/server/server.go\<close>),
  with its placeholders, and what guards a route.
\<close>

datatype template_op = TplList | TplCreate | TplGet | TplUpdate | TplPatch | TplDelete

datatype template_endpoint =
    TplHealth | TplReadiness | TplVersion | TplPrometheus | TplSwagger | TplOpenAPI | TplApi template_op

definition template_jwt :: "TemplateConfig \<Rightarrow> jwt_config" where
  "template_jwt cfg = \<lparr>jw_JWKSUrl = tf_JWKSUrl cfg, jw_InternalToken = tf_InternalToken cfg,
     jw_DevMode = tf_DevMode cfg\<rparr>"

definition template_decls :: "TemplateConfig \<Rightarrow> template_endpoint decl list" where
  "template_decls cfg =
     [Use Tracing, Use (Metrics ''__SERVICE_FULL__''), Use RequestID, Use RequestLogger, Use Recoverer,
      Use SecureHeaders, Use (BodyLimit (2 ^ 20)), Use ContentType, Use (APIVersion ''__API_VERSION__''),
      Use CacheControl, Use ETag,
      Group
        ([Method ''GET'' ''/health'' TplHealth,
          Method ''GET'' ''/readiness'' TplReadiness,
          Method ''GET'' ''/version'' TplVersion] @
         (if tf_MetricsEnabled cfg then [Method ''GET'' ''/metrics'' TplPrometheus] else []) @
         [Method ''GET'' ''/api/docs'' TplSwagger, Method ''GET'' ''/api/openapi.yaml'' TplOpenAPI]),
      Group
        [Use (JWT (template_jwt cfg)),
         Route ''__API_PREFIX__''
           [Route ''/__RESOURCE_PLURAL__''
              [With [OneScope ''read:__RESOURCE_PLURAL__''] ''GET'' ''/'' (TplApi TplList),
               With [OneScope ''write:__RESOURCE_PLURAL__''] ''POST'' ''/'' (TplApi TplCreate),
               Route ''/{id}''
                 [With [OneScope ''read:__RESOURCE_PLURAL__''] ''GET'' ''/'' (TplApi TplGet),
                  With [OneScope ''write:__RESOURCE_PLURAL__''] ''PUT'' ''/'' (TplApi TplUpdate),
                  With [OneScope ''write:__RESOURCE_PLURAL__''] ''PATCH'' ''/'' (TplApi TplPatch),
                  With [OneScope ''write:__RESOURCE_PLURAL__''] ''DELETE'' ''/'' (TplApi TplDelete)]]]]]"

record template_bodies =
  tb_create :: "go_error + CreateRequest"
  tb_update :: "go_error + UpdateRequest"
  tb_patch :: "go_error + PatchRequest"

fun template_call_of :: "template_bodies \<Rightarrow> template_op \<Rightarrow> resource_call" where
  "template_call_of b TplList = CallsList"
| "template_call_of b TplCreate = CallsCreate (tb_create b)"
| "template_call_of b TplGet = CallsGet"
| "template_call_of b TplUpdate = CallsUpdate (tb_update b)"
| "template_call_of b TplPatch = CallsPatch (tb_patch b)"
| "template_call_of b TplDelete = CallsDelete"

fun template_handler ::
    "'w resource_store \<Rightarrow> resource_call \<Rightarrow> (resource_request, resource_reply, 'w) http_handler" where
  "template_handler st CallsList r w = (handleList st r w, w)"
| "template_handler st CallsGet r w = (handleGet st r w, w)"
| "template_handler st (CallsCreate body) r w = handleCreate st body w"
| "template_handler st (CallsUpdate body) r w = handleUpdate st r body w"
| "template_handler st (CallsPatch body) r w = handlePatch st r body w"
| "template_handler st CallsDelete r w = handleDelete st r w"

text \<open>\<open>public\<close> are the replies of the handlers of the library.\<close>

definition template_serve ::
    "'w resource_store \<Rightarrow> (template_endpoint \<Rightarrow> resource_reply) \<Rightarrow> template_bodies \<Rightarrow> template_endpoint
     \<Rightarrow> (resource_request, resource_reply, 'w) http_handler" where
  "template_serve st public b e r w =
     (case e of TplApi op \<Rightarrow> template_handler st (template_call_of b op) r w | _ \<Rightarrow> (public e, w))"

definition template_stack :: "middleware list" where
  "template_stack =
     [Tracing, Metrics ''__SERVICE_FULL__'', RequestID, RequestLogger, Recoverer, SecureHeaders,
      BodyLimit (2 ^ 20), ContentType, APIVersion ''__API_VERSION__'', CacheControl, ETag]"

lemma template_routes_handler:
  "tpl_routes st refused has_scope call r w =
   (if has_scope (tpl_scope call) then template_handler st call r w else (refused, w))"
  by (cases call) (simp_all add: tpl_routes_def)

text \<open>Every API route is behind the token check and the scope that its call needs.\<close>

lemma template_decls_routes:
  assumes "chi_scoping mounted" "rt \<in> set (mounted [] [] (template_decls cfg))"
  shows "case rt_handler rt of
      TplApi op \<Rightarrow> rt_chain rt = template_stack @
        [JWT (template_jwt cfg), OneScope (tpl_scope (template_call_of b op))]
    | _ \<Rightarrow> rt_chain rt = template_stack \<and> rt_method rt = ''GET''"
  using assms(2)
  by (simp add: chi_scoping_simps [OF assms(1)] template_decls_def template_stack_def tpl_scope_def
      split: if_splits) (elim disjE; simp add: template_stack_def tpl_scope_def)+

text \<open>
  With a scope check that only passes on what has the scope, a served request changes nothing or
  is one of the writing calls, has its scope, and leaves what its handler leaves.
\<close>

lemma template_http_gated:
  assumes "chi_scoping mounted" "\<And>m. passes_on (sem m)"
    and "\<And>s handler r w. snd (sem (OneScope s) handler r w) = w \<or>
      has_scope s r \<and> (\<exists>r'. snd (sem (OneScope s) handler r w) = snd (handler r' w))"
    and "rt \<in> set (mounted [] [] (template_decls cfg))"
    and "behind sem (rt_chain rt) (template_serve st public b (rt_handler rt)) r w = (reply, w')"
  shows "w' = w \<or>
    (\<exists>op r0 r1. rt_handler rt = TplApi op \<and> has_scope ''write:__RESOURCE_PLURAL__'' r0 \<and>
       w' = snd (template_handler st (template_call_of b op) r1 w))"
proof (cases "\<exists>op. rt_handler rt = TplApi op")
  case False
  then have "snd (template_serve st public b (rt_handler rt) r' w) = w" for r'
    by (cases "rt_handler rt") (simp_all add: template_serve_def)
  with behind_passes_on [of "rt_chain rt" sem "template_serve st public b (rt_handler rt)" r w] assms(2,5)
  show ?thesis by auto
next
  case True
  then obtain op where op: "rt_handler rt = TplApi op" by blast
  let ?call = "template_call_of b op"
  let ?h = "template_handler st ?call"
  have serve: "template_serve st public b (rt_handler rt) = ?h"
    by (simp add: fun_eq_iff template_serve_def op)
  have chain: "rt_chain rt = (template_stack @ [JWT (template_jwt cfg)]) @ [OneScope (tpl_scope ?call)]"
    using template_decls_routes [OF assms(1,4), of b] by (simp add: op)
  consider "w' = w" | r0 where "w' = snd (sem (OneScope (tpl_scope ?call)) ?h r0 w)"
    using behind_passes_on [of "template_stack @ [JWT (template_jwt cfg)]" sem
        "sem (OneScope (tpl_scope ?call)) ?h" r w] assms(2,5)
    unfolding chain serve behind_simps by auto
  then show ?thesis
  proof cases
    case (2 r0)
    from assms(3) [of "tpl_scope ?call" ?h r0 w]
    consider "w' = w" | r1 where "has_scope (tpl_scope ?call) r0" "w' = snd (?h r1 w)"
      unfolding 2 by blast
    then show ?thesis
    proof cases
      case (2 r1)
      with op show ?thesis by (cases op) (auto simp: tpl_scope_def)
    qed simp
  qed simp
qed

end
