(* ===== verification/Spec2Isabelle.thy ===== *)
theory Spec2Isabelle
  imports Power_Redfish Power_Runner_Conc Power_Sync Power_SMD_Update Power_Client
    MCP_Router MCP_Audit Power_Main Power_Router Power_Wire Template_Main Template_Router
begin

text \<open>
  A model of the services of Chamicore in this repository, with the theorems that make them
  correct: the power service (\<open>services/chamicore-power\<close>), which switches nodes on and off through
  their board management controllers (BMCs), the MCP service (\<open>services/chamicore-mcp\<close>), which lets
  a language model call the other services as tools, and the service template
  (\<open>templates/service\<close>), from which a service of the family starts.

  \<^bold>\<open>How the parts interact.\<close>  A client (\<open>pkg/client\<close>, or a tool of the MCP service) sends a request to
  the power API.  The handler checks the scope, resolves nodes and groups to a sorted list without
  duplicates and asks the runner for a transition.  The runner asks the mapping store for the route
  of each node (BMC, endpoint, credential), stores the transition with one task per node and an
  outbox event per row, and queues the tasks.  Workers take tasks from the bounded queue, hold the
  limiter of the BMC, issue the Redfish action with retries, poll the power state until it is the
  expected one, report it to SMD and record the outcome; the last outcome closes the transition.
  The mapping store is kept equal to the topology of SMD by the sync loop.  A call of an MCP tool
  arrives by HTTP, server-sent events or JSON-RPC on standard input, is authenticated by the
  session token and checked against the tool contract, the mode, the confirmation rule and the
  scopes, and only then reaches the runner of the tools; its outcome goes to the audit log.

  \<^bold>\<open>The Go library.\<close>
  \<^item> \<open>Go_Base\<close>, \<open>Go_Format\<close>: strings as lists of bytes, numbers and times as text, queries and path
    segments, with the round trips (a number, a query and a path segment are read back).
  \<^item> \<open>Go_Errors\<close>: error values with their chain of wrapped errors; contexts as deadlines; a \<open>world\<close>
    with the clock and the choice of a \<open>select\<close> whose branches are both ready.
  \<^item> \<open>Go_JSON\<close>, \<open>Go_Struct\<close>, \<open>Go_Env\<close>: decoded JSON values, structs written and read by their tags,
    environment variables, durations.
  \<^item> \<open>Go_Process\<close>: a \<open>main\<close> function as a sequence of calls with \<open>defer\<close>, \<open>os.Exit\<close> and a trace; a process
    that returns closes what it opened in reverse order, one that exits closes nothing.
  \<^item> \<open>Go_Router\<close>: declarations of a \<open>chi\<close> router, and what its documentation says of the scope of a
    middleware, of patterns without wildcards and regular expressions, and of path parameters.

  \<^bold>\<open>The power service.\<close>
  \<^item> \<open>Power_Model\<close> (\<open>internal/model\<close>, records of \<open>engine/runner.go\<close>), \<open>Power_Queue\<close> (\<open>engine/queue.go\<close>): the
    queue delivers what it accepts in order, within its capacity.
  \<^item> \<open>Power_Verify\<close>, \<open>Power_Retry\<close>, \<open>Power_Redfish\<close> (\<open>engine/verify.go\<close>, \<open>noop.go\<close>, the policy of
    \<open>runner.go\<close>, \<open>redfish_executor.go\<close>): the polling loop returns, its success is the state it last
    read, its window is kept up to one read; number, reason and spacing of the attempts.
  \<^item> \<open>Power_Runner\<close> (\<open>engine/runner.go\<close>): planning, execution and bookkeeping as functions; what an
    accepted start has stored, queued and registered, that each executed task is counted once and
    ends a bounded time after its deadline, which final state the counts give.
    \<open>Power_Runner_Conc\<close>: the same sections interleaved by goroutines as an inductive step relation;
    the counts, the limits and the single finalization are invariants of every reachable state, and
    the runner's own steps use up the work and stop only where none is left.
  \<^item> \<open>DB_Tables\<close>, \<open>Power_DB\<close>, \<open>Power_Store_Mapping\<close>, \<open>Power_Events\<close>, \<open>Power_Store_Transition\<close> (\<open>internal/store\<close>): tables
    with keys, transactions that commit or leave no trace, the outbox with the last lifecycle event
    of each transition and the last result event of each task; replacing the topology refines the
    replacement of an abstract one.
  \<^item> \<open>Power_Sync\<close> (\<open>internal/sync\<close>), \<open>Power_SMD_Update\<close> (\<open>internal/smd\<close>): a cycle refines taking over the
    topology that SMD describes, and leaves it alone exactly when SMD answers as on record; a
    verified state is reported.
  \<^item> \<open>Power_Server\<close> (\<open>internal/server\<close>), \<open>Power_Client\<close> (\<open>pkg/client\<close>), \<open>Power_Config\<close> (\<open>internal/config\<close>
    and the wiring of \<open>cmd/chamicore-power\<close>): the contract of each handler, what a scope protects,
    what the server reads back from the queries of the client, when \<open>WaitTransition\<close> returns.
  \<^item> \<open>Power_Router\<close> (\<open>buildRouter\<close>), \<open>Power_Wire\<close> (\<open>pkg/types\<close>): what the middleware of a route protects,
    with and without development mode, that every call of the client arrives at the handler of its operation, and that both sides
    agree on the JSON of every payload.
  \<^item> \<open>Power_Service\<close>, \<open>Power_Main\<close> (\<open>cmd/chamicore-power/main.go\<close>): runner, syncer, handlers and database
    put together as the program does it. A step of the service is a request through the routes, a
    task run by a worker, a sync cycle, the resumption of a handler that waits for room in the
    queue, or a restart; \<open>service_inv\<close> holds in every reachable state, an accepted start reads back,
    and a restart strands the transitions in progress. \<open>power_main\<close> is the process from its
    environment to its exit status.

  \<^bold>\<open>The MCP service.\<close>
  \<^item> \<open>MCP_Policy\<close>, \<open>MCP_Session\<close>, \<open>MCP_Server\<close> (\<open>internal/policy\<close>, \<open>internal/server\<close>): the three transports
    over an interface of the authorizer and the authenticator; nothing passes them ungated, and
    HTTP and JSON-RPC agree.
  \<^item> \<open>MCP_Args\<close>, \<open>MCP_Tools\<close>, \<open>MCP_Discovery\<close> (\<open>internal/tools\<close>, \<open>api/tools.yaml\<close>): every tool with the
    decoding of its arguments; a read-only tool of the shipped contract changes nothing; an ID of a
    caller stays one path segment, and which of them the power service reads as they are.
  \<^item> \<open>MCP_Audit\<close>, \<open>MCP_Config\<close>, \<open>MCP_Main\<close> (\<open>internal/audit\<close>, \<open>internal/config\<close>, \<open>internal/auth\<close>,
    \<open>cmd/chamicore-mcp\<close>): the targets an entry names, which secrets the redaction of its error text
    removes and which it leaks, where the token comes from, and which environments let the service
    write.
  \<^item> \<open>MCP_Process\<close>, \<open>MCP_Router\<close> (\<open>cmd/chamicore-mcp\<close>, \<open>internal/server/router.go\<close>, \<open>health.go\<close>): the process
    on either transport, and its routes.

  \<^bold>\<open>The template.\<close>  \<open>Template_Store\<close>, \<open>Template_Server\<close>, \<open>Template_Client\<close>: the store over one table, the
  handlers with conditional requests on an abstract store whose contract the PostgreSQL store
  meets, routes, configuration and client; \<open>Template_Router\<close> and \<open>Template_Main\<close> are its router and
  process.  The placeholders of the template are kept as they are.

  \<^bold>\<open>Conventions.\<close>  State is a record that a function returns updated; an error is the left side of
  a sum; a method that takes a lock is split at the lock.  A record of functions stands for each
  interface; the laws of an interface are a locale, interpreted on the code's model of it:
  \<open>fifo_queue\<close>, \<open>state_reader\<close>, \<open>runner_store\<close>, \<open>node_resolver\<close>, \<open>transition_store\<close>, \<open>topology_store\<close>,
  \<open>tool_authorizer\<close>, \<open>session_authenticator\<close>, \<open>resource_contract\<close>, \<open>resources\<close>.  A 64-bit \<open>int\<close> and a duration are
  an \<open>int\<close> with \<open>wrap64\<close> where the code can overflow; event counters that are cast are words.
  Loops that may not end are partial functions (\<open>verify_loop\<close>, \<open>wait_loop\<close>) with \<open>None\<close> for not
  returning, and theorems say when they return.  Splitting a text into fields has fuel equal to
  the length of the text, and each field takes at least one byte; the scanners of durations and of
  the redaction patterns recurse on what is left of the text.

  \<^bold>\<open>Parameters.\<close>  Code outside the repository is an argument: the HTTP clients, the router, the token
  middleware and the body decoding of \<open>chamicore-lib\<close>; the Redfish library; the clients of SMD, BSS,
  cloud-init and auth; \<open>url.Parse\<close>, JSON encoding, YAML, base64 and SHA-256; which call of the
  database driver fails, and PostgreSQL's input function for UUIDs.  What is assumed of a
  parameter stands in the theorem that needs it.

  \<^bold>\<open>Not modelled.\<close>
  \<^item> Log lines, and what telemetry, listener, signals, the connection to the database, its migration
    and the relay from the outbox to NATS do: the processes call them and meet their answers.
    The embedding of the API documents, and the interface declarations of the stores.
  \<^item> What the router and the middleware of the libraries do beyond the predicates of \<open>Go_Router\<close>: the
    headers they set, the limit of a body, the caching by ETag.
  \<^item> Case mapping beyond ASCII (also in the redaction patterns), the collation of a database other
    than the bytewise one, times finer than a column resolves, and invalid UTF-8.
  \<^item> In the sequential model of \<open>executeTask\<close> the answer of the limiter is an argument; its wait for a
    token is a state of the worker in \<open>Power_Runner_Conc\<close>.  A failing call of the database driver is
    one that failed before the statement took effect, in \<open>UpdateResource\<close> too.  Instants are the ones
    a column keeps, so that a row and its event carry the same.
  \<^item> Fractions of a duration are rounded exactly and not in floating point; durations of audit
    entries are left out.
  \<^item> A panic is a value of the function that panics; the concurrent runner has no step for the
    panic of a send on a closed queue, and it keeps outcomes but not the stored task rows.  In
    \<open>Power_Service\<close> a worker runs its task without interleaving; the interleavings are those of
    \<open>Power_Runner_Conc\<close>.
\<close>

end
